(* ===== verification/Rust_Prelude.thy ===== *)
theory Rust_Prelude
  imports Main "HOL-Library.Word"
begin

text \<open>
  The vocabulary the component theories share: byte strings, the Rust integer widths, results
  and the question-mark operator, the check chains and insertion loops the constructors are
  written with, UTF-8 decoding as \<^verbatim>\<open>core::str\<close> does it, ASCII classes, and decimal and
  hexadecimal text. A Rust \<^verbatim>\<open>Vec<u8>\<close> or \<^verbatim>\<open>&[u8]\<close> is a list of characters (an Isabelle
  character is one byte); a \<^verbatim>\<open>String\<close> is such a list as well, in UTF-8.
\<close>

named_theorems check_simps \<open>rules that turn an accepted chain of checks into its conditions\<close>
named_theorems utf8_intros \<open>rules that prove a byte string valid UTF-8\<close>

type_synonym bytes = "char list"
type_synonym u8 = "8 word"
type_synonym u16 = "16 word"
type_synonym u32 = "32 word"
type_synonym u64 = "64 word"
type_synonym u128 = "128 word"

abbreviation byte_val :: "char \<Rightarrow> nat" where
  "byte_val \<equiv> of_char"

section \<open>Results\<close>

text \<open>\<open>Inl\<close> is \<^verbatim>\<open>Err\<close>, \<open>Inr\<close> is \<^verbatim>\<open>Ok\<close>; \<open>bind_res\<close> is the question-mark operator.\<close>

definition bind_res :: "'e + 'a \<Rightarrow> ('a \<Rightarrow> 'e + 'b) \<Rightarrow> 'e + 'b" where
  "bind_res r f = (case r of Inl e \<Rightarrow> Inl e | Inr x \<Rightarrow> f x)"

lemma bind_res_simps [simp]:
  "bind_res (Inl e) f = Inl e" "bind_res (Inr x) f = f x"
  by (simp_all add: bind_res_def)

lemma bind_res_Inr_iff [check_simps]:
  "bind_res r f = Inr y \<longleftrightarrow> (\<exists>x. r = Inr x \<and> f x = Inr y)"
  by (cases r) auto

lemma bind_res_Inl_iff:
  "bind_res r f = Inl e \<longleftrightarrow> r = Inl e \<or> (\<exists>x. r = Inr x \<and> f x = Inl e)"
  by (cases r) auto

lemma bind_res_cong [fundef_cong]:
  "r = r' \<Longrightarrow> (\<And>x. r' = Inr x \<Longrightarrow> f x = g x) \<Longrightarrow> bind_res r f = bind_res r' g"
  by (cases r') auto

definition ok_or :: "'a option \<Rightarrow> 'e \<Rightarrow> 'e + 'a" where
  "ok_or x e = (case x of None \<Rightarrow> Inl e | Some y \<Rightarrow> Inr y)"

lemma ok_or_simps [simp]: "ok_or None e = Inl e" "ok_or (Some y) e = Inr y"
  by (simp_all add: ok_or_def)

lemma ok_or_Inr_iff [check_simps]: "ok_or x e = Inr y \<longleftrightarrow> x = Some y"
  by (cases x) auto

text \<open>\<^verbatim>\<open>if c { return Err(e); }\<close> as a step of a chain of checks.\<close>

definition reject_if :: "bool \<Rightarrow> 'e \<Rightarrow> 'e + unit" where
  "reject_if c e = (if c then Inl e else Inr ())"

lemma reject_if_Inr_iff [check_simps]: "reject_if c e = Inr u \<longleftrightarrow> \<not> c"
  by (simp add: reject_if_def)

lemma reject_if_Inl_iff: "reject_if c e = Inl e' \<longleftrightarrow> c \<and> e' = e"
  by (auto simp: reject_if_def)

lemma reject_if_simps [simp]: "reject_if True e = Inl e" "reject_if False e = Inr ()"
  by (simp_all add: reject_if_def)

fun checks :: "('e + unit) list \<Rightarrow> 'e + unit" where
  "checks [] = Inr ()"
| "checks (c # cs) = (case c of Inl e \<Rightarrow> Inl e | Inr _ \<Rightarrow> checks cs)"

lemma checks_Inr_iff: "checks cs = Inr u \<longleftrightarrow> (\<forall>c \<in> set cs. c = Inr ())"
  by (induction cs) (auto split: sum.splits)

lemma checks_Cons_Inr_iff [check_simps]:
  "checks (c # cs) = Inr u \<longleftrightarrow> c = Inr () \<and> checks cs = Inr ()"
  by (auto split: sum.splits)

lemma checks_Nil_Inr_iff [check_simps]: "checks [] = Inr u \<longleftrightarrow> True"
  by simp

lemma checks_append: "checks (xs @ ys) = (case checks xs of Inl e \<Rightarrow> Inl e | Inr _ \<Rightarrow> checks ys)"
  by (induction xs) (auto split: sum.splits)

lemma checks_Inl_mem: "checks cs = Inl e \<Longrightarrow> Inl e \<in> set cs"
  by (induction cs) (auto split: sum.splits)

lemma checks_map_Inr_iff [check_simps]:
  "checks (map f xs) = Inr u \<longleftrightarrow> (\<forall>x \<in> set xs. f x = Inr ())"
  by (simp add: checks_Inr_iff)

lemma checks_Cons_simps [simp]:
  "checks (Inl e # cs) = Inl e" "checks (Inr u # cs) = checks cs"
  by simp_all

declare checks.simps(2) [simp del]

text \<open>A loop whose body may return early and threads mutable state.\<close>

fun try_fold :: "('s \<Rightarrow> 'x \<Rightarrow> 'e + 's) \<Rightarrow> 's \<Rightarrow> 'x list \<Rightarrow> 'e + 's" where
  "try_fold f s [] = Inr s"
| "try_fold f s (x # xs) = bind_res (f s x) (\<lambda>s'. try_fold f s' xs)"

lemma try_fold_append:
  "try_fold f s (xs @ ys) = bind_res (try_fold f s xs) (\<lambda>s'. try_fold f s' ys)"
  by (induction xs arbitrary: s) (auto simp: bind_res_def split: sum.splits)

lemma try_fold_invariant:
  assumes "\<And>s x s'. I s \<Longrightarrow> x \<in> set xs \<Longrightarrow> f s x = Inr s' \<Longrightarrow> I s'"
    and "try_fold f s xs = Inr t" and "I s"
  shows "I t"
  using assms
proof (induction xs arbitrary: s)
  case Nil
  then show ?case by simp
next
  case (Cons x xs)
  from Cons.prems(2) obtain s' where s': "f s x = Inr s'" "try_fold f s' xs = Inr t"
    by (auto simp: bind_res_Inr_iff)
  have "I s'" by (rule Cons.prems(1) [OF Cons.prems(3) _ s'(1)]) simp
  moreover have "\<And>s y s'. I s \<Longrightarrow> y \<in> set xs \<Longrightarrow> f s y = Inr s' \<Longrightarrow> I s'"
    by (rule Cons.prems(1)) simp_all
  ultimately show ?case using Cons.IH s'(2) by blast
qed

text \<open>An invariant that follows the part of the list already visited.\<close>

lemma try_fold_visited:
  assumes "J [] s" and "\<And>xs x s s'. J xs s \<Longrightarrow> f s x = Inr s' \<Longrightarrow> J (xs @ [x]) s'"
    and "try_fold f s xs = Inr t"
  shows "J xs t"
  using assms(3)
proof (induction xs arbitrary: t rule: rev_induct)
  case Nil
  then show ?case using assms(1) by simp
next
  case (snoc x xs)
  then show ?case using assms(2) by (auto simp: try_fold_append bind_res_Inr_iff)
qed

text \<open>A loop that fails does so at one element.\<close>

lemma try_fold_Inl:
  "try_fold f s xs = Inl e \<Longrightarrow> \<exists>ys x zs t. xs = ys @ x # zs \<and> try_fold f s ys = Inr t \<and> f t x = Inl e"
proof (induction xs arbitrary: s)
  case (Cons x xs)
  show ?case
  proof (cases "f s x")
    case (Inl e')
    with Cons.prems show ?thesis by (intro exI [of _ "[]"]) simp
  next
    case (Inr s')
    with Cons obtain ys y zs t where "xs = ys @ y # zs" "try_fold f s' ys = Inr t" "f t y = Inl e"
      by (metis bind_res_simps(2) try_fold.simps(2))
    with Inr show ?thesis by (intro exI [of _ "x # ys"]) auto
  qed
qed simp

text \<open>\<open>map_res\<close> collects an iterator of results into a result, stopping at the first error.\<close>

fun map_res :: "('a \<Rightarrow> 'e + 'b) \<Rightarrow> 'a list \<Rightarrow> 'e + 'b list" where
  "map_res f [] = Inr []"
| "map_res f (x # xs) = bind_res (f x) (\<lambda>y. bind_res (map_res f xs) (\<lambda>ys. Inr (y # ys)))"

lemma map_res_Inr_length: "map_res f xs = Inr ys \<Longrightarrow> length ys = length xs"
  by (induction xs arbitrary: ys) (auto simp: bind_res_Inr_iff)

lemma map_res_total: "(\<And>x. x \<in> set xs \<Longrightarrow> f x = Inr (g x)) \<Longrightarrow> map_res f xs = Inr (map g xs)"
  by (induction xs) auto

section \<open>Insertion loops\<close>

text \<open>
  The code tests for duplicates with a fresh \<^verbatim>\<open>HashSet\<close> and
  \<^verbatim>\<open>iter().all(|x| seen.insert(key(x)))\<close>. The list \<open>seen\<close> holds the keys inserted so far.
\<close>

fun all_inserted :: "'k list \<Rightarrow> 'k list \<Rightarrow> bool" where
  "all_inserted seen [] = True"
| "all_inserted seen (k # ks) = (k \<notin> set seen \<and> all_inserted (k # seen) ks)"

lemma all_inserted_iff:
  "all_inserted seen ks \<longleftrightarrow> distinct ks \<and> set seen \<inter> set ks = {}"
  by (induction ks arbitrary: seen) auto

lemma all_inserted_Nil [check_simps]: "all_inserted [] ks \<longleftrightarrow> distinct ks"
  by (simp add: all_inserted_iff)

text \<open>
  The loops that keep a vector of what they have accepted and reject an element that clashes
  with an earlier one.
\<close>

fun no_clash :: "('k \<Rightarrow> 'k \<Rightarrow> bool) \<Rightarrow> 'k list \<Rightarrow> 'k list \<Rightarrow> bool" where
  "no_clash r acc [] = True"
| "no_clash r acc (y # ys) = ((\<forall>x \<in> set acc. \<not> r x y) \<and> no_clash r (acc @ [y]) ys)"

lemma no_clash_iff:
  "no_clash r acc ys \<longleftrightarrow>
   sorted_wrt (\<lambda>x y. \<not> r x y) ys \<and> (\<forall>x \<in> set acc. \<forall>y \<in> set ys. \<not> r x y)"
  by (induction ys arbitrary: acc) auto

lemma no_clash_append:
  "no_clash r acc (xs @ ys) \<longleftrightarrow> no_clash r acc xs \<and> no_clash r (acc @ xs) ys"
  by (induction xs arbitrary: acc) auto

lemma all_inserted_append:
  "all_inserted seen (xs @ ys) \<longleftrightarrow> all_inserted seen xs \<and> all_inserted (rev xs @ seen) ys"
  by (auto simp: all_inserted_iff)

text \<open>
  A loop that inserts a key of each element into a hash set and checks the element beside it: it
  succeeds exactly when the keys are new and every element passes.
\<close>

lemma try_fold_keyed:
  assumes "\<And>s x t. f s x = Inr t \<longleftrightarrow> k x \<notin> set s \<and> q x \<and> t = k x # s"
  shows "try_fold f s xs = Inr t \<longleftrightarrow>
    all_inserted s (map k xs) \<and> list_all q xs \<and> t = rev (map k xs) @ s"
  by (induction xs arbitrary: s) (auto simp: bind_res_Inr_iff assms)

lemma discard_Inr_iff [check_simps]: "bind_res r (\<lambda>_. Inr u) = Inr v \<longleftrightarrow> (\<exists>x. r = Inr x) \<and> u = v"
  by (cases r) auto

lemma try_fold_keyed_ok:
  assumes "\<And>s x t. f s x = Inr t \<longleftrightarrow> k x \<notin> set s \<and> q x \<and> t = k x # s"
  shows "(\<exists>t. try_fold f [] xs = Inr t) \<longleftrightarrow> distinct (map k xs) \<and> list_all q xs"
  by (simp add: try_fold_keyed [OF assms] all_inserted_Nil)

definition option_list :: "'a option \<Rightarrow> 'a list" where
  "option_list x = (case x of None \<Rightarrow> [] | Some y \<Rightarrow> [y])"

lemma option_list_simps [simp]:
  "option_list None = []" "option_list (Some y) = [y]"
  by (simp_all add: option_list_def)

lemma set_option_list [simp]: "set (option_list x) = set_option x"
  by (cases x) simp_all

section \<open>Bytes and ASCII classes\<close>

lemma byte_val_less [simp]: "byte_val c < 256"
  by (rule nat_of_char_less_256)

definition is_digit :: "char \<Rightarrow> bool" where
  "is_digit c \<longleftrightarrow> 48 \<le> byte_val c \<and> byte_val c \<le> 57"

definition is_upper :: "char \<Rightarrow> bool" where
  "is_upper c \<longleftrightarrow> 65 \<le> byte_val c \<and> byte_val c \<le> 90"

definition is_lower :: "char \<Rightarrow> bool" where
  "is_lower c \<longleftrightarrow> 97 \<le> byte_val c \<and> byte_val c \<le> 122"

definition is_alpha :: "char \<Rightarrow> bool" where
  "is_alpha c \<longleftrightarrow> is_upper c \<or> is_lower c"

definition is_alnum :: "char \<Rightarrow> bool" where
  "is_alnum c \<longleftrightarrow> is_alpha c \<or> is_digit c"

definition is_hexdigit :: "char \<Rightarrow> bool" where
  "is_hexdigit c \<longleftrightarrow> is_digit c \<or> (65 \<le> byte_val c \<and> byte_val c \<le> 70)
     \<or> (97 \<le> byte_val c \<and> byte_val c \<le> 102)"

text \<open>\<^verbatim>\<open>u8::is_ascii_whitespace\<close>: space, tab, line feed, form feed and carriage return.\<close>

definition is_ascii_ws :: "char \<Rightarrow> bool" where
  "is_ascii_ws c \<longleftrightarrow> byte_val c \<in> {32, 9, 10, 12, 13}"

definition is_ascii_control :: "char \<Rightarrow> bool" where
  "is_ascii_control c \<longleftrightarrow> byte_val c < 32 \<or> byte_val c = 127"

definition is_ascii :: "char \<Rightarrow> bool" where
  "is_ascii c \<longleftrightarrow> byte_val c < 128"

lemmas char_class_defs = is_digit_def is_upper_def is_lower_def is_alpha_def is_alnum_def
  is_hexdigit_def is_ascii_ws_def is_ascii_control_def is_ascii_def

definition NUL :: char where
  "NUL = CHR 0x00"

lemma alnum_ascii: "is_alnum c \<Longrightarrow> is_ascii c"
  by (auto simp: char_class_defs)

lemma digit_ascii: "is_digit c \<Longrightarrow> is_ascii c"
  by (auto simp: char_class_defs)

lemma hexdigit_ascii: "is_hexdigit c \<Longrightarrow> is_ascii c"
  by (auto simp: char_class_defs)

end
