(* ===== verification/Rust_Text.thy ===== *)
theory Rust_Text
  imports Rust_Prelude
begin

text \<open>
  Text as the Rust standard library handles it: UTF-8 validation and the decoding of a string
  into characters (\<^verbatim>\<open>core::str::from_utf8\<close>, \<^verbatim>\<open>str::chars\<close>), Unicode white space, decimal
  and hexadecimal printing, and \<^verbatim>\<open>str::parse\<close> for the unsigned types. A character is kept as
  its own UTF-8 encoding (a list of one to four bytes).
\<close>

section \<open>UTF-8\<close>

definition is_cont :: "char \<Rightarrow> bool" where
  "is_cont c \<longleftrightarrow> 128 \<le> byte_val c \<and> byte_val c \<le> 191"

text \<open>The byte ranges a second byte may have, by the first byte (Unicode table 3-7).\<close>

definition second3_ok :: "char \<Rightarrow> char \<Rightarrow> bool" where
  "second3_ok a b \<longleftrightarrow>
     (byte_val a = 224 \<and> 160 \<le> byte_val b \<and> byte_val b \<le> 191)
   \<or> (225 \<le> byte_val a \<and> byte_val a \<le> 236 \<and> is_cont b)
   \<or> (byte_val a = 237 \<and> 128 \<le> byte_val b \<and> byte_val b \<le> 159)
   \<or> (238 \<le> byte_val a \<and> byte_val a \<le> 239 \<and> is_cont b)"

definition second4_ok :: "char \<Rightarrow> char \<Rightarrow> bool" where
  "second4_ok a b \<longleftrightarrow>
     (byte_val a = 240 \<and> 144 \<le> byte_val b \<and> byte_val b \<le> 191)
   \<or> (241 \<le> byte_val a \<and> byte_val a \<le> 243 \<and> is_cont b)
   \<or> (byte_val a = 244 \<and> 128 \<le> byte_val b \<and> byte_val b \<le> 143)"

text \<open>The first character of a byte string and the rest, or \<open>None\<close> where decoding fails.\<close>

fun utf8_next :: "bytes \<Rightarrow> (bytes \<times> bytes) option" where
  "utf8_next [] = None"
| "utf8_next (a # r) =
     (if byte_val a < 128 then Some ([a], r)
      else if 194 \<le> byte_val a \<and> byte_val a \<le> 223 then
        (case r of b # r' \<Rightarrow> if is_cont b then Some ([a, b], r') else None | _ \<Rightarrow> None)
      else if 224 \<le> byte_val a \<and> byte_val a \<le> 239 then
        (case r of b # c # r' \<Rightarrow>
           if second3_ok a b \<and> is_cont c then Some ([a, b, c], r') else None | _ \<Rightarrow> None)
      else if 240 \<le> byte_val a \<and> byte_val a \<le> 244 then
        (case r of b # c # d # r' \<Rightarrow>
           if second4_ok a b \<and> is_cont c \<and> is_cont d then Some ([a, b, c, d], r') else None
         | _ \<Rightarrow> None)
      else None)"

lemma utf8_next_append: "utf8_next s = Some (c, r) \<Longrightarrow> s = c @ r \<and> c \<noteq> []"
  by (cases s) (auto split: if_splits list.splits)

lemma utf8_next_extend: "utf8_next s = Some (c, r) \<Longrightarrow> utf8_next (s @ t) = Some (c, r @ t)"
  by (cases s) (auto split: if_splits list.splits)

lemma utf8_next_bytes:
  "utf8_next s = Some (c, r) \<Longrightarrow>
   (\<exists>a. c = [a] \<and> is_ascii a) \<or> (2 \<le> length c \<and> (\<forall>b \<in> set c. \<not> is_ascii b))"
  by (cases s) (auto simp: is_ascii_def is_cont_def second3_ok_def second4_ok_def
      split: if_splits list.splits)

function utf8_chars :: "bytes \<Rightarrow> bytes list option" where
  "utf8_chars [] = Some []"
| "utf8_chars (a # r) =
     (case utf8_next (a # r) of
        None \<Rightarrow> None
      | Some (c, r') \<Rightarrow> map_option (\<lambda>cs. c # cs) (utf8_chars r'))"
  by pat_completeness auto
termination
proof (relation "measure length")
  fix a r x c r'
  assume "utf8_next (a # r) = Some x" and "(c, r') = x"
  then have "a # r = c @ r'" and "c \<noteq> []"
    using utf8_next_append [of "a # r" c r'] by auto
  then have "length r' < length (a # r)" by (cases c) auto
  then show "(r', a # r) \<in> measure length" by simp
qed simp

declare utf8_next.simps(2) [simp del]
declare utf8_chars.simps(2) [simp del]

definition valid_utf8 :: "bytes \<Rightarrow> bool" where
  "valid_utf8 s \<longleftrightarrow> utf8_chars s \<noteq> None"

lemma utf8_chars_Cons:
  "utf8_next s = Some (c, r) \<Longrightarrow> utf8_chars s = map_option (\<lambda>cs. c # cs) (utf8_chars r)"
  by (cases s) (auto simp: utf8_chars.simps(2))

lemma utf8_chars_Some_cases:
  assumes "utf8_chars s = Some cs"
  obtains (Nil) "s = []" "cs = []"
    | (Cons) c r cs' where "utf8_next s = Some (c, r)" "utf8_chars r = Some cs'" "cs = c # cs'"
  using assms by (cases s) (auto simp: utf8_chars.simps(2) split: option.splits)

lemma utf8_chars_concat: "utf8_chars s = Some cs \<Longrightarrow> concat cs = s"
proof (induction cs arbitrary: s)
  case Nil
  then show ?case by (auto elim: utf8_chars_Some_cases)
next
  case (Cons c cs)
  from Cons.prems obtain r where "utf8_next s = Some (c, r)" "utf8_chars r = Some cs"
    by (auto elim: utf8_chars_Some_cases)
  with Cons.IH [of r] utf8_next_append [of s c r] show ?case by simp
qed

definition char_ok :: "bytes \<Rightarrow> bool" where
  "char_ok c \<longleftrightarrow> (\<exists>a. c = [a] \<and> is_ascii a) \<or> (2 \<le> length c \<and> (\<forall>b \<in> set c. \<not> is_ascii b))"

lemma utf8_chars_ok: "utf8_chars s = Some cs \<Longrightarrow> c \<in> set cs \<Longrightarrow> char_ok c"
proof (induction cs arbitrary: s)
  case Nil
  then show ?case by simp
next
  case (Cons d cs)
  from Cons.prems(1) obtain r where "utf8_next s = Some (d, r)" "utf8_chars r = Some cs"
    by (auto elim: utf8_chars_Some_cases)
  with Cons.IH [of r] Cons.prems(2) utf8_next_bytes [of s d r] show ?case
    by (auto simp: char_ok_def)
qed

lemma utf8_chars_append:
  "utf8_chars s = Some cs \<Longrightarrow> utf8_chars (s @ t) = map_option (\<lambda>ds. cs @ ds) (utf8_chars t)"
proof (induction cs arbitrary: s)
  case Nil
  then have "s = []" by (auto elim: utf8_chars_Some_cases)
  then show ?case by (cases "utf8_chars t") auto
next
  case (Cons c cs)
  from Cons.prems obtain r where r: "utf8_next s = Some (c, r)" "utf8_chars r = Some cs"
    by (auto elim: utf8_chars_Some_cases)
  from r(1) have "utf8_next (s @ t) = Some (c, r @ t)" by (rule utf8_next_extend)
  then have "utf8_chars (s @ t) = map_option (\<lambda>ds. c # ds) (utf8_chars (r @ t))"
    by (rule utf8_chars_Cons)
  with Cons.IH [OF r(2)] show ?case by (simp add: option.map_comp comp_def)
qed

lemma valid_utf8_append [utf8_intros]: "valid_utf8 s \<Longrightarrow> valid_utf8 t \<Longrightarrow> valid_utf8 (s @ t)"
  by (auto simp: valid_utf8_def utf8_chars_append)

lemma valid_utf8_Nil [simp]: "valid_utf8 []"
  by (simp add: valid_utf8_def)

lemma utf8_chars_ascii: "\<forall>c \<in> set s. is_ascii c \<Longrightarrow> utf8_chars s = Some (map (\<lambda>c. [c]) s)"
proof (induction s)
  case Nil
  then show ?case by simp
next
  case (Cons a s)
  then have "utf8_next (a # s) = Some ([a], s)" by (simp add: is_ascii_def utf8_next.simps(2))
  with Cons show ?case by (simp add: utf8_chars_Cons)
qed

lemma valid_utf8_ascii [utf8_intros]: "\<forall>c \<in> set s. is_ascii c \<Longrightarrow> valid_utf8 s"
  by (simp add: valid_utf8_def utf8_chars_ascii)

lemma valid_utf8_Cons_ascii [simp]: "is_ascii c \<Longrightarrow> valid_utf8 (c # s) = valid_utf8 s"
  by (simp add: valid_utf8_def utf8_chars_Cons [of "c # s" "[c]" s] is_ascii_def
      utf8_next.simps(2))

text \<open>The code point of one encoded character.\<close>

fun codepoint :: "bytes \<Rightarrow> nat" where
  "codepoint [a] = byte_val a"
| "codepoint [a, b] = (byte_val a - 192) * 64 + (byte_val b - 128)"
| "codepoint [a, b, c] =
     (byte_val a - 224) * 4096 + (byte_val b - 128) * 64 + (byte_val c - 128)"
| "codepoint [a, b, c, d] =
     (byte_val a - 240) * 262144 + (byte_val b - 128) * 4096 + (byte_val c - 128) * 64
       + (byte_val d - 128)"
| "codepoint _ = 0"

text \<open>\<^verbatim>\<open>char::is_whitespace\<close>: the code points with the property White_Space.\<close>

definition is_unicode_ws :: "nat \<Rightarrow> bool" where
  "is_unicode_ws n \<longleftrightarrow> (9 \<le> n \<and> n \<le> 13) \<or> n = 32 \<or> n = 133 \<or> n = 160 \<or> n = 5760
     \<or> (8192 \<le> n \<and> n \<le> 8202) \<or> n = 8232 \<or> n = 8233 \<or> n = 8239 \<or> n = 8287 \<or> n = 12288"

section \<open>Decimal and hexadecimal text\<close>

definition digit_char :: "nat \<Rightarrow> char" where
  "digit_char n = ''0123456789abcdef'' ! n"

definition upper_digit_char :: "nat \<Rightarrow> char" where
  "upper_digit_char n = ''0123456789ABCDEF'' ! n"

text \<open>\<open>to_string\<close> of an unsigned integer.\<close>

fun dec :: "nat \<Rightarrow> bytes" where
  "dec n = (if n < 10 then [digit_char n] else dec (n div 10) @ [digit_char (n mod 10)])"

declare dec.simps [simp del]

definition dec_int :: "int \<Rightarrow> bytes" where
  "dec_int i = (if i < 0 then CHR ''-'' # dec (nat (- i)) else dec (nat i))"

text \<open>\<^verbatim>\<open>{:x}\<close> of an unsigned integer.\<close>

fun hex :: "nat \<Rightarrow> bytes" where
  "hex n = (if n < 16 then [digit_char n] else hex (n div 16) @ [digit_char (n mod 16)])"

declare hex.simps [simp del]

definition digit_val :: "char \<Rightarrow> nat" where
  "digit_val c = byte_val c - 48"

definition hex_val :: "char \<Rightarrow> nat option" where
  "hex_val c =
     (if is_digit c then Some (byte_val c - 48)
      else if 97 \<le> byte_val c \<and> byte_val c \<le> 102 then Some (byte_val c - 87)
      else if 65 \<le> byte_val c \<and> byte_val c \<le> 70 then Some (byte_val c - 55)
      else None)"

lemma less_10_cases:
  "(n::nat) < 10 \<Longrightarrow>
   n = 0 \<or> n = 1 \<or> n = 2 \<or> n = 3 \<or> n = 4 \<or> n = 5 \<or> n = 6 \<or> n = 7 \<or> n = 8 \<or> n = 9"
  by arith

lemma less_16_cases:
  "(n::nat) < 16 \<Longrightarrow> n < 10 \<or> n = 10 \<or> n = 11 \<or> n = 12 \<or> n = 13 \<or> n = 14 \<or> n = 15"
  by arith

lemma byte_val_digit_char: "n < 10 \<Longrightarrow> byte_val (digit_char n) = 48 + n"
  by (drule less_10_cases) (auto simp: digit_char_def)

lemma digit_char_digit: "n < 10 \<Longrightarrow> is_digit (digit_char n)"
  by (simp add: is_digit_def byte_val_digit_char)

lemma digit_val_digit_char: "n < 10 \<Longrightarrow> digit_val (digit_char n) = n"
  by (simp add: digit_val_def byte_val_digit_char)

lemma hex_val_digit_char: "n < 16 \<Longrightarrow> hex_val (digit_char n) = Some n"
  by (drule less_16_cases, elim disjE, drule less_10_cases)
     (auto simp: hex_val_def is_digit_def digit_char_def)

lemma hex_val_upper_digit_char: "n < 16 \<Longrightarrow> hex_val (upper_digit_char n) = Some n"
  by (drule less_16_cases, elim disjE, drule less_10_cases)
     (auto simp: hex_val_def is_digit_def upper_digit_char_def)

lemma dec_digits: "c \<in> set (dec n) \<Longrightarrow> is_digit c"
proof (induction n rule: dec.induct)
  case (1 n)
  then show ?case
    by (subst (asm) (2) dec.simps) (auto simp: digit_char_digit split: if_splits)
qed

lemma dec_nonempty [simp]: "dec n \<noteq> []"
  by (subst dec.simps) simp

text \<open>\<^verbatim>\<open>str::parse\<close> for an unsigned type with the given maximum: an optional plus sign,
  at least one digit, nothing else, no overflow.\<close>

definition dec_value :: "bytes \<Rightarrow> nat" where
  "dec_value s = foldl (\<lambda>n c. n * 10 + digit_val c) 0 s"

definition parse_uint :: "nat \<Rightarrow> bytes \<Rightarrow> nat option" where
  "parse_uint maximum s =
     (let ds = (case s of c # r \<Rightarrow> if c = CHR ''+'' then r else s | [] \<Rightarrow> []) in
      if ds = [] \<or> \<not> list_all is_digit ds \<or> dec_value ds > maximum then None
      else Some (dec_value ds))"

lemma dec_value_append: "dec_value (s @ [c]) = dec_value s * 10 + digit_val c"
  by (simp add: dec_value_def)

lemma dec_value_dec [simp]: "dec_value (dec n) = n"
proof (induction n rule: dec.induct)
  case (1 n)
  show ?case
  proof (cases "n < 10")
    case True
    then show ?thesis
      by (subst dec.simps) (simp add: dec_value_def digit_val_digit_char)
  next
    case False
    with 1 have "dec_value (dec (n div 10)) = n div 10" by simp
    with False show ?thesis
      by (subst dec.simps) (simp add: dec_value_append digit_val_digit_char)
  qed
qed

lemma dec_no_plus: "dec n = c # r \<Longrightarrow> c \<noteq> CHR ''+''"
  using dec_digits [of c n] by (auto simp: is_digit_def)

lemma parse_uint_dec: "n \<le> m \<Longrightarrow> parse_uint m (dec n) = Some n"
proof -
  have "(case dec n of c # r \<Rightarrow> if c = CHR ''+'' then r else dec n | [] \<Rightarrow> []) = dec n"
    by (auto dest: dec_no_plus split: list.split)
  moreover have "list_all is_digit (dec n)"
    by (auto simp: list_all_iff dest: dec_digits)
  ultimately show "parse_uint m (dec n) = Some n" if "n \<le> m"
    using that by (simp add: parse_uint_def)
qed

lemma dec_inject: "dec m = dec n \<longleftrightarrow> m = n"
  by (metis dec_value_dec)

text \<open>Canonical decimals: digits without a leading zero are the printed form of their value.\<close>

lemma digit_char_digit_val: "is_digit c \<Longrightarrow> digit_char (digit_val c) = c"
proof -
  assume d: "is_digit c"
  then have v: "digit_val c < 10" and b: "48 + digit_val c = byte_val c"
    by (auto simp: is_digit_def digit_val_def)
  from v have "byte_val (digit_char (digit_val c)) = byte_val c"
    by (simp add: byte_val_digit_char b)
  then show ?thesis by (simp only: of_char_eq_iff)
qed

lemma dec_value_Cons_pos:
  "is_digit c \<Longrightarrow> c \<noteq> CHR ''0'' \<Longrightarrow> 0 < dec_value (c # cs)"
proof (induction cs rule: rev_induct)
  case Nil
  have "digit_val c \<noteq> 0"
  proof
    assume "digit_val c = 0"
    with digit_char_digit_val [OF Nil(1)] have "c = CHR ''0''" by (simp add: digit_char_def)
    with Nil(2) show False by simp
  qed
  then show ?case by (simp add: dec_value_def)
next
  case (snoc d cs)
  then show ?case using dec_value_append [of "c # cs" d] by simp
qed

lemma dec_of_dec_value:
  "b \<noteq> [] \<Longrightarrow> list_all is_digit b \<Longrightarrow> length b = 1 \<or> hd b \<noteq> CHR ''0'' \<Longrightarrow> dec (dec_value b) = b"
proof (induction b rule: rev_induct)
  case Nil
  then show ?case by simp
next
  case (snoc d b)
  from snoc.prems have d: "is_digit d" by simp
  then have v: "digit_val d < 10" by (auto simp: is_digit_def digit_val_def)
  show ?case
  proof (cases b)
    case Nil
    with d v show ?thesis
      by (subst dec.simps) (simp add: dec_value_def digit_char_digit_val)
  next
    case (Cons c cs)
    with snoc.prems have c: "is_digit c" "c \<noteq> CHR ''0''" by simp_all
    then have "0 < dec_value b" using dec_value_Cons_pos Cons by simp
    moreover have "dec (dec_value b) = b" using snoc Cons by simp
    ultimately show ?thesis
      using d v by (subst dec.simps) (simp add: dec_value_append digit_char_digit_val)
  qed
qed

lemma dec_length: "n < 10 ^ k \<Longrightarrow> 0 < k \<Longrightarrow> length (dec n) \<le> k"
proof (induction k arbitrary: n)
  case 0
  then show ?case by simp
next
  case (Suc k)
  show ?case
  proof (cases "n < 10")
    case True
    then show ?thesis by (subst dec.simps) simp
  next
    case False
    with Suc.prems have "0 < k" "n div 10 < 10 ^ k" by (auto intro: gr0I)
    with Suc.IH [of "n div 10"] False show ?thesis by (subst dec.simps) simp
  qed
qed

lemma dec_hd_nonzero: "0 < n \<Longrightarrow> hd (dec n) \<noteq> CHR ''0''"
proof (induction n rule: dec.induct)
  case (1 n)
  show ?case
  proof (cases "n < 10")
    case True
    with 1 show ?thesis by (subst dec.simps) (drule less_10_cases, auto simp: digit_char_def)
  next
    case False
    with 1 have "hd (dec (n div 10)) \<noteq> CHR ''0''" by simp
    with False show ?thesis by (subst dec.simps) simp
  qed
qed

section \<open>Searching byte strings\<close>

text \<open>\<^verbatim>\<open>split(|b| b == c)\<close>: always at least one component.\<close>

fun split_on :: "char \<Rightarrow> bytes \<Rightarrow> bytes list" where
  "split_on d [] = [[]]"
| "split_on d (c # s) =
     (if c = d then [] # split_on d s
      else (case split_on d s of [] \<Rightarrow> [[c]] | w # ws \<Rightarrow> (c # w) # ws))"

text \<open>\<^verbatim>\<open>split_once(c)\<close> at the first occurrence.\<close>

fun split_once :: "char \<Rightarrow> bytes \<Rightarrow> (bytes \<times> bytes) option" where
  "split_once d [] = None"
| "split_once d (c # s) =
     (if c = d then Some ([], s)
      else map_option (\<lambda>(a, b). (c # a, b)) (split_once d s))"

lemma split_on_nonempty [simp]: "split_on d s \<noteq> []"
  by (induction s) (auto split: list.splits)

lemma split_once_Some: "split_once d s = Some (a, b) \<Longrightarrow> s = a @ d # b \<and> d \<notin> set a"
  by (induction s arbitrary: a) (auto split: if_splits)

lemma split_once_append: "d \<notin> set a \<Longrightarrow> split_once d (a @ d # b) = Some (a, b)"
  by (induction a) auto

lemma split_once_None: "split_once d s = None \<longleftrightarrow> d \<notin> set s"
  by (induction s) auto

lemma split_on_no_sep: "w \<in> set (split_on d s) \<Longrightarrow> d \<notin> set w"
  by (induction s arbitrary: w) (auto split: if_splits list.splits)

end
