(* ===== verification/Json_Text.thy ===== *)
theory Json_Text
  imports Rust_Text
begin

text \<open>
  JSON as a reader of the rendered requests sees it: values, a lexer and a recursive descent
  parser. This is the specification the renderers are proved against; it is not code of the
  crate. The parser is strict: whatever it accepts is a JSON text (RFC 8259) of the value it
  returns, but it refuses some texts JSON allows (fractions, exponents, a space before a number,
  and \<^verbatim>\<open>\u\<close> escapes from 0080 on), which the renderers never write.
\<close>

datatype json =
  JBool bool
| JNum int
| JString bytes
| JArray "json list"
| JObject "(bytes \<times> json) list"

section \<open>Tokens\<close>

datatype token = TPunct char | TString bytes | TDigit nat | TMinus | TBool bool

definition is_punct :: "char \<Rightarrow> bool" where
  "is_punct c \<longleftrightarrow> c \<in> {CHR ''{'', CHR ''}'', CHR ''['', CHR '']'', CHR '','', CHR '':''}"

text \<open>What stands after a backslash, but for the \<open>u\<close> form.\<close>

definition unescape :: "char \<Rightarrow> char option" where
  "unescape c =
     (if c = CHR 0x22 then Some (CHR 0x22) else if c = CHR 0x5C then Some (CHR 0x5C)
      else if c = CHR ''/'' then Some (CHR ''/'')
      else if c = CHR ''b'' then Some (CHR 0x08) else if c = CHR ''f'' then Some (CHR 0x0C)
      else if c = CHR ''n'' then Some (CHR 0x0A) else if c = CHR ''r'' then Some (CHR 0x0D)
      else if c = CHR ''t'' then Some (CHR 0x09) else None)"

definition hex4 :: "char \<Rightarrow> char \<Rightarrow> char \<Rightarrow> char \<Rightarrow> nat option" where
  "hex4 a b c d =
     (case (hex_val a, hex_val b, hex_val c, hex_val d) of
        (Some i, Some j, Some k, Some l) \<Rightarrow> Some (((i * 16 + j) * 16 + k) * 16 + l)
      | _ \<Rightarrow> None)"

text \<open>One character of a string, and the text after it; a closing quote is not one.\<close>

definition lex_unicode :: "bytes \<Rightarrow> (char \<times> bytes) option" where
  "lex_unicode s =
     (case s of
        h1 # h2 # h3 # h4 # r \<Rightarrow>
          (case hex4 h1 h2 h3 h4 of
             None \<Rightarrow> None
           | Some n \<Rightarrow> if n < 128 then Some (char_of n, r) else None)
      | _ \<Rightarrow> None)"

definition lex_char :: "bytes \<Rightarrow> (char \<times> bytes) option" where
  "lex_char s =
     (case s of
        [] \<Rightarrow> None
      | c # r \<Rightarrow>
        if c = CHR 0x22 \<or> byte_val c < 32 then None
        else if c \<noteq> CHR 0x5C then Some (c, r)
        else case r of
          [] \<Rightarrow> None
        | e # r' \<Rightarrow>
          if e = CHR ''u'' then lex_unicode r' else map_option (\<lambda>x. (x, r')) (unescape e))"

lemma lex_char_length: "lex_char s = Some (c, r) \<Longrightarrow> length r < length s"
  by (auto simp: lex_char_def lex_unicode_def split: if_splits list.splits option.splits)

text \<open>The contents of a string up to the closing quote, and the text after it.\<close>

function lex_string :: "bytes \<Rightarrow> (bytes \<times> bytes) option" where
  "lex_string s =
     (if take 1 s = [CHR 0x22] then Some ([], drop 1 s)
      else case lex_char s of
        None \<Rightarrow> None
      | Some (c, r) \<Rightarrow> map_option (\<lambda>(b, r'). (c # b, r')) (lex_string r))"
  by pat_completeness auto
termination by (relation "measure length") (auto dest: lex_char_length)

declare lex_string.simps [simp del]

lemma lex_string_length: "lex_string s = Some (b, r) \<Longrightarrow> length r < length s"
proof (induction s arbitrary: b r rule: lex_string.induct)
  case (1 s)
  show ?case
  proof (cases "take 1 s = [CHR 0x22]")
    case True
    with 1 show ?thesis by (cases s) (simp_all add: lex_string.simps)
  next
    case False
    with 1 obtain c t where t: "lex_char s = Some (c, t)"
      by (subst (asm) (2) lex_string.simps) (auto split: option.splits)
    with 1(2) False obtain b' where "lex_string t = Some (b', r)"
      by (subst (asm) lex_string.simps) auto
    with 1(1) False t lex_char_length [OF t] show ?thesis by fastforce
  qed
qed

text \<open>White space is skipped, but not in front of a number.\<close>

function lex :: "bytes \<Rightarrow> token list option" where
  "lex [] = Some []"
| "lex (c # s) =
     (if c = CHR 0x22 then
        (case lex_string s of
           None \<Rightarrow> None
         | Some (b, r) \<Rightarrow> map_option ((#) (TString b)) (lex r))
      else if is_punct c then map_option ((#) (TPunct c)) (lex s)
      else if is_digit c then map_option ((#) (TDigit (digit_val c))) (lex s)
      else if c = CHR ''-'' then map_option ((#) TMinus) (lex s)
      else if c = CHR '' '' \<or> c = CHR 0x0A then
        (case s of d # _ \<Rightarrow> if is_digit d \<or> d = CHR ''-'' then None else lex s | [] \<Rightarrow> lex s)
      else if c = CHR ''t'' \<and> take 3 s = ''rue'' then map_option ((#) (TBool True)) (lex (drop 3 s))
      else if c = CHR ''f'' \<and> take 4 s = ''alse'' then map_option ((#) (TBool False)) (lex (drop 4 s))
      else None)"
  by pat_completeness auto
termination
proof (relation "measure length")
  fix c s x b r
  assume "lex_string s = Some x" and "(b, r) = x"
  then have "length r < length s" using lex_string_length [of s b r] by simp
  then show "(r, c # s) \<in> measure length" by simp
qed simp_all

declare lex.simps(2) [simp del]

section \<open>Parsing\<close>

text \<open>A run of digits: at least one, and no leading zero.\<close>

fun take_digits :: "token list \<Rightarrow> nat list \<times> token list" where
  "take_digits (TDigit d # ts) = (let (ds, r) = take_digits ts in (d # ds, r))"
| "take_digits ts = ([], ts)"

definition digits_value :: "nat list \<Rightarrow> nat" where
  "digits_value ds = foldl (\<lambda>n d. n * 10 + d) 0 ds"

definition parse_number :: "token list \<Rightarrow> (nat \<times> token list) option" where
  "parse_number ts =
     (let (ds, r) = take_digits ts in
      if ds = [] \<or> (hd ds = 0 \<and> length ds > 1) then None else Some (digits_value ds, r))"

abbreviation "open_object \<equiv> TPunct (CHR ''{'')"
abbreviation "close_object \<equiv> TPunct (CHR ''}'')"
abbreviation "open_array \<equiv> TPunct (CHR ''['')"
abbreviation "close_array \<equiv> TPunct (CHR '']'')"
abbreviation "comma \<equiv> TPunct (CHR '','')"
abbreviation "colon \<equiv> TPunct (CHR '':'')"

text \<open>
  The fuel bounds the depth of the calls; the number of tokens is enough
  (\<open>parse_value_tokens\<close>).
\<close>

fun parse_value :: "nat \<Rightarrow> token list \<Rightarrow> (json \<times> token list) option"
  and parse_elements :: "nat \<Rightarrow> token list \<Rightarrow> (json list \<times> token list) option"
  and parse_members :: "nat \<Rightarrow> token list \<Rightarrow> ((bytes \<times> json) list \<times> token list) option" where
  "parse_value 0 ts = None"
| "parse_value (Suc n) ts =
     (case ts of
        [] \<Rightarrow> None
      | t # r \<Rightarrow>
        if t = open_object then
          (if r \<noteq> [] \<and> hd r = close_object then Some (JObject [], tl r)
           else map_option (\<lambda>(ms, r'). (JObject ms, r')) (parse_members n r))
        else if t = open_array then
          (if r \<noteq> [] \<and> hd r = close_array then Some (JArray [], tl r)
           else map_option (\<lambda>(js, r'). (JArray js, r')) (parse_elements n r))
        else case t of
          TString b \<Rightarrow> Some (JString b, r)
        | TBool b \<Rightarrow> Some (JBool b, r)
        | TMinus \<Rightarrow> map_option (\<lambda>(i, r'). (JNum (- int i), r')) (parse_number r)
        | TDigit _ \<Rightarrow> map_option (\<lambda>(i, r'). (JNum (int i), r')) (parse_number ts)
        | _ \<Rightarrow> None)"
| "parse_elements 0 ts = None"
| "parse_elements (Suc n) ts =
     (case parse_value n ts of
        Some (j, t # r) \<Rightarrow>
          if t = close_array then Some ([j], r)
          else if t = comma then map_option (\<lambda>(js, r'). (j # js, r')) (parse_elements n r)
          else None
      | _ \<Rightarrow> None)"
| "parse_members 0 ts = None"
| "parse_members (Suc n) ts =
     (case ts of
        TString k # c # r \<Rightarrow>
          if c = colon then
            (case parse_value n r of
               Some (j, t # r') \<Rightarrow>
                 if t = close_object then Some ([(k, j)], r')
                 else if t = comma then
                   map_option (\<lambda>(ms, r''). ((k, j) # ms, r'')) (parse_members n r')
                 else None
             | _ \<Rightarrow> None)
          else None
      | _ \<Rightarrow> None)"

definition parse_json :: "bytes \<Rightarrow> json option" where
  "parse_json s =
     (if \<not> valid_utf8 s then None
      else case lex s of
        None \<Rightarrow> None
      | Some ts \<Rightarrow>
        (case parse_value (length ts) ts of Some (j, []) \<Rightarrow> Some j | _ \<Rightarrow> None))"

section \<open>The tokens of a value\<close>

definition num_tokens :: "int \<Rightarrow> token list" where
  "num_tokens i =
     (if i < 0 then TMinus # map (\<lambda>c. TDigit (digit_val c)) (dec (nat (- i)))
      else map (\<lambda>c. TDigit (digit_val c)) (dec (nat i)))"

fun separated :: "token list list \<Rightarrow> token list" where
  "separated [] = []"
| "separated [t] = t"
| "separated (t # ts) = t @ comma # separated ts"

fun json_tokens :: "json \<Rightarrow> token list" where
  "json_tokens (JBool b) = [TBool b]"
| "json_tokens (JNum i) = num_tokens i"
| "json_tokens (JString b) = [TString b]"
| "json_tokens (JArray js) = open_array # separated (map json_tokens js) @ [close_array]"
| "json_tokens (JObject ms) =
     open_object # separated (map (\<lambda>(k, j). TString k # colon # json_tokens j) ms) @ [close_object]"

lemma separated_Cons: "ts \<noteq> [] \<Longrightarrow> separated (t # ts) = t @ comma # separated ts"
  by (cases ts) auto

definition no_digit :: "token list \<Rightarrow> bool" where
  "no_digit ts \<longleftrightarrow> (case ts of TDigit _ # _ \<Rightarrow> False | _ \<Rightarrow> True)"

lemma no_digit_simps [simp]:
  "no_digit []" "no_digit (TPunct c # ts)"
  by (simp_all add: no_digit_def)

lemma take_digits_digits:
  "no_digit r \<Longrightarrow> take_digits (map (\<lambda>c. TDigit (digit_val c)) cs @ r) = (map digit_val cs, r)"
proof (induction cs)
  case Nil
  then show ?case by (cases r) (auto simp: no_digit_def split: token.splits)
qed simp

lemma digits_value_dec: "digits_value (map digit_val cs) = dec_value cs"
  by (simp add: digits_value_def dec_value_def foldl_map)

lemma parse_number_dec:
  assumes "no_digit r"
  shows "parse_number (map (\<lambda>c. TDigit (digit_val c)) (dec n) @ r) = Some (n, r)"
proof -
  have "\<not> (hd (map digit_val (dec n)) = 0 \<and> length (map digit_val (dec n)) > 1)"
  proof (cases "n = 0")
    case True
    then show ?thesis by (simp add: dec.simps [of 0])
  next
    case False
    obtain c cs where c: "dec n = c # cs" by (cases "dec n") auto
    with dec_digits [of c n] dec_hd_nonzero [of n] False
    have "is_digit c" "c \<noteq> CHR ''0''" by simp_all
    with dec_value_Cons_pos [of c "[]"] have "digit_val c \<noteq> 0" by (simp add: dec_value_def)
    with c show ?thesis by simp
  qed
  then show ?thesis
    by (auto simp: parse_number_def take_digits_digits [OF assms] digits_value_dec)
qed

lemma parse_value_num:
  assumes "no_digit r"
  shows "parse_value (Suc n) (num_tokens i @ r) = Some (JNum i, r)"
proof (cases "i < 0")
  case True
  then show ?thesis by (simp add: num_tokens_def parse_number_dec [OF assms])
next
  case False
  obtain c cs where c: "dec (nat i) = c # cs" by (cases "dec (nat i)") auto
  have "num_tokens i @ r = TDigit (digit_val c) # (map (\<lambda>c. TDigit (digit_val c)) cs @ r)"
    using False c by (simp add: num_tokens_def)
  moreover have "parse_number (TDigit (digit_val c) # (map (\<lambda>c. TDigit (digit_val c)) cs @ r)) = Some (nat i, r)"
    using parse_number_dec [OF assms, of "nat i"] c by simp
  ultimately show ?thesis using False by simp
qed

lemma json_tokens_first:
  "\<exists>t ts. json_tokens j = t # ts \<and> t \<noteq> close_object \<and> t \<noteq> close_array"
proof (cases j)
  case (JNum i)
  have "dec n \<noteq> []" for n by simp
  then obtain c cs d ds where "dec (nat i) = c # cs" "dec (nat (- i)) = d # ds"
    by (metis list.exhaust)
  with JNum show ?thesis by (simp add: num_tokens_def)
qed simp_all

lemma json_tokens_hd: "json_tokens j \<noteq> [] \<and> hd (json_tokens j) \<noteq> close_array"
  using json_tokens_first [of j] by auto

lemma json_tokens_nonempty: "0 < length (json_tokens j)"
  using json_tokens_first [of j] by auto

lemma parse_elements_tokens:
  assumes "js \<noteq> []" and "length (separated (map json_tokens js)) + 1 \<le> n"
    and "\<And>j m r. j \<in> set js \<Longrightarrow> length (json_tokens j) \<le> m \<Longrightarrow> no_digit r \<Longrightarrow>
      parse_value m (json_tokens j @ r) = Some (j, r)"
  shows "parse_elements n (separated (map json_tokens js) @ close_array # r) = Some (js, r)"
  using assms
proof (induction js arbitrary: n)
  case Nil
  then show ?case by simp
next
  case (Cons j js)
  then obtain m where n: "n = Suc m" by (cases n) auto
  show ?case
  proof (cases "js = []")
    case True
    with Cons.prems n show ?thesis by simp
  next
    case False
    then have s: "separated (map json_tokens (j # js)) = json_tokens j @ comma # separated (map json_tokens js)"
      by (simp add: separated_Cons)
    have "parse_elements m (separated (map json_tokens js) @ close_array # r) = Some (js, r)"
      using False Cons.prems(2,3) s n by (intro Cons.IH) auto
    moreover have "parse_value m (json_tokens j @ comma # separated (map json_tokens js) @ close_array # r)
        = Some (j, comma # separated (map json_tokens js) @ close_array # r)"
      using Cons.prems(2) s n by (intro Cons.prems(3)) auto
    ultimately show ?thesis unfolding s n by simp
  qed
qed

lemma parse_members_tokens:
  assumes "ms \<noteq> []"
    and "length (separated (map (\<lambda>(k, j). TString k # colon # json_tokens j) ms)) + 1 \<le> n"
    and "\<And>k j m r. (k, j) \<in> set ms \<Longrightarrow> length (json_tokens j) \<le> m \<Longrightarrow> no_digit r \<Longrightarrow>
      parse_value m (json_tokens j @ r) = Some (j, r)"
  shows "parse_members n
    (separated (map (\<lambda>(k, j). TString k # colon # json_tokens j) ms) @ close_object # r) = Some (ms, r)"
  using assms
proof (induction ms arbitrary: n)
  case Nil
  then show ?case by simp
next
  case (Cons kj ms)
  obtain k j where kj: "kj = (k, j)" by (cases kj)
  from Cons.prems(2) obtain m where n: "n = Suc m" by (cases n) auto
  let ?s = "\<lambda>ms. separated (map (\<lambda>(k, j). TString k # colon # json_tokens j) ms)"
  show ?case
  proof (cases "ms = []")
    case True
    have "parse_value m (json_tokens j @ close_object # r) = Some (j, close_object # r)"
      using Cons.prems(2) kj n True by (intro Cons.prems(3) [of k]) auto
    with True kj n show ?thesis by simp
  next
    case False
    then have s: "?s (kj # ms) = TString k # colon # json_tokens j @ comma # ?s ms"
      by (simp add: separated_Cons kj)
    have "parse_members m (?s ms @ close_object # r) = Some (ms, r)"
      using False Cons.prems(2,3) s n by (intro Cons.IH) auto
    moreover have "parse_value m (json_tokens j @ comma # ?s ms @ close_object # r)
        = Some (j, comma # ?s ms @ close_object # r)"
      using Cons.prems(2) s n kj by (intro Cons.prems(3) [of k]) auto
    ultimately show ?thesis unfolding s n using kj by simp
  qed
qed

lemma separated_first:
  assumes "ts \<noteq> []" and "\<forall>t \<in> set ts. t \<noteq> [] \<and> hd t \<noteq> y"
  shows "\<exists>x xs. separated ts = x # xs \<and> x \<noteq> y"
proof -
  obtain t us where t: "ts = t # us" using assms(1) by (cases ts) auto
  with assms(2) have "t \<noteq> []" "hd t \<noteq> y" by simp_all
  then obtain x xs where "t = x # xs" "x \<noteq> y" by (metis list.collapse)
  with t show ?thesis by (cases us) auto
qed

lemma length_separated: "t \<in> set ts \<Longrightarrow> length t \<le> length (separated ts)"
  by (induction ts rule: separated.induct) auto

lemma parse_value_tokens:
  "length (json_tokens j) \<le> n \<Longrightarrow> no_digit r \<Longrightarrow> parse_value n (json_tokens j @ r) = Some (j, r)"
proof (induction j arbitrary: n r)
  case (JBool b)
  then show ?case by (cases n) simp_all
next
  case (JNum i)
  then obtain m where "n = Suc m" using json_tokens_nonempty [of "JNum i"] by (cases n) auto
  with JNum show ?case by (simp add: parse_value_num del: parse_value.simps)
next
  case (JString b)
  then show ?case by (cases n) simp_all
next
  case (JArray js)
  then obtain m where n: "n = Suc m" by (cases n) auto
  show ?case
  proof (cases "js = []")
    case True
    with n show ?thesis by simp
  next
    case False
    obtain x xs where x: "separated (map json_tokens js) = x # xs" "x \<noteq> close_array"
      using separated_first [of "map json_tokens js" close_array] False json_tokens_hd by auto
    have "parse_elements m (separated (map json_tokens js) @ close_array # r) = Some (js, r)"
      using JArray n False by (intro parse_elements_tokens) auto
    with x n show ?thesis by simp
  qed
next
  case (JObject ms)
  then obtain m where n: "n = Suc m" by (cases n) auto
  show ?case
  proof (cases "ms = []")
    case True
    with n show ?thesis by simp
  next
    case False
    let ?s = "separated (map (\<lambda>(k, j). TString k # colon # json_tokens j) ms)"
    obtain x xs where x: "?s = x # xs" "x \<noteq> close_object"
      using separated_first [of "map (\<lambda>(k, j). TString k # colon # json_tokens j) ms" close_object]
        False by (auto simp: case_prod_beta)
    have "parse_members m (?s @ close_object # r) = Some (ms, r)"
      using JObject n False by (intro parse_members_tokens) auto
    with x n show ?thesis by simp
  qed
qed

lemma parse_json_tokens:
  "valid_utf8 s \<Longrightarrow> lex s = Some (json_tokens j) \<Longrightarrow> parse_json s = Some j"
  using parse_value_tokens [of j "length (json_tokens j)" "[]"] by (simp add: parse_json_def)

section \<open>Texts and their tokens\<close>

text \<open>
  \<open>lexes s ts\<close>: in front of any text, \<open>s\<close> is read as the tokens \<open>ts\<close>. The relation is closed
  under concatenation, so that the tokens of a rendered text follow its construction. A text of
  one line is enough: the renderers never write a line feed inside a document.
\<close>

definition lexes :: "bytes \<Rightarrow> token list \<Rightarrow> bool" where
  "lexes s ts \<longleftrightarrow> valid_utf8 s \<and> CHR 0x0A \<notin> set s \<and> (\<forall>r. lex (s @ r) = map_option ((@) ts) (lex r))"

lemma prepend_simps:
  "map_option ((@) []) x = x" "(@) [t] = (#) t" "(@) (ts @ us) = (\<lambda>vs. ts @ us @ vs)"
  by (cases x) (auto simp: fun_eq_iff)

lemma lexes_Nil: "lexes [] []"
  by (simp add: lexes_def prepend_simps)

lemma lexes_append: "lexes s ts \<Longrightarrow> lexes s' ts' \<Longrightarrow> lexes (s @ s') (ts @ ts')"
  by (auto simp: lexes_def option.map_comp comp_def prepend_simps intro: utf8_intros)

lemma lexes_lex: "lexes s ts \<Longrightarrow> lex s = Some ts"
  unfolding lexes_def by (metis append_Nil2 lex.simps(1) option.simps(9))

lemma lexes_parse: "lexes s (json_tokens j) \<Longrightarrow> parse_json s = Some j"
  using lexes_lex [of s] parse_json_tokens [of s j] by (simp add: lexes_def)

lemma lexes_punct: "is_punct c \<Longrightarrow> lexes [c] [TPunct c]"
proof -
  assume p: "is_punct c"
  then have "is_ascii c" "c \<noteq> CHR 0x22" "c \<noteq> CHR 0x0A"
    by (auto simp: is_punct_def is_ascii_def)
  with p show ?thesis by (simp add: lexes_def lex.simps(2) prepend_simps)
qed

lemma lexes_digit: "is_digit c \<Longrightarrow> lexes [c] [TDigit (digit_val c)]"
proof -
  assume p: "is_digit c"
  then have "is_ascii c" "c \<noteq> CHR 0x22" "c \<noteq> CHR 0x0A" "\<not> is_punct c"
    by (auto simp: is_punct_def is_ascii_def is_digit_def)
  with p show ?thesis by (simp add: lexes_def lex.simps(2) prepend_simps)
qed

lemma lexes_minus: "lexes ''-'' [TMinus]"
  by (simp add: lexes_def lex.simps(2) is_punct_def is_digit_def is_ascii_def prepend_simps)

lemma lexes_true: "lexes ''true'' [TBool True]"
  by (simp add: lexes_def lex.simps(2) is_punct_def is_digit_def is_ascii_def prepend_simps)

lemma lexes_false: "lexes ''false'' [TBool False]"
  by (simp add: lexes_def lex.simps(2) is_punct_def is_digit_def is_ascii_def prepend_simps)

lemma lexes_space: "lexes s (TPunct c # ts) \<Longrightarrow> s = c # s' \<Longrightarrow> is_punct c \<Longrightarrow> lexes (CHR '' '' # s) (TPunct c # ts)"
  by (auto simp: lexes_def lex.simps(2) [of "CHR '' ''"] is_punct_def is_digit_def is_ascii_def)

lemma lexes_digits: "list_all is_digit ds \<Longrightarrow> lexes ds (map (\<lambda>c. TDigit (digit_val c)) ds)"
proof (induction ds)
  case Nil
  then show ?case by (simp add: lexes_Nil)
next
  case (Cons d ds)
  then show ?case using lexes_append [OF lexes_digit [of d]] by fastforce
qed

lemma lexes_dec_int: "lexes (dec_int i) (num_tokens i)"
proof -
  have d: "lexes (dec n) (map (\<lambda>c. TDigit (digit_val c)) (dec n))" for n
    by (rule lexes_digits) (auto simp: list_all_iff dest: dec_digits)
  show ?thesis
    using d [of "nat i"] lexes_append [OF lexes_minus d [of "nat (- i)"]]
    by (simp add: dec_int_def num_tokens_def)
qed

lemma lexes_dec: "lexes (dec n) (num_tokens (int n))"
  using lexes_dec_int [of "int n"] by (simp add: dec_int_def)

text \<open>A quoted text without an escape, as the renderers write their keys.\<close>

definition plain_char :: "char \<Rightarrow> bool" where
  "plain_char c \<longleftrightarrow> 32 \<le> byte_val c \<and> byte_val c < 128 \<and> c \<noteq> CHR 0x22 \<and> c \<noteq> CHR 0x5C"

lemma lex_char_plain: "32 \<le> byte_val c \<Longrightarrow> c \<noteq> CHR 0x22 \<Longrightarrow> c \<noteq> CHR 0x5C \<Longrightarrow> lex_char (c # s) = Some (c, s)"
  by (simp add: lex_char_def)

lemma lex_string_quote: "lex_string (CHR 0x22 # s) = Some ([], s)"
  by (simp add: lex_string.simps)

lemma lex_char_not_quote: "lex_char s = Some (c, r) \<Longrightarrow> take 1 s \<noteq> [CHR 0x22]"
  by (auto simp: lex_char_def split: list.splits)

lemma lex_string_step:
  "lex_char s = Some (c, r) \<Longrightarrow> lex_string s = map_option (\<lambda>(b, r'). (c # b, r')) (lex_string r)"
  using lex_char_not_quote [of s c r] by (subst lex_string.simps) simp

lemma lexes_quoted_Some:
  assumes "valid_utf8 e" and "CHR 0x0A \<notin> set e" and "\<And>r. lex_string (e @ CHR 0x22 # r) = Some (b, r)"
  shows "lexes ([CHR 0x22] @ e @ [CHR 0x22]) [TString b]"
proof -
  have "valid_utf8 ([CHR 0x22] @ e @ [CHR 0x22])"
    using valid_utf8_append [OF assms(1) valid_utf8_ascii [of "[CHR 0x22]"]]
    by (simp add: is_ascii_def)
  then show ?thesis using assms(2,3) by (simp add: lexes_def lex.simps(2) prepend_simps)
qed

lemma lexes_plain:
  assumes "list_all plain_char k"
  shows "lexes ([CHR 0x22] @ k @ [CHR 0x22]) [TString k]"
proof (rule lexes_quoted_Some)
  show "valid_utf8 k"
    using assms by (intro valid_utf8_ascii) (auto simp: list_all_iff plain_char_def is_ascii_def)
  have "\<not> plain_char (CHR 0x0A)" by (simp add: plain_char_def)
  then show "CHR 0x0A \<notin> set k" using assms unfolding list_all_iff by blast
  show "lex_string (k @ CHR 0x22 # r) = Some (k, r)" for r
    using assms
    by (induction k) (simp_all add: lex_string_quote lex_string_step lex_char_plain plain_char_def)
qed

end
