(* ===== verification/Ip_Address.thy ===== *)
theory Ip_Address
  imports Rust_Text
begin

text \<open>
  IP addresses as \<^verbatim>\<open>std::net\<close> gives them to the crate: the two address families as words of
  32 and 128 bits, their text (\<^verbatim>\<open>Display\<close>, with the longest run of zero groups compressed
  and IPv4-mapped addresses in dotted form) and \<^verbatim>\<open>IpAddr::from_str\<close>, the recursive descent
  parser of the standard library. \<open>parse_ip_show_v4\<close> is the round trip for IPv4.
\<close>

unbundle bit_operations_syntax

datatype ip_addr = V4 u32 | V6 u128

fun is_v6 :: "ip_addr \<Rightarrow> bool" where
  "is_v6 (V4 _) = False"
| "is_v6 (V6 _) = True"

fun is_unspecified :: "ip_addr \<Rightarrow> bool" where
  "is_unspecified (V4 a) = (a = 0)"
| "is_unspecified (V6 a) = (a = 0)"

section \<open>Printing\<close>

definition octet :: "u32 \<Rightarrow> nat \<Rightarrow> nat" where
  "octet a i = unat (a) div 256 ^ (3 - i) mod 256"

definition show_v4 :: "u32 \<Rightarrow> bytes" where
  "show_v4 a = dec (octet a 0) @ ''.'' @ dec (octet a 1) @ ''.'' @ dec (octet a 2)
     @ ''.'' @ dec (octet a 3)"

definition segments :: "u128 \<Rightarrow> nat list" where
  "segments a = map (\<lambda>i. unat a div 65536 ^ (7 - i) mod 65536) [0..<8]"

text \<open>The longest run of zero segments: (index, (longest start, length), (current start, length)).\<close>

fun zero_span :: "nat list \<Rightarrow> nat \<Rightarrow> nat \<times> nat \<Rightarrow> nat \<times> nat \<Rightarrow> nat \<times> nat" where
  "zero_span [] i longest current = longest"
| "zero_span (s # ss) i longest (cs, cl) =
     (if s = 0 then
        let current = (if cl = 0 then i else cs, cl + 1);
            longest' = (if cl + 1 > snd longest then current else longest)
        in zero_span ss (i + 1) longest' current
      else zero_span ss (i + 1) longest (0, 0))"

fun join_hex :: "nat list \<Rightarrow> bytes" where
  "join_hex [] = []"
| "join_hex [s] = hex s"
| "join_hex (s # ss) = hex s @ '':'' @ join_hex ss"

definition show_v6 :: "u128 \<Rightarrow> bytes" where
  "show_v6 a =
     (let ss = segments a in
      if take 6 ss = [0, 0, 0, 0, 0, 65535] then ''::ffff:'' @ show_v4 (ucast a)
      else let (start, n) = zero_span ss 0 (0, 0) (0, 0) in
        if n > 1 then join_hex (take start ss) @ ''::'' @ join_hex (drop (start + n) ss)
        else join_hex ss)"

fun show_ip :: "ip_addr \<Rightarrow> bytes" where
  "show_ip (V4 a) = show_v4 a"
| "show_ip (V6 a) = show_v6 a"

section \<open>Parsing\<close>

text \<open>\<^verbatim>\<open>Parser::read_number\<close> with a digit bound: the value and the rest.\<close>

definition radix_digit :: "nat \<Rightarrow> char \<Rightarrow> bool" where
  "radix_digit radix c = (case hex_val c of None \<Rightarrow> False | Some v \<Rightarrow> v < radix)"

definition radix_value :: "nat \<Rightarrow> bytes \<Rightarrow> nat" where
  "radix_value radix ds = foldl (\<lambda>n c. n * radix + the (hex_val c)) 0 ds"

definition read_number :: "nat \<Rightarrow> nat \<Rightarrow> bool \<Rightarrow> nat \<Rightarrow> bytes \<Rightarrow> (nat \<times> bytes) option" where
  "read_number radix max_digits allow_zero_prefix maximum s =
     (let ds = takeWhile (radix_digit radix) s; r = dropWhile (radix_digit radix) s in
      if length ds > max_digits \<or> ds = []
         \<or> (\<not> allow_zero_prefix \<and> hd ds = CHR ''0'' \<and> length ds > 1)
         \<or> radix_value radix ds > maximum
      then None else Some (radix_value radix ds, r))"

definition read_separator ::
  "char \<Rightarrow> nat \<Rightarrow> (bytes \<Rightarrow> ('a \<times> bytes) option) \<Rightarrow> bytes \<Rightarrow> ('a \<times> bytes) option" where
  "read_separator sep i inner s =
     (if i > 0 then (case s of c # r \<Rightarrow> if c = sep then inner r else None | [] \<Rightarrow> None)
      else inner s)"

fun read_octets :: "nat \<Rightarrow> nat \<Rightarrow> bytes \<Rightarrow> (nat list \<times> bytes) option" where
  "read_octets i 0 s = Some ([], s)"
| "read_octets i (Suc n) s =
     (case read_separator CHR ''.'' i (read_number 10 3 False 255) s of
        None \<Rightarrow> None
      | Some (v, r) \<Rightarrow> map_option (\<lambda>(vs, r'). (v # vs, r')) (read_octets (Suc i) n r))"

fun v4_of_octets :: "nat list \<Rightarrow> u32" where
  "v4_of_octets vs = of_nat (foldl (\<lambda>n v. n * 256 + v) 0 vs)"

definition read_ipv4 :: "bytes \<Rightarrow> (u32 \<times> bytes) option" where
  "read_ipv4 s = map_option (\<lambda>(vs, r). (v4_of_octets vs, r)) (read_octets 0 4 s)"

text \<open>\<^verbatim>\<open>read_groups\<close>: the groups read, whether an embedded IPv4 address ended them, the rest.\<close>

function read_groups :: "nat \<Rightarrow> nat \<Rightarrow> bytes \<Rightarrow> nat list \<times> bool \<times> bytes" where
  "read_groups limit i s =
     (if i \<ge> limit then ([], False, s)
      else case (if i + 1 < limit then read_separator CHR '':'' i read_ipv4 s else None) of
        Some (a, r) \<Rightarrow> ([unat a div 65536, unat a mod 65536], True, r)
      | None \<Rightarrow>
        (case read_separator CHR '':'' i (read_number 16 4 True 65535) s of
           None \<Rightarrow> ([], False, s)
         | Some (g, r) \<Rightarrow>
             let (gs, v4, r') = read_groups limit (i + 1) r in (g # gs, v4, r')))"
  by pat_completeness auto
termination by (relation "measure (\<lambda>(limit, i, s). limit - i)") auto

declare read_groups.simps [simp del]

fun v6_of_segments :: "nat list \<Rightarrow> u128" where
  "v6_of_segments gs = of_nat (foldl (\<lambda>n g. n * 65536 + g) 0 gs)"

definition read_ipv6 :: "bytes \<Rightarrow> (u128 \<times> bytes) option" where
  "read_ipv6 s =
     (let (head, head_v4, r) = read_groups 8 0 s in
      if length head = 8 then Some (v6_of_segments head, r)
      else if head_v4 then None
      else case r of
        c # d # r' \<Rightarrow>
          if c = CHR '':'' \<and> d = CHR '':'' then
            let (tail, _, r'') = read_groups (8 - (length head + 1)) 0 r' in
            Some (v6_of_segments (head @ replicate (8 - length head - length tail) 0 @ tail), r'')
          else None
      | _ \<Rightarrow> None)"

definition parse_ip :: "bytes \<Rightarrow> ip_addr option" where
  "parse_ip s =
     (case (case read_ipv4 s of
              Some (a, r) \<Rightarrow> Some (V4 a, r)
            | None \<Rightarrow> map_option (\<lambda>(a, r). (V6 a, r)) (read_ipv6 s)) of
        Some (a, []) \<Rightarrow> Some a
      | _ \<Rightarrow> None)"

section \<open>The IPv4 round trip\<close>

lemma radix_digit_digit: "is_digit c \<Longrightarrow> radix_digit 10 c"
  by (auto simp: radix_digit_def hex_val_def is_digit_def)

lemma hex_val_digit: "is_digit c \<Longrightarrow> hex_val c = Some (digit_val c)"
  by (simp add: hex_val_def digit_val_def)

lemma radix_value_digits: "\<forall>c \<in> set ds. is_digit c \<Longrightarrow> radix_value 10 ds = dec_value ds"
  unfolding radix_value_def dec_value_def
  by (induction ds rule: rev_induct) (auto simp: hex_val_digit)

lemma dec_small: "n < 10 \<Longrightarrow> dec n = [digit_char n]"
  by (subst dec.simps) simp

lemma length_dec_255: "n \<le> 255 \<Longrightarrow> length (dec n) \<le> 3"
proof -
  assume "n \<le> 255"
  then have "n div 10 div 10 < 10" by simp
  then show ?thesis
    by (subst dec.simps, subst dec.simps, subst dec.simps) simp
qed

lemma dec_radix_digit: "c \<in> set (dec n) \<Longrightarrow> radix_digit 10 c"
  by (drule dec_digits) (rule radix_digit_digit)

lemma takeWhile_dec:
  "r = [] \<or> \<not> radix_digit 10 (hd r) \<Longrightarrow>
   takeWhile (radix_digit 10) (dec n @ r) = dec n \<and> dropWhile (radix_digit 10) (dec n @ r) = r"
  by (cases r) (auto simp: takeWhile_append2 dropWhile_append2 dec_radix_digit)

lemma read_number_dec:
  assumes "n \<le> 255" and "r = [] \<or> \<not> radix_digit 10 (hd r)"
  shows "read_number 10 3 False 255 (dec n @ r) = Some (n, r)"
proof -
  have "\<not> (hd (dec n) = CHR ''0'' \<and> length (dec n) > 1)"
    using dec_hd_nonzero [of n] by (cases "n = 0") (auto simp: dec_small)
  moreover have "radix_value 10 (dec n) = n"
    by (subst radix_value_digits) (auto dest: dec_digits)
  ultimately show ?thesis
    using assms(1) length_dec_255 [OF assms(1)] takeWhile_dec [OF assms(2), of n]
    by (auto simp: read_number_def Let_def)
qed

lemma octet_le: "octet a i \<le> 255"
  by (simp add: octet_def less_Suc_eq_le [symmetric])

lemma dot_not_digit: "\<not> radix_digit 10 CHR ''.''"
  by (simp add: radix_digit_def hex_val_def is_digit_def)

lemma read_octets_first:
  "n \<le> 255 \<Longrightarrow> read_octets 0 (Suc k) (dec n @ CHR ''.'' # r) =
     map_option (\<lambda>(vs, r'). (n # vs, r')) (read_octets 1 k (CHR ''.'' # r))"
  by (simp add: read_separator_def read_number_dec dot_not_digit)

lemma read_octets_next:
  "n \<le> 255 \<Longrightarrow> 0 < i \<Longrightarrow> read_octets i (Suc k) (CHR ''.'' # dec n @ CHR ''.'' # r) =
     map_option (\<lambda>(vs, r'). (n # vs, r')) (read_octets (Suc i) k (CHR ''.'' # r))"
  by (simp add: read_separator_def read_number_dec dot_not_digit)

lemma read_octets_last:
  "n \<le> 255 \<Longrightarrow> 0 < i \<Longrightarrow> read_octets i (Suc 0) (CHR ''.'' # dec n) = Some ([n], [])"
  using read_number_dec [of n "[]"] by (simp add: read_separator_def)

lemma read_octets_show: "read_octets 0 4 (show_v4 a) =
  Some ([octet a 0, octet a 1, octet a 2, octet a 3], [])"
proof -
  have "read_octets 0 (Suc (Suc (Suc (Suc 0)))) (show_v4 a) =
    Some ([octet a 0, octet a 1, octet a 2, octet a 3], [])"
    unfolding show_v4_def
    by (simp add: read_octets_first read_octets_next read_octets_last octet_le
        del: read_octets.simps)
  moreover have "(4::nat) = Suc (Suc (Suc (Suc 0)))" by simp
  ultimately show ?thesis by (simp only:)
qed

lemma base256: "(x div 256) * 256 + x mod 256 = (x :: nat)"
  by simp

lemma octets_value:
  "v4_of_octets [octet a 0, octet a 1, octet a 2, octet a 3] = a"
proof -
  define n where "n = unat a"
  have "n < 256 ^ 4" using unsigned_less [of a] by (simp add: n_def)
  then have top: "n div 16777216 mod 256 = n div 16777216" by simp
  have d: "n div 65536 = n div 256 div 256" "n div 16777216 = n div 256 div 256 div 256"
    by (simp_all flip: div_mult2_eq)
  have "((n div 16777216 * 256 + n div 65536 mod 256) * 256 + n div 256 mod 256) * 256 + n mod 256 = n"
    unfolding d by (simp only: base256)
  with top have "((octet a 0 * 256 + octet a 1) * 256 + octet a 2) * 256 + octet a 3 = n"
    by (simp add: octet_def n_def)
  then have "v4_of_octets [octet a 0, octet a 1, octet a 2, octet a 3] = of_nat n"
    by simp
  then show ?thesis by (simp add: n_def)
qed

lemma read_ipv4_show: "read_ipv4 (show_v4 a) = Some (a, [])"
  unfolding read_ipv4_def read_octets_show using octets_value [of a] by simp

lemma parse_ip_show_v4: "parse_ip (show_ip (V4 a)) = Some (V4 a)"
  by (simp add: parse_ip_def read_ipv4_show)

lemma show_v4_ascii: "c \<in> set (show_v4 a) \<Longrightarrow> is_ascii c"
  by (auto simp: show_v4_def is_ascii_def dest!: dec_digits digit_ascii)

lemma digit_char_ascii: "n < 16 \<Longrightarrow> is_ascii (digit_char n)"
  by (drule less_16_cases, elim disjE, drule less_10_cases)
     (auto simp: digit_char_def is_ascii_def)

lemma hex_ascii: "c \<in> set (hex n) \<Longrightarrow> is_ascii c"
proof (induction n rule: hex.induct)
  case (1 n)
  then show ?case
    by (subst (asm) (2) hex.simps) (auto simp: digit_char_ascii split: if_splits)
qed

lemma join_hex_ascii: "c \<in> set (join_hex ss) \<Longrightarrow> is_ascii c"
  by (induction ss rule: join_hex.induct) (auto dest: hex_ascii simp: is_ascii_def)

lemma show_ip_ascii: "c \<in> set (show_ip a) \<Longrightarrow> is_ascii c"
  by (cases a)
     (auto simp: show_v6_def Let_def is_ascii_def
       dest!: show_v4_ascii [unfolded is_ascii_def] join_hex_ascii [unfolded is_ascii_def]
       split: if_splits prod.splits)

lemma valid_utf8_show_ip [utf8_intros]: "valid_utf8 (show_ip a)"
  by (rule valid_utf8_ascii) (auto dest: show_ip_ascii)

end
