(* ===== verification/Render_Text.thy ===== *)
theory Render_Text
  imports Json_Text Ip_Address
begin

text \<open>
  The text the renderers of \<^verbatim>\<open>src/target_modules/render.rs\<close> are made of: JSON strings, percent
  encoding, and the appending of pieces to a \<^verbatim>\<open>String\<close>. A renderer is its text or the way it
  ends early: a panic (\<open>json_string\<close> expects UTF-8) or a returned error. \<open>renders x ts\<close> says
  that a renderer succeeds with a text of the tokens \<open>ts\<close>.
\<close>

datatype 'e render_failure = Panics | Returns 'e

type_synonym ('e, 'a) rendered = "'e render_failure + 'a"

named_theorems renders_intros \<open>the tokens of a rendered text, by its construction\<close>

section \<open>Appending\<close>

abbreviation lit :: "bytes \<Rightarrow> ('e, bytes) rendered" where
  "lit \<equiv> Inr"

fun cat :: "('e, bytes) rendered list \<Rightarrow> ('e, bytes) rendered" where
  "cat [] = lit []"
| "cat (x # xs) = bind_res x (\<lambda>a. bind_res (cat xs) (\<lambda>b. lit (a @ b)))"

text \<open>The loops that push a comma in front of every element but the first.\<close>

fun commas :: "('e, bytes) rendered list \<Rightarrow> ('e, bytes) rendered" where
  "commas [] = lit []"
| "commas (x # xs) = cat (x # concat (map (\<lambda>y. [lit '','', y]) xs))"

definition optional :: "bool \<Rightarrow> ('e, bytes) rendered \<Rightarrow> ('e, bytes) rendered" where
  "optional b x = (if b then x else lit [])"

definition if_some :: "'a option \<Rightarrow> ('a \<Rightarrow> ('e, bytes) rendered) \<Rightarrow> ('e, bytes) rendered" where
  "if_some x f = (case x of None \<Rightarrow> lit [] | Some y \<Rightarrow> f y)"

text \<open>\<^verbatim>\<open>"Key":\<close> and \<^verbatim>\<open>,"Key":\<close> as they stand in the code.\<close>

definition quoted :: "bytes \<Rightarrow> bytes" where
  "quoted k = [CHR 0x22] @ k @ [CHR 0x22]"

definition key :: "bytes \<Rightarrow> ('e, bytes) rendered" where
  "key k = lit (quoted k @ '':'')"

definition next_key :: "bytes \<Rightarrow> ('e, bytes) rendered" where
  "next_key k = lit ('','' @ quoted k @ '':'')"

definition bool_text :: "bool \<Rightarrow> bytes" where
  "bool_text b = (if b then ''true'' else ''false'')"

section \<open>JSON strings and percent encoding\<close>

definition hex_pad4 :: "nat \<Rightarrow> bytes" where
  "hex_pad4 n = replicate (4 - length (hex n)) (CHR ''0'') @ hex n"

text \<open>One character, as its UTF-8 bytes.\<close>

definition escape_char :: "bytes \<Rightarrow> bytes" where
  "escape_char c =
     (if c = [CHR 0x22] then [CHR 0x5C, CHR 0x22]
      else if c = [CHR 0x5C] then [CHR 0x5C, CHR 0x5C]
      else if c = [CHR 0x0A] then [CHR 0x5C, CHR ''n'']
      else if c = [CHR 0x0D] then [CHR 0x5C, CHR ''r'']
      else if c = [CHR 0x09] then [CHR 0x5C, CHR ''t'']
      else if codepoint c \<le> 31 then [CHR 0x5C, CHR ''u''] @ hex_pad4 (codepoint c)
      else c)"

definition json_string :: "bytes \<Rightarrow> ('e, bytes) rendered" where
  "json_string b =
     (case utf8_chars b of
        None \<Rightarrow> Inl Panics
      | Some cs \<Rightarrow> lit ([CHR 0x22] @ concat (map escape_char cs) @ [CHR 0x22]))"

definition json_strings :: "bytes list \<Rightarrow> ('e, bytes) rendered" where
  "json_strings bs = commas (map json_string bs)"

text \<open>The loop over keys and values, shared by labels, options and sysctls.\<close>

definition json_pairs :: "(bytes \<times> bytes) list \<Rightarrow> ('e, bytes) rendered" where
  "json_pairs kvs = commas (map (\<lambda>(k, v). cat [json_string k, lit '':'', json_string v]) kvs)"

definition hex2 :: "char \<Rightarrow> bytes" where
  "hex2 c = [digit_char (byte_val c div 16), digit_char (byte_val c mod 16)]"

definition upper_hex2 :: "char \<Rightarrow> bytes" where
  "upper_hex2 c = [upper_digit_char (byte_val c div 16), upper_digit_char (byte_val c mod 16)]"

definition unreserved :: "char \<Rightarrow> bool" where
  "unreserved c \<longleftrightarrow> is_alnum c \<or> c \<in> {CHR ''-'', CHR ''_'', CHR ''.'', CHR ''~''}"

definition percent_encode :: "bytes \<Rightarrow> bytes" where
  "percent_encode b = concat (map (\<lambda>c. if unreserved c then [c] else ''%'' @ upper_hex2 c) b)"

text \<open>What a server reads from a percent-encoded name (RFC 3986).\<close>

fun percent_decode :: "bytes \<Rightarrow> bytes option" where
  "percent_decode [] = Some []"
| "percent_decode (c # s) =
     (if c = CHR ''%'' then
        (case s of
           a # b # r \<Rightarrow>
             (case (hex_val a, hex_val b) of
                (Some i, Some j) \<Rightarrow> map_option ((#) (char_of (i * 16 + j))) (percent_decode r)
              | _ \<Rightarrow> None)
         | _ \<Rightarrow> None)
      else map_option ((#) c) (percent_decode s))"

section \<open>Escaping is undone by reading\<close>

lemma utf8_next_codepoint:
  "utf8_next s = Some (c, r) \<Longrightarrow> codepoint c \<le> 31 \<Longrightarrow> \<exists>a. c = [a] \<and> byte_val a \<le> 31"
proof (cases s)
  case (Cons a t)
  assume n: "utf8_next s = Some (c, r)" and small: "codepoint c \<le> 31"
  consider "c = [a]" | b where "c = [a, b]" "194 \<le> byte_val a" "is_cont b"
    | b d where "c = [a, b, d]" "second3_ok a b" "is_cont d" "224 \<le> byte_val a"
    | b d e where "c = [a, b, d, e]" "second4_ok a b" "is_cont d" "is_cont e" "240 \<le> byte_val a"
    using n Cons by (auto simp: utf8_next.simps(2) split: if_splits list.splits)
  then show ?thesis
  proof cases
    case 2
    have "2 * 64 \<le> (byte_val a - 192) * 64"
      using 2(2) by (intro mult_le_mono1) linarith
    with small 2(1) show ?thesis by simp
  next
    case 3
    have "1 * 4096 \<le> (byte_val a - 224) * 4096 \<or> 32 * 64 \<le> (byte_val b - 128) * 64"
      using 3(2,4) unfolding second3_ok_def by linarith
    with small 3(1) show ?thesis by auto
  next
    case 4
    have "1 * 262144 \<le> (byte_val a - 240) * 262144 \<or> 16 * 4096 \<le> (byte_val b - 128) * 4096"
      using 4(2,5) unfolding second4_ok_def by linarith
    with small 4(1) show ?thesis by auto
  qed (use small in simp)
qed simp

lemma hex_small: "n < 16 \<Longrightarrow> hex n = [digit_char n]"
  by (subst hex.simps) simp

lemma hex_pad4_small: "n \<le> 31 \<Longrightarrow> hex_pad4 n = ''00'' @ [digit_char (n div 16), digit_char (n mod 16)]"
proof (cases "n < 16")
  case True
  then have "n div 16 = 0" "n mod 16 = n" by simp_all
  moreover have "replicate 3 (CHR ''0'') = ''000''" "digit_char 0 = CHR ''0''"
    by (simp_all add: numeral_3_eq_3 digit_char_def)
  ultimately show ?thesis using True by (simp add: hex_pad4_def hex_small)
next
  case False
  assume "n \<le> 31"
  then have d: "n div 16 < 16" by linarith
  have "hex n = hex (n div 16) @ [digit_char (n mod 16)]"
    using False by (subst hex.simps) simp
  then have "hex n = [digit_char (n div 16), digit_char (n mod 16)]"
    by (simp add: hex_small [OF d])
  moreover have "replicate 2 (CHR ''0'') = ''00''" by (simp add: numeral_2_eq_2)
  ultimately show ?thesis by (simp add: hex_pad4_def)
qed

lemma lex_char_escaped: "unescape e = Some x \<Longrightarrow> e \<noteq> CHR ''u'' \<Longrightarrow> lex_char (CHR 0x5C # e # r) = Some (x, r)"
  by (simp add: lex_char_def)

lemma lex_char_control:
  assumes "byte_val a \<le> 31"
  shows "lex_char ([CHR 0x5C, CHR ''u''] @ hex_pad4 (byte_val a) @ r) = Some (a, r)"
proof -
  have "byte_val a div 16 < 16" "byte_val a mod 16 < 16" using assms by simp_all
  then have "hex4 (CHR ''0'') (CHR ''0'') (digit_char (byte_val a div 16)) (digit_char (byte_val a mod 16))
      = Some (byte_val a)"
    by (simp add: hex4_def hex_val_digit_char) (simp add: hex_val_def is_digit_def)
  moreover have "char_of (byte_val a) = a" by simp
  ultimately show ?thesis
    using assms by (simp add: lex_char_def lex_unicode_def hex_pad4_small)
qed

lemma lex_string_raw:
  "\<forall>x \<in> set c. 32 \<le> byte_val x \<and> x \<noteq> CHR 0x22 \<and> x \<noteq> CHR 0x5C \<Longrightarrow>
   lex_string (c @ r) = map_option (\<lambda>(b, r'). (c @ b, r')) (lex_string r)"
proof (induction c)
  case Nil
  then show ?case by (cases "lex_string r") auto
next
  case (Cons x c)
  then show ?case
    by (simp add: lex_string_step [OF lex_char_plain] option.map_comp comp_def case_prod_beta)
qed

lemma lex_string_one:
  "(\<And>r. lex_char (e @ r) = Some (x, r)) \<Longrightarrow>
   lex_string (e @ r) = map_option (\<lambda>(b, r'). (x # b, r')) (lex_string r)"
  by (simp add: lex_string_step)

lemma lex_string_escape:
  assumes "utf8_next s = Some (c, t)"
  shows "lex_string (escape_char c @ r) = map_option (\<lambda>(b, r'). (c @ b, r')) (lex_string r)"
proof (cases "codepoint c \<le> 31")
  case True
  then obtain a where a: "c = [a]" "byte_val a \<le> 31" using utf8_next_codepoint [OF assms] by blast
  then have ne: "a \<noteq> CHR 0x22" "a \<noteq> CHR 0x5C" by auto
  consider "a = CHR 0x0A" | "a = CHR 0x0D" | "a = CHR 0x09"
    | "escape_char c = [CHR 0x5C, CHR ''u''] @ hex_pad4 (byte_val a)"
    using a ne by (cases "a = CHR 0x0A"; cases "a = CHR 0x0D"; cases "a = CHR 0x09")
      (simp_all add: escape_char_def)
  then show ?thesis
  proof cases
    case 4
    then show ?thesis
      using lex_string_one [of "escape_char c" a] lex_char_control [OF a(2)] a(1) by simp
  qed (use a lex_string_one [of "escape_char c" a]
      in \<open>simp_all add: escape_char_def lex_char_escaped unescape_def\<close>)
next
  case False
  then consider "c = [CHR 0x22]" | "c = [CHR 0x5C]" | "escape_char c = c" "c \<noteq> [CHR 0x22]" "c \<noteq> [CHR 0x5C]"
  proof -
    have "escape_char c = c" if "c \<noteq> [CHR 0x22]" "c \<noteq> [CHR 0x5C]"
      using that False by (auto simp: escape_char_def)
    with that show thesis by blast
  qed
  then show ?thesis
  proof cases
    case 3
    have "\<forall>x \<in> set c. 32 \<le> byte_val x \<and> x \<noteq> CHR 0x22 \<and> x \<noteq> CHR 0x5C"
      using utf8_next_bytes [OF assms] False 3(2,3) by (fastforce simp: is_ascii_def)
    with 3(1) show ?thesis by (simp add: lex_string_raw)
  qed (use lex_string_one [of "escape_char c" "hd c"]
      in \<open>simp_all add: escape_char_def lex_char_escaped unescape_def\<close>)
qed

lemma lex_string_escaped:
  "utf8_chars s = Some cs \<Longrightarrow>
   lex_string (concat (map escape_char cs) @ CHR 0x22 # r) = Some (s, r)"
proof (induction cs arbitrary: s)
  case Nil
  then have "s = []" by (auto elim: utf8_chars_Some_cases)
  then show ?case by (simp add: lex_string_quote)
next
  case (Cons c cs)
  then obtain t where t: "utf8_next s = Some (c, t)" "utf8_chars t = Some cs"
    by (auto elim: utf8_chars_Some_cases)
  with Cons.IH [OF t(2)] lex_string_escape [OF t(1)] utf8_next_append [OF t(1)]
  show ?case by simp
qed

lemma hex_line: "CHR 0x0A \<notin> set (hex n)"
proof (induction n rule: hex.induct)
  case (1 n)
  have "CHR 0x0A \<noteq> digit_char k" if "k < 16" for k
  proof
    assume "CHR 0x0A = digit_char k"
    with hex_val_digit_char [OF that] have "hex_val (CHR 0x0A) = Some k" by simp
    then show False by (simp add: hex_val_def is_digit_def)
  qed
  with 1 show ?case by (subst hex.simps) auto
qed

lemma escape_char_utf8:
  assumes "utf8_next s = Some (c, t)"
  shows "valid_utf8 (escape_char c)"
proof (cases "escape_char c = c")
  case True
  have "utf8_next (c @ []) = Some (c, [])"
    using assms by (cases s) (auto simp: utf8_next.simps(2) split: if_splits list.splits)
  then show ?thesis using True by (simp add: valid_utf8_def utf8_chars_Cons)
next
  case False
  have "\<forall>x \<in> set (hex_pad4 n). is_ascii x" for n
    by (auto simp: hex_pad4_def is_ascii_def dest: hex_ascii [unfolded is_ascii_def])
  with False show ?thesis
    by (intro valid_utf8_ascii) (auto simp: escape_char_def is_ascii_def split: if_splits)
qed

lemma escaped_utf8: "utf8_chars s = Some cs \<Longrightarrow> valid_utf8 (concat (map escape_char cs))"
proof (induction cs arbitrary: s)
  case (Cons c cs)
  then obtain t where "utf8_next s = Some (c, t)" "utf8_chars t = Some cs"
    by (auto elim: utf8_chars_Some_cases)
  with Cons.IH show ?case by (simp add: valid_utf8_append escape_char_utf8)
qed simp

lemma escape_char_line:
  assumes "utf8_next s = Some (c, t)"
  shows "CHR 0x0A \<notin> set (escape_char c)"
proof (cases "escape_char c = c")
  case True
  with utf8_next_bytes [OF assms] show ?thesis
    by (auto simp: escape_char_def is_ascii_def split: if_splits)
next
  case False
  have "CHR 0x0A \<notin> set (hex_pad4 n)" for n
    using hex_line by (auto simp: hex_pad4_def)
  with False show ?thesis by (auto simp: escape_char_def split: if_splits)
qed

lemma escaped_line: "utf8_chars s = Some cs \<Longrightarrow> CHR 0x0A \<notin> set (concat (map escape_char cs))"
proof (induction cs arbitrary: s)
  case (Cons c cs)
  then obtain t where "utf8_next s = Some (c, t)" "utf8_chars t = Some cs"
    by (auto elim: utf8_chars_Some_cases)
  with Cons.IH escape_char_line show ?case by simp
qed simp

lemma lexes_json_string:
  assumes "valid_utf8 b"
  shows "\<exists>s. json_string b = Inr s \<and> lexes s [TString b]"
proof -
  obtain cs where cs: "utf8_chars b = Some cs" using assms by (auto simp: valid_utf8_def)
  with lexes_quoted_Some [OF escaped_utf8 escaped_line lex_string_escaped] show ?thesis
    by (simp add: json_string_def)
qed

section \<open>The tokens of a rendered text\<close>

definition renders :: "('e, bytes) rendered \<Rightarrow> token list \<Rightarrow> bool" where
  "renders x ts \<longleftrightarrow> (\<exists>s. x = Inr s \<and> lexes s ts)"

lemma renders_eq: "renders x us \<Longrightarrow> us = ts \<Longrightarrow> renders x ts"
  by simp

lemma renders_lit [renders_intros]: "renders (lit []) []"
  by (simp add: renders_def lexes_Nil)

lemma renders_punct [renders_intros]:
  "is_punct c \<Longrightarrow> renders (lit s) ts \<Longrightarrow> renders (lit (c # s)) (TPunct c # ts)"
  using lexes_append [OF lexes_punct] by (fastforce simp: renders_def)

lemma renders_space [renders_intros]:
  "is_punct c \<Longrightarrow> renders (lit s) ts \<Longrightarrow> renders (lit (CHR '' '' # c # s)) (TPunct c # ts)"
  using lexes_append [OF lexes_space [OF lexes_punct [of c]]] by (fastforce simp: renders_def)

lemma renders_cat_Nil [renders_intros]: "renders (cat []) []"
  by (simp add: renders_lit)

lemma renders_cat_Cons [renders_intros]:
  "renders x ts \<Longrightarrow> renders (cat xs) us \<Longrightarrow> renders (cat (x # xs)) (ts @ us)"
  by (auto simp: renders_def lexes_append)

lemma renders_json_string [renders_intros]: "valid_utf8 b \<Longrightarrow> renders (json_string b) [TString b]"
  using lexes_json_string by (simp add: renders_def)

lemma lexes_key: "list_all plain_char k \<Longrightarrow> lexes (quoted k @ '':'') [TString k, colon]"
  using lexes_append [OF lexes_plain lexes_punct [of "CHR '':''"]]
  by (simp add: quoted_def is_punct_def)

lemma renders_key [renders_intros]:
  "list_all plain_char k \<Longrightarrow> renders (key k) [TString k, colon]"
  by (simp add: key_def renders_def lexes_key)

lemma renders_next_key [renders_intros]:
  "list_all plain_char k \<Longrightarrow> renders (next_key k) [comma, TString k, colon]"
  using lexes_append [OF lexes_punct [of "CHR '',''"] lexes_key]
  by (simp add: next_key_def renders_def is_punct_def)

lemma renders_quoted [renders_intros]:
  "list_all plain_char k \<Longrightarrow> renders (lit (quoted k)) [TString k]"
  using lexes_plain by (simp add: renders_def quoted_def)

lemma renders_dec [renders_intros]: "renders (lit (dec n)) (num_tokens (int n))"
  by (simp add: renders_def lexes_dec)

lemma renders_dec_int [renders_intros]: "renders (lit (dec_int i)) (num_tokens i)"
  by (simp add: renders_def lexes_dec_int)

lemma renders_bool [renders_intros]: "renders (lit (bool_text b)) [TBool b]"
  using lexes_true lexes_false by (simp add: renders_def bool_text_def)

lemma renders_optional [renders_intros]:
  "(b \<Longrightarrow> renders x ts) \<Longrightarrow> renders (optional b x) (if b then ts else [])"
  by (simp add: optional_def renders_lit)

lemma renders_if_some [renders_intros]:
  "(\<And>y. x = Some y \<Longrightarrow> renders (f y) (g y)) \<Longrightarrow>
   renders (if_some x f) (case x of None \<Rightarrow> [] | Some y \<Rightarrow> g y)"
  by (cases x) (simp_all add: if_some_def renders_lit)

lemma renders_commas:
  "list_all2 renders xs tss \<Longrightarrow> renders (commas xs) (separated tss)"
proof (induction xs arbitrary: tss)
  case Nil
  then show ?case by (simp add: renders_lit)
next
  case (Cons x xs)
  then obtain ts us where tss: "tss = ts # us" and x: "renders x ts" and xs: "list_all2 renders xs us"
    by (auto simp: list_all2_Cons1)
  from xs have "renders (cat (concat (map (\<lambda>y. [lit '','', y]) xs))) (concat (map ((#) comma) us))"
  proof (induction rule: list_all2_induct)
    case Nil
    then show ?case by (simp add: renders_lit)
  next
    case (Cons y ys t ts)
    have "renders (lit '','') [comma]"
      using renders_punct [OF _ renders_lit, of "CHR '',''"] by (simp add: is_punct_def)
    from renders_cat_Cons [OF this renders_cat_Cons [OF Cons(1,3)]] show ?case
      by (simp only: concat.simps list.map append_Cons append_Nil)
  qed
  moreover have "separated (ts # us) = ts @ concat (map ((#) comma) us)"
  proof (induction us arbitrary: ts)
    case (Cons u us)
    then show ?case using separated_Cons [of "u # us" ts] by simp
  qed simp
  ultimately show ?case using renders_cat_Cons [OF x] tss by (simp del: cat.simps)
qed

lemma renders_commas_map [renders_intros]:
  "(\<And>x. x \<in> set xs \<Longrightarrow> renders (f x) (g x)) \<Longrightarrow> renders (commas (map f xs)) (separated (map g xs))"
  by (rule renders_commas) (auto simp: list_all2_conv_all_nth)

lemma renders_json_strings [renders_intros]:
  "list_all valid_utf8 bs \<Longrightarrow>
   renders (json_strings bs) (separated (map (\<lambda>b. [TString b]) bs))"
  unfolding json_strings_def
  by (rule renders_commas_map) (auto simp: list_all_iff intro: renders_json_string)

lemma renders_json_pairs [renders_intros]:
  assumes "list_all (\<lambda>(k, v). valid_utf8 k \<and> valid_utf8 v) kvs"
  shows "renders (json_pairs kvs) (separated (map (\<lambda>(k, v). [TString k, colon, TString v]) kvs))"
  unfolding json_pairs_def
proof (rule renders_commas_map)
  fix kv
  assume "kv \<in> set kvs"
  then obtain k v where kv: "kv = (k, v)" "valid_utf8 k" "valid_utf8 v"
    using assms by (cases kv) (auto simp: list_all_iff)
  have "renders (cat [json_string k, lit '':'', json_string v]) ([TString k] @ [colon] @ [TString v] @ [])"
    using kv(2,3) by (intro renders_intros) (simp_all add: is_punct_def)
  then show "renders (case kv of (k, v) \<Rightarrow> cat [json_string k, lit '':'', json_string v])
      (case kv of (k, v) \<Rightarrow> [TString k, colon, TString v])"
    using kv(1) by (simp del: cat.simps)
qed

lemma renders_parse: "renders x (json_tokens j) \<Longrightarrow> \<exists>s. x = Inr s \<and> parse_json s = Some j"
  using lexes_parse by (auto simp: renders_def)

section \<open>Documents\<close>

text \<open>The members of an object after its first, and the documents of the two shared loops.\<close>

definition member_tokens :: "bytes \<times> json \<Rightarrow> token list" where
  "member_tokens m = TString (fst m) # colon # json_tokens (snd m)"

definition tail_tokens :: "(bytes \<times> json) list \<Rightarrow> token list" where
  "tail_tokens ms = concat (map (\<lambda>m. comma # member_tokens m) ms)"

lemma tail_tokens_simps:
  "tail_tokens [] = []" "tail_tokens (m # ms) = comma # member_tokens m @ tail_tokens ms"
  "tail_tokens (ms @ ns) = tail_tokens ms @ tail_tokens ns"
  by (simp_all add: tail_tokens_def)

lemma separated_members: "separated (map member_tokens (m # ms)) = member_tokens m @ tail_tokens ms"
proof (induction ms arbitrary: m)
  case (Cons n ms)
  then show ?case using separated_Cons [of "map member_tokens (n # ms)" "member_tokens m"]
    by (simp add: tail_tokens_simps)
qed (simp add: tail_tokens_simps)

lemma object_tokens:
  "json_tokens (JObject ms) = open_object # separated (map member_tokens ms) @ [close_object]"
proof -
  have "(\<lambda>(k, j). TString k # colon # json_tokens j) = member_tokens"
    by (simp add: fun_eq_iff member_tokens_def)
  then show ?thesis by simp
qed

lemma object_tokens_Cons:
  "json_tokens (JObject (m # ms)) = open_object # member_tokens m @ tail_tokens ms @ [close_object]"
  unfolding object_tokens separated_members by simp

declare json_tokens.simps(5) [simp del]

definition strings_doc :: "bytes list \<Rightarrow> json" where
  "strings_doc bs = JArray (map JString bs)"

definition pairs_doc :: "(bytes \<times> bytes) list \<Rightarrow> json" where
  "pairs_doc kvs = JObject (map (\<lambda>(k, v). (k, JString v)) kvs)"

lemma strings_doc_tokens:
  "json_tokens (strings_doc bs) = open_array # separated (map (\<lambda>b. [TString b]) bs) @ [close_array]"
  by (simp add: strings_doc_def comp_def)

lemma pairs_doc_tokens:
  "json_tokens (pairs_doc kvs) =
   open_object # separated (map (\<lambda>(k, v). [TString k, colon, TString v]) kvs) @ [close_object]"
proof -
  have "member_tokens \<circ> (\<lambda>(k, v). (k, JString v)) = (\<lambda>(k, v). [TString k, colon, TString v])"
    by (simp add: fun_eq_iff member_tokens_def)
  then show ?thesis by (simp add: pairs_doc_def object_tokens)
qed

text \<open>A member that is there under a condition, or for a value.\<close>

definition member_if :: "bool \<Rightarrow> bytes \<Rightarrow> json \<Rightarrow> (bytes \<times> json) list" where
  "member_if b k j = (if b then [(k, j)] else [])"

definition member_of :: "bytes \<Rightarrow> ('a \<Rightarrow> json) \<Rightarrow> 'a option \<Rightarrow> (bytes \<times> json) list" where
  "member_of k f x = (case x of None \<Rightarrow> [] | Some y \<Rightarrow> [(k, f y)])"

lemma member_if_tokens:
  "tail_tokens (member_if b k j) = (if b then comma # TString k # colon # json_tokens j else [])"
  by (simp add: member_if_def tail_tokens_simps member_tokens_def)

lemma member_of_tokens:
  "tail_tokens (member_of k f x) =
   (case x of None \<Rightarrow> [] | Some y \<Rightarrow> comma # TString k # colon # json_tokens (f y))"
  by (simp add: member_of_def tail_tokens_simps member_tokens_def split: option.split)

lemmas doc_simps = tail_tokens_simps member_if_tokens member_of_tokens strings_doc_tokens
  pairs_doc_tokens object_tokens_Cons member_tokens_def

section \<open>Percent encoding\<close>

lemma byte_nibbles: "hex_val (upper_digit_char (byte_val c div 16)) = Some (byte_val c div 16)"
  "hex_val (upper_digit_char (byte_val c mod 16)) = Some (byte_val c mod 16)"
proof -
  have "byte_val c div 16 < 16" using byte_val_less [of c] by linarith
  then show "hex_val (upper_digit_char (byte_val c div 16)) = Some (byte_val c div 16)"
    by (rule hex_val_upper_digit_char)
qed (simp add: hex_val_upper_digit_char)

lemma percent_decode_encode: "percent_decode (percent_encode b) = Some b"
proof (induction b)
  case Nil
  then show ?case by (simp add: percent_encode_def)
next
  case (Cons c b)
  have "char_of (byte_val c div 16 * 16 + byte_val c mod 16) = c"
    by (simp only: div_mult_mod_eq char_of_char)
  moreover have "\<not> unreserved (CHR ''%'')" by (simp add: unreserved_def char_class_defs)
  ultimately show ?case
    using Cons by (auto simp: percent_encode_def upper_hex2_def byte_nibbles)
qed

lemma percent_encode_unreserved: "list_all unreserved b \<Longrightarrow> percent_encode b = b"
  by (induction b) (simp_all add: percent_encode_def)

end
