(* ===== verification/Observations.thy ===== *)
theory Observations
  imports Rust_Prelude
begin

text \<open>
  \<^verbatim>\<open>src/observation.rs\<close>, \<^verbatim>\<open>src/finding.rs\<close> and \<^verbatim>\<open>src/resource_support.rs\<close>: local resource
  references, the closed field paths of findings, availability and origin of an observed field,
  and the assessment of a daemon's memory and swap reports within one observation. The values
  behind an observation are a parameter of its type; a protected value is its bytes.
\<close>

datatype resource_ref = ResourceRef (local_index: u64)

type_synonym protected_value = bytes

datatype field_path =
  FContainerName | FImage | FUser | FWorkingDirectory | FHostname | FCommand | FEntrypoint
| FEnvironment nat | FLabel nat | FMount nat | FPort nat | FNetwork nat | FNetworkMode
| FVolume nat | FHealthcheck | FRestartPolicy | FResourceLimit | FSecuritySetting
| FNameResolution | FRuntimeMount | FDevice | FLogging | FStopBehavior | FNetworkIpam
| FNetworkOption | FNetworkAddress | FEngineRelease | FApiVersion | FDaemonMode | FOther

datatype availability = Missing | Null | EmptyValue | Present | Redacted

datatype origin = Configured | Effective | RuntimeAssigned | UnknownOrigin

datatype bind_relabel = SharedRelabel | PrivateRelabel

section \<open>Findings\<close>

datatype severity = Info | Warning | Error

datatype finding_code =
  MissingField | NullField | RedactedField | UnsupportedValue | LimitExceeded | NativeConflict
| CapabilityUnknown

record finding =
  finding_severity :: severity
  finding_code :: finding_code
  finding_resource :: "resource_ref option"
  finding_field :: "field_path option"

section \<open>Observed fields\<close>

text \<open>\<open>ObservedField\<close>: the value is private, so only the four constructors below make one.\<close>

record observed_field =
  of_resource :: resource_ref
  of_field :: field_path
  of_availability :: availability
  of_origin :: origin
  of_value :: "protected_value option"

definition without_value ::
  "resource_ref \<Rightarrow> field_path \<Rightarrow> availability \<Rightarrow> origin \<Rightarrow> observed_field" where
  "without_value r f a orig =
     \<lparr>of_resource = r, of_field = f, of_availability = a, of_origin = orig, of_value = None\<rparr>"

definition field_missing :: "resource_ref \<Rightarrow> field_path \<Rightarrow> origin \<Rightarrow> observed_field" where
  "field_missing r f orig = without_value r f Missing orig"

definition field_null :: "resource_ref \<Rightarrow> field_path \<Rightarrow> origin \<Rightarrow> observed_field" where
  "field_null r f orig = without_value r f Null orig"

definition field_redacted :: "resource_ref \<Rightarrow> field_path \<Rightarrow> origin \<Rightarrow> observed_field" where
  "field_redacted r f orig = without_value r f Redacted orig"

definition field_present ::
  "resource_ref \<Rightarrow> field_path \<Rightarrow> origin \<Rightarrow> protected_value \<Rightarrow> observed_field" where
  "field_present r f orig v =
     \<lparr>of_resource = r, of_field = f,
      of_availability = (if v = [] then EmptyValue else Present),
      of_origin = orig, of_value = Some v\<rparr>"

text \<open>
  What the four constructors keep: an observed field carries a value exactly when it is empty or
  present, and it is called empty exactly when that value has no bytes.
\<close>

definition wf_observed_field :: "observed_field \<Rightarrow> bool" where
  "wf_observed_field f \<longleftrightarrow>
     (case of_value f of
        None \<Rightarrow> of_availability f \<in> {Missing, Null, Redacted}
      | Some v \<Rightarrow> of_availability f = (if v = [] then EmptyValue else Present))"

lemma observed_field_wf [simp]:
  "wf_observed_field (field_missing r f orig)" "wf_observed_field (field_null r f orig)"
  "wf_observed_field (field_redacted r f orig)" "wf_observed_field (field_present r f orig v)"
  by (simp_all add: wf_observed_field_def field_missing_def field_null_def field_redacted_def
      field_present_def without_value_def)

text \<open>\<open>Observed\<close>: one decoded native field with its value.\<close>

record 'a observed =
  obs_availability :: availability
  obs_origin :: origin
  obs_value :: "'a option"

definition unavailable :: "availability \<Rightarrow> origin \<Rightarrow> 'a observed" where
  "unavailable a orig = \<lparr>obs_availability = a, obs_origin = orig, obs_value = None\<rparr>"

definition present :: "'a \<Rightarrow> availability \<Rightarrow> origin \<Rightarrow> 'a observed" where
  "present v a orig = \<lparr>obs_availability = a, obs_origin = orig, obs_value = Some v\<rparr>"

lemma observed_simps [simp]:
  "obs_availability (unavailable a orig) = a" "obs_origin (unavailable a orig) = orig"
  "obs_value (unavailable a orig) = None"
  "obs_availability (present v a orig) = a" "obs_origin (present v a orig) = orig"
  "obs_value (present v a orig) = Some v"
  by (simp_all add: unavailable_def present_def)

section \<open>Observation identities\<close>

text \<open>
  \<open>ObservationId::fresh\<close> of \<^verbatim>\<open>src/version.rs\<close>: the process-wide atomic counter is a state
  argument. \<^verbatim>\<open>fetch_update\<close> with \<^verbatim>\<open>checked_add\<close> stores the successor and returns the old
  value, or leaves the counter alone and fails when the successor would overflow.
\<close>

datatype observation_id = ObservationId (observation_counter: u64)

datatype observation_id_error = Exhausted

definition initial_observation_counter :: u64 where
  "initial_observation_counter = 1"

definition checked_add_one :: "u64 \<Rightarrow> u64 option" where
  "checked_add_one n = (if n = - 1 then None else Some (n + 1))"

definition fresh :: "u64 \<Rightarrow> (observation_id_error + observation_id) \<times> u64" where
  "fresh next =
     (case checked_add_one next of
        None \<Rightarrow> (Inl Exhausted, next)
      | Some next' \<Rightarrow> (Inr (ObservationId next), next'))"

text \<open>A process makes any number of calls, one after the other (each call is one atomic update).\<close>

fun fresh_n :: "nat \<Rightarrow> u64 \<Rightarrow> (observation_id_error + observation_id) list" where
  "fresh_n 0 next = []"
| "fresh_n (Suc n) next = (let (r, next') = fresh next in r # fresh_n n next')"

lemma unat_Suc_word: "w \<noteq> - 1 \<Longrightarrow> unat (w + 1 :: 'a::len word) = Suc (unat w)"
proof -
  assume "w \<noteq> - 1"
  then have "1 + w \<noteq> 0" by (metis add.commute add_eq_0_iff)
  then show ?thesis by (simp add: unatSuc add.commute [of w])
qed

lemma fresh_cases:
  obtains (exhausted) "next = - 1" "fresh next = (Inl Exhausted, - 1)"
  | (id) "next \<noteq> - 1" "fresh next = (Inr (ObservationId next), next + 1)"
    "unat (next + 1) = Suc (unat next)"
  by (cases "next = - 1") (auto simp: fresh_def checked_add_one_def unat_Suc_word)

lemma fresh_n_bounds:
  "Inr (ObservationId i) \<in> set (fresh_n n next) \<Longrightarrow> unat next \<le> unat i \<and> i \<noteq> - 1"
proof (induction n arbitrary: "next")
  case 0
  then show ?case by simp
next
  case (Suc n)
  show ?case by (cases "next" rule: fresh_cases) (use Suc in \<open>auto dest: Suc.IH\<close>)
qed

lemma fresh_n_distinct:
  "distinct (filter (\<lambda>r. r \<noteq> Inl Exhausted) (fresh_n n next))"
proof (induction n arbitrary: "next")
  case 0
  then show ?case by simp
next
  case (Suc n)
  show ?case
  proof (cases "next" rule: fresh_cases)
    case exhausted
    then show ?thesis using Suc by simp
  next
    case id
    then have "Inr (ObservationId next) \<notin> set (fresh_n n (next + 1))"
      using fresh_n_bounds [of "next" n "next + 1"] by fastforce
    then show ?thesis using Suc id by simp
  qed
qed

section \<open>Resource support\<close>

record resource_support_observation =
  rs_observation_id :: observation_id
  rs_memory_limit :: "bool observed"
  rs_swap_limit :: "bool observed"

datatype reported_resource_support =
  ReportedUnavailable | ReportedAvailableUnverified | UnknownSupport

record resource_support_assessment =
  ra_memory_limit :: reported_resource_support
  ra_swap_limit :: reported_resource_support

datatype resource_support_error = ObservationScopeMismatch

definition assess_report :: "bool observed \<Rightarrow> reported_resource_support" where
  "assess_report r =
     (if obs_availability r \<noteq> Present \<or> obs_origin r \<noteq> Effective then UnknownSupport
      else case obs_value r of
        Some b \<Rightarrow> (if b then ReportedAvailableUnverified else ReportedUnavailable)
      | None \<Rightarrow> UnknownSupport)"

definition assess_support ::
  "resource_support_observation \<Rightarrow> observation_id
   \<Rightarrow> resource_support_error + resource_support_assessment" where
  "assess_support s i =
     (if rs_observation_id s \<noteq> i then Inl ObservationScopeMismatch
      else Inr \<lparr>ra_memory_limit = assess_report (rs_memory_limit s),
                ra_swap_limit = assess_report (rs_swap_limit s)\<rparr>)"

text \<open>The three-valued reading of a report: the boolean the daemon effectively reported, if any.\<close>

definition effective_report :: "bool observed \<Rightarrow> bool option" where
  "effective_report r =
     (if obs_availability r = Present \<and> obs_origin r = Effective then obs_value r else None)"

fun support_report :: "reported_resource_support \<Rightarrow> bool option" where
  "support_report ReportedUnavailable = Some False"
| "support_report ReportedAvailableUnverified = Some True"
| "support_report UnknownSupport = None"

lemma support_report_assess [simp]: "support_report (assess_report r) = effective_report r"
  by (auto simp: assess_report_def effective_report_def split: option.splits)

lemma assess_report_eq_iff:
  "assess_report r = s \<longleftrightarrow> effective_report r = support_report s"
  by (cases s) (auto simp: assess_report_def effective_report_def split: option.splits)

section \<open>Properties\<close>

text \<open>C4: observation identities are never reused: however many calls a process makes, the
  identities it gets are pairwise distinct, nonzero, and below the maximum of the counter, so the
  counter never wraps; once it is at the maximum every call fails.\<close>

theorem observation_ids_never_reused:
  "distinct (filter (\<lambda>r. r \<noteq> Inl Exhausted) (fresh_n n initial_observation_counter))
   \<and> Inr (ObservationId 0) \<notin> set (fresh_n n initial_observation_counter)
   \<and> Inr (ObservationId (- 1)) \<notin> set (fresh_n n initial_observation_counter)
   \<and> fresh (- 1) = (Inl Exhausted, - 1)"
  using fresh_n_bounds [of 0 n initial_observation_counter]
    fresh_n_bounds [of "- 1" n initial_observation_counter]
  by (auto simp: fresh_n_distinct initial_observation_counter_def fresh_def checked_add_one_def)

text \<open>An assessment is given only within the matching observation, and then it reports
  exactly the booleans the daemon effectively reported: anything missing, null, redacted, valueless
  or not effective is unknown, independently for memory and swap.\<close>

theorem assess_support_effective:
  "assess_support s i = Inr a \<longleftrightarrow> rs_observation_id s = i
   \<and> support_report (ra_memory_limit a) = effective_report (rs_memory_limit s)
   \<and> support_report (ra_swap_limit a) = effective_report (rs_swap_limit s)"
  by (cases a) (auto simp: assess_support_def assess_report_eq_iff)

end
