(* ===== verification/Networks.thy ===== *)
theory Networks
  imports Ip_Address Observations
begin

text \<open>
  \<^verbatim>\<open>src/target_modules/network.rs\<close>: authored bridge networks, subnets and endpoints, with the
  shared \<open>IntentError\<close> of \<^verbatim>\<open>intent.rs\<close> and \<open>TargetIdentity\<close>. The subnet operations keep the
  32 and 128 bit masks of the code; the lemmas read them as intervals of addresses.
\<close>

datatype intent_error =
  Empty | DuplicateResource | UnsupportedOrchestration | InvalidIdentity | InvalidImage
| InvalidEnvironment | InvalidArgument | CommandClearRequiresEntrypoint | InvalidMount
| InvalidHealthcheck | InvalidRestart | DuplicatePort | InvalidPort | DuplicateMount
| InvalidContainerLabel | DuplicateContainerLabel | InvalidContainerUser
| InvalidWorkingDirectory | InvalidContainerHostname | InvalidContainerSetting
| DuplicateContainerSetting | InvalidNetworkDriver | DuplicateNetworkOption
| InvalidNetworkOption | DuplicateNetworkLabel | InvalidNetworkLabel | InvalidNetworkAddress
| DuplicateNetworkAddress | InvalidNetworkSubnet | InvalidNetworkIpam | InvalidNetworkAlias
| DuplicateNetworkAlias | DuplicateNetworkAttachment | DuplicateDefaultNetwork
| InvalidNetworkAttachment | InvalidVolumeLabel | DuplicateVolumeLabel

section \<open>Identities and aliases\<close>

text \<open>\<open>valid_identity\<close> and the test of \<open>NetworkAlias::new\<close> read the same.\<close>

definition name_byte :: "char \<Rightarrow> bool" where
  "name_byte c \<longleftrightarrow> is_alnum c \<or> c = CHR ''_'' \<or> c = CHR ''-'' \<or> c = CHR ''.''"

fun valid_identity :: "bytes \<Rightarrow> bool" where
  "valid_identity [] = False"
| "valid_identity (c # cs) = (is_alnum c \<and> list_all name_byte cs)"

datatype target_identity = TargetIdentity (identity_bytes: bytes)

definition target_identity_new :: "bytes \<Rightarrow> intent_error + target_identity" where
  "target_identity_new b =
     (if \<not> valid_identity b then Inl InvalidIdentity else Inr (TargetIdentity b))"

datatype network_alias = NetworkAlias (alias_bytes: bytes)

definition network_alias_new :: "bytes \<Rightarrow> intent_error + network_alias" where
  "network_alias_new b =
     (if \<not> (case b of [] \<Rightarrow> False | c # _ \<Rightarrow> is_alnum c) \<or> \<not> list_all name_byte (drop 1 b)
      then Inl InvalidNetworkAlias else Inr (NetworkAlias b))"

section \<open>Addresses and subnets\<close>

datatype network_address = NetworkAddress (address_value: ip_addr)

definition network_address_new :: "bytes \<Rightarrow> intent_error + network_address" where
  "network_address_new text =
     (case parse_ip text of None \<Rightarrow> Inl InvalidNetworkAddress | Some a \<Rightarrow> Inr (NetworkAddress a))"

definition is_ipv6 :: "network_address \<Rightarrow> bool" where
  "is_ipv6 a = is_v6 (address_value a)"

text \<open>
  \<^verbatim>\<open>uN::MAX.checked_shl(k).unwrap_or(0)\<close> and \<^verbatim>\<open>uN::MAX.checked_shr(k).unwrap_or(uN::MAX)\<close>:
  a shift by the width or more is \<open>None\<close>.
\<close>

definition shl_max :: "nat \<Rightarrow> 'a::len word" where
  "shl_max k = (if k < LENGTH('a) then push_bit k (- 1) else 0)"

definition shr_max :: "nat \<Rightarrow> 'a::len word" where
  "shr_max k = (if k < LENGTH('a) then drop_bit k (- 1) else - 1)"

record network_subnet =
  subnet_address :: network_address
  subnet_prefix :: u8

text \<open>
  The code computes \<^verbatim>\<open>32 - u32::from(prefix)\<close>; it cannot underflow because the constructor
  refuses a longer prefix first (\<open>network_subnet_new_Inr\<close>), so natural subtraction is exact.
\<close>

fun address_is_network :: "ip_addr \<Rightarrow> u8 \<Rightarrow> bool" where
  "address_is_network (V4 v) prefix = (v AND NOT (shl_max (32 - unat prefix)) = 0)"
| "address_is_network (V6 v) prefix = (v AND NOT (shl_max (128 - unat prefix)) = 0)"

definition address_bits :: "network_address \<Rightarrow> nat" where
  "address_bits a = (if is_ipv6 a then 128 else 32)"

definition network_subnet_new :: "network_address \<Rightarrow> u8 \<Rightarrow> intent_error + network_subnet" where
  "network_subnet_new a prefix =
     (let bits = address_bits a in
      if unat prefix > bits \<or> \<not> address_is_network (address_value a) prefix
      then Inl InvalidNetworkSubnet
      else Inr \<lparr>subnet_address = a, subnet_prefix = prefix\<rparr>)"

definition subnet_contains :: "network_subnet \<Rightarrow> network_address \<Rightarrow> bool" where
  "subnet_contains s a =
     (case (address_value (subnet_address s), address_value a) of
        (V4 base, V4 v) \<Rightarrow>
          (let m = shl_max (32 - unat (subnet_prefix s)) in base AND m = v AND m)
      | (V6 base, V6 v) \<Rightarrow>
          (let m = shl_max (128 - unat (subnet_prefix s)) in base AND m = v AND m)
      | _ \<Rightarrow> False)"

definition contains_usable_host :: "network_subnet \<Rightarrow> network_address \<Rightarrow> bool" where
  "contains_usable_host s a =
     (if \<not> subnet_contains s a then False
      else case (address_value (subnet_address s), address_value a) of
        (V4 base, V4 v) \<Rightarrow>
          (if unat (subnet_prefix s) \<le> 30 then
             (let host_mask = shr_max (unat (subnet_prefix s)) in v \<noteq> base \<and> v \<noteq> base OR host_mask)
           else True)
      | (V6 base, V6 v) \<Rightarrow> v \<noteq> base
      | _ \<Rightarrow> False)"

definition subnet_overlaps :: "network_subnet \<Rightarrow> network_subnet \<Rightarrow> bool" where
  "subnet_overlaps s t \<longleftrightarrow>
     subnet_contains s (subnet_address t) \<or> subnet_contains t (subnet_address s)"

section \<open>Networks\<close>

datatype network_role = Declared | ApplicationDefault

datatype network_driver = Bridge | Host | Overlay | Macvlan

text \<open>Only the reviewed bridge-driver options have typed branches.\<close>

datatype bridge_option =
  Mtu u32
| InterContainerCommunication bool
| IpMasquerade bool
| HostBindingIp network_address

datatype network_label = NetworkLabel (network_label_key: bytes) (network_label_value: bytes)

definition network_label_new :: "bytes \<Rightarrow> bytes \<Rightarrow> intent_error + network_label" where
  "network_label_new k v =
     (if k = [] \<or> NUL \<in> set k \<or> NUL \<in> set v \<or> \<not> valid_utf8 k \<or> \<not> valid_utf8 v
      then Inl InvalidNetworkLabel else Inr (NetworkLabel k v))"

record network_aux_address =
  aux_name :: network_alias
  aux_address :: network_address

record network_ipam_pool =
  pool_subnet :: network_subnet
  pool_gateway :: "network_address option"
  pool_ip_range :: "network_subnet option"
  pool_auxiliary :: "network_aux_address list"

datatype network_ipam_driver = DefaultIpam

record network_ipam =
  ipam_driver :: "network_ipam_driver option"
  ipam_pools :: "network_ipam_pool list"

record network_create =
  create_driver :: network_driver
  create_internal :: bool
  create_enable_ipv6 :: bool
  create_ipam :: "network_ipam option"
  create_options :: "bridge_option list"
  create_labels :: "network_label list"

definition network_create_bridge :: network_create where
  "network_create_bridge =
     \<lparr>create_driver = Bridge, create_internal = False, create_enable_ipv6 = False,
      create_ipam = None, create_options = [], create_labels = []\<rparr>"

datatype network_source =
  CreateNetwork network_create
| ExternalNetwork (expected_driver: network_driver) (expected_internal: "bool option")

record network_intent =
  network_reference :: resource_ref
  network_identity :: target_identity
  network_role :: network_role
  network_source :: network_source

record network_attachment =
  attachment_network :: resource_ref
  attachment_aliases :: "network_alias list"
  attachment_ipv4 :: "network_address option"
  attachment_ipv6 :: "network_address option"

section \<open>Subnets as intervals of addresses\<close>

lemma bit_shl_max: "bit (shl_max k :: 'a::len word) i \<longleftrightarrow> k \<le> i \<and> i < LENGTH('a)"
  by (auto simp: shl_max_def bit_simps)

lemma and_shl_max_eq_iff:
  "x AND shl_max k = y AND shl_max k \<longleftrightarrow> drop_bit k x = drop_bit k (y :: 'a::len word)"
  (is "?l \<longleftrightarrow> ?r")
proof
  assume ?l
  then have "bit x (k + i) \<longleftrightarrow> bit y (k + i)" if "k + i < LENGTH('a)" for i
    using that by (auto simp: bit_eq_iff bit_simps bit_shl_max)
  then show ?r by (auto simp: bit_eq_iff bit_simps dest: bit_imp_le_length)
next
  assume r: ?r
  have "bit x i \<longleftrightarrow> bit y i" if "k \<le> i" for i
  proof -
    from r have "bit (drop_bit k x) (i - k) \<longleftrightarrow> bit (drop_bit k y) (i - k)" by simp
    with that show ?thesis by (simp add: bit_simps)
  qed
  then show ?l by (auto simp: bit_eq_iff bit_simps bit_shl_max)
qed

lemma and_not_shl_max: "x AND NOT (shl_max k) = take_bit k (x :: 'a::len word)"
  by (auto simp: bit_eq_iff bit_simps bit_shl_max dest: bit_imp_le_length)

lemma and_shl_max_unat:
  "x AND shl_max k = y AND shl_max k \<longleftrightarrow> unat x div 2 ^ k = unat (y :: 'a::len word) div 2 ^ k"
  unfolding and_shl_max_eq_iff
    word_eq_iff_unsigned [where ?'a = nat and v = "drop_bit k x" and w = "drop_bit k y"]
  unfolding unat_drop_bit_eq by (simp add: drop_bit_eq_div)

lemma unat_take_bit_mod: "unat (take_bit k (x :: 'a::len word)) = unat x mod 2 ^ k"
  unfolding unsigned_take_bit_eq by (rule take_bit_eq_mod)

lemma and_not_shl_max_unat:
  "x AND NOT (shl_max k) = 0 \<longleftrightarrow> unat (x :: 'a::len word) mod 2 ^ k = 0"
  unfolding and_not_shl_max by (metis unat_take_bit_mod unat_0_iff)

lemma shr_max_mask: "k < LENGTH('a) \<Longrightarrow> (shr_max k :: 'a::len word) = mask (LENGTH('a) - k)"
  by (rule bit_word_eqI) (auto simp: shr_max_def bit_simps)

lemma unat_mask: "k \<le> LENGTH('a) \<Longrightarrow> unat (mask k :: 'a::len word) = 2 ^ k - 1"
proof -
  assume k: "k \<le> LENGTH('a)"
  have "unat (mask k :: 'a word) = unat (of_nat (mask k) :: 'a word)"
    by (simp only: of_nat_mask_eq)
  also have "\<dots> = take_bit LENGTH('a) (mask k)" by (simp only: unsigned_of_nat of_nat_id)
  also have "\<dots> = mask k" using k by (simp add: min_absorb2)
  also have "\<dots> = 2 ^ k - 1" by (rule mask_eq_exp_minus_1)
  finally show ?thesis .
qed

lemma or_mask_unat:
  assumes "unat x mod 2 ^ k = 0" and "k \<le> LENGTH('a)"
  shows "unat (x OR mask k) = unat (x :: 'a::len word) + (2 ^ k - 1)"
proof -
  have "take_bit k x = 0" using assms(1) by (metis unat_take_bit_mod unat_0_iff)
  then have "x AND mask k = 0" by (simp only: take_bit_eq_mask)
  then have "unat x AND unat (mask k :: 'a word) = 0"
    by (metis unsigned_and_eq unsigned_0)
  then have "unat (x OR mask k) = unat x + unat (mask k :: 'a word)"
    by (simp only: unsigned_or_eq disjunctive_add_eq_or)
  then show ?thesis using assms(2) by (simp add: unat_mask)
qed

text \<open>The specification side: an address as a number, and the interval a subnet stands for.\<close>

fun ip_nat :: "ip_addr \<Rightarrow> nat" where
  "ip_nat (V4 a) = unat a"
| "ip_nat (V6 a) = unat a"

abbreviation addr_nat :: "network_address \<Rightarrow> nat" where
  "addr_nat a \<equiv> ip_nat (address_value a)"

definition subnet_low :: "network_subnet \<Rightarrow> nat" where
  "subnet_low s = addr_nat (subnet_address s)"

definition subnet_size :: "network_subnet \<Rightarrow> nat" where
  "subnet_size s = 2 ^ (address_bits (subnet_address s) - unat (subnet_prefix s))"

definition wf_subnet :: "network_subnet \<Rightarrow> bool" where
  "wf_subnet s \<longleftrightarrow> unat (subnet_prefix s) \<le> address_bits (subnet_address s)
     \<and> subnet_low s mod subnet_size s = 0"

lemma address_is_network_iff:
  "address_is_network (address_value a) p \<longleftrightarrow>
   addr_nat a mod 2 ^ (address_bits a - unat p) = 0"
  by (cases "address_value a") (simp_all add: and_not_shl_max_unat address_bits_def is_ipv6_def)

lemma network_subnet_new_Inr:
  "network_subnet_new a p = Inr s \<longleftrightarrow> s = \<lparr>subnet_address = a, subnet_prefix = p\<rparr> \<and> wf_subnet s"
  by (auto simp: network_subnet_new_def Let_def address_is_network_iff wf_subnet_def
      subnet_low_def subnet_size_def)

lemma network_subnet_new_Inl:
  "network_subnet_new a p = Inl e \<longleftrightarrow>
   e = InvalidNetworkSubnet \<and> \<not> wf_subnet \<lparr>subnet_address = a, subnet_prefix = p\<rparr>"
  by (auto simp: network_subnet_new_def Let_def address_is_network_iff wf_subnet_def
      subnet_low_def subnet_size_def)

lemma ip_nat_bound: "addr_nat a < 2 ^ address_bits a"
proof (cases "address_value a")
  case (V4 v)
  then show ?thesis using unsigned_less [of v] by (simp add: address_bits_def is_ipv6_def)
next
  case (V6 v)
  then show ?thesis using unsigned_less [of v] by (simp add: address_bits_def is_ipv6_def)
qed

lemma aligned_div_eq_iff:
  assumes "b mod d = 0" and "0 < (d :: nat)"
  shows "b div d = x div d \<longleftrightarrow> b \<le> x \<and> x < b + d"
proof -
  from assms(1) obtain q where q: "b = d * q" by (auto simp: mod_eq_0_iff_dvd dvd_def)
  have "x div d = q \<longleftrightarrow> d * q \<le> x \<and> x < d * q + d"
    using assms(2) by (auto simp: div_nat_eqI mult.commute dividend_less_times_div
        intro: div_nat_eqI) (metis add.commute dividend_less_times_div mult.commute)
  with q assms(2) show ?thesis by auto
qed

lemma subnet_contains_div:
  "subnet_contains s a \<longleftrightarrow> is_ipv6 (subnet_address s) = is_ipv6 a \<and>
   subnet_low s div subnet_size s = addr_nat a div subnet_size s"
  by (cases "address_value (subnet_address s)"; cases "address_value a")
     (auto simp: subnet_contains_def Let_def and_shl_max_unat subnet_low_def subnet_size_def
       address_bits_def is_ipv6_def)

lemma subnet_contains_interval:
  "wf_subnet s \<Longrightarrow> subnet_contains s a \<longleftrightarrow>
   is_ipv6 (subnet_address s) = is_ipv6 a \<and>
   subnet_low s \<le> addr_nat a \<and> addr_nat a < subnet_low s + subnet_size s"
  using aligned_div_eq_iff [of "subnet_low s" "subnet_size s" "addr_nat a"]
  by (simp add: subnet_contains_div wf_subnet_def subnet_size_def)

definition subnet_broadcast :: "network_subnet \<Rightarrow> nat" where
  "subnet_broadcast s = subnet_low s + subnet_size s - 1"

lemma word_neq_unat: "(v :: 'a::len word) \<noteq> w \<longleftrightarrow> unat v \<noteq> unat w"
  by (simp add: word_unat_eq_iff)

lemma v4_broadcast:
  assumes "wf_subnet s" and "address_value (subnet_address s) = V4 base"
    and "unat (subnet_prefix s) \<le> 30"
  shows "v \<noteq> base OR shr_max (unat (subnet_prefix s)) \<longleftrightarrow> unat v \<noteq> subnet_broadcast s"
proof -
  let ?k = "32 - unat (subnet_prefix s)"
  have "unat base mod 2 ^ ?k = 0"
    using assms(1,2)
    by (simp add: wf_subnet_def subnet_low_def subnet_size_def address_bits_def is_ipv6_def)
  moreover have "(shr_max (unat (subnet_prefix s)) :: u32) = mask ?k"
    using assms(3) by (simp add: shr_max_mask)
  ultimately have "unat (base OR shr_max (unat (subnet_prefix s))) = unat base + (2 ^ ?k - 1)"
    by (simp add: or_mask_unat)
  then show ?thesis
    using assms(2)
    by (simp add: word_neq_unat subnet_broadcast_def subnet_low_def subnet_size_def
        address_bits_def is_ipv6_def)
qed

lemma contains_usable_host_interval:
  assumes "wf_subnet s"
  shows "contains_usable_host s a \<longleftrightarrow>
    subnet_contains s a \<and>
    (is_ipv6 a \<longrightarrow> addr_nat a \<noteq> subnet_low s) \<and>
    (\<not> is_ipv6 a \<and> unat (subnet_prefix s) \<le> 30 \<longrightarrow>
       addr_nat a \<noteq> subnet_low s \<and> addr_nat a \<noteq> subnet_broadcast s)"
proof (cases "subnet_contains s a")
  case False
  then show ?thesis by (simp add: contains_usable_host_def)
next
  case True
  then have fam: "is_ipv6 (subnet_address s) = is_ipv6 a" by (simp add: subnet_contains_div)
  show ?thesis
  proof (cases "address_value (subnet_address s)")
    case base: (V4 base)
    with fam obtain v where v: "address_value a = V4 v"
      by (cases "address_value a") (auto simp: is_ipv6_def)
    show ?thesis
      using True base v v4_broadcast [OF assms base, of v]
      by (simp add: contains_usable_host_def is_ipv6_def subnet_low_def Let_def word_neq_unat)
  next
    case base: (V6 base)
    with fam obtain v where v: "address_value a = V6 v"
      by (cases "address_value a") (auto simp: is_ipv6_def)
    show ?thesis
      using True base v
      by (simp add: contains_usable_host_def is_ipv6_def subnet_low_def word_neq_unat)
  qed
qed

lemma subnet_contains_self: "subnet_contains s (subnet_address s)"
  by (simp add: subnet_contains_div subnet_low_def)

lemma div_coarser:
  "x div 2 ^ j = y div 2 ^ j \<Longrightarrow> j \<le> i \<Longrightarrow> x div 2 ^ i = y div (2 :: nat) ^ i"
proof -
  assume eq: "x div 2 ^ j = y div 2 ^ j" and le: "j \<le> i"
  from le have "(2 :: nat) ^ i = 2 ^ j * 2 ^ (i - j)" by (simp flip: power_add)
  with eq show ?thesis by (simp add: div_mult2_eq)
qed

lemma subnet_contains_wider:
  assumes "subnet_contains s a" and "subnet_contains t a"
    and "unat (subnet_prefix s) \<le> unat (subnet_prefix t)"
  shows "subnet_contains s (subnet_address t)"
proof -
  from assms(1,2) have fam: "is_ipv6 (subnet_address s) = is_ipv6 a"
    "is_ipv6 (subnet_address t) = is_ipv6 a" by (simp_all add: subnet_contains_div)
  then have "address_bits (subnet_address s) = address_bits (subnet_address t)"
    by (simp add: address_bits_def)
  with assms(2,3) have "subnet_low t div subnet_size s = addr_nat a div subnet_size s"
    unfolding subnet_contains_div subnet_size_def by (auto elim!: div_coarser)
  with assms(1) fam show ?thesis by (simp add: subnet_contains_div subnet_low_def)
qed

lemma subnet_overlaps_iff:
  "subnet_overlaps s t \<longleftrightarrow> (\<exists>a. subnet_contains s a \<and> subnet_contains t a)"
proof
  assume "subnet_overlaps s t"
  then show "\<exists>a. subnet_contains s a \<and> subnet_contains t a"
    using subnet_contains_self by (auto simp: subnet_overlaps_def)
next
  assume "\<exists>a. subnet_contains s a \<and> subnet_contains t a"
  then obtain a where a: "subnet_contains s a" "subnet_contains t a" by blast
  show "subnet_overlaps s t"
  proof (cases "unat (subnet_prefix s) \<le> unat (subnet_prefix t)")
    case True
    with a show ?thesis by (simp add: subnet_overlaps_def subnet_contains_wider)
  next
    case False
    then have "unat (subnet_prefix t) \<le> unat (subnet_prefix s)" by simp
    with a(2,1) show ?thesis by (simp add: subnet_overlaps_def subnet_contains_wider)
  qed
qed

lemma network_subnet_new_eq:
  "network_subnet_new a p =
     (if unat p \<le> address_bits a \<and> addr_nat a mod 2 ^ (address_bits a - unat p) = 0
      then Inr \<lparr>subnet_address = a, subnet_prefix = p\<rparr> else Inl InvalidNetworkSubnet)"
  by (auto simp: network_subnet_new_def Let_def address_is_network_iff)

section \<open>Properties\<close>

text \<open>\<open>NetworkSubnet::new\<close> accepts exactly the address and prefix pairs whose prefix fits the
  family and whose host bits are all zero, read as numbers: the address is a multiple of the
  subnet's size. The subnet it returns holds the two arguments, and the only error is
  \<open>InvalidNetworkSubnet\<close>.\<close>

theorem subnet_new_accepts_aligned:
  "network_subnet_new a p =
     (if unat p \<le> address_bits a \<and> addr_nat a mod 2 ^ (address_bits a - unat p) = 0
      then Inr \<lparr>subnet_address = a, subnet_prefix = p\<rparr> else Inl InvalidNetworkSubnet)"
  by (rule network_subnet_new_eq)

text \<open>C1: a constructed subnet contains exactly the addresses of its family in the interval of
  \<open>2 ^ (bits - prefix)\<close> addresses from its base, so the masks of \<open>contains\<close>, with the shift by
  the full width at prefix 0 included, are right on every prefix.\<close>

theorem subnet_contains_is_interval:
  assumes "network_subnet_new base p = Inr s"
  shows "subnet_contains s a \<longleftrightarrow> is_ipv6 base = is_ipv6 a \<and> addr_nat base \<le> addr_nat a
    \<and> addr_nat a < addr_nat base + 2 ^ (address_bits base - unat p)"
proof -
  from assms have s: "s = \<lparr>subnet_address = base, subnet_prefix = p\<rparr>" "wf_subnet s"
    by (auto simp: network_subnet_new_Inr)
  show ?thesis
    by (subst subnet_contains_interval [OF s(2)]) (simp add: s(1) subnet_low_def subnet_size_def)
qed

theorem subnet_contains_is_interval_witness:
  "subnet_contains \<lparr>subnet_address = NetworkAddress (V4 0xC0A80100), subnet_prefix = 24\<rparr>
     (NetworkAddress (V4 0xC0A801FF))
   \<and> \<not> subnet_contains \<lparr>subnet_address = NetworkAddress (V4 0xC0A80100), subnet_prefix = 24\<rparr>
     (NetworkAddress (V4 0xC0A80200))"
proof -
  have "network_subnet_new (NetworkAddress (V4 0xC0A80100)) 24 =
      Inr \<lparr>subnet_address = NetworkAddress (V4 0xC0A80100), subnet_prefix = 24\<rparr>"
    by (simp add: network_subnet_new_eq address_bits_def is_ipv6_def)
  note subnet_contains_is_interval [OF this]
  then show ?thesis by (simp add: is_ipv6_def address_bits_def)
qed

text \<open>\<open>contains_usable_host\<close> refuses, beside the addresses outside the subnet, exactly the base
  address and the all-ones address of an IPv4 subnet of prefix 30 or shorter, and exactly the
  base address of an IPv6 subnet.\<close>

theorem usable_host_excludes_ends:
  assumes "network_subnet_new base p = Inr s"
  shows "contains_usable_host s a \<longleftrightarrow> subnet_contains s a \<and>
    (if is_ipv6 a then addr_nat a \<noteq> addr_nat base
     else unat p \<le> 30 \<longrightarrow>
       addr_nat a \<noteq> addr_nat base \<and> addr_nat a \<noteq> addr_nat base + 2 ^ (32 - unat p) - 1)"
proof -
  from assms have s: "s = \<lparr>subnet_address = base, subnet_prefix = p\<rparr>" "wf_subnet s"
    by (auto simp: network_subnet_new_Inr)
  have "\<not> is_ipv6 a \<Longrightarrow> subnet_contains s a \<Longrightarrow> address_bits base = 32"
    by (simp add: subnet_contains_div s(1) address_bits_def)
  then show ?thesis
    by (subst contains_usable_host_interval [OF s(2)])
       (auto simp: s(1) subnet_low_def subnet_size_def subnet_broadcast_def)
qed

theorem usable_host_excludes_ends_witness:
  "\<not> contains_usable_host \<lparr>subnet_address = NetworkAddress (V4 0xC0A80100), subnet_prefix = 24\<rparr>
     (NetworkAddress (V4 0xC0A801FF))"
proof -
  have "network_subnet_new (NetworkAddress (V4 0xC0A80100)) 24 =
      Inr \<lparr>subnet_address = NetworkAddress (V4 0xC0A80100), subnet_prefix = 24\<rparr>"
    by (simp add: network_subnet_new_eq address_bits_def is_ipv6_def)
  note usable_host_excludes_ends [OF this]
  then show ?thesis by (simp add: is_ipv6_def)
qed

text \<open>Two subnets overlap in the sense of the code (one contains the base address of the
  other) exactly when they share an address.\<close>

theorem overlaps_iff_common_address:
  "subnet_overlaps s t \<longleftrightarrow> (\<exists>a. subnet_contains s a \<and> subnet_contains t a)"
  by (rule subnet_overlaps_iff)

end
