(* ===== verification/Newtypes.thy ===== *)
theory Newtypes
  imports Networks
begin

text \<open>
  The shape most authored values have: a private field behind a checking constructor. A
  \<open>guarded_value\<close> has a constructor \<open>mk\<close>, the accessor \<open>raw\<close>, the condition \<open>ok\<close> and the one
  error of the constructor; a \<open>text_value\<close> holds texts that end up in JSON strings, so what it
  accepts is UTF-8 without NUL. Labels have a pair as their raw value.
\<close>

locale guarded_value =
  fixes mk :: "'b \<Rightarrow> intent_error + 'a" and raw :: "'a \<Rightarrow> 'b"
    and ok :: "'b \<Rightarrow> bool" and err :: intent_error
  assumes mk_accepts: "ok b \<Longrightarrow> \<exists>x. mk b = Inr x \<and> raw x = b"
    and mk_rejects: "\<not> ok b \<Longrightarrow> mk b = Inl err"
    and raw_inject: "raw x = raw y \<Longrightarrow> x = y"
begin

lemma mk_Inr_iff: "mk b = Inr x \<longleftrightarrow> ok b \<and> raw x = b"
  by (cases "ok b") (auto dest: mk_accepts mk_rejects raw_inject)

lemma mk_Inl_iff: "mk b = Inl e \<longleftrightarrow> \<not> ok b \<and> e = err"
  by (cases "ok b") (auto dest: mk_accepts mk_rejects)

lemma mk_raw: "mk (raw x) = Inr x \<longleftrightarrow> ok (raw x)"
  by (simp add: mk_Inr_iff)

lemma built_ok: "mk b = Inr x \<Longrightarrow> ok (raw x)"
  by (simp add: mk_Inr_iff)

lemma mk_all: "map_res mk bs = Inr xs \<longleftrightarrow> list_all ok bs \<and> map raw xs = bs"
proof (induction bs arbitrary: xs)
  case Nil
  then show ?case by auto
next
  case (Cons b bs)
  then show ?case
    by (cases xs) (auto simp: bind_res_Inr_iff mk_Inr_iff)
qed

end

locale text_value = guarded_value mk raw ok err
  for mk :: "'b \<Rightarrow> intent_error + 'a" and raw :: "'a \<Rightarrow> 'b" and ok and err +
  fixes texts :: "'b \<Rightarrow> bytes list"
  assumes ok_text: "ok b \<Longrightarrow> t \<in> set (texts b) \<Longrightarrow> valid_utf8 t \<and> NUL \<notin> set t"
begin

lemma built_utf8: "mk b = Inr x \<Longrightarrow> t \<in> set (texts (raw x)) \<Longrightarrow> valid_utf8 t \<and> NUL \<notin> set t"
  unfolding mk_Inr_iff by (metis ok_text)

end

text \<open>Names: identities and aliases hold only ASCII letters, digits and three marks.\<close>

lemma name_byte_text: "name_byte c \<Longrightarrow> is_ascii c \<and> c \<noteq> NUL"
  by (auto simp: name_byte_def NUL_def char_class_defs)

lemma valid_identity_iff:
  "valid_identity b \<longleftrightarrow> b \<noteq> [] \<and> is_alnum (hd b) \<and> list_all name_byte b"
  by (cases b) (auto simp: name_byte_def)

lemma valid_identity_text: "valid_identity b \<Longrightarrow> valid_utf8 b \<and> NUL \<notin> set b"
  by (auto simp: valid_identity_iff list_all_iff dest: name_byte_text intro!: valid_utf8_ascii)

lemma network_alias_new_eq:
  "network_alias_new b = (if valid_identity b then Inr (NetworkAlias b) else Inl InvalidNetworkAlias)"
  by (cases b) (auto simp: network_alias_new_def)

interpretation target_identity: text_value target_identity_new identity_bytes valid_identity
  InvalidIdentity "\<lambda>b. [b]"
  by unfold_locales
     (auto simp: target_identity_new_def dest: target_identity.expand valid_identity_text)

interpretation network_alias: text_value network_alias_new alias_bytes valid_identity
  InvalidNetworkAlias "\<lambda>b. [b]"
  by unfold_locales
     (auto simp: network_alias_new_eq dest: network_alias.expand valid_identity_text)

definition label_ok :: "bytes \<times> bytes \<Rightarrow> bool" where
  "label_ok kv \<longleftrightarrow> fst kv \<noteq> [] \<and> NUL \<notin> set (fst kv) \<and> NUL \<notin> set (snd kv)
     \<and> valid_utf8 (fst kv) \<and> valid_utf8 (snd kv)"

lemma label_ok_text:
  "label_ok kv \<Longrightarrow> t \<in> set [fst kv, snd kv] \<Longrightarrow> valid_utf8 t \<and> NUL \<notin> set t"
  by (auto simp: label_ok_def)

interpretation network_label: text_value "case_prod network_label_new"
  "\<lambda>l. (network_label_key l, network_label_value l)" label_ok InvalidNetworkLabel
  "\<lambda>kv. [fst kv, snd kv]"
  by unfold_locales
     (auto simp: network_label_new_def label_ok_def intro: network_label.expand)

end
