(* ===== verification/Containers.thy ===== *)
theory Containers
  imports Newtypes
begin

text \<open>
  \<^verbatim>\<open>src/target_modules/container.rs\<close> and \<^verbatim>\<open>src/target_modules/volume.rs\<close>: the authored values of a
  container and their checking constructors. A \<^verbatim>\<open>NonZero\<close> integer is the word it wraps: no operation
  depends on its being nonzero, which is left to the type of the source.
\<close>

section \<open>Texts\<close>

datatype image_reference = ImageReference (image_bytes: bytes)

definition image_reference_new :: "bytes \<Rightarrow> intent_error + image_reference" where
  "image_reference_new b =
     (case utf8_chars b of
        None \<Rightarrow> Inl InvalidImage
      | Some cs \<Rightarrow>
        if b = [] \<or> list_ex (\<lambda>c. is_unicode_ws (codepoint c)) cs \<or> [NUL] \<in> set cs
           \<or> ''$'' \<in> set cs
        then Inl InvalidImage else Inr (ImageReference b))"

datatype environment_assignment =
  EnvironmentAssignment (environment_key: bytes) (environment_value: bytes)

definition environment_assignment_new ::
  "bytes \<Rightarrow> bytes \<Rightarrow> intent_error + environment_assignment" where
  "environment_assignment_new k v =
     (if k = [] \<or> CHR ''='' \<in> set k \<or> NUL \<in> set k \<or> NUL \<in> set v \<or> \<not> valid_utf8 k \<or> \<not> valid_utf8 v
      then Inl InvalidEnvironment else Inr (EnvironmentAssignment k v))"

datatype argument = Argument (argument_bytes: bytes)

definition argument_new :: "bytes \<Rightarrow> intent_error + argument" where
  "argument_new b =
     (if NUL \<in> set b \<or> \<not> valid_utf8 b then Inl InvalidArgument else Inr (Argument b))"

definition valid_absolute_path :: "bytes \<Rightarrow> bool" where
  "valid_absolute_path b \<longleftrightarrow> take 1 b = ''/'' \<and> NUL \<notin> set b \<and> valid_utf8 b"

definition valid_text :: "bytes \<Rightarrow> bool" where
  "valid_text b \<longleftrightarrow> NUL \<notin> set b \<and> valid_utf8 b"

datatype container_label = ContainerLabel (label_key: bytes) (label_value: bytes)

definition container_label_new :: "bytes \<Rightarrow> bytes \<Rightarrow> intent_error + container_label" where
  "container_label_new k v =
     (if k = [] \<or> \<not> valid_text k \<or> \<not> valid_text v then Inl InvalidContainerLabel
      else Inr (ContainerLabel k v))"

text \<open>
  The numeric branch starts with a digit, so the sign \<^verbatim>\<open>i32\<close> parsing would allow cannot occur and
  the parse is the unsigned one with \<^verbatim>\<open>i32::MAX\<close> as its bound.
\<close>

definition valid_user_principal :: "bytes \<Rightarrow> bool" where
  "valid_user_principal b =
     (case b of
        [] \<Rightarrow> False
      | first # rest \<Rightarrow>
        if is_digit first then
          length b \<le> 10 \<and> (length b = 1 \<or> first \<noteq> CHR ''0'') \<and> list_all is_digit b
          \<and> valid_utf8 b \<and> parse_uint 2147483647 b \<noteq> None
        else length b \<le> 32 \<and> (is_alpha first \<or> first = CHR ''_'')
          \<and> list_all (\<lambda>c. is_alnum c \<or> c = CHR ''_'' \<or> c = CHR ''.'' \<or> c = CHR ''-'') rest)"

datatype container_user = ContainerUser (user_bytes: bytes)

definition container_user_new :: "bytes \<Rightarrow> intent_error + container_user" where
  "container_user_new b =
     (let components = split_on CHR '':'' b;
          valid_user = (case components of [] \<Rightarrow> False | u # _ \<Rightarrow> valid_user_principal u);
          valid_group = (case drop 1 components of [] \<Rightarrow> True | g # _ \<Rightarrow> valid_user_principal g) in
      if \<not> valid_user \<or> \<not> valid_group \<or> drop 2 components \<noteq> [] then Inl InvalidContainerUser
      else Inr (ContainerUser b))"

datatype working_directory = WorkingDirectory (directory_bytes: bytes)

definition working_directory_new :: "bytes \<Rightarrow> intent_error + working_directory" where
  "working_directory_new b =
     (if \<not> valid_absolute_path b then Inl InvalidWorkingDirectory else Inr (WorkingDirectory b))"

datatype container_hostname = ContainerHostname (hostname_bytes: bytes)

definition container_hostname_new :: "bytes \<Rightarrow> intent_error + container_hostname" where
  "container_hostname_new b =
     (if b = [] \<or> \<not> valid_text b \<or> CHR '':'' \<in> set b \<or> list_ex is_ascii_ws b
      then Inl InvalidContainerHostname else Inr (ContainerHostname b))"

datatype container_token = ContainerToken (token_bytes: bytes)

definition container_token_new :: "bytes \<Rightarrow> intent_error + container_token" where
  "container_token_new b =
     (if b = [] \<or> \<not> valid_text b then Inl InvalidContainerSetting else Inr (ContainerToken b))"

datatype volume_label = VolumeLabel (volume_label_key: bytes) (volume_label_value: bytes)

definition max_volume_label_count :: nat where
  "max_volume_label_count = 64"

definition max_volume_label_total_bytes :: nat where
  "max_volume_label_total_bytes = 16 * 1024"

definition max_volume_label_key_bytes :: nat where
  "max_volume_label_key_bytes = 128"

definition max_volume_label_value_bytes :: nat where
  "max_volume_label_value_bytes = 4096"

definition volume_label_new :: "bytes \<Rightarrow> bytes \<Rightarrow> intent_error + volume_label" where
  "volume_label_new k v =
     (if k = [] \<or> length k > max_volume_label_key_bytes \<or> length v > max_volume_label_value_bytes
         \<or> NUL \<in> set k \<or> NUL \<in> set v \<or> \<not> valid_utf8 k \<or> \<not> valid_utf8 v
      then Inl InvalidVolumeLabel else Inr (VolumeLabel k v))"

section \<open>Ports\<close>

datatype protocol = Tcp | Udp

record port_binding =
  pb_host :: u16
  pb_container :: u16
  pb_protocol :: protocol

datatype port_host_ip = Unspecified | Address ip_addr

datatype port_host_port = Fixed u16 | Ephemeral

record host_binding =
  host_ip :: port_host_ip
  host_port :: port_host_port

record port_publication =
  pub_container :: u16
  pub_protocol :: protocol
  pub_bindings :: "host_binding list"

definition port_exposed :: "u16 \<Rightarrow> protocol \<Rightarrow> port_publication" where
  "port_exposed c p = \<lparr>pub_container = c, pub_protocol = p, pub_bindings = []\<rparr>"

definition port_published ::
  "u16 \<Rightarrow> protocol \<Rightarrow> host_binding list \<Rightarrow> intent_error + port_publication" where
  "port_published c p bs =
     (if bs = [] then Inl InvalidPort
      else Inr \<lparr>pub_container = c, pub_protocol = p, pub_bindings = bs\<rparr>)"

definition port_of_binding :: "port_binding \<Rightarrow> port_publication" where
  "port_of_binding b =
     \<lparr>pub_container = pb_container b, pub_protocol = pb_protocol b,
      pub_bindings = [\<lparr>host_ip = Unspecified, host_port = Fixed (pb_host b)\<rparr>]\<rparr>"

section \<open>Commands and mounts\<close>

datatype image_command = Inherit | Clear | Exec "argument list"

record tmpfs_options =
  tmpfs_size_bytes :: "u64 option"
  tmpfs_mode :: "u32 option"

datatype mount_source = Bind bytes | Volume resource_ref | Tmpfs tmpfs_options

record mount =
  mount_source :: mount_source
  mount_target :: bytes
  mount_read_only :: bool
  mount_relabel :: "bind_relabel option"

definition i64_max :: nat where
  "i64_max = 9223372036854775807"

definition i32_max :: nat where
  "i32_max = 2147483647"

definition option_any :: "('a \<Rightarrow> bool) \<Rightarrow> 'a option \<Rightarrow> bool" where
  "option_any p x = (case x of None \<Rightarrow> False | Some y \<Rightarrow> p y)"

definition mount_bind :: "bytes \<Rightarrow> bytes \<Rightarrow> bool \<Rightarrow> intent_error + mount" where
  "mount_bind source target ro =
     (if \<not> valid_absolute_path source \<or> \<not> valid_absolute_path target then Inl InvalidMount
      else Inr \<lparr>mount_source = Bind source, mount_target = target, mount_read_only = ro,
        mount_relabel = None\<rparr>)"

definition mount_volume :: "resource_ref \<Rightarrow> bytes \<Rightarrow> bool \<Rightarrow> intent_error + mount" where
  "mount_volume source target ro =
     (if \<not> valid_absolute_path target then Inl InvalidMount
      else Inr \<lparr>mount_source = Volume source, mount_target = target, mount_read_only = ro,
        mount_relabel = None\<rparr>)"

definition mount_tmpfs :: "bytes \<Rightarrow> bool \<Rightarrow> tmpfs_options \<Rightarrow> intent_error + mount" where
  "mount_tmpfs target ro options =
     (if \<not> valid_absolute_path target \<or> option_any (\<lambda>m. unat m > 4095) (tmpfs_mode options)
         \<or> option_any (\<lambda>s. unat s > i64_max) (tmpfs_size_bytes options)
      then Inl InvalidMount
      else Inr \<lparr>mount_source = Tmpfs options, mount_target = target, mount_read_only = ro,
        mount_relabel = None\<rparr>)"

definition mount_with_bind_relabel :: "mount \<Rightarrow> bind_relabel \<Rightarrow> intent_error + mount" where
  "mount_with_bind_relabel m r =
     (case mount_source m of
        Bind source \<Rightarrow>
          if mount_relabel m \<noteq> None \<or> CHR '':'' \<in> set source \<or> CHR '':'' \<in> set (mount_target m)
          then Inl InvalidMount else Inr (m\<lparr>mount_relabel := Some r\<rparr>)
      | _ \<Rightarrow> Inl InvalidMount)"

section \<open>Settings\<close>

datatype memory_limit = MemoryUnlimited | MemoryBytes u64

datatype pids_limit = PidsUnlimited | PidsCount u64

datatype ulimit_value = UlimitUnlimited | UlimitValue u64

record ulimit =
  ulimit_name :: container_token
  ulimit_soft :: ulimit_value
  ulimit_hard :: ulimit_value

record extra_host =
  extra_name :: container_hostname
  extra_address :: ip_addr

record device_permissions =
  device_read :: bool
  device_write :: bool
  device_create :: bool

record device_mapping =
  device_host_path :: working_directory
  device_container_path :: working_directory
  device_permissions :: device_permissions

datatype security_option = NoNewPrivileges bool

datatype log_driver = JsonFile | LocalLog | NoLog

record log_config =
  log_driver :: log_driver
  log_options :: "container_label list"

datatype user_namespace_mode = HostNamespace

record container_settings =
  set_labels :: "container_label list"
  set_user :: "container_user option"
  set_working_dir :: "working_directory option"
  set_hostname :: "container_hostname option"
  set_read_only_rootfs :: "bool option"
  set_init :: "bool option"
  set_stop_signal :: "argument option"
  set_stop_timeout :: "u32 option"
  set_memory_limit :: "memory_limit option"
  set_pids_limit :: "pids_limit option"
  set_shm_size :: "u64 option"
  set_ulimits :: "ulimit list"
  set_devices :: "device_mapping list"
  set_cap_add :: "container_token list"
  set_cap_drop :: "container_token list"
  set_security_options :: "security_option list"
  set_sysctls :: "container_label list"
  set_group_add :: "container_user list"
  set_dns :: "ip_addr list"
  set_extra_hosts :: "extra_host list"
  set_log_config :: "log_config option"
  set_userns :: "user_namespace_mode option"

text \<open>\<open>ContainerSettings::default()\<close>: nothing authored.\<close>

definition default_settings :: container_settings where
  "default_settings =
     \<lparr>set_labels = [], set_user = None, set_working_dir = None, set_hostname = None,
      set_read_only_rootfs = None, set_init = None, set_stop_signal = None,
      set_stop_timeout = None, set_memory_limit = None, set_pids_limit = None,
      set_shm_size = None, set_ulimits = [], set_devices = [], set_cap_add = [],
      set_cap_drop = [], set_security_options = [], set_sysctls = [], set_group_add = [],
      set_dns = [], set_extra_hosts = [], set_log_config = None, set_userns = None\<rparr>"

section \<open>Health checks\<close>

datatype health_test = HealthExec "argument list" | HealthShell argument | HealthDisabled

record healthcheck =
  health_test :: health_test
  health_interval :: "u64 option"
  health_timeout :: "u64 option"
  health_retries :: "u32 option"
  health_start_period :: "u64 option"
  health_start_interval :: "u64 option"

definition duration_in_range :: "u64 \<Rightarrow> bool" where
  "duration_in_range n \<longleftrightarrow> 1000000 \<le> unat n \<and> unat n \<le> i64_max"

definition healthcheck_configured ::
  "health_test \<Rightarrow> u64 option \<Rightarrow> u64 option \<Rightarrow> u32 option \<Rightarrow> intent_error + healthcheck" where
  "healthcheck_configured test interval timeout retries =
     (let valid_test =
        (case test of
           HealthExec command \<Rightarrow>
             (case command of [] \<Rightarrow> False | c # _ \<Rightarrow> argument_bytes c \<noteq> [])
         | HealthShell command \<Rightarrow> argument_bytes command \<noteq> []
         | HealthDisabled \<Rightarrow> interval = None \<and> timeout = None \<and> retries = None) in
      if \<not> valid_test \<or> option_any (\<lambda>v. \<not> duration_in_range v) interval
         \<or> option_any (\<lambda>v. \<not> duration_in_range v) timeout
         \<or> option_any (\<lambda>v. unat v > i32_max) retries
      then Inl InvalidHealthcheck
      else Inr \<lparr>health_test = test, health_interval = interval, health_timeout = timeout,
        health_retries = retries, health_start_period = None, health_start_interval = None\<rparr>)"

definition healthcheck_new ::
  "argument list \<Rightarrow> u64 \<Rightarrow> u64 \<Rightarrow> u32 \<Rightarrow> intent_error + healthcheck" where
  "healthcheck_new command interval timeout retries =
     healthcheck_configured (HealthExec command) (Some interval) (Some timeout) (Some retries)"

definition start_duration_rejected :: "health_test \<Rightarrow> u64 \<Rightarrow> bool" where
  "start_duration_rejected test n \<longleftrightarrow>
     test = HealthDisabled \<or> (n \<noteq> 0 \<and> unat n < 1000000) \<or> unat n > i64_max"

definition with_start_period :: "healthcheck \<Rightarrow> u64 \<Rightarrow> intent_error + healthcheck" where
  "with_start_period h n =
     (if start_duration_rejected (health_test h) n then Inl InvalidHealthcheck
      else Inr (h\<lparr>health_start_period := Some n\<rparr>))"

definition with_start_interval :: "healthcheck \<Rightarrow> u64 \<Rightarrow> intent_error + healthcheck" where
  "with_start_interval h n =
     (if start_duration_rejected (health_test h) n then Inl InvalidHealthcheck
      else Inr (h\<lparr>health_start_interval := Some n\<rparr>))"

datatype restart_policy = RestartNo | Always | UnlessStopped | OnFailure (maximum_retries: u32)

section \<open>Container intents\<close>

record container_intent =
  c_reference :: resource_ref
  c_identity :: target_identity
  c_image :: image_reference
  c_environment :: "environment_assignment list"
  c_ports :: "port_publication list"
  c_mounts :: "mount list"
  c_networks :: "network_attachment list"
  c_entrypoint :: image_command
  c_command :: image_command
  c_healthcheck :: "healthcheck option"
  c_restart :: "restart_policy option"
  c_settings :: container_settings

section \<open>What the constructors accept\<close>

definition text_ok :: "bytes \<Rightarrow> bool" where
  "text_ok b \<longleftrightarrow> valid_utf8 b \<and> NUL \<notin> set b"

definition image_ok :: "bytes \<Rightarrow> bool" where
  "image_ok b \<longleftrightarrow> b \<noteq> [] \<and> (\<exists>cs. utf8_chars b = Some cs
     \<and> (\<forall>c \<in> set cs. \<not> is_unicode_ws (codepoint c) \<and> c \<noteq> [NUL] \<and> c \<noteq> ''$''))"

definition environment_ok :: "bytes \<times> bytes \<Rightarrow> bool" where
  "environment_ok kv \<longleftrightarrow> label_ok kv \<and> CHR ''='' \<notin> set (fst kv)"

definition user_ok :: "bytes \<Rightarrow> bool" where
  "user_ok b \<longleftrightarrow>
     (\<exists>u. split_on CHR '':'' b = [u] \<and> valid_user_principal u)
   \<or> (\<exists>u g. split_on CHR '':'' b = [u, g] \<and> valid_user_principal u \<and> valid_user_principal g)"

definition hostname_ok :: "bytes \<Rightarrow> bool" where
  "hostname_ok b \<longleftrightarrow> b \<noteq> [] \<and> text_ok b \<and> CHR '':'' \<notin> set b \<and> (\<forall>c \<in> set b. \<not> is_ascii_ws c)"

definition token_ok :: "bytes \<Rightarrow> bool" where
  "token_ok b \<longleftrightarrow> b \<noteq> [] \<and> text_ok b"

definition volume_label_ok :: "bytes \<times> bytes \<Rightarrow> bool" where
  "volume_label_ok kv \<longleftrightarrow> label_ok kv \<and> length (fst kv) \<le> 128 \<and> length (snd kv) \<le> 4096"

lemma valid_text_iff: "valid_text b \<longleftrightarrow> text_ok b"
  by (auto simp: valid_text_def text_ok_def)

lemma valid_absolute_path_text: "valid_absolute_path b \<Longrightarrow> text_ok b"
  by (simp add: valid_absolute_path_def text_ok_def)

lemma utf8_chars_nul: "utf8_chars b = Some cs \<Longrightarrow> [c] \<notin> set cs \<Longrightarrow> is_ascii c \<Longrightarrow> c \<notin> set b"
proof -
  assume cs: "utf8_chars b = Some cs" and "[c] \<notin> set cs" and "is_ascii c"
  then have "\<forall>d \<in> set cs. c \<notin> set d"
    using utf8_chars_ok [OF cs] by (fastforce simp: char_ok_def)
  then show ?thesis using utf8_chars_concat [OF cs] by auto
qed

lemma image_ok_text: "image_ok b \<Longrightarrow> text_ok b"
proof -
  assume "image_ok b"
  then obtain cs where cs: "utf8_chars b = Some cs" "\<forall>c \<in> set cs. c \<noteq> [NUL]"
    by (auto simp: image_ok_def)
  from cs(2) have "[NUL] \<notin> set cs" by blast
  from utf8_chars_nul [OF cs(1) this] cs(1) show ?thesis
    by (simp add: text_ok_def valid_utf8_def is_ascii_def NUL_def)
qed

lemma principal_ascii: "valid_user_principal b \<Longrightarrow> c \<in> set b \<Longrightarrow> is_ascii c \<and> c \<noteq> NUL"
  by (cases b)
     (auto simp: valid_user_principal_def list_all_iff char_class_defs NUL_def split: if_splits)

lemma split_on_bytes: "c \<in> set b \<Longrightarrow> c \<noteq> d \<Longrightarrow> \<exists>w \<in> set (split_on d b). c \<in> set w"
  by (induction b) (auto split: list.splits)

lemma user_ok_text: "user_ok b \<Longrightarrow> text_ok b"
proof -
  assume u: "user_ok b"
  have "is_ascii c \<and> c \<noteq> NUL" if "c \<in> set b" for c
  proof (cases "c = CHR '':''")
    case True
    then show ?thesis by (simp add: is_ascii_def NUL_def)
  next
    case False
    with split_on_bytes [OF that] obtain w where "w \<in> set (split_on CHR '':'' b)" "c \<in> set w"
      by blast
    with u have "valid_user_principal w" by (auto simp: user_ok_def)
    with \<open>c \<in> set w\<close> show ?thesis by (intro principal_ascii)
  qed
  then show ?thesis by (auto simp: text_ok_def intro!: valid_utf8_ascii)
qed

interpretation image: text_value image_reference_new image_bytes image_ok InvalidImage "\<lambda>b. [b]"
proof unfold_locales
  fix b
  show "image_ok b \<Longrightarrow> \<exists>x. image_reference_new b = Inr x \<and> image_bytes x = b"
    by (auto simp: image_ok_def image_reference_new_def list_ex_iff)
  show "\<not> image_ok b \<Longrightarrow> image_reference_new b = Inl InvalidImage"
    by (auto simp: image_ok_def image_reference_new_def list_ex_iff split: option.splits)
  show "image_ok b \<Longrightarrow> t \<in> set [b] \<Longrightarrow> valid_utf8 t \<and> NUL \<notin> set t" for t
    using image_ok_text by (auto simp: text_ok_def)
qed (auto intro: image_reference.expand)

interpretation environment: text_value "case_prod environment_assignment_new"
  "\<lambda>e. (environment_key e, environment_value e)" environment_ok InvalidEnvironment
  "\<lambda>kv. [fst kv, snd kv]"
  by unfold_locales
     (auto simp: environment_assignment_new_def environment_ok_def label_ok_def
       intro: environment_assignment.expand)

interpretation argument: text_value argument_new argument_bytes text_ok InvalidArgument "\<lambda>b. [b]"
  by unfold_locales (auto simp: argument_new_def text_ok_def intro: argument.expand)

interpretation container_label: text_value "case_prod container_label_new"
  "\<lambda>l. (label_key l, label_value l)" label_ok InvalidContainerLabel "\<lambda>kv. [fst kv, snd kv]"
  by unfold_locales
     (auto simp: container_label_new_def label_ok_def valid_text_def intro: container_label.expand)

interpretation user: text_value container_user_new user_bytes user_ok InvalidContainerUser
  "\<lambda>b. [b]"
proof unfold_locales
  fix b
  have "container_user_new b = (if user_ok b then Inr (ContainerUser b) else Inl InvalidContainerUser)"
    by (auto simp: container_user_new_def user_ok_def Let_def drop_Suc eval_nat_numeral
        split: list.splits)
  then show "user_ok b \<Longrightarrow> \<exists>x. container_user_new b = Inr x \<and> user_bytes x = b"
    and "\<not> user_ok b \<Longrightarrow> container_user_new b = Inl InvalidContainerUser" by simp_all
  show "user_ok b \<Longrightarrow> t \<in> set [b] \<Longrightarrow> valid_utf8 t \<and> NUL \<notin> set t" for t
    using user_ok_text by (auto simp: text_ok_def)
qed (auto intro: container_user.expand)

interpretation directory: text_value working_directory_new directory_bytes valid_absolute_path
  InvalidWorkingDirectory "\<lambda>b. [b]"
  by unfold_locales
     (auto simp: working_directory_new_def valid_absolute_path_def intro: working_directory.expand)

interpretation hostname: text_value container_hostname_new hostname_bytes hostname_ok
  InvalidContainerHostname "\<lambda>b. [b]"
  by unfold_locales
     (auto simp: container_hostname_new_def hostname_ok_def text_ok_def valid_text_def list_ex_iff
       intro: container_hostname.expand)

interpretation token: text_value container_token_new token_bytes token_ok
  InvalidContainerSetting "\<lambda>b. [b]"
  by unfold_locales
     (auto simp: container_token_new_def token_ok_def text_ok_def valid_text_def
       intro: container_token.expand)

interpretation volume_label: text_value "case_prod volume_label_new"
  "\<lambda>l. (volume_label_key l, volume_label_value l)" volume_label_ok InvalidVolumeLabel
  "\<lambda>kv. [fst kv, snd kv]"
  by unfold_locales
     (auto simp: volume_label_new_def volume_label_ok_def label_ok_def
       max_volume_label_key_bytes_def max_volume_label_value_bytes_def intro: volume_label.expand)

section \<open>Values the private fields allow\<close>

text \<open>
  A mount or a health check can only be made by its constructors; \<open>built_mount\<close> and
  \<open>built_healthcheck\<close> are the values a caller can reach, and the \<open>wf\<close> predicates say what they are.
\<close>

inductive built_mount :: "mount \<Rightarrow> bool" where
  bind: "mount_bind source target ro = Inr m \<Longrightarrow> built_mount m"
| volume: "mount_volume reference target ro = Inr m \<Longrightarrow> built_mount m"
| tmpfs: "mount_tmpfs target ro options = Inr m \<Longrightarrow> built_mount m"
| relabel: "built_mount m \<Longrightarrow> mount_with_bind_relabel m r = Inr m' \<Longrightarrow> built_mount m'"

definition tmpfs_ok :: "tmpfs_options \<Rightarrow> bool" where
  "tmpfs_ok opts \<longleftrightarrow> (\<forall>m. tmpfs_mode opts = Some m \<longrightarrow> unat m \<le> 4095)
     \<and> (\<forall>s. tmpfs_size_bytes opts = Some s \<longrightarrow> unat s \<le> i64_max)"

definition wf_mount :: "mount \<Rightarrow> bool" where
  "wf_mount m \<longleftrightarrow> valid_absolute_path (mount_target m)
     \<and> (case mount_source m of
          Bind source \<Rightarrow> valid_absolute_path source
            \<and> (mount_relabel m \<noteq> None \<longrightarrow>
                 CHR '':'' \<notin> set source \<and> CHR '':'' \<notin> set (mount_target m))
        | Volume _ \<Rightarrow> mount_relabel m = None
        | Tmpfs opts \<Rightarrow> mount_relabel m = None \<and> tmpfs_ok opts)"

lemma option_any_iff: "option_any p x \<longleftrightarrow> (\<exists>y. x = Some y \<and> p y)"
  by (cases x) (auto simp: option_any_def)

lemma mount_eta: "m = \<lparr>mount_source = mount_source m, mount_target = mount_target m,
    mount_read_only = mount_read_only m, mount_relabel = mount_relabel m\<rparr>"
  by simp

lemma built_mount_wf: "built_mount m \<Longrightarrow> wf_mount m"
proof (induction rule: built_mount.induct)
  case (bind source target ro m)
  then show ?case by (auto simp: mount_bind_def wf_mount_def split: if_splits)
next
  case (volume reference target ro m)
  then show ?case by (auto simp: mount_volume_def wf_mount_def split: if_splits)
next
  case (tmpfs target ro options m)
  then show ?case
    by (auto simp: mount_tmpfs_def wf_mount_def tmpfs_ok_def option_any_iff not_less split: if_splits)
next
  case (relabel m r m')
  then show ?case
    by (auto simp: mount_with_bind_relabel_def wf_mount_def split: if_splits mount_source.splits)
qed

lemma wf_mount_built: "wf_mount m \<Longrightarrow> built_mount m"
proof (cases "mount_source m")
  case (Bind source)
  assume wf: "wf_mount m"
  let ?m = "\<lparr>mount_source = Bind source, mount_target = mount_target m,
    mount_read_only = mount_read_only m, mount_relabel = None\<rparr>"
  have "mount_bind source (mount_target m) (mount_read_only m) = Inr ?m"
    using wf Bind by (simp add: mount_bind_def wf_mount_def)
  then have b: "built_mount ?m" by (rule built_mount.bind)
  show ?thesis
  proof (cases "mount_relabel m")
    case None
    with Bind have "?m = m" by simp
    with b show ?thesis by (simp only:)
  next
    case (Some r)
    have "mount_with_bind_relabel ?m r = Inr m"
      using wf Bind Some mount_eta [of m] by (simp add: mount_with_bind_relabel_def wf_mount_def)
    with b show ?thesis by (rule built_mount.relabel)
  qed
next
  case (Volume reference)
  assume wf: "wf_mount m"
  have "mount_volume reference (mount_target m) (mount_read_only m) = Inr m"
    using wf Volume mount_eta [of m] by (simp add: mount_volume_def wf_mount_def)
  then show ?thesis by (rule built_mount.volume)
next
  case (Tmpfs opts)
  assume wf: "wf_mount m"
  have "mount_tmpfs (mount_target m) (mount_read_only m) opts = Inr m"
    using wf Tmpfs mount_eta [of m]
    by (auto simp: mount_tmpfs_def wf_mount_def tmpfs_ok_def option_any_iff not_less)
  then show ?thesis by (rule built_mount.tmpfs)
qed

inductive built_healthcheck :: "healthcheck \<Rightarrow> bool" where
  configured: "healthcheck_configured t i o' r = Inr h \<Longrightarrow> built_healthcheck h"
| new: "healthcheck_new cmd i o'' r' = Inr h \<Longrightarrow> built_healthcheck h"
| start_period: "built_healthcheck h \<Longrightarrow> with_start_period h n = Inr h' \<Longrightarrow> built_healthcheck h'"
| start_interval:
    "built_healthcheck h \<Longrightarrow> with_start_interval h n = Inr h' \<Longrightarrow> built_healthcheck h'"

definition start_duration_ok :: "u64 \<Rightarrow> bool" where
  "start_duration_ok n \<longleftrightarrow> n = 0 \<or> duration_in_range n"

definition wf_healthcheck :: "healthcheck \<Rightarrow> bool" where
  "wf_healthcheck h \<longleftrightarrow>
     (case health_test h of
        HealthExec cmd \<Rightarrow> (\<exists>c cs. cmd = c # cs \<and> argument_bytes c \<noteq> [])
      | HealthShell c \<Rightarrow> argument_bytes c \<noteq> []
      | HealthDisabled \<Rightarrow> health_interval h = None \<and> health_timeout h = None
          \<and> health_retries h = None \<and> health_start_period h = None
          \<and> health_start_interval h = None)
     \<and> pred_option duration_in_range (health_interval h)
     \<and> pred_option duration_in_range (health_timeout h)
     \<and> pred_option (\<lambda>r. unat r \<le> i32_max) (health_retries h)
     \<and> pred_option start_duration_ok (health_start_period h)
     \<and> pred_option start_duration_ok (health_start_interval h)"

lemma start_duration_rejected_iff:
  "start_duration_rejected t n \<longleftrightarrow> t = HealthDisabled \<or> \<not> start_duration_ok n"
  by (auto simp: start_duration_rejected_def start_duration_ok_def duration_in_range_def
      i64_max_def not_le)

lemma configured_Inr:
  "healthcheck_configured t i o' r = Inr h \<longleftrightarrow>
   wf_healthcheck h \<and> h = \<lparr>health_test = t, health_interval = i, health_timeout = o',
     health_retries = r, health_start_period = None, health_start_interval = None\<rparr>"
  by (cases t; cases i; cases o'; cases r)
     (auto simp: healthcheck_configured_def wf_healthcheck_def option_any_def Let_def not_less
       split: list.splits)

lemma built_healthcheck_wf: "built_healthcheck h \<Longrightarrow> wf_healthcheck h"
proof (induction rule: built_healthcheck.induct)
  case (configured t i o' r h)
  then show ?case unfolding configured_Inr by (rule conjunct1)
next
  case (new cmd i o'' r' h)
  then show ?case unfolding healthcheck_new_def configured_Inr by (rule conjunct1)
next
  case (start_period h n h')
  then show ?case
    by (auto simp: with_start_period_def start_duration_rejected_iff wf_healthcheck_def
        split: if_splits health_test.splits)
next
  case (start_interval h n h')
  then show ?case
    by (auto simp: with_start_interval_def start_duration_rejected_iff wf_healthcheck_def
        split: if_splits health_test.splits)
qed

lemma wf_healthcheck_built: "wf_healthcheck h \<Longrightarrow> built_healthcheck h"
proof -
  assume wf: "wf_healthcheck h"
  let ?h0 = "h\<lparr>health_start_period := None, health_start_interval := None\<rparr>"
  have "healthcheck_configured (health_test h) (health_interval h) (health_timeout h)
      (health_retries h) = Inr ?h0"
    using wf by (auto simp: configured_Inr wf_healthcheck_def split: health_test.splits)
  then have b0: "built_healthcheck ?h0" by (rule built_healthcheck.configured)
  let ?h1 = "h\<lparr>health_start_interval := None\<rparr>"
  have b1: "built_healthcheck ?h1"
  proof (cases "health_start_period h")
    case None
    then have "?h0 = ?h1" by simp
    with b0 show ?thesis by (simp only:)
  next
    case (Some n)
    then have "with_start_period ?h0 n = Inr ?h1"
      using wf by (auto simp: with_start_period_def start_duration_rejected_iff wf_healthcheck_def)
    with b0 show ?thesis by (rule built_healthcheck.start_period)
  qed
  show ?thesis
  proof (cases "health_start_interval h")
    case None
    then have "?h1 = h" by simp
    with b1 show ?thesis by (simp only:)
  next
    case (Some n)
    then have "with_start_interval ?h1 n = Inr h"
      using wf by (auto simp: with_start_interval_def start_duration_rejected_iff wf_healthcheck_def)
    with b1 show ?thesis by (rule built_healthcheck.start_interval)
  qed
qed

definition command_ok :: "image_command \<Rightarrow> bool" where
  "command_ok c = (case c of Exec args \<Rightarrow> list_all (\<lambda>a. text_ok (argument_bytes a)) args | _ \<Rightarrow> True)"

definition health_texts_ok :: "healthcheck \<Rightarrow> bool" where
  "health_texts_ok h =
     (case health_test h of
        HealthExec args \<Rightarrow> list_all (\<lambda>a. text_ok (argument_bytes a)) args
      | HealthShell a \<Rightarrow> text_ok (argument_bytes a)
      | HealthDisabled \<Rightarrow> True)"

definition container_label_ok :: "container_label \<Rightarrow> bool" where
  "container_label_ok l \<longleftrightarrow> label_ok (label_key l, label_value l)"

definition settings_built :: "container_settings \<Rightarrow> bool" where
  "settings_built s \<longleftrightarrow>
     list_all container_label_ok (set_labels s)
   \<and> pred_option (\<lambda>u. user_ok (user_bytes u)) (set_user s)
   \<and> pred_option (\<lambda>d. valid_absolute_path (directory_bytes d)) (set_working_dir s)
   \<and> pred_option (\<lambda>h. hostname_ok (hostname_bytes h)) (set_hostname s)
   \<and> pred_option (\<lambda>a. text_ok (argument_bytes a)) (set_stop_signal s)
   \<and> list_all (\<lambda>u. token_ok (token_bytes (ulimit_name u))) (set_ulimits s)
   \<and> list_all (\<lambda>d. valid_absolute_path (directory_bytes (device_host_path d))
       \<and> valid_absolute_path (directory_bytes (device_container_path d))) (set_devices s)
   \<and> list_all (\<lambda>t. token_ok (token_bytes t)) (set_cap_add s)
   \<and> list_all (\<lambda>t. token_ok (token_bytes t)) (set_cap_drop s)
   \<and> list_all container_label_ok (set_sysctls s)
   \<and> list_all (\<lambda>u. user_ok (user_bytes u)) (set_group_add s)
   \<and> list_all (\<lambda>h. hostname_ok (hostname_bytes (extra_name h))) (set_extra_hosts s)
   \<and> pred_option (\<lambda>l. list_all container_label_ok (log_options l)) (set_log_config s)"

definition attachment_built :: "network_attachment \<Rightarrow> bool" where
  "attachment_built a \<longleftrightarrow> list_all (\<lambda>x. valid_identity (alias_bytes x)) (attachment_aliases a)"

text \<open>
  The values a container intent can hold: every field with a checking constructor holds a value
  that constructor accepts. The \<^verbatim>\<open>pub\<close> fields of other types are unconstrained.
\<close>

definition container_built :: "container_intent \<Rightarrow> bool" where
  "container_built c \<longleftrightarrow>
     valid_identity (identity_bytes (c_identity c))
   \<and> image_ok (image_bytes (c_image c))
   \<and> list_all (\<lambda>e. environment_ok (environment_key e, environment_value e)) (c_environment c)
   \<and> list_all wf_mount (c_mounts c)
   \<and> list_all attachment_built (c_networks c)
   \<and> command_ok (c_entrypoint c) \<and> command_ok (c_command c)
   \<and> pred_option (\<lambda>h. wf_healthcheck h \<and> health_texts_ok h) (c_healthcheck c)
   \<and> settings_built (c_settings c)"

section \<open>User principals\<close>

definition account_name :: "bytes \<Rightarrow> bool" where
  "account_name b \<longleftrightarrow> (\<exists>c cs. b = c # cs \<and> length b \<le> 32 \<and> (is_alpha c \<or> c = CHR ''_'')
     \<and> list_all (\<lambda>x. is_alnum x \<or> x \<in> {CHR ''_'', CHR ''.'', CHR ''-''}) cs)"

lemma parse_uint_digits:
  assumes "b \<noteq> []" and "list_all is_digit b"
  shows "parse_uint m b = (if dec_value b \<le> m then Some (dec_value b) else None)"
proof -
  have "hd b \<noteq> CHR ''+''" using assms by (cases b) (auto simp: is_digit_def)
  with assms show ?thesis by (cases b) (auto simp: parse_uint_def Let_def)
qed

lemma valid_user_principal_iff:
  "valid_user_principal b \<longleftrightarrow> (\<exists>n \<le> i32_max. b = dec n) \<or> account_name b"
proof (cases b)
  case Nil
  then show ?thesis
    by (auto simp: valid_user_principal_def account_name_def dest: sym [of "[]"])
next
  case (Cons c cs)
  show ?thesis
  proof (cases "is_digit c")
    case True
    then have no_name: "\<not> account_name b"
      using Cons by (auto simp: account_name_def char_class_defs)
    have "valid_user_principal b \<longleftrightarrow> length b \<le> 10 \<and> (length b = 1 \<or> c \<noteq> CHR ''0'')
        \<and> list_all is_digit b \<and> dec_value b \<le> i32_max"
    proof (cases "list_all is_digit b")
      case d: True
      then have "parse_uint 2147483647 b \<noteq> None \<longleftrightarrow> dec_value b \<le> i32_max"
        using Cons parse_uint_digits [of b 2147483647] by (simp add: i32_max_def)
      moreover have "valid_utf8 b"
        using d by (intro valid_utf8_ascii) (auto simp: list_all_iff dest: digit_ascii)
      ultimately show ?thesis using True Cons d by (simp add: valid_user_principal_def)
    next
      case False
      then show ?thesis using True Cons by (auto simp: valid_user_principal_def)
    qed
    also have "\<dots> \<longleftrightarrow> (\<exists>n \<le> i32_max. b = dec n)"
    proof
      assume "length b \<le> 10 \<and> (length b = 1 \<or> c \<noteq> CHR ''0'') \<and> list_all is_digit b
        \<and> dec_value b \<le> i32_max"
      moreover then have "b = dec (dec_value b)" using Cons by (intro dec_of_dec_value [symmetric]) auto
      ultimately show "\<exists>n \<le> i32_max. b = dec n" by blast
    next
      assume "\<exists>n \<le> i32_max. b = dec n"
      then obtain n where n: "n \<le> i32_max" "b = dec n" by blast
      have "length b \<le> 10" unfolding n(2) using n(1) by (intro dec_length) (simp_all add: i32_max_def)
      moreover have "length b = 1 \<or> c \<noteq> CHR ''0''"
      proof (cases "n = 0")
        case True
        then have "b = [digit_char 0]" using n(2) dec.simps [of 0] by simp
        then show ?thesis by simp
      next
        case False
        then have "hd b \<noteq> CHR ''0''" using dec_hd_nonzero [of n] n(2) by simp
        with Cons show ?thesis by simp
      qed
      ultimately show "length b \<le> 10 \<and> (length b = 1 \<or> c \<noteq> CHR ''0'') \<and> list_all is_digit b
        \<and> dec_value b \<le> i32_max"
        using n dec_digits by (auto simp: list_all_iff)
    qed
    finally show ?thesis using no_name by blast
  next
    case False
    have "b \<noteq> dec n" for n
    proof
      assume "b = dec n"
      with Cons have "c \<in> set (dec n)" by (metis list.set_intros(1))
      with False dec_digits show False by blast
    qed
    with False Cons show ?thesis
      by (auto simp: valid_user_principal_def account_name_def)
  qed
qed

section \<open>Properties\<close>

text \<open>A user principal is accepted exactly when it is the canonical decimal of a number up to
  \<^verbatim>\<open>i32::MAX\<close> (no sign, no leading zero) or an account name of at most 32 bytes that starts with a
  letter or underscore.\<close>

theorem user_principal_canonical:
  "valid_user_principal b \<longleftrightarrow> (\<exists>n \<le> i32_max. b = dec n) \<or> account_name b"
  by (rule valid_user_principal_iff)

text \<open>C9: the mounts a caller can build are exactly the well-formed ones: absolute, NUL-free UTF-8
  target and bind source, a relabel only on a bind mount whose two paths have no colon (so that
  the legacy \<open>source:target:mode\<close> string is unambiguous), and tmpfs options within mode 07777 and
  \<^verbatim>\<open>i64::MAX\<close> bytes.\<close>

theorem built_mounts_exactly_wf: "built_mount m \<longleftrightarrow> wf_mount m"
  using built_mount_wf wf_mount_built by blast

text \<open>The health checks a caller can build are exactly the well-formed ones: a command that is
  not empty, intervals of at least one millisecond that fit \<^verbatim>\<open>i64\<close>, retries that fit \<^verbatim>\<open>i32\<close>, start
  durations that may also be zero, and nothing at all beside a disabled test.\<close>

theorem built_healthchecks_exactly_wf: "built_healthcheck h \<longleftrightarrow> wf_healthcheck h"
  using built_healthcheck_wf wf_healthcheck_built by blast

text \<open>The text constructors keep their bytes exactly and accept exactly the texts of their
  grammar, for lists of values as for single ones; what they accept is NUL-free UTF-8.\<close>

theorem text_constructors_exact:
  "(map_res image_reference_new bs = Inr images \<longleftrightarrow> list_all image_ok bs \<and> map image_bytes images = bs)
   \<and> (map_res argument_new bs = Inr args \<longleftrightarrow> list_all text_ok bs \<and> map argument_bytes args = bs)
   \<and> (map_res container_user_new bs = Inr users \<longleftrightarrow> list_all user_ok bs \<and> map user_bytes users = bs)
   \<and> (map_res container_hostname_new bs = Inr hosts \<longleftrightarrow>
        list_all hostname_ok bs \<and> map hostname_bytes hosts = bs)
   \<and> (map_res container_token_new bs = Inr tokens \<longleftrightarrow>
        list_all token_ok bs \<and> map token_bytes tokens = bs)
   \<and> (image_ok b \<or> user_ok b \<or> hostname_ok b \<or> token_ok b \<or> valid_absolute_path b \<or> text_ok b
        \<longleftrightarrow> text_ok b)"
proof (intro conjI)
  show "image_ok b \<or> user_ok b \<or> hostname_ok b \<or> token_ok b \<or> valid_absolute_path b \<or> text_ok b
        \<longleftrightarrow> text_ok b"
    using image_ok_text [of b] user_ok_text [of b] valid_absolute_path_text [of b]
    unfolding hostname_ok_def token_ok_def by blast
qed (rule image.mk_all argument.mk_all user.mk_all hostname.mk_all token.mk_all)+

end
