(* ===== verification/Intents.thy ===== *)
theory Intents
  imports Containers
begin

text \<open>
  \<^verbatim>\<open>src/target_modules/intent.rs\<close>: target resources and \<open>TargetIntent::new\<close>, the validation of a
  whole intent. Each loop of the constructor is a step function folded over its list, with the
  loop's mutable sets and vectors as its state; \<open>wf_intent\<close> is the declarative reading.
\<close>

datatype target_resource =
  NetworkResource network_intent
| VolumeResource resource_ref target_identity "volume_label list"
| ExternalVolumeResource resource_ref target_identity
| ContainerResource container_intent

datatype target_kind = NetworkKind | VolumeKind | ContainerKind

fun resource_reference :: "target_resource \<Rightarrow> resource_ref" where
  "resource_reference (NetworkResource n) = network_reference n"
| "resource_reference (VolumeResource r _ _) = r"
| "resource_reference (ExternalVolumeResource r _) = r"
| "resource_reference (ContainerResource c) = c_reference c"

fun resource_kind :: "target_resource \<Rightarrow> target_kind" where
  "resource_kind (NetworkResource _) = NetworkKind"
| "resource_kind (VolumeResource _ _ _) = VolumeKind"
| "resource_kind (ExternalVolumeResource _ _) = VolumeKind"
| "resource_kind (ContainerResource _) = ContainerKind"

fun resource_identity :: "target_resource \<Rightarrow> target_identity" where
  "resource_identity (NetworkResource n) = network_identity n"
| "resource_identity (VolumeResource _ i _) = i"
| "resource_identity (ExternalVolumeResource _ i) = i"
| "resource_identity (ContainerResource c) = c_identity c"

datatype target_intent = TargetIntent (resources: "target_resource list")

datatype orchestration = Standalone | Swarm

section \<open>Lexical paths, host addresses and log sizes\<close>

text \<open>\<open>lexical_absolute_path_key\<close>: the vector is a stack whose top is the end of the list.\<close>

fun path_step :: "bytes list \<Rightarrow> bytes \<Rightarrow> bytes list" where
  "path_step components c =
     (if c = [] \<or> c = ''.'' then components
      else if c = ''..'' then butlast components
      else components @ [c])"

definition lexical_absolute_path_key :: "bytes \<Rightarrow> bytes list" where
  "lexical_absolute_path_key p = foldl path_step [] (split_on CHR ''/'' p)"

fun wildcard :: "port_host_ip \<Rightarrow> bool" where
  "wildcard Unspecified = True"
| "wildcard (Address a) = is_unspecified a"

definition host_ip_overlaps :: "port_host_ip \<Rightarrow> port_host_ip \<Rightarrow> bool" where
  "host_ip_overlaps l r \<longleftrightarrow> wildcard l \<or> wildcard r \<or> l = r"

definition u64_max :: nat where
  "u64_max = 18446744073709551615"

definition valid_log_max_size :: "bytes \<Rightarrow> bool" where
  "valid_log_max_size v =
     (if v = [] then False
      else let suffix = last v; digits = butlast v in
        (suffix = CHR ''k'' \<or> suffix = CHR ''m'' \<or> suffix = CHR ''g'')
        \<and> digits \<noteq> []
        \<and> option_any (\<lambda>size. size \<noteq> 0)
            (if valid_utf8 digits then parse_uint u64_max digits else None))"

section \<open>Container settings\<close>

fun ulimit_value_valid :: "ulimit_value \<Rightarrow> bool" where
  "ulimit_value_valid UlimitUnlimited = True"
| "ulimit_value_valid (UlimitValue n) = (unat n \<le> i64_max)"

definition validate_ulimit :: "bytes list \<Rightarrow> ulimit \<Rightarrow> intent_error + bytes list" where
  "validate_ulimit names l =
     (let name = token_bytes (ulimit_name l) in
      if name \<noteq> ''nofile'' \<or> name \<in> set names
         \<or> \<not> ulimit_value_valid (ulimit_soft l) \<or> \<not> ulimit_value_valid (ulimit_hard l)
         \<or> (case (ulimit_soft l, ulimit_hard l) of
              (UlimitUnlimited, UlimitValue _) \<Rightarrow> True
            | (UlimitValue soft, UlimitValue hard) \<Rightarrow> soft > hard
            | _ \<Rightarrow> False)
      then Inl InvalidContainerSetting else Inr (name # names))"

definition validate_device :: "bytes list \<Rightarrow> device_mapping \<Rightarrow> intent_error + bytes list" where
  "validate_device targets d =
     (let target = directory_bytes (device_container_path d); p = device_permissions d in
      if target \<in> set targets \<or> \<not> (device_read p \<or> device_write p \<or> device_create p)
      then Inl InvalidContainerSetting else Inr (target # targets))"

definition validate_sysctl :: "bytes list \<Rightarrow> container_label \<Rightarrow> intent_error + bytes list" where
  "validate_sysctl unique item =
     (if label_key item \<noteq> ''net.ipv4.ip_forward''
         \<or> \<not> (label_value item = ''0'' \<or> label_value item = ''1'')
      then Inl InvalidContainerSetting
      else if label_key item \<in> set unique then Inl DuplicateContainerSetting
      else Inr (label_key item # unique))"

definition validate_log_option ::
  "log_driver \<Rightarrow> bytes list \<Rightarrow> container_label \<Rightarrow> intent_error + bytes list" where
  "validate_log_option driver unique item =
     (if driver \<noteq> JsonFile \<or> label_key item \<noteq> ''max-size''
         \<or> \<not> valid_log_max_size (label_value item)
      then Inl InvalidContainerSetting
      else if label_key item \<in> set unique then Inl DuplicateContainerSetting
      else Inr (label_key item # unique))"

definition validate_log_config :: "log_config \<Rightarrow> intent_error + unit" where
  "validate_log_config l =
     (if log_driver l = NoLog \<and> log_options l \<noteq> [] then Inl InvalidContainerSetting
      else bind_res (try_fold (validate_log_option (log_driver l)) [] (log_options l))
        (\<lambda>_. Inr ()))"

text \<open>\<^verbatim>\<open>mem::discriminant\<close> of the one security option there is.\<close>

fun security_discriminant :: "security_option \<Rightarrow> nat" where
  "security_discriminant (NoNewPrivileges _) = 0"

definition limits_in_range :: "container_settings \<Rightarrow> bool" where
  "limits_in_range s \<longleftrightarrow>
     (case set_memory_limit s of Some (MemoryBytes v) \<Rightarrow> unat v \<le> i64_max | _ \<Rightarrow> True)
   \<and> (case set_pids_limit s of Some (PidsCount v) \<Rightarrow> unat v \<le> i64_max | _ \<Rightarrow> True)
   \<and> \<not> option_any (\<lambda>v. unat v > i64_max) (set_shm_size s)"

definition validate_container_settings :: "container_settings \<Rightarrow> intent_error + unit" where
  "validate_container_settings s = checks [
     reject_if (\<not> limits_in_range s) InvalidContainerSetting,
     bind_res (try_fold validate_ulimit [] (set_ulimits s)) (\<lambda>_. Inr ()),
     bind_res (try_fold validate_device [] (set_devices s)) (\<lambda>_. Inr ()),
     reject_if (\<not> all_inserted [] (map token_bytes (set_cap_add s @ set_cap_drop s)))
       DuplicateContainerSetting,
     reject_if (list_ex (\<lambda>t. token_bytes t \<noteq> ''NET_BIND_SERVICE'') (set_cap_add s)
         \<or> list_ex (\<lambda>t. token_bytes t \<noteq> ''SYS_ADMIN'') (set_cap_drop s))
       InvalidContainerSetting,
     reject_if (\<not> all_inserted [] (map security_discriminant (set_security_options s)))
       DuplicateContainerSetting,
     bind_res (try_fold validate_sysctl [] (set_sysctls s)) (\<lambda>_. Inr ()),
     reject_if (\<not> all_inserted [] (map user_bytes (set_group_add s))) DuplicateContainerSetting,
     reject_if (list_ex (\<lambda>u. \<not> valid_user_principal (user_bytes u)) (set_group_add s))
       InvalidContainerSetting,
     reject_if (\<not> all_inserted [] (map (\<lambda>h. hostname_bytes (extra_name h)) (set_extra_hosts s)))
       DuplicateContainerSetting,
     (case set_log_config s of None \<Rightarrow> Inr () | Some l \<Rightarrow> validate_log_config l)]"

section \<open>Networks\<close>

fun option_key :: "bridge_option \<Rightarrow> nat" where
  "option_key (Mtu _) = 0"
| "option_key (InterContainerCommunication _) = 1"
| "option_key (IpMasquerade _) = 2"
| "option_key (HostBindingIp _) = 3"

definition validate_option :: "nat list \<Rightarrow> bridge_option \<Rightarrow> intent_error + nat list" where
  "validate_option seen opt =
     (if (case opt of HostBindingIp a \<Rightarrow> is_ipv6 a | _ \<Rightarrow> False) then Inl InvalidNetworkOption
      else if option_key opt \<in> set seen then Inl DuplicateNetworkOption
      else Inr (option_key opt # seen))"

text \<open>The state of the auxiliary loop: the names and the addresses reserved so far.\<close>

definition validate_auxiliary ::
  "network_subnet \<Rightarrow> bytes list \<times> ip_addr list \<Rightarrow> network_aux_address
   \<Rightarrow> intent_error + bytes list \<times> ip_addr list" where
  "validate_auxiliary subnet st x =
     (let (names, reserved) = st; name = alias_bytes (aux_name x);
          address = address_value (aux_address x) in
      if name \<in> set names \<or> \<not> contains_usable_host subnet (aux_address x) \<or> address \<in> set reserved
      then Inl InvalidNetworkIpam else Inr (name # names, address # reserved))"

definition pool_rejected :: "bool \<Rightarrow> network_ipam_pool list \<Rightarrow> network_ipam_pool \<Rightarrow> bool" where
  "pool_rejected enable_ipv6 earlier p \<longleftrightarrow>
     list_ex (\<lambda>other. subnet_overlaps (pool_subnet p) (pool_subnet other)) earlier
   \<or> (is_ipv6 (subnet_address (pool_subnet p)) \<and> \<not> enable_ipv6)
   \<or> option_any (\<lambda>g. \<not> contains_usable_host (pool_subnet p) g) (pool_gateway p)
   \<or> option_any (\<lambda>r. is_ipv6 (subnet_address r) \<noteq> is_ipv6 (subnet_address (pool_subnet p))
        \<or> subnet_prefix r < subnet_prefix (pool_subnet p)
        \<or> \<not> subnet_contains (pool_subnet p) (subnet_address r)) (pool_ip_range p)"

definition validate_pool ::
  "bool \<Rightarrow> network_ipam_pool list \<Rightarrow> network_ipam_pool \<Rightarrow> intent_error + network_ipam_pool list" where
  "validate_pool enable_ipv6 earlier p =
     (if pool_rejected enable_ipv6 earlier p then Inl InvalidNetworkIpam
      else bind_res (try_fold (validate_auxiliary (pool_subnet p))
          ([], map address_value (option_list (pool_gateway p))) (pool_auxiliary p))
        (\<lambda>_. Inr (earlier @ [p])))"

definition validate_ipam :: "bool \<Rightarrow> network_ipam \<Rightarrow> intent_error + unit" where
  "validate_ipam enable_ipv6 ipam =
     (if ipam_pools ipam = [] then Inl InvalidNetworkIpam
      else bind_res (try_fold (validate_pool enable_ipv6) [] (ipam_pools ipam)) (\<lambda>_. Inr ()))"

fun validate_network_source :: "network_source \<Rightarrow> intent_error + unit" where
  "validate_network_source (ExternalNetwork driver _) =
     reject_if (driver \<noteq> Bridge) InvalidNetworkDriver"
| "validate_network_source (CreateNetwork create) = checks [
     reject_if (create_driver create \<noteq> Bridge) InvalidNetworkDriver,
     bind_res (try_fold validate_option [] (create_options create)) (\<lambda>_. Inr ()),
     reject_if (\<not> all_inserted [] (map network_label_key (create_labels create)))
       DuplicateNetworkLabel,
     (case create_ipam create of None \<Rightarrow> Inr ()
      | Some ipam \<Rightarrow> validate_ipam (create_enable_ipv6 create) ipam)]"

section \<open>Containers\<close>

type_synonym fixed_port = "u16 \<times> protocol \<times> port_host_ip"

text \<open>The state of the binding loop: all fixed host ports so far, and this port's ephemeral hosts.\<close>

definition add_binding ::
  "protocol \<Rightarrow> fixed_port list \<times> port_host_ip list \<Rightarrow> host_binding
   \<Rightarrow> intent_error + fixed_port list \<times> port_host_ip list" where
  "add_binding p st b =
     (let (fixed, dynamic) = st in
      case host_port b of
        Fixed port \<Rightarrow>
          if list_ex (\<lambda>(existing, q, address). existing = port \<and> q = p
               \<and> host_ip_overlaps address (host_ip b)) fixed
          then Inl DuplicatePort else Inr (fixed @ [(port, p, host_ip b)], dynamic)
      | Ephemeral \<Rightarrow>
          if list_ex (\<lambda>address. host_ip_overlaps address (host_ip b)) dynamic
          then Inl DuplicatePort else Inr (fixed, dynamic @ [host_ip b]))"

definition add_port ::
  "(u16 \<times> protocol) list \<times> fixed_port list \<Rightarrow> port_publication
   \<Rightarrow> intent_error + (u16 \<times> protocol) list \<times> fixed_port list" where
  "add_port st p =
     (let (ports, fixed) = st; key = (pub_container p, pub_protocol p) in
      if key \<in> set ports then Inl DuplicatePort
      else bind_res (try_fold (add_binding (pub_protocol p)) (fixed, []) (pub_bindings p))
        (\<lambda>(fixed', _). Inr (key # ports, fixed')))"

definition attachment_addresses :: "network_attachment \<Rightarrow> network_address list" where
  "attachment_addresses a = option_list (attachment_ipv4 a) @ option_list (attachment_ipv6 a)"

definition address_reserved :: "network_create \<Rightarrow> network_address \<Rightarrow> bool" where
  "address_reserved create a \<longleftrightarrow>
     (case create_ipam create of
        None \<Rightarrow> True
      | Some ipam \<Rightarrow> \<not> list_ex (\<lambda>pool. contains_usable_host (pool_subnet pool) a
          \<and> pool_gateway pool \<noteq> Some a
          \<and> \<not> list_ex (\<lambda>x. aux_address x = a) (pool_auxiliary pool)) (ipam_pools ipam))"

definition attachment_fits :: "network_source \<Rightarrow> network_attachment \<Rightarrow> bool" where
  "attachment_fits source a =
     (case source of
        ExternalNetwork _ _ \<Rightarrow> \<not> (attachment_ipv4 a \<noteq> None \<or> attachment_ipv6 a \<noteq> None)
      | CreateNetwork create \<Rightarrow>
          \<not> (attachment_ipv6 a \<noteq> None \<and> \<not> create_enable_ipv6 create)
          \<and> \<not> list_ex (address_reserved create) (attachment_addresses a))"

definition validate_attachment ::
  "target_resource list \<Rightarrow> resource_ref list \<Rightarrow> network_attachment
   \<Rightarrow> intent_error + resource_ref list" where
  "validate_attachment all_resources seen a =
     (if attachment_network a \<in> set seen then Inl DuplicateNetworkAttachment
      else if option_any is_ipv6 (attachment_ipv4 a)
          \<or> option_any (\<lambda>x. \<not> is_ipv6 x) (attachment_ipv6 a)
      then Inl InvalidNetworkAttachment
      else if \<not> all_inserted [] (map alias_bytes (attachment_aliases a))
      then Inl DuplicateNetworkAlias
      else if (case List.find (\<lambda>r. resource_reference r = attachment_network a) all_resources of
             Some (NetworkResource n) \<Rightarrow> \<not> attachment_fits (network_source n) a | _ \<Rightarrow> False)
      then Inl InvalidNetworkAttachment
      else Inr (attachment_network a # seen))"

fun command_args_rejected :: "image_command \<Rightarrow> bool" where
  "command_args_rejected (Exec args) =
     (case args of [] \<Rightarrow> True | a # _ \<Rightarrow> argument_bytes a = [])"
| "command_args_rejected _ = False"

text \<open>The mount targets and devices of a container, by their lexical keys.\<close>

definition mounts_clash :: "container_intent \<Rightarrow> bool" where
  "mounts_clash c \<longleftrightarrow>
     (let keys = map (\<lambda>m. lexical_absolute_path_key (mount_target m)) (c_mounts c) in
      \<not> all_inserted [] keys
      \<or> list_ex (\<lambda>d. lexical_absolute_path_key (directory_bytes (device_container_path d)) \<in> set keys)
          (set_devices (c_settings c)))"

text \<open>The checks of a container after its ports, in the order of the code.\<close>

definition validate_container_rest ::
  "target_resource list \<Rightarrow> container_intent \<Rightarrow> intent_error + unit" where
  "validate_container_rest all_resources c = checks [
     reject_if (\<not> all_inserted [] (map label_key (set_labels (c_settings c))))
       DuplicateContainerLabel,
     bind_res (try_fold (validate_attachment all_resources) [] (c_networks c)) (\<lambda>_. Inr ()),
     reject_if (mounts_clash c) DuplicateMount,
     reject_if (list_ex command_args_rejected [c_entrypoint c, c_command c]) InvalidArgument,
     reject_if (c_command c = Clear \<and> (case c_entrypoint c of Exec _ \<Rightarrow> False | _ \<Rightarrow> True))
       CommandClearRequiresEntrypoint,
     reject_if (option_any (\<lambda>a. argument_bytes a = []) (set_stop_signal (c_settings c)))
       InvalidArgument,
     validate_container_settings (c_settings c),
     reject_if (case c_restart c of Some (OnFailure n) \<Rightarrow> unat n > i32_max | _ \<Rightarrow> False)
       InvalidRestart]"

definition validate_container ::
  "target_resource list \<Rightarrow> fixed_port list \<Rightarrow> container_intent \<Rightarrow> intent_error + fixed_port list"
where
  "validate_container all_resources fixed c =
     (if \<not> all_inserted [] (map environment_key (c_environment c)) then Inl InvalidEnvironment
      else bind_res (try_fold add_port ([], fixed) (c_ports c)) (\<lambda>(_, fixed').
        bind_res (validate_container_rest all_resources c) (\<lambda>_. Inr fixed')))"

section \<open>The constructor\<close>

definition volume_labels_valid :: "volume_label list \<Rightarrow> intent_error + unit" where
  "volume_labels_valid labels = checks [
     reject_if (length labels > max_volume_label_count
         \<or> sum_list (map (\<lambda>l. length (volume_label_key l) + length (volume_label_value l)) labels)
             > max_volume_label_total_bytes)
       InvalidVolumeLabel,
     reject_if (\<not> all_inserted [] (map volume_label_key labels)) DuplicateVolumeLabel]"

text \<open>The first loop: volume labels, the default network, and identities by kind.\<close>

definition validate_identity ::
  "bool \<times> (target_kind \<times> bytes) list \<Rightarrow> target_resource
   \<Rightarrow> intent_error + bool \<times> (target_kind \<times> bytes) list" where
  "validate_identity st r =
     (let (default_network, identities) = st;
          is_default = (case r of
            NetworkResource n \<Rightarrow> network_role n = ApplicationDefault | _ \<Rightarrow> False);
          key = (resource_kind r, identity_bytes (resource_identity r)) in
      bind_res (case r of VolumeResource _ _ labels \<Rightarrow> volume_labels_valid labels | _ \<Rightarrow> Inr ())
        (\<lambda>_. if is_default \<and> default_network then Inl DuplicateDefaultNetwork
             else if key \<in> set identities then Inl DuplicateResource
             else Inr (default_network \<or> is_default, key # identities)))"

text \<open>The second loop: networks and containers, with the fixed host ports of all containers.\<close>

definition validate_resource ::
  "target_resource list \<Rightarrow> fixed_port list \<Rightarrow> target_resource \<Rightarrow> intent_error + fixed_port list" where
  "validate_resource all_resources fixed r =
     (case r of
        NetworkResource n \<Rightarrow>
          bind_res (validate_network_source (network_source n)) (\<lambda>_. Inr fixed)
      | ContainerResource c \<Rightarrow> validate_container all_resources fixed c
      | _ \<Rightarrow> Inr fixed)"

text \<open>The third loop: the static addresses each container asks for on each network.\<close>

fun static_addresses :: "target_resource \<Rightarrow> (resource_ref \<times> ip_addr) list" where
  "static_addresses (ContainerResource c) =
     concat (map (\<lambda>a. map (\<lambda>x. (attachment_network a, address_value x)) (attachment_addresses a))
       (c_networks c))"
| "static_addresses _ = []"

definition target_intent_new_with_orchestration ::
  "target_resource list \<Rightarrow> orchestration \<Rightarrow> intent_error + target_intent" where
  "target_intent_new_with_orchestration rs orch =
     (if orch \<noteq> Standalone then Inl UnsupportedOrchestration
      else if rs = [] then Inl Empty
      else if \<not> all_inserted [] (map resource_reference rs) then Inl DuplicateResource
      else bind_res (try_fold validate_identity (False, []) rs) (\<lambda>_.
        bind_res (try_fold (validate_resource rs) [] rs) (\<lambda>_.
          if \<not> all_inserted [] (concat (map static_addresses rs)) then Inl DuplicateNetworkAddress
          else Inr (TargetIntent rs))))"

definition target_intent_new :: "target_resource list \<Rightarrow> intent_error + target_intent" where
  "target_intent_new rs = target_intent_new_with_orchestration rs Standalone"

end
