(* ===== verification/Capabilities.thy ===== *)
theory Capabilities
  imports Observations
begin

text \<open>
  \<^verbatim>\<open>src/version.rs\<close>, the first half: API versions with their order, Engine releases, daemon modes,
  the closed list of capabilities, capability facts with their provenance and scope, and
  \<open>ValidatedCapabilities\<close>, the planning source made of one daemon's own facts. Strings are
  byte lists; a \<^verbatim>\<open>NonZeroU16\<close> is the \<^typ>\<open>u16\<close> it wraps.
\<close>

section \<open>Versions\<close>

datatype api_version = ApiVersion (api_major: u16) (api_minor: u16)

text \<open>The derived \<^verbatim>\<open>Ord\<close>: lexicographic, the major component first.\<close>

instantiation api_version :: linorder
begin

fun less_api_version :: "api_version \<Rightarrow> api_version \<Rightarrow> bool" where
  "less_api_version (ApiVersion a b) (ApiVersion c d) = (a < c \<or> a = c \<and> b < d)"

definition less_eq_api_version :: "api_version \<Rightarrow> api_version \<Rightarrow> bool" where
  "less_eq_api_version v w \<longleftrightarrow> v < w \<or> v = w"

instance
proof
  fix v w x :: api_version
  show "v < w \<longleftrightarrow> v \<le> w \<and> \<not> w \<le> v"
    by (cases v; cases w) (auto simp: less_eq_api_version_def)
  show "v \<le> v" by (simp add: less_eq_api_version_def)
  show "v \<le> w \<Longrightarrow> w \<le> x \<Longrightarrow> v \<le> x"
    by (cases v; cases w; cases x) (auto simp: less_eq_api_version_def)
  show "v \<le> w \<Longrightarrow> w \<le> v \<Longrightarrow> v = w"
    by (cases v; cases w) (auto simp: less_eq_api_version_def)
  show "v \<le> w \<or> w \<le> v"
    by (cases v; cases w) (auto simp: less_eq_api_version_def)
qed

end

lemma api_version_le [simp]:
  "ApiVersion a b \<le> ApiVersion c d \<longleftrightarrow> a < c \<or> a = c \<and> b \<le> d"
  by (auto simp: less_eq_api_version_def)

datatype engine_release = EngineRelease (release_text: bytes)

definition engine_release_new :: "bytes \<Rightarrow> engine_release option" where
  "engine_release_new v = (if v \<noteq> [] then Some (EngineRelease v) else None)"

datatype daemon_mode = Rootful | Rootless | UnknownMode

section \<open>Capabilities and facts\<close>

datatype capability_state = Available | Unavailable | UnknownState

datatype (plugins only: size) capability =
  CapStandaloneContainer | CapBindMount | CapBindRelabelShared | CapBindRelabelPrivate
| CapTmpfsMount | CapNamedVolume | CapVolumeLabels | CapVolumeExternalReference
| CapBridgeNetwork | CapNetworkExternalReference | CapNetworkExternalInternalExpectation
| CapNetworkInternal | CapNetworkIpv6 | CapNetworkIpam | CapNetworkIpamDriver
| CapNetworkOptions | CapNetworkLabels | CapNetworkAliases | CapNetworkStaticAddress
| CapNetworkMultipleAttachment | CapHostNetwork | CapPortPublish | CapPortExposeOnly
| CapPortHostIpv4 | CapPortHostIpv6 | CapPortMultipleBindings | CapPortEphemeral
| CapUserNamespace | CapEnvironmentAssignment | CapCommand | CapCommandClear
| CapEntrypoint | CapEntrypointClear | CapHealthcheck | CapHealthShell | CapHealthDisabled
| CapHealthStartPeriod | CapHealthStartInterval | CapRestartPolicy | CapContainerLabels
| CapContainerUser | CapContainerWorkdir | CapContainerHostname | CapReadOnlyRootfs
| CapContainerInit | CapStopSignal | CapStopTimeout | CapMemoryLimit | CapPidsLimit
| CapShmSize | CapUlimits | CapUlimitNofile | CapDeviceMappings | CapLinuxCapabilities
| CapCapAddNetBindService | CapCapDropSysAdmin | CapSecurityOptions | CapSysctls
| CapSysctlIpv4Forward | CapSupplementaryGroups | CapDnsServers | CapExtraHosts
| CapLogConfig | CapLogOptionMaxSize

datatype fact_provenance = DaemonResponse | NativeConformance | UnknownProvenance

record capability_scope =
  scope_observation :: observation_id
  scope_release :: engine_release
  scope_api :: api_version
  scope_mode :: daemon_mode

record capability_fact =
  fact_capability :: capability
  fact_state :: capability_state
  fact_provenance :: fact_provenance
  fact_scope :: "capability_scope option"

record daemon_facts =
  df_observation :: observation_id
  df_release :: "engine_release option"
  df_api :: "api_version option"
  df_minimum_api :: "api_version option"
  df_mode :: daemon_mode
  df_capabilities :: "capability_fact list"

datatype capability_error =
  MissingDaemonIdentity | InvalidApiRange | DuplicateCapability | InvalidProvenance
| ScopeMismatch | UnknownTargetMode | InvalidTargetApiRange | InvalidPackageRevision
| EmptyEvidenceKey | InvalidEvidenceRunUrl | InvalidEvidenceCandidateSha
| InvalidEvidenceArtifactName | EvidenceLaneMismatch | EvidenceKeyMismatch
| IncompleteEvidenceShapes | DuplicateEvidenceShape | EvidenceShapeMismatch
| DuplicateProfile | ProfileNotReviewed

section \<open>Validated capabilities\<close>

text \<open>
  \<open>ValidatedCapabilities::new\<close>: the two matches of its loop are \<open>provenance_ok\<close> and
  \<open>scope_ok\<close>; \<open>validate_fact\<close> is one pass of the loop, with the set of capabilities seen so far.
\<close>

fun provenance_ok :: "capability_state \<Rightarrow> fact_provenance \<Rightarrow> bool" where
  "provenance_ok Available NativeConformance = True"
| "provenance_ok Unavailable NativeConformance = True"
| "provenance_ok Unavailable DaemonResponse = True"
| "provenance_ok UnknownState UnknownProvenance = True"
| "provenance_ok _ _ = False"

definition scope_ok ::
  "daemon_facts \<Rightarrow> engine_release \<Rightarrow> api_version \<Rightarrow> capability_scope option \<Rightarrow> capability_state
   \<Rightarrow> bool" where
  "scope_ok facts release api scope state =
     (case (scope, state) of
        (None, UnknownState) \<Rightarrow> True
      | (Some s, UnknownState) \<Rightarrow> False
      | (Some s, _) \<Rightarrow> scope_observation s = df_observation facts \<and> scope_release s = release
          \<and> scope_api s = api \<and> scope_mode s = df_mode facts
      | _ \<Rightarrow> False)"

definition validate_fact ::
  "daemon_facts \<Rightarrow> engine_release \<Rightarrow> api_version \<Rightarrow> capability list \<Rightarrow> capability_fact
   \<Rightarrow> capability_error + capability list" where
  "validate_fact facts release api seen f =
     (if fact_capability f \<in> set seen then Inl DuplicateCapability
      else if \<not> provenance_ok (fact_state f) (fact_provenance f) then Inl InvalidProvenance
      else if \<not> scope_ok facts release api (fact_scope f) (fact_state f) then Inl ScopeMismatch
      else Inr (fact_capability f # seen))"

datatype validated_capabilities = ValidatedCapabilities (validated_facts: daemon_facts)

definition validated_capabilities_new ::
  "daemon_facts \<Rightarrow> capability_error + validated_capabilities" where
  "validated_capabilities_new facts =
     (case (df_release facts, df_api facts) of
        (Some release, Some api) \<Rightarrow>
          if df_mode facts = UnknownMode then Inl MissingDaemonIdentity
          else if (case df_minimum_api facts of None \<Rightarrow> False | Some m \<Rightarrow> m > api)
          then Inl InvalidApiRange
          else bind_res (try_fold (validate_fact facts release api) [] (df_capabilities facts))
            (\<lambda>_. Inr (ValidatedCapabilities facts))
      | _ \<Rightarrow> Inl MissingDaemonIdentity)"

definition validated_supports :: "validated_capabilities \<Rightarrow> capability \<Rightarrow> bool" where
  "validated_supports v c =
     list_ex (\<lambda>f. fact_capability f = c \<and> fact_state f = Available)
       (df_capabilities (validated_facts v))"

text \<open>The specification: one daemon identity, and each fact well founded in it.\<close>

definition fact_ok :: "daemon_facts \<Rightarrow> capability_fact \<Rightarrow> bool" where
  "fact_ok facts f \<longleftrightarrow>
     (case fact_state f of
        Available \<Rightarrow> fact_provenance f = NativeConformance
      | Unavailable \<Rightarrow> fact_provenance f \<in> {NativeConformance, DaemonResponse}
      | UnknownState \<Rightarrow> fact_provenance f = UnknownProvenance) \<and>
     (if fact_state f = UnknownState then fact_scope f = None
      else \<exists>s. fact_scope f = Some s \<and> scope_observation s = df_observation facts
        \<and> df_release facts = Some (scope_release s) \<and> df_api facts = Some (scope_api s)
        \<and> scope_mode s = df_mode facts)"

definition daemon_identified :: "daemon_facts \<Rightarrow> bool" where
  "daemon_identified facts \<longleftrightarrow> df_release facts \<noteq> None \<and> df_mode facts \<noteq> UnknownMode
     \<and> (\<exists>api. df_api facts = Some api
          \<and> (case df_minimum_api facts of None \<Rightarrow> True | Some m \<Rightarrow> m \<le> api))"

lemma provenance_ok_iff:
  "provenance_ok s p \<longleftrightarrow>
   (case s of Available \<Rightarrow> p = NativeConformance
    | Unavailable \<Rightarrow> p \<in> {NativeConformance, DaemonResponse}
    | UnknownState \<Rightarrow> p = UnknownProvenance)"
  by (cases s; cases p) simp_all

lemma validate_fact_Inr:
  assumes "df_release facts = Some release" and "df_api facts = Some api"
  shows "validate_fact facts release api seen f = Inr seen' \<longleftrightarrow>
    fact_capability f \<notin> set seen \<and> fact_ok facts f \<and> seen' = fact_capability f # seen"
  using assms
  by (cases "fact_state f"; cases "fact_scope f")
     (auto simp: validate_fact_def fact_ok_def provenance_ok_iff scope_ok_def)

lemma validate_facts_Inr:
  assumes "df_release facts = Some release" and "df_api facts = Some api"
  shows "(\<exists>t. try_fold (validate_fact facts release api) seen fs = Inr t) \<longleftrightarrow>
    all_inserted seen (map fact_capability fs) \<and> (\<forall>f \<in> set fs. fact_ok facts f)"
  by (induction fs arbitrary: seen) (auto simp: bind_res_Inr_iff validate_fact_Inr [OF assms])

lemma validated_capabilities_new_Inr:
  "validated_capabilities_new facts = Inr v \<longleftrightarrow>
   v = ValidatedCapabilities facts \<and> daemon_identified facts
   \<and> distinct (map fact_capability (df_capabilities facts))
   \<and> (\<forall>f \<in> set (df_capabilities facts). fact_ok facts f)"
proof (cases "df_release facts"; cases "df_api facts")
  fix release api
  assume ids: "df_release facts = Some release" "df_api facts = Some api"
  show ?thesis
    using validate_facts_Inr [OF ids, of "[]" "df_capabilities facts"] ids
    by (auto simp: validated_capabilities_new_def daemon_identified_def bind_res_Inr_iff
        all_inserted_Nil not_less split: option.splits)
qed (auto simp: validated_capabilities_new_def daemon_identified_def)

section \<open>Properties\<close>

text \<open>\<open>ValidatedCapabilities::new\<close> accepts exactly the facts of an identified daemon (release,
  API version in range, known mode) whose claims are about pairwise distinct capabilities, have a
  provenance their state allows (available only from native conformance), and, unless unknown,
  carry exactly this daemon's scope.\<close>

theorem validated_capabilities_accepts:
  "(\<exists>v. validated_capabilities_new facts = Inr v) \<longleftrightarrow> daemon_identified facts
   \<and> distinct (map fact_capability (df_capabilities facts))
   \<and> list_all (fact_ok facts) (df_capabilities facts)"
  by (auto simp: validated_capabilities_new_Inr list_all_iff)

text \<open>A capability that validated facts support was observed as available by native
  conformance in exactly this daemon's scope, and by one fact only.\<close>

theorem validated_support_is_observed:
  assumes "validated_capabilities_new facts = Inr v" and "validated_supports v c"
  shows "\<exists>!f. f \<in> set (df_capabilities facts) \<and> fact_capability f = c
      \<and> fact_state f = Available \<and> fact_provenance f = NativeConformance
      \<and> (\<exists>s. fact_scope f = Some s
          \<and> scope_observation s = df_observation facts \<and> df_api facts = Some (scope_api s)
          \<and> df_release facts = Some (scope_release s) \<and> scope_mode s = df_mode facts)"
proof -
  from assms obtain f where f: "f \<in> set (df_capabilities facts)" "fact_capability f = c"
    "fact_state f = Available"
    by (auto simp: validated_capabilities_new_Inr validated_supports_def list_ex_iff)
  from assms(1) have d: "inj_on fact_capability (set (df_capabilities facts))"
    and ok: "fact_ok facts f"
    using f by (auto simp: validated_capabilities_new_Inr distinct_map)
  from ok f(3) have "fact_provenance f = NativeConformance" and "\<exists>s. fact_scope f = Some s
      \<and> scope_observation s = df_observation facts \<and> df_api facts = Some (scope_api s)
      \<and> df_release facts = Some (scope_release s) \<and> scope_mode s = df_mode facts"
    by (auto simp: fact_ok_def)
  with f show ?thesis
    by (intro ex1I [of _ f]) (auto dest: inj_onD [OF d])
qed

definition sample_facts :: daemon_facts where
  "sample_facts =
     \<lparr>df_observation = ObservationId 1, df_release = Some (EngineRelease ''29.8.1''),
      df_api = Some (ApiVersion 1 55), df_minimum_api = Some (ApiVersion 1 41),
      df_mode = Rootless,
      df_capabilities = [\<lparr>fact_capability = CapCommand, fact_state = Available,
        fact_provenance = NativeConformance,
        fact_scope = Some \<lparr>scope_observation = ObservationId 1,
          scope_release = EngineRelease ''29.8.1'', scope_api = ApiVersion 1 55,
          scope_mode = Rootless\<rparr>\<rparr>]\<rparr>"

theorem validated_support_is_observed_witness:
  "\<exists>!f. f \<in> set (df_capabilities sample_facts) \<and> fact_capability f = CapCommand
      \<and> fact_state f = Available \<and> fact_provenance f = NativeConformance
      \<and> (\<exists>s. fact_scope f = Some s
          \<and> scope_observation s = df_observation sample_facts
          \<and> df_api sample_facts = Some (scope_api s)
          \<and> df_release sample_facts = Some (scope_release s)
          \<and> scope_mode s = df_mode sample_facts)"
  by (rule validated_support_is_observed [where v = "ValidatedCapabilities sample_facts"])
     (simp_all add: sample_facts_def validated_capabilities_new_def validated_supports_def
       validate_fact_def scope_ok_def)

end
