(* ===== verification/Capability_Shapes.thy ===== *)
theory Capability_Shapes
  imports Capabilities
begin

text \<open>
  \<open>NativeCapabilityShape\<close> of \<^verbatim>\<open>src/version.rs\<close>: the closed renderer branches, the capability each
  belongs to and the shapes a positive capability fact must cover. \<open>required_for\<close> and
  \<open>shape_capability\<close> are two tables of the code; \<open>mem_required_for_iff\<close> proves them consistent.
\<close>

datatype (plugins only: size) native_shape =
  ShStandaloneCreate | ShNamedVolumeCreate | ShVolumeCreateLabels
| ShNamedVolumeMountReadWrite | ShNamedVolumeMountReadOnly | ShExternalVolumeReference
| ShBridgeNetworkCreate | ShBridgeNetworkAttach | ShExternalNetworkReference
| ShExternalNetworkInternalFalse | ShExternalNetworkInternalTrue
| ShInternalBridgeNetworkCreate | ShIpv6BridgeNetworkCreate | ShNetworkIpamV4
| ShNetworkIpamV6 | ShNetworkIpamGateway | ShNetworkIpamRange | ShNetworkIpamAuxiliary
| ShNetworkIpamDefaultDriver | ShNetworkBridgeMtu | ShNetworkBridgeIcc
| ShNetworkBridgeIccDisabled | ShNetworkBridgeMasquerade | ShNetworkBridgeMasqueradeEnabled
| ShNetworkBridgeHostBindingIp | ShNetworkCreateLabels | ShNetworkPrimaryAliases
| ShNetworkSecondaryAliases | ShNetworkStaticIpv4 | ShNetworkStaticIpv6
| ShNetworkSecondaryConnect | ShFixedTcpPort | ShFixedUdpPort | ShExposedOnlyPort
| ShFixedIpv4HostPort | ShEphemeralIpv4HostPort | ShFixedIpv6HostPort
| ShEphemeralIpv6HostPort | ShMultipleFixedPortBindings | ShMultipleEphemeralPortBindings
| ShEphemeralHostPort | ShBindMountReadWrite | ShBindMountReadOnly
| ShBindMountSharedRelabelReadWrite | ShBindMountSharedRelabelReadOnly
| ShBindMountPrivateRelabelReadWrite | ShBindMountPrivateRelabelReadOnly
| ShTmpfsMountReadWrite | ShTmpfsMountReadOnly | ShTmpfsMountOptions | ShEnvironmentValue
| ShEnvironmentEmptyValue | ShExecCommand | ShClearCommand | ShExecEntrypoint
| ShClearEntrypoint | ShExecHealthcheck | ShShellHealthcheck | ShDisabledHealthcheck
| ShHealthStartPeriodZero | ShHealthStartPeriodPositive | ShHealthStartIntervalZero
| ShHealthStartIntervalPositive | ShContainerCreateLabels | ShContainerUser
| ShContainerWorkdir | ShContainerHostname | ShReadOnlyRootfsTrue | ShReadOnlyRootfsFalse
| ShContainerInitTrue | ShContainerInitFalse | ShStopSignal | ShStopTimeoutZero
| ShStopTimeoutPositive | ShMemoryBytes | ShMemoryUnlimited | ShPidsCount | ShPidsUnlimited
| ShShmSize | ShUlimitsFinite | ShUlimitsUnlimited | ShUlimitNofile | ShDeviceMappings
| ShLinuxCapAdd | ShLinuxCapDrop | ShCapAddNetBindService | ShCapDropSysAdmin
| ShNoNewPrivilegesEnabled | ShNoNewPrivilegesDisabled | ShSysctls | ShSysctlIpv4Forward
| ShSupplementaryGroups | ShDnsIpv4 | ShDnsIpv6 | ShExtraHostsIpv4 | ShExtraHostsIpv6
| ShLogJsonFile | ShLogLocal | ShLogNone | ShLogOptions | ShLogOptionMaxSize | ShRestartNo
| ShRestartAlways | ShRestartUnlessStopped | ShRestartOnFailureUnlimited
| ShRestartOnFailureLimited

primrec shape_capability :: "native_shape \<Rightarrow> capability" where
  "shape_capability ShStandaloneCreate = CapStandaloneContainer"
| "shape_capability ShNamedVolumeCreate = CapNamedVolume"
| "shape_capability ShNamedVolumeMountReadWrite = CapNamedVolume"
| "shape_capability ShNamedVolumeMountReadOnly = CapNamedVolume"
| "shape_capability ShVolumeCreateLabels = CapVolumeLabels"
| "shape_capability ShExternalVolumeReference = CapVolumeExternalReference"
| "shape_capability ShBridgeNetworkCreate = CapBridgeNetwork"
| "shape_capability ShBridgeNetworkAttach = CapBridgeNetwork"
| "shape_capability ShExternalNetworkReference = CapNetworkExternalReference"
| "shape_capability ShExternalNetworkInternalFalse = CapNetworkExternalInternalExpectation"
| "shape_capability ShExternalNetworkInternalTrue = CapNetworkExternalInternalExpectation"
| "shape_capability ShInternalBridgeNetworkCreate = CapNetworkInternal"
| "shape_capability ShIpv6BridgeNetworkCreate = CapNetworkIpv6"
| "shape_capability ShNetworkIpamV4 = CapNetworkIpam"
| "shape_capability ShNetworkIpamV6 = CapNetworkIpam"
| "shape_capability ShNetworkIpamGateway = CapNetworkIpam"
| "shape_capability ShNetworkIpamRange = CapNetworkIpam"
| "shape_capability ShNetworkIpamAuxiliary = CapNetworkIpam"
| "shape_capability ShNetworkIpamDefaultDriver = CapNetworkIpamDriver"
| "shape_capability ShNetworkBridgeMtu = CapNetworkOptions"
| "shape_capability ShNetworkBridgeIcc = CapNetworkOptions"
| "shape_capability ShNetworkBridgeIccDisabled = CapNetworkOptions"
| "shape_capability ShNetworkBridgeMasquerade = CapNetworkOptions"
| "shape_capability ShNetworkBridgeMasqueradeEnabled = CapNetworkOptions"
| "shape_capability ShNetworkBridgeHostBindingIp = CapNetworkOptions"
| "shape_capability ShNetworkCreateLabels = CapNetworkLabels"
| "shape_capability ShNetworkPrimaryAliases = CapNetworkAliases"
| "shape_capability ShNetworkSecondaryAliases = CapNetworkAliases"
| "shape_capability ShNetworkStaticIpv4 = CapNetworkStaticAddress"
| "shape_capability ShNetworkStaticIpv6 = CapNetworkStaticAddress"
| "shape_capability ShNetworkSecondaryConnect = CapNetworkMultipleAttachment"
| "shape_capability ShFixedTcpPort = CapPortPublish"
| "shape_capability ShFixedUdpPort = CapPortPublish"
| "shape_capability ShExposedOnlyPort = CapPortExposeOnly"
| "shape_capability ShFixedIpv4HostPort = CapPortHostIpv4"
| "shape_capability ShEphemeralIpv4HostPort = CapPortHostIpv4"
| "shape_capability ShFixedIpv6HostPort = CapPortHostIpv6"
| "shape_capability ShEphemeralIpv6HostPort = CapPortHostIpv6"
| "shape_capability ShMultipleFixedPortBindings = CapPortMultipleBindings"
| "shape_capability ShMultipleEphemeralPortBindings = CapPortMultipleBindings"
| "shape_capability ShEphemeralHostPort = CapPortEphemeral"
| "shape_capability ShBindMountReadWrite = CapBindMount"
| "shape_capability ShBindMountReadOnly = CapBindMount"
| "shape_capability ShBindMountSharedRelabelReadWrite = CapBindRelabelShared"
| "shape_capability ShBindMountSharedRelabelReadOnly = CapBindRelabelShared"
| "shape_capability ShBindMountPrivateRelabelReadWrite = CapBindRelabelPrivate"
| "shape_capability ShBindMountPrivateRelabelReadOnly = CapBindRelabelPrivate"
| "shape_capability ShTmpfsMountReadWrite = CapTmpfsMount"
| "shape_capability ShTmpfsMountReadOnly = CapTmpfsMount"
| "shape_capability ShTmpfsMountOptions = CapTmpfsMount"
| "shape_capability ShEnvironmentValue = CapEnvironmentAssignment"
| "shape_capability ShEnvironmentEmptyValue = CapEnvironmentAssignment"
| "shape_capability ShExecCommand = CapCommand"
| "shape_capability ShClearCommand = CapCommandClear"
| "shape_capability ShExecEntrypoint = CapEntrypoint"
| "shape_capability ShClearEntrypoint = CapEntrypointClear"
| "shape_capability ShExecHealthcheck = CapHealthcheck"
| "shape_capability ShShellHealthcheck = CapHealthShell"
| "shape_capability ShDisabledHealthcheck = CapHealthDisabled"
| "shape_capability ShHealthStartPeriodZero = CapHealthStartPeriod"
| "shape_capability ShHealthStartPeriodPositive = CapHealthStartPeriod"
| "shape_capability ShHealthStartIntervalZero = CapHealthStartInterval"
| "shape_capability ShHealthStartIntervalPositive = CapHealthStartInterval"
| "shape_capability ShContainerCreateLabels = CapContainerLabels"
| "shape_capability ShContainerUser = CapContainerUser"
| "shape_capability ShContainerWorkdir = CapContainerWorkdir"
| "shape_capability ShContainerHostname = CapContainerHostname"
| "shape_capability ShReadOnlyRootfsTrue = CapReadOnlyRootfs"
| "shape_capability ShReadOnlyRootfsFalse = CapReadOnlyRootfs"
| "shape_capability ShContainerInitTrue = CapContainerInit"
| "shape_capability ShContainerInitFalse = CapContainerInit"
| "shape_capability ShStopSignal = CapStopSignal"
| "shape_capability ShStopTimeoutZero = CapStopTimeout"
| "shape_capability ShStopTimeoutPositive = CapStopTimeout"
| "shape_capability ShMemoryBytes = CapMemoryLimit"
| "shape_capability ShMemoryUnlimited = CapMemoryLimit"
| "shape_capability ShPidsCount = CapPidsLimit"
| "shape_capability ShPidsUnlimited = CapPidsLimit"
| "shape_capability ShShmSize = CapShmSize"
| "shape_capability ShUlimitsFinite = CapUlimits"
| "shape_capability ShUlimitsUnlimited = CapUlimits"
| "shape_capability ShUlimitNofile = CapUlimitNofile"
| "shape_capability ShDeviceMappings = CapDeviceMappings"
| "shape_capability ShLinuxCapAdd = CapLinuxCapabilities"
| "shape_capability ShLinuxCapDrop = CapLinuxCapabilities"
| "shape_capability ShCapAddNetBindService = CapCapAddNetBindService"
| "shape_capability ShCapDropSysAdmin = CapCapDropSysAdmin"
| "shape_capability ShNoNewPrivilegesEnabled = CapSecurityOptions"
| "shape_capability ShNoNewPrivilegesDisabled = CapSecurityOptions"
| "shape_capability ShSysctls = CapSysctls"
| "shape_capability ShSysctlIpv4Forward = CapSysctlIpv4Forward"
| "shape_capability ShSupplementaryGroups = CapSupplementaryGroups"
| "shape_capability ShDnsIpv4 = CapDnsServers"
| "shape_capability ShDnsIpv6 = CapDnsServers"
| "shape_capability ShExtraHostsIpv4 = CapExtraHosts"
| "shape_capability ShExtraHostsIpv6 = CapExtraHosts"
| "shape_capability ShLogJsonFile = CapLogConfig"
| "shape_capability ShLogLocal = CapLogConfig"
| "shape_capability ShLogNone = CapLogConfig"
| "shape_capability ShLogOptions = CapLogConfig"
| "shape_capability ShLogOptionMaxSize = CapLogOptionMaxSize"
| "shape_capability ShRestartNo = CapRestartPolicy"
| "shape_capability ShRestartAlways = CapRestartPolicy"
| "shape_capability ShRestartUnlessStopped = CapRestartPolicy"
| "shape_capability ShRestartOnFailureUnlimited = CapRestartPolicy"
| "shape_capability ShRestartOnFailureLimited = CapRestartPolicy"

primrec required_for :: "capability \<Rightarrow> native_shape list option" where
  "required_for CapStandaloneContainer = Some [ShStandaloneCreate]"
| "required_for CapNamedVolume = Some
     [ShNamedVolumeCreate,
      ShNamedVolumeMountReadWrite, ShNamedVolumeMountReadOnly]"
| "required_for CapVolumeLabels = Some [ShVolumeCreateLabels]"
| "required_for CapVolumeExternalReference = Some [ShExternalVolumeReference]"
| "required_for CapBridgeNetwork = Some [ShBridgeNetworkCreate, ShBridgeNetworkAttach]"
| "required_for CapNetworkExternalReference = Some [ShExternalNetworkReference]"
| "required_for CapNetworkExternalInternalExpectation = Some
     [ShExternalNetworkInternalFalse,
      ShExternalNetworkInternalTrue]"
| "required_for CapNetworkInternal = Some [ShInternalBridgeNetworkCreate]"
| "required_for CapNetworkIpv6 = Some [ShIpv6BridgeNetworkCreate]"
| "required_for CapNetworkIpam = Some
     [ShNetworkIpamV4, ShNetworkIpamV6,
      ShNetworkIpamGateway, ShNetworkIpamRange, ShNetworkIpamAuxiliary]"
| "required_for CapNetworkIpamDriver = Some [ShNetworkIpamDefaultDriver]"
| "required_for CapNetworkOptions = Some
     [ShNetworkBridgeMtu, ShNetworkBridgeIcc, ShNetworkBridgeIccDisabled,
      ShNetworkBridgeMasquerade, ShNetworkBridgeMasqueradeEnabled, ShNetworkBridgeHostBindingIp]"
| "required_for CapNetworkLabels = Some [ShNetworkCreateLabels]"
| "required_for CapNetworkAliases = Some [ShNetworkPrimaryAliases, ShNetworkSecondaryAliases]"
| "required_for CapNetworkStaticAddress = Some [ShNetworkStaticIpv4, ShNetworkStaticIpv6]"
| "required_for CapNetworkMultipleAttachment = Some [ShNetworkSecondaryConnect]"
| "required_for CapPortPublish = Some [ShFixedTcpPort, ShFixedUdpPort]"
| "required_for CapPortExposeOnly = Some [ShExposedOnlyPort]"
| "required_for CapPortHostIpv4 = Some [ShFixedIpv4HostPort, ShEphemeralIpv4HostPort]"
| "required_for CapPortHostIpv6 = Some [ShFixedIpv6HostPort, ShEphemeralIpv6HostPort]"
| "required_for CapPortMultipleBindings = Some
     [ShMultipleFixedPortBindings,
      ShMultipleEphemeralPortBindings]"
| "required_for CapPortEphemeral = Some [ShEphemeralHostPort]"
| "required_for CapBindMount = Some [ShBindMountReadWrite, ShBindMountReadOnly]"
| "required_for CapBindRelabelShared = Some
     [ShBindMountSharedRelabelReadWrite,
      ShBindMountSharedRelabelReadOnly]"
| "required_for CapBindRelabelPrivate = Some
     [ShBindMountPrivateRelabelReadWrite,
      ShBindMountPrivateRelabelReadOnly]"
| "required_for CapTmpfsMount = Some
     [ShTmpfsMountReadWrite,
      ShTmpfsMountReadOnly, ShTmpfsMountOptions]"
| "required_for CapEnvironmentAssignment = Some [ShEnvironmentValue, ShEnvironmentEmptyValue]"
| "required_for CapCommand = Some [ShExecCommand]"
| "required_for CapCommandClear = Some [ShClearCommand]"
| "required_for CapEntrypoint = Some [ShExecEntrypoint]"
| "required_for CapEntrypointClear = Some [ShClearEntrypoint]"
| "required_for CapHealthcheck = Some [ShExecHealthcheck]"
| "required_for CapHealthShell = Some [ShShellHealthcheck]"
| "required_for CapHealthDisabled = Some [ShDisabledHealthcheck]"
| "required_for CapHealthStartPeriod = Some
     [ShHealthStartPeriodZero,
      ShHealthStartPeriodPositive]"
| "required_for CapHealthStartInterval = Some
     [ShHealthStartIntervalZero,
      ShHealthStartIntervalPositive]"
| "required_for CapContainerLabels = Some [ShContainerCreateLabels]"
| "required_for CapContainerUser = Some [ShContainerUser]"
| "required_for CapContainerWorkdir = Some [ShContainerWorkdir]"
| "required_for CapContainerHostname = Some [ShContainerHostname]"
| "required_for CapReadOnlyRootfs = Some [ShReadOnlyRootfsTrue, ShReadOnlyRootfsFalse]"
| "required_for CapContainerInit = Some [ShContainerInitTrue, ShContainerInitFalse]"
| "required_for CapStopSignal = Some [ShStopSignal]"
| "required_for CapStopTimeout = Some [ShStopTimeoutZero, ShStopTimeoutPositive]"
| "required_for CapMemoryLimit = Some [ShMemoryBytes, ShMemoryUnlimited]"
| "required_for CapPidsLimit = Some [ShPidsCount, ShPidsUnlimited]"
| "required_for CapShmSize = Some [ShShmSize]"
| "required_for CapUlimits = Some [ShUlimitsFinite, ShUlimitsUnlimited]"
| "required_for CapUlimitNofile = Some [ShUlimitNofile]"
| "required_for CapDeviceMappings = Some [ShDeviceMappings]"
| "required_for CapLinuxCapabilities = Some [ShLinuxCapAdd, ShLinuxCapDrop]"
| "required_for CapCapAddNetBindService = Some [ShCapAddNetBindService]"
| "required_for CapCapDropSysAdmin = Some [ShCapDropSysAdmin]"
| "required_for CapSecurityOptions = Some [ShNoNewPrivilegesEnabled, ShNoNewPrivilegesDisabled]"
| "required_for CapSysctls = Some [ShSysctls]"
| "required_for CapSysctlIpv4Forward = Some [ShSysctlIpv4Forward]"
| "required_for CapSupplementaryGroups = Some [ShSupplementaryGroups]"
| "required_for CapDnsServers = Some [ShDnsIpv4, ShDnsIpv6]"
| "required_for CapExtraHosts = Some [ShExtraHostsIpv4, ShExtraHostsIpv6]"
| "required_for CapLogConfig = Some [ShLogJsonFile, ShLogLocal, ShLogNone, ShLogOptions]"
| "required_for CapLogOptionMaxSize = Some [ShLogOptionMaxSize]"
| "required_for CapRestartPolicy = Some
     [ShRestartNo, ShRestartAlways,
      ShRestartUnlessStopped, ShRestartOnFailureUnlimited, ShRestartOnFailureLimited]"
| "required_for CapHostNetwork = None"
| "required_for CapUserNamespace = None"

lemma required_for_covers:
  "s \<in> set (the (required_for (shape_capability s)))"
  by (cases s) simp_all


lemma required_for_some: "required_for (shape_capability s) \<noteq> None"
  by (cases s) simp_all

text \<open>No required list mentions a shape of another capability, repeats a shape or is empty.\<close>

lemma required_for_sound:
  "case required_for c of None \<Rightarrow> True | Some ss \<Rightarrow> list_all (\<lambda>s. shape_capability s = c) ss"
  by (cases c) simp_all

lemma required_for_distinct:
  "case required_for c of None \<Rightarrow> True | Some ss \<Rightarrow> distinct ss \<and> ss \<noteq> []"
  by (cases c) simp_all

lemma required_for_None: "required_for c = None \<longleftrightarrow> c = CapHostNetwork \<or> c = CapUserNamespace"
  by (cases c) simp_all

lemma mem_required_for_iff:
  assumes "required_for c = Some ss"
  shows "(s \<in> set ss) = (shape_capability s = c)"
proof (rule iffI)
  assume "s \<in> set ss"
  with required_for_sound [of c] assms show "shape_capability s = c" by (simp add: list_all_iff)
next
  assume "shape_capability s = c"
  then have "s \<in> set (the (required_for c))" using required_for_covers [of s] by (simp only:)
  with assms show "s \<in> set ss" by (simp only: option.sel)
qed

section \<open>Properties\<close>

text \<open>The two tables of shapes agree: the shapes required to admit a capability are exactly the
  shapes that belong to it, so no closed renderer branch can be admitted without its capability's
  review and none is forgotten; and the capabilities with no required shapes, which the catalog
  can therefore never admit, are host networking and user namespaces.\<close>

theorem required_shapes_partition:
  "(\<exists>ss. required_for c = Some ss \<and> s \<in> set ss) = (shape_capability s = c)
   \<and> (required_for c = None) = (c = CapHostNetwork \<or> c = CapUserNamespace)"
proof (intro conjI)
  show "(\<exists>ss. required_for c = Some ss \<and> s \<in> set ss) = (shape_capability s = c)"
  proof (cases "required_for c")
    case None
    then have "shape_capability s \<noteq> c"
      using required_for_covers [of s] required_for_some [of s] by metis
    with None show ?thesis by simp
  next
    case (Some ss)
    then show ?thesis using mem_required_for_iff [OF Some, of s] by simp
  qed
  show "(required_for c = None) = (c = CapHostNetwork \<or> c = CapUserNamespace)"
    by (rule required_for_None)
qed

end
