(* ===== verification/Capability_Catalog.thy ===== *)
theory Capability_Catalog
  imports Capability_Shapes Rust_Text
begin

text \<open>
  \<^verbatim>\<open>src/version.rs\<close>, the second half: package revisions, evidence keys and references, target
  profiles, and the catalog of reviewed records with its admission gate \<open>from_records\<close> and its
  two lookups. The record loop and its hash sets are folds over lists; \<open>admitted_record\<close> is the
  declarative reading of the gate.
\<close>

section \<open>Evidence\<close>

datatype package_revision = DebianPackageRevision (revision_text: bytes)

definition package_revision_new :: "bytes \<Rightarrow> capability_error + package_revision" where
  "package_revision_new v =
     (if v = [] \<or> list_ex (\<lambda>c. is_ascii_ws c \<or> is_ascii_control c) v
      then Inl InvalidPackageRevision else Inr (DebianPackageRevision v))"

datatype engine_build = Upstream | DebianPackage package_revision

text \<open>The digest is a \<^verbatim>\<open>[u8; 32]\<close>; the constructor refuses the all-zero one.\<close>

datatype evidence_key = EvidenceKey (sha256_bytes: bytes)

definition evidence_key_sha256 :: "bytes \<Rightarrow> capability_error + evidence_key" where
  "evidence_key_sha256 digest =
     ok_or (if digest \<noteq> replicate 32 NUL then Some (EvidenceKey digest) else None) EmptyEvidenceKey"

datatype evidence_lane = Debian11Rootful | Debian11Rootless | UpstreamRootful | UpstreamRootless

fun lane_artifact_name :: "evidence_lane \<Rightarrow> bytes" where
  "lane_artifact_name Debian11Rootful = ''dockerlens-native-debian11-rootful''"
| "lane_artifact_name Debian11Rootless = ''dockerlens-native-debian11-rootless''"
| "lane_artifact_name UpstreamRootful = ''dockerlens-native-upstream-rootful''"
| "lane_artifact_name UpstreamRootless = ''dockerlens-native-upstream-rootless''"

record evidence_reference =
  ev_lane :: evidence_lane
  ev_run_url :: bytes
  ev_candidate_sha :: bytes
  ev_artifact_name :: bytes
  ev_manifest_key :: evidence_key
  ev_record_key :: evidence_key

definition strip_prefix :: "bytes \<Rightarrow> bytes \<Rightarrow> bytes option" where
  "strip_prefix p s = (if take (length p) s = p then Some (drop (length p) s) else None)"

text \<open>\<^verbatim>\<open>str::split_once\<close> with a string pattern: at its first occurrence.\<close>

fun split_once_str :: "bytes \<Rightarrow> bytes \<Rightarrow> (bytes \<times> bytes) option" where
  "split_once_str p [] = (if p = [] then Some ([], []) else None)"
| "split_once_str p (c # cs) =
     (case strip_prefix p (c # cs) of
        Some r \<Rightarrow> Some ([], r)
      | None \<Rightarrow> map_option (\<lambda>(a, b). (c # a, b)) (split_once_str p cs))"

lemma strip_prefix_Some: "strip_prefix p s = Some r \<longleftrightarrow> s = p @ r"
  by (auto simp: strip_prefix_def) (metis append_take_drop_id)

lemma split_once_str_Some: "split_once_str p s = Some (a, b) \<Longrightarrow> s = a @ p @ b"
  by (induction p s arbitrary: a rule: split_once_str.induct)
     (auto simp: strip_prefix_Some split: option.splits if_splits)

definition run_url_prefix :: bytes where
  "run_url_prefix = ''https://github.com/Strukturpiloten/docker-lens/actions/runs/''"

text \<open>A run or attempt number: decimal, with no leading zero.\<close>

definition positive_decimal :: "bytes \<Rightarrow> bool" where
  "positive_decimal p \<longleftrightarrow>
     (case p of [] \<Rightarrow> False | c # _ \<Rightarrow> 49 \<le> byte_val c \<and> byte_val c \<le> 57) \<and> list_all is_digit p"

definition sha_digit :: "char \<Rightarrow> bool" where
  "sha_digit c \<longleftrightarrow> is_digit c \<or> 97 \<le> byte_val c \<and> byte_val c \<le> 102"

definition evidence_reference_new ::
  "evidence_lane \<Rightarrow> bytes \<Rightarrow> bytes \<Rightarrow> bytes \<Rightarrow> evidence_key \<Rightarrow> evidence_key
   \<Rightarrow> capability_error + evidence_reference" where
  "evidence_reference_new lane run_url candidate_sha artifact_name manifest_key record_key =
     (case strip_prefix run_url_prefix run_url of
        None \<Rightarrow> Inl InvalidEvidenceRunUrl
      | Some run_path \<Rightarrow>
        (case split_once_str ''/attempts/'' run_path of
           None \<Rightarrow> Inl InvalidEvidenceRunUrl
         | Some (run_id, attempt) \<Rightarrow>
           if \<not> list_all positive_decimal [run_id, attempt] then Inl InvalidEvidenceRunUrl
           else if length candidate_sha \<noteq> 40 \<or> \<not> list_all sha_digit candidate_sha
           then Inl InvalidEvidenceCandidateSha
           else if artifact_name \<noteq> lane_artifact_name lane then Inl InvalidEvidenceArtifactName
           else Inr \<lparr>ev_lane = lane, ev_run_url = run_url, ev_candidate_sha = candidate_sha,
             ev_artifact_name = artifact_name, ev_manifest_key = manifest_key,
             ev_record_key = record_key\<rparr>))"

section \<open>Target profiles\<close>

record profile_identity =
  pi_build :: engine_build
  pi_release :: engine_release
  pi_advertised :: api_version
  pi_acquisition :: api_version
  pi_rendering :: api_version
  pi_mode :: daemon_mode

definition minimum_api :: api_version where
  "minimum_api = ApiVersion 1 41"

definition profile_identity_new ::
  "engine_build \<Rightarrow> engine_release \<Rightarrow> api_version \<Rightarrow> api_version \<Rightarrow> api_version \<Rightarrow> daemon_mode
   \<Rightarrow> capability_error + profile_identity" where
  "profile_identity_new build release advertised acquisition rendering mode =
     (if mode = UnknownMode then Inl UnknownTargetMode
      else if api_major advertised \<noteq> 1 \<or> acquisition < minimum_api \<or> rendering < minimum_api
         \<or> acquisition > advertised \<or> rendering > advertised
      then Inl InvalidTargetApiRange
      else Inr \<lparr>pi_build = build, pi_release = release, pi_advertised = advertised,
        pi_acquisition = acquisition, pi_rendering = rendering, pi_mode = mode\<rparr>)"

definition lane_matches_identity :: "evidence_lane \<Rightarrow> profile_identity \<Rightarrow> bool" where
  "lane_matches_identity lane i =
     (let debian11 = pi_build i = DebianPackage (DebianPackageRevision ''20.10.5+dfsg1-1+deb11u2'')
            \<and> release_text (pi_release i) = ''20.10.5+dfsg1''
            \<and> pi_advertised i = ApiVersion 1 41 \<and> pi_acquisition i = ApiVersion 1 41
            \<and> pi_rendering i = ApiVersion 1 41 in
      release_text (pi_release i) = ''29.8.1''
        \<and> (lane, pi_build i, pi_mode i)
            \<in> {(UpstreamRootful, Upstream, Rootful), (UpstreamRootless, Upstream, Rootless)}
      \<or> debian11
        \<and> (lane, pi_mode i) \<in> {(Debian11Rootful, Rootful), (Debian11Rootless, Rootless)})"

record target_profile =
  tp_identity :: profile_identity
  tp_evidence_key :: evidence_key

definition target_profile_new :: "profile_identity \<Rightarrow> evidence_key \<Rightarrow> target_profile" where
  "target_profile_new i k = \<lparr>tp_identity = i, tp_evidence_key = k\<rparr>"

section \<open>The catalog\<close>

record target_fact =
  tf_capability :: capability
  tf_state :: capability_state

record target_record =
  tr_profile :: target_profile
  tr_evidence :: evidence_reference
  tr_capabilities :: "target_fact list"
  tr_shapes :: "native_shape list"

text \<open>One pass of the shape loop: \<open>seen\<close> is the set \<open>shapes\<close> of the code.\<close>

definition admit_shape ::
  "capability list \<Rightarrow> native_shape list \<Rightarrow> native_shape
   \<Rightarrow> capability_error + native_shape list" where
  "admit_shape available seen s =
     (if s \<in> set seen then Inl DuplicateEvidenceShape
      else if shape_capability s \<notin> set available then Inl EvidenceShapeMismatch
      else Inr (s # seen))"

definition available_capabilities :: "target_fact list \<Rightarrow> capability list" where
  "available_capabilities fs = map tf_capability (filter (\<lambda>f. tf_state f = Available) fs)"

text \<open>
  The last loop ranges over a hash set, in an order the code does not fix; its only error is
  \<open>IncompleteEvidenceShapes\<close>, so the order cannot be seen.
\<close>

definition shapes_complete :: "native_shape list \<Rightarrow> capability \<Rightarrow> bool" where
  "shapes_complete shapes c =
     (case required_for c of None \<Rightarrow> False | Some ss \<Rightarrow> list_all (\<lambda>s. s \<in> set shapes) ss)"

definition admit_record ::
  "profile_identity list \<Rightarrow> target_record \<Rightarrow> capability_error + profile_identity list" where
  "admit_record profiles r =
     (let identity = tp_identity (tr_profile r);
          available = available_capabilities (tr_capabilities r) in
      if identity \<in> set profiles then Inl DuplicateProfile
      else if \<not> lane_matches_identity (ev_lane (tr_evidence r)) identity
      then Inl EvidenceLaneMismatch
      else if ev_record_key (tr_evidence r) \<noteq> tp_evidence_key (tr_profile r)
      then Inl EvidenceKeyMismatch
      else if \<not> all_inserted [] (map tf_capability (tr_capabilities r))
      then Inl DuplicateCapability
      else bind_res (try_fold (admit_shape available) [] (tr_shapes r)) (\<lambda>shapes.
        if \<not> list_all (shapes_complete shapes) available then Inl IncompleteEvidenceShapes
        else Inr (identity # profiles)))"

datatype catalog = Catalog (catalog_records: "target_record list")

definition from_records :: "target_record list \<Rightarrow> capability_error + catalog" where
  "from_records records = bind_res (try_fold admit_record [] records) (\<lambda>_. Inr (Catalog records))"

definition profiles :: "catalog \<Rightarrow> target_profile list" where
  "profiles c = map tr_profile (catalog_records c)"

datatype target_capabilities = TargetCapabilities (tc_record: target_record)

definition resolve :: "catalog \<Rightarrow> target_profile \<Rightarrow> capability_error + target_capabilities" where
  "resolve c p =
     ok_or (map_option TargetCapabilities (List.find (\<lambda>r. tr_profile r = p) (catalog_records c)))
       ProfileNotReviewed"

definition resolve_identity ::
  "catalog \<Rightarrow> profile_identity \<Rightarrow> capability_error + target_capabilities" where
  "resolve_identity c i =
     ok_or (map_option TargetCapabilities
       (List.find (\<lambda>r. tp_identity (tr_profile r) = i) (catalog_records c)))
       ProfileNotReviewed"

definition target_supports :: "target_capabilities \<Rightarrow> capability \<Rightarrow> bool" where
  "target_supports t c =
     list_ex (\<lambda>f. tf_capability f = c \<and> tf_state f = Available) (tr_capabilities (tc_record t))"

section \<open>What the admission gate accepts\<close>

lemma try_fold_admit_shape:
  "try_fold (admit_shape av) seen ss = Inr t \<longleftrightarrow>
   all_inserted seen ss \<and> shape_capability ` set ss \<subseteq> set av \<and> t = rev ss @ seen"
  by (induction ss arbitrary: seen) (auto simp: bind_res_Inr_iff admit_shape_def)

lemma shapes_complete_iff:
  "shapes_complete shapes c \<longleftrightarrow>
   c \<noteq> CapHostNetwork \<and> c \<noteq> CapUserNamespace
   \<and> (\<forall>s. shape_capability s = c \<longrightarrow> s \<in> set shapes)"
proof (cases "required_for c")
  case None
  then show ?thesis using required_for_None [of c] by (auto simp: shapes_complete_def)
next
  case (Some ss)
  then have "set ss = {s. shape_capability s = c}" using mem_required_for_iff [OF Some] by blast
  with Some required_for_None [of c] show ?thesis
    by (auto simp: shapes_complete_def list_all_iff)
qed

text \<open>
  A record the gate lets through: its evidence is of its own lane and key, no capability and no
  shape is listed twice, and the admitted shapes are exactly the shapes of its available
  capabilities, each of which can be admitted at all.
\<close>

definition admitted_record :: "target_record \<Rightarrow> bool" where
  "admitted_record r \<longleftrightarrow>
     lane_matches_identity (ev_lane (tr_evidence r)) (tp_identity (tr_profile r))
   \<and> ev_record_key (tr_evidence r) = tp_evidence_key (tr_profile r)
   \<and> distinct (map tf_capability (tr_capabilities r))
   \<and> distinct (tr_shapes r)
   \<and> (\<forall>s. s \<in> set (tr_shapes r)
          \<longleftrightarrow> shape_capability s \<in> set (available_capabilities (tr_capabilities r)))
   \<and> CapHostNetwork \<notin> set (available_capabilities (tr_capabilities r))
   \<and> CapUserNamespace \<notin> set (available_capabilities (tr_capabilities r))"

lemma shapes_exact:
  "shape_capability ` set ss \<subseteq> set av \<and> list_all (shapes_complete ss) av \<longleftrightarrow>
   (\<forall>s. s \<in> set ss \<longleftrightarrow> shape_capability s \<in> set av)
   \<and> CapHostNetwork \<notin> set av \<and> CapUserNamespace \<notin> set av"
  unfolding list_all_iff shapes_complete_iff by blast

lemma shapes_complete_rev [simp]: "shapes_complete (rev ss) = shapes_complete ss"
  by (rule ext) (simp add: shapes_complete_def split: option.splits)

lemma admit_record_Inr:
  "admit_record ps r = Inr ps' \<longleftrightarrow>
   tp_identity (tr_profile r) \<notin> set ps \<and> admitted_record r \<and> ps' = tp_identity (tr_profile r) # ps"
proof -
  let ?av = "available_capabilities (tr_capabilities r)"
  have "admit_record ps r = Inr ps' \<longleftrightarrow>
    tp_identity (tr_profile r) \<notin> set ps
    \<and> lane_matches_identity (ev_lane (tr_evidence r)) (tp_identity (tr_profile r))
    \<and> ev_record_key (tr_evidence r) = tp_evidence_key (tr_profile r)
    \<and> distinct (map tf_capability (tr_capabilities r)) \<and> distinct (tr_shapes r)
    \<and> (shape_capability ` set (tr_shapes r) \<subseteq> set ?av
       \<and> list_all (shapes_complete (tr_shapes r)) ?av)
    \<and> ps' = tp_identity (tr_profile r) # ps"
    unfolding admit_record_def Let_def
    by (simp add: bind_res_Inr_iff try_fold_admit_shape all_inserted_Nil conj_ac
        cong: conj_cong) blast
  then show ?thesis unfolding shapes_exact admitted_record_def by blast
qed

lemma from_records_Inr:
  "from_records rs = Inr c \<longleftrightarrow> c = Catalog rs
   \<and> distinct (map (\<lambda>r. tp_identity (tr_profile r)) rs) \<and> list_all admitted_record rs"
proof -
  have "(\<exists>t. try_fold admit_record ps rs = Inr t) \<longleftrightarrow>
    all_inserted ps (map (\<lambda>r. tp_identity (tr_profile r)) rs) \<and> list_all admitted_record rs" for ps
    by (induction rs arbitrary: ps) (auto simp: bind_res_Inr_iff admit_record_Inr)
  from this [of "[]"] show ?thesis
    by (auto simp: from_records_def bind_res_Inr_iff all_inserted_Nil)
qed

lemma find_unique:
  "distinct (map f xs) \<Longrightarrow> List.find (\<lambda>x. f x = k) xs = Some x \<longleftrightarrow> x \<in> set xs \<and> f x = k"
proof (induction xs)
  case Nil
  then show ?case by simp
next
  case (Cons y ys)
  then show ?case by (auto simp: image_iff)
qed

lemma resolve_identity_iff:
  assumes "from_records rs = Inr c"
  shows "resolve_identity c i = Inr (TargetCapabilities r) \<longleftrightarrow>
    r \<in> set rs \<and> tp_identity (tr_profile r) = i"
  using assms find_unique [of "\<lambda>r. tp_identity (tr_profile r)" rs i r]
  by (auto simp: resolve_identity_def ok_or_Inr_iff from_records_Inr)

lemma resolve_iff:
  assumes "from_records rs = Inr c"
  shows "resolve c p = Inr (TargetCapabilities r) \<longleftrightarrow> r \<in> set rs \<and> tr_profile r = p"
proof -
  from assms have "distinct (map tp_identity (map tr_profile rs))"
    by (simp add: from_records_Inr comp_def)
  then have "distinct (map tr_profile rs)" by (metis distinct_map)
  then show ?thesis
    using assms find_unique [of tr_profile rs p r]
    by (auto simp: resolve_def ok_or_Inr_iff from_records_Inr)
qed

lemma target_supports_iff:
  "target_supports t c \<longleftrightarrow> c \<in> set (available_capabilities (tr_capabilities (tc_record t)))"
  by (auto simp: target_supports_def available_capabilities_def list_ex_iff)

section \<open>Constructors\<close>

lemma positive_decimal_iff:
  "positive_decimal p \<longleftrightarrow> p \<noteq> [] \<and> list_all is_digit p \<and> hd p \<noteq> CHR ''0''"
proof (cases p)
  case Nil
  then show ?thesis by (simp add: positive_decimal_def)
next
  case (Cons c cs)
  have "byte_val c = byte_val CHR ''0'' \<longleftrightarrow> c = CHR ''0''"
    by (simp only: of_char_eq_iff)
  then have "byte_val c = 48 \<longleftrightarrow> c = CHR ''0''" by simp
  with Cons show ?thesis by (auto simp: positive_decimal_def is_digit_def)
qed

lemma evidence_reference_new_Inr:
  "evidence_reference_new lane url sha art mk rk = Inr e \<longleftrightarrow>
   (\<exists>path run_id attempt. strip_prefix run_url_prefix url = Some path
      \<and> split_once_str ''/attempts/'' path = Some (run_id, attempt)
      \<and> positive_decimal run_id \<and> positive_decimal attempt)
   \<and> length sha = 40 \<and> list_all sha_digit sha \<and> art = lane_artifact_name lane
   \<and> e = \<lparr>ev_lane = lane, ev_run_url = url, ev_candidate_sha = sha, ev_artifact_name = art,
       ev_manifest_key = mk, ev_record_key = rk\<rparr>"
  by (auto simp: evidence_reference_new_def split: option.splits)

lemma profile_identity_new_Inr:
  "profile_identity_new b r ad ac re m = Inr i \<longleftrightarrow>
   m \<noteq> UnknownMode \<and> api_major ad = 1 \<and> minimum_api \<le> ac \<and> ac \<le> ad \<and> minimum_api \<le> re \<and> re \<le> ad
   \<and> i = \<lparr>pi_build = b, pi_release = r, pi_advertised = ad, pi_acquisition = ac,
       pi_rendering = re, pi_mode = m\<rparr>"
  by (auto simp: profile_identity_new_def not_less)

text \<open>With no further slash in the run number, the split is the only one possible.\<close>

lemma split_once_str_first:
  "p = c # q \<Longrightarrow> c \<notin> set a \<Longrightarrow> split_once_str p (a @ p @ b) = Some (a, b)"
proof (induction a)
  case Nil
  then show ?case by (simp add: strip_prefix_def)
next
  case (Cons x a)
  then have "strip_prefix p (x # a @ p @ b) = None" by (auto simp: strip_prefix_def)
  with Cons show ?case by simp
qed

lemma run_url_iff:
  "(\<exists>path run_id attempt. strip_prefix run_url_prefix url = Some path
      \<and> split_once_str ''/attempts/'' path = Some (run_id, attempt)
      \<and> positive_decimal run_id \<and> positive_decimal attempt)
   \<longleftrightarrow> (\<exists>run_id attempt. url = run_url_prefix @ run_id @ ''/attempts/'' @ attempt
      \<and> positive_decimal run_id \<and> positive_decimal attempt)"
proof
  assume "\<exists>path run_id attempt. strip_prefix run_url_prefix url = Some path
      \<and> split_once_str ''/attempts/'' path = Some (run_id, attempt)
      \<and> positive_decimal run_id \<and> positive_decimal attempt"
  then show "\<exists>run_id attempt. url = run_url_prefix @ run_id @ ''/attempts/'' @ attempt
      \<and> positive_decimal run_id \<and> positive_decimal attempt"
    by (fastforce simp: strip_prefix_Some dest: split_once_str_Some)
next
  assume "\<exists>run_id attempt. url = run_url_prefix @ run_id @ ''/attempts/'' @ attempt
      \<and> positive_decimal run_id \<and> positive_decimal attempt"
  then obtain run_id attempt where u: "url = run_url_prefix @ run_id @ ''/attempts/'' @ attempt"
    and d: "positive_decimal run_id" "positive_decimal attempt" by blast
  have "CHR ''/'' \<notin> set run_id"
    using d(1) by (auto simp: positive_decimal_iff list_all_iff is_digit_def)
  then have "split_once_str ''/attempts/'' (run_id @ ''/attempts/'' @ attempt) =
      Some (run_id, attempt)"
    using split_once_str_first [OF refl, of "CHR ''/''" run_id "''attempts/''" attempt] by simp
  with u d show "\<exists>path run_id attempt. strip_prefix run_url_prefix url = Some path
      \<and> split_once_str ''/attempts/'' path = Some (run_id, attempt)
      \<and> positive_decimal run_id \<and> positive_decimal attempt"
    by (meson strip_prefix_Some)
qed

section \<open>Properties\<close>

text \<open>C2: the admission gate accepts exactly the record lists whose target identities are pairwise
  distinct and whose records are each admitted: evidence of the record's own lane and key, no
  repeated capability or shape, and admitted shapes that are exactly the shapes of the available
  capabilities.\<close>

theorem from_records_accepts:
  "from_records rs = Inr c \<longleftrightarrow> c = Catalog rs
   \<and> distinct (map (\<lambda>r. tp_identity (tr_profile r)) rs) \<and> list_all admitted_record rs"
  by (rule from_records_Inr)

text \<open>C3: a capability the catalog supports for a target is reviewed: the resolved record is a
  record of the catalog, for exactly that profile and its evidence key, its evidence is of the
  lane of that identity, and every native shape of the capability was admitted in it. Host
  networking and user namespaces are never supported.\<close>

theorem target_support_is_reviewed:
  assumes "from_records rs = Inr cat" and "resolve cat p = Inr t" and "target_supports t c"
  shows "tc_record t \<in> set rs \<and> tr_profile (tc_record t) = p
    \<and> ev_record_key (tr_evidence (tc_record t)) = tp_evidence_key p
    \<and> lane_matches_identity (ev_lane (tr_evidence (tc_record t))) (tp_identity p)
    \<and> {s. shape_capability s = c} \<subseteq> set (tr_shapes (tc_record t))
    \<and> c \<noteq> CapHostNetwork \<and> c \<noteq> CapUserNamespace"
proof -
  obtain r where t: "t = TargetCapabilities r" by (cases t)
  with assms(1,2) have r: "r \<in> set rs" "tr_profile r = p" by (simp_all add: resolve_iff)
  with assms(1) have adm: "admitted_record r" by (simp add: from_records_Inr list_all_iff)
  have "c \<in> set (available_capabilities (tr_capabilities r))"
    using assms(3) by (simp add: target_supports_iff t)
  with adm r show ?thesis unfolding admitted_record_def by (simp add: t) blast
qed

definition sample_record :: target_record where
  "sample_record =
     \<lparr>tr_profile = target_profile_new
        \<lparr>pi_build = Upstream, pi_release = EngineRelease ''29.8.1'', pi_advertised = ApiVersion 1 55,
         pi_acquisition = ApiVersion 1 55, pi_rendering = ApiVersion 1 55, pi_mode = Rootless\<rparr>
        (EvidenceKey (replicate 32 CHR ''k'')),
      tr_evidence =
        \<lparr>ev_lane = UpstreamRootless, ev_run_url = run_url_prefix @ ''7/attempts/1'',
         ev_candidate_sha = replicate 40 CHR ''a'',
         ev_artifact_name = lane_artifact_name UpstreamRootless,
         ev_manifest_key = EvidenceKey (replicate 32 CHR ''m''),
         ev_record_key = EvidenceKey (replicate 32 CHR ''k'')\<rparr>,
      tr_capabilities = [\<lparr>tf_capability = CapCommand, tf_state = Available\<rparr>,
        \<lparr>tf_capability = CapUserNamespace, tf_state = Unavailable\<rparr>,
        \<lparr>tf_capability = CapNamedVolume, tf_state = Available\<rparr>],
      tr_shapes = [ShExecCommand, ShNamedVolumeCreate, ShNamedVolumeMountReadWrite,
        ShNamedVolumeMountReadOnly]\<rparr>"

lemma sample_records_admitted: "from_records [sample_record] = Inr (Catalog [sample_record])"
  by (simp add: from_records_def admit_record_def sample_record_def Let_def
      target_profile_new_def lane_matches_identity_def available_capabilities_def
      admit_shape_def shapes_complete_def)

theorem target_support_is_reviewed_witness:
  "ShExecCommand \<in> set (tr_shapes sample_record)"
proof -
  have "resolve (Catalog [sample_record]) (tr_profile sample_record)
      = Inr (TargetCapabilities sample_record)"
    by (simp add: resolve_def)
  moreover have "target_supports (TargetCapabilities sample_record) CapCommand"
    by (simp add: target_supports_def sample_record_def)
  ultimately have "{s. shape_capability s = CapCommand} \<subseteq> set (tr_shapes sample_record)"
    using target_support_is_reviewed [OF sample_records_admitted, where
        p = "tr_profile sample_record" and t = "TargetCapabilities sample_record" and
        c = CapCommand] by simp
  moreover have "shape_capability ShExecCommand = CapCommand" by simp
  ultimately show ?thesis by blast
qed

text \<open>Resolving by full profile and by identity agree, and a profile with another evidence key
  than the reviewed one does not resolve.\<close>

theorem resolve_agrees_with_identity:
  assumes "from_records rs = Inr cat"
  shows "resolve cat p = Inr t \<longleftrightarrow>
    resolve_identity cat (tp_identity p) = Inr t
    \<and> tp_evidence_key (tr_profile (tc_record t)) = tp_evidence_key p"
  using assms
  by (cases t) (auto simp: resolve_iff resolve_identity_iff intro: target_profile.equality)

theorem resolve_agrees_with_identity_witness:
  "resolve (Catalog [sample_record])
     ((tr_profile sample_record)\<lparr>tp_evidence_key := EvidenceKey (replicate 32 CHR ''x'')\<rparr>)
   \<noteq> Inr (TargetCapabilities sample_record)"
  using resolve_agrees_with_identity [OF sample_records_admitted, of
      "(tr_profile sample_record)\<lparr>tp_evidence_key := EvidenceKey (replicate 32 CHR ''x'')\<rparr>"
      "TargetCapabilities sample_record"]
  by (simp add: sample_record_def target_profile_new_def)

text \<open>An evidence reference is built exactly from a run locator of the project's own workflow
  (a run and an attempt number in decimal, without leading zeros), a 40 digit lower-case
  hexadecimal commit and the artifact name of its lane.\<close>

theorem evidence_reference_locator:
  "(\<exists>e. evidence_reference_new lane url sha art mk rk = Inr e) \<longleftrightarrow>
   (\<exists>run_id attempt. url = run_url_prefix @ run_id @ ''/attempts/'' @ attempt
      \<and> positive_decimal run_id \<and> positive_decimal attempt)
   \<and> length sha = 40 \<and> list_all sha_digit sha \<and> art = lane_artifact_name lane"
  unfolding evidence_reference_new_Inr run_url_iff by blast

text \<open>A target identity is built exactly for a known mode and API versions of major 1 with
  1.41 \<open>\<le>\<close> acquisition, rendering \<open>\<le>\<close> advertised, and it keeps its arguments.\<close>

theorem profile_identity_range:
  "profile_identity_new b r ad ac re m = Inr i \<longleftrightarrow>
   m \<noteq> UnknownMode \<and> api_major ad = 1
   \<and> ApiVersion 1 41 \<le> min ac re \<and> max ac re \<le> ad
   \<and> i = \<lparr>pi_build = b, pi_release = r, pi_advertised = ad, pi_acquisition = ac,
       pi_rendering = re, pi_mode = m\<rparr>"
  unfolding profile_identity_new_Inr minimum_api_def max.bounded_iff min.bounded_iff by blast

end
