(* ===== verification/Planning.thy ===== *)
theory Planning
  imports Intents Capability_Catalog
begin

text \<open>
  The first half of \<^verbatim>\<open>src/target_modules/graph.rs\<close>: operations and their steps, the two sources
  of planning capabilities, and the capability checks \<open>OperationGraph::new\<close> makes for every
  resource. A resource's checks are a list in the order of the code, each either a need for a
  capability at a field or a refusal; \<open>run_checks\<close> stops at the first that fails, as the
  question-mark operator does.
\<close>

section \<open>Operations\<close>

datatype operation_action = Create | RequireExisting

record operation =
  op_resource :: resource_ref
  op_kind :: target_kind
  op_action :: operation_action

record operation_node =
  node_operation :: operation
  depends_on :: "resource_ref list"

record operation_step_id =
  step_resource :: resource_ref
  step_ordinal :: nat

datatype operation_step_action =
  CreateStep target_kind
| RequireExistingStep target_kind
| ConnectNetwork resource_ref nat

record operation_step =
  step_id :: operation_step_id
  step_action :: operation_step_action
  step_depends_on :: "operation_step_id list"

section \<open>Planning contexts\<close>

datatype planning_context = Observed capability_scope | Target target_profile

definition context_api :: "planning_context \<Rightarrow> api_version" where
  "context_api ctx =
     (case ctx of Observed s \<Rightarrow> scope_api s | Target p \<Rightarrow> pi_rendering (tp_identity p))"

definition context_mode :: "planning_context \<Rightarrow> daemon_mode" where
  "context_mode ctx =
     (case ctx of Observed s \<Rightarrow> scope_mode s | Target p \<Rightarrow> pi_mode (tp_identity p))"

text \<open>
  The sealed trait \<open>PlanningCapabilitySet\<close> has two implementations; an object of it is what its
  two methods return. \<open>context\<close> of observed facts unwraps two options, and \<open>None\<close> stands for
  the panic that an absent value would be.
\<close>

record planning_capabilities =
  pc_supports :: "capability \<Rightarrow> bool"
  pc_context :: "planning_context option"

definition validated_context :: "validated_capabilities \<Rightarrow> planning_context option" where
  "validated_context v =
     (let facts = validated_facts v in
      case (df_release facts, df_api facts) of
        (Some release, Some api) \<Rightarrow>
          Some (Observed \<lparr>scope_observation = df_observation facts, scope_release = release,
            scope_api = api, scope_mode = df_mode facts\<rparr>)
      | _ \<Rightarrow> None)"

definition target_context :: "target_capabilities \<Rightarrow> planning_context option" where
  "target_context t = Some (Target (tr_profile (tc_record t)))"

definition validated_planning :: "validated_capabilities \<Rightarrow> planning_capabilities" where
  "validated_planning v = \<lparr>pc_supports = validated_supports v, pc_context = validated_context v\<rparr>"

definition target_planning :: "target_capabilities \<Rightarrow> planning_capabilities" where
  "target_planning t = \<lparr>pc_supports = target_supports t, pc_context = target_context t\<rparr>"

datatype (plugins only: size) target_field =
  FldResource | FldPort | FldPortExposeOnly | FldPortHostIpv4 | FldPortHostIpv6
| FldPortMultipleBindings | FldPortEphemeral | FldBindMount | FldBindRelabel
| FldTmpfsMount | FldNamedVolume | FldVolumeLabels | FldNetwork | FldNetworkInternal
| FldNetworkIpv6 | FldNetworkIpam | FldNetworkIpamDriver | FldNetworkOptions
| FldNetworkLabels | FldNetworkAliases | FldNetworkStaticAddress
| FldNetworkMultipleAttachment | FldNetworkExternalReference
| FldNetworkExternalInternalExpectation | FldVolumeExternalReference | FldEnvironment
| FldCommand | FldCommandClear | FldEntrypoint | FldEntrypointClear | FldHealthcheck
| FldHealthShell | FldHealthDisabled | FldHealthStartPeriod | FldHealthStartInterval
| FldRestart | FldContainerLabels | FldContainerUser | FldContainerWorkdir
| FldContainerHostname | FldReadOnlyRootfs | FldContainerInit | FldStopSignal
| FldStopTimeout | FldMemoryLimit | FldPidsLimit | FldShmSize | FldUlimits
| FldUlimitNofile | FldDeviceMappings | FldLinuxCapabilities | FldCapAddNetBindService
| FldCapDropSysAdmin | FldSecurityOptions | FldSysctls | FldSysctlIpv4Forward
| FldSupplementaryGroups | FldDnsServers | FldExtraHosts | FldLogConfig
| FldLogOptionMaxSize | FldUserNamespace

datatype planning_error =
  UnsupportedApi api_version api_version
| MissingCapability resource_ref target_field capability
| RestrictedPort resource_ref daemon_mode
| UnsupportedNetworkIpam resource_ref
| InvalidDependency
| DependencyMismatch resource_ref resource_ref target_kind
| Cycle

section \<open>Capability checks\<close>

datatype plan_check = Need target_field capability | Refuse planning_error

fun run_checks ::
  "(capability \<Rightarrow> bool) \<Rightarrow> resource_ref \<Rightarrow> plan_check list \<Rightarrow> planning_error + unit" where
  "run_checks supports r [] = Inr ()"
| "run_checks supports r (Need f c # cs) =
     (if supports c then run_checks supports r cs else Inl (MissingCapability r f c))"
| "run_checks supports r (Refuse e # cs) = Inl e"

definition need_if :: "bool \<Rightarrow> target_field \<Rightarrow> capability \<Rightarrow> plan_check list" where
  "need_if b f c = (if b then [Need f c] else [])"

definition refuse_if :: "bool \<Rightarrow> planning_error \<Rightarrow> plan_check list" where
  "refuse_if b e = (if b then [Refuse e] else [])"

definition network_create_checks :: "resource_ref \<Rightarrow> network_create \<Rightarrow> plan_check list" where
  "network_create_checks r create =
     [Need FldResource CapBridgeNetwork]
     @ refuse_if (option_any (\<lambda>ipam. list_ex (\<lambda>pool.
           \<not> is_ipv6 (subnet_address (pool_subnet pool)) \<and> unat (subnet_prefix (pool_subnet pool)) \<ge> 31)
         (ipam_pools ipam)) (create_ipam create)) (UnsupportedNetworkIpam r)
     @ need_if (create_internal create) FldNetworkInternal CapNetworkInternal
     @ need_if (create_enable_ipv6 create) FldNetworkIpv6 CapNetworkIpv6
     @ need_if (create_ipam create \<noteq> None) FldNetworkIpam CapNetworkIpam
     @ need_if (option_any (\<lambda>ipam. ipam_driver ipam \<noteq> None) (create_ipam create))
         FldNetworkIpamDriver CapNetworkIpamDriver
     @ need_if (create_options create \<noteq> []) FldNetworkOptions CapNetworkOptions
     @ need_if (create_labels create \<noteq> []) FldNetworkLabels CapNetworkLabels"

definition network_checks :: "resource_ref \<Rightarrow> network_source \<Rightarrow> plan_check list" where
  "network_checks r source =
     (case source of
        CreateNetwork create \<Rightarrow> network_create_checks r create
      | ExternalNetwork _ internal \<Rightarrow>
          [Need FldNetworkExternalReference CapNetworkExternalReference]
          @ need_if (internal \<noteq> None) FldNetworkExternalInternalExpectation
              CapNetworkExternalInternalExpectation)"

definition restricted_port :: "host_binding \<Rightarrow> bool" where
  "restricted_port b = (case host_port b of Fixed p \<Rightarrow> unat p < 1024 | Ephemeral \<Rightarrow> False)"

definition binding_checks :: "host_binding \<Rightarrow> plan_check list" where
  "binding_checks b =
     (case host_ip b of
        Unspecified \<Rightarrow> []
      | Address (V4 _) \<Rightarrow> [Need FldPortHostIpv4 CapPortHostIpv4]
      | Address (V6 _) \<Rightarrow> [Need FldPortHostIpv6 CapPortHostIpv6])
     @ need_if (host_port b = Ephemeral) FldPortEphemeral CapPortEphemeral"

definition port_checks :: "port_publication \<Rightarrow> plan_check list" where
  "port_checks p =
     (if pub_bindings p = [] then [Need FldPortExposeOnly CapPortExposeOnly]
      else [Need FldPort CapPortPublish])
     @ need_if (length (pub_bindings p) > 1) FldPortMultipleBindings CapPortMultipleBindings
     @ concat (map binding_checks (pub_bindings p))"

definition mount_checks :: "mount \<Rightarrow> plan_check list" where
  "mount_checks m =
     (case mount_source m of
        Bind _ \<Rightarrow> [Need FldBindMount CapBindMount]
      | Volume _ \<Rightarrow> [Need FldNamedVolume CapNamedVolume]
      | Tmpfs _ \<Rightarrow> [Need FldTmpfsMount CapTmpfsMount])
     @ (case mount_relabel m of
          None \<Rightarrow> []
        | Some SharedRelabel \<Rightarrow> [Need FldBindRelabel CapBindRelabelShared]
        | Some PrivateRelabel \<Rightarrow> [Need FldBindRelabel CapBindRelabelPrivate])"

definition attachment_checks :: "network_attachment \<Rightarrow> plan_check list" where
  "attachment_checks a =
     need_if (attachment_aliases a \<noteq> []) FldNetworkAliases CapNetworkAliases
     @ need_if (attachment_ipv4 a \<noteq> None \<or> attachment_ipv6 a \<noteq> None)
         FldNetworkStaticAddress CapNetworkStaticAddress"

definition command_checks :: "container_intent \<Rightarrow> plan_check list" where
  "command_checks c =
     (case c_command c of
        Inherit \<Rightarrow> [] | Clear \<Rightarrow> [Need FldCommandClear CapCommandClear]
      | Exec _ \<Rightarrow> [Need FldCommand CapCommand])
     @ (case c_entrypoint c of
          Inherit \<Rightarrow> [] | Clear \<Rightarrow> [Need FldEntrypointClear CapEntrypointClear]
        | Exec _ \<Rightarrow> [Need FldEntrypoint CapEntrypoint])"

definition health_checks :: "healthcheck \<Rightarrow> plan_check list" where
  "health_checks h =
     (case health_test h of
        HealthExec _ \<Rightarrow> [Need FldHealthcheck CapHealthcheck]
      | HealthShell _ \<Rightarrow> [Need FldHealthShell CapHealthShell]
      | HealthDisabled \<Rightarrow> [Need FldHealthDisabled CapHealthDisabled])
     @ need_if (health_start_period h \<noteq> None) FldHealthStartPeriod CapHealthStartPeriod
     @ need_if (health_start_interval h \<noteq> None) FldHealthStartInterval CapHealthStartInterval"

definition settings_checks :: "container_settings \<Rightarrow> plan_check list" where
  "settings_checks s =
     need_if (set_labels s \<noteq> []) FldContainerLabels CapContainerLabels
     @ need_if (set_user s \<noteq> None) FldContainerUser CapContainerUser
     @ need_if (set_working_dir s \<noteq> None) FldContainerWorkdir CapContainerWorkdir
     @ need_if (set_hostname s \<noteq> None) FldContainerHostname CapContainerHostname
     @ need_if (set_read_only_rootfs s \<noteq> None) FldReadOnlyRootfs CapReadOnlyRootfs
     @ need_if (set_init s \<noteq> None) FldContainerInit CapContainerInit
     @ need_if (set_stop_signal s \<noteq> None) FldStopSignal CapStopSignal
     @ need_if (set_stop_timeout s \<noteq> None) FldStopTimeout CapStopTimeout
     @ need_if (set_memory_limit s \<noteq> None) FldMemoryLimit CapMemoryLimit
     @ need_if (set_pids_limit s \<noteq> None) FldPidsLimit CapPidsLimit
     @ need_if (set_shm_size s \<noteq> None) FldShmSize CapShmSize
     @ need_if (set_ulimits s \<noteq> []) FldUlimits CapUlimits
     @ need_if (set_ulimits s \<noteq> []) FldUlimitNofile CapUlimitNofile
     @ need_if (set_devices s \<noteq> []) FldDeviceMappings CapDeviceMappings
     @ need_if (set_cap_add s \<noteq> [] \<or> set_cap_drop s \<noteq> []) FldLinuxCapabilities CapLinuxCapabilities
     @ need_if (set_cap_add s \<noteq> []) FldCapAddNetBindService CapCapAddNetBindService
     @ need_if (set_cap_drop s \<noteq> []) FldCapDropSysAdmin CapCapDropSysAdmin
     @ need_if (set_security_options s \<noteq> []) FldSecurityOptions CapSecurityOptions
     @ need_if (set_sysctls s \<noteq> []) FldSysctls CapSysctls
     @ need_if (set_sysctls s \<noteq> []) FldSysctlIpv4Forward CapSysctlIpv4Forward
     @ need_if (set_group_add s \<noteq> []) FldSupplementaryGroups CapSupplementaryGroups
     @ need_if (set_dns s \<noteq> []) FldDnsServers CapDnsServers
     @ need_if (set_extra_hosts s \<noteq> []) FldExtraHosts CapExtraHosts
     @ need_if (set_log_config s \<noteq> None) FldLogConfig CapLogConfig
     @ need_if (option_any (\<lambda>l. log_options l \<noteq> []) (set_log_config s))
         FldLogOptionMaxSize CapLogOptionMaxSize
     @ need_if (set_userns s \<noteq> None) FldUserNamespace CapUserNamespace"

definition container_checks ::
  "daemon_mode \<Rightarrow> resource_ref \<Rightarrow> container_intent \<Rightarrow> plan_check list" where
  "container_checks mode r c =
     [Need FldResource CapStandaloneContainer]
     @ refuse_if (mode = Rootless
         \<and> list_ex restricted_port (concat (map pub_bindings (c_ports c)))) (RestrictedPort r mode)
     @ concat (map port_checks (c_ports c))
     @ concat (map mount_checks (c_mounts c))
     @ need_if (c_networks c \<noteq> []) FldNetwork CapBridgeNetwork
     @ need_if (length (c_networks c) > 1) FldNetworkMultipleAttachment CapNetworkMultipleAttachment
     @ concat (map attachment_checks (c_networks c))
     @ need_if (c_environment c \<noteq> []) FldEnvironment CapEnvironmentAssignment
     @ command_checks c
     @ (case c_healthcheck c of None \<Rightarrow> [] | Some h \<Rightarrow> health_checks h)
     @ need_if (c_restart c \<noteq> None) FldRestart CapRestartPolicy
     @ settings_checks (c_settings c)"

definition resource_checks :: "daemon_mode \<Rightarrow> target_resource \<Rightarrow> plan_check list" where
  "resource_checks mode r =
     (case r of
        NetworkResource n \<Rightarrow> network_checks (network_reference n) (network_source n)
      | VolumeResource _ _ labels \<Rightarrow>
          [Need FldResource CapNamedVolume]
          @ need_if (labels \<noteq> []) FldVolumeLabels CapVolumeLabels
      | ExternalVolumeResource _ _ \<Rightarrow> [Need FldVolumeExternalReference CapVolumeExternalReference]
      | ContainerResource c \<Rightarrow> container_checks mode (c_reference c) c)"

definition check_resources ::
  "(capability \<Rightarrow> bool) \<Rightarrow> daemon_mode \<Rightarrow> target_resource list \<Rightarrow> planning_error + unit" where
  "check_resources supports mode rs =
     checks (map (\<lambda>r. run_checks supports (resource_reference r) (resource_checks mode r)) rs)"

text \<open>The capabilities a list of checks needs, and whether it refuses whatever is supported.\<close>

fun needed :: "plan_check \<Rightarrow> capability list" where
  "needed (Need _ c) = [c]"
| "needed (Refuse _) = []"

fun refuses :: "plan_check \<Rightarrow> bool" where
  "refuses (Need _ _) = False"
| "refuses (Refuse _) = True"

definition required_capabilities :: "daemon_mode \<Rightarrow> target_resource \<Rightarrow> capability set" where
  "required_capabilities mode r = set (concat (map needed (resource_checks mode r)))"

definition plannable :: "daemon_mode \<Rightarrow> target_resource \<Rightarrow> bool" where
  "plannable mode r \<longleftrightarrow> \<not> list_ex refuses (resource_checks mode r)"

lemma run_checks_Inr:
  "run_checks supports r cs = Inr u \<longleftrightarrow>
   (\<forall>c \<in> set (concat (map needed cs)). supports c) \<and> \<not> list_ex refuses cs"
  by (induction supports r cs rule: run_checks.induct) auto

lemma run_checks_Inl:
  "run_checks supports r cs = Inl e \<Longrightarrow>
   Refuse e \<in> set cs \<or> (\<exists>f c. e = MissingCapability r f c \<and> Need f c \<in> set cs \<and> \<not> supports c)"
  by (induction supports r cs rule: run_checks.induct) (auto split: if_splits)

lemma check_resources_Inr:
  "check_resources supports mode rs = Inr u \<longleftrightarrow>
   (\<forall>r \<in> set rs. plannable mode r \<and> (\<forall>c \<in> required_capabilities mode r. supports c))"
  unfolding check_resources_def checks_map_Inr_iff run_checks_Inr plannable_def
    required_capabilities_def by blast

end
