(* ===== verification/Dependency_Order.thy ===== *)
theory Dependency_Order
  imports Planning
begin

text \<open>
  The cycle check of \<open>OperationGraph::new\<close>: Kahn's worklist over the counts of unmet
  dependencies. The hash map \<open>remaining\<close> is an association list in node order, the vector
  \<open>ready\<close> a list whose head is its last element. The order in which the hash map yields the
  first ready nodes is not fixed by the code; \<open>kahn_verdict\<close> is proved for every order. \<open>None\<close>
  stands for the panics the code could raise: the \<open>expect\<close> on a missing dependent, and the
  subtraction below zero.
\<close>

section \<open>The worklist\<close>

type_synonym counts = "(resource_ref \<times> nat) list"

text \<open>\<open>*count -= 1\<close> at one key: the new map and the new count.\<close>

fun decrement :: "resource_ref \<Rightarrow> counts \<Rightarrow> (counts \<times> nat) option" where
  "decrement d [] = None"
| "decrement d ((k, c) # m) =
     (if k = d then (case c of 0 \<Rightarrow> None | Suc n \<Rightarrow> Some ((k, n) # m, n))
      else map_option (\<lambda>(m', n). ((k, c) # m', n)) (decrement d m))"

text \<open>The inner loop over the dependents of a node.\<close>

fun release :: "resource_ref list \<Rightarrow> counts \<Rightarrow> resource_ref list \<Rightarrow> (counts \<times> resource_ref list) option"
where
  "release [] m ready = Some (m, ready)"
| "release (d # ds) m ready =
     (case decrement d m of
        None \<Rightarrow> None
      | Some (m', n) \<Rightarrow> release ds m' (if n = 0 then d # ready else ready))"

definition positive :: "counts \<Rightarrow> nat" where
  "positive m = length (filter (\<lambda>(k, c). c \<noteq> 0) m)"

lemma decrement_positive:
  "decrement d m = Some (m', n) \<Longrightarrow> positive m' + (if n = 0 then 1 else 0) = positive m"
  by (induction m arbitrary: m')
     (auto simp: positive_def split: if_splits nat.splits)

lemma release_positive:
  "release ds m ready = Some (m', ready') \<Longrightarrow>
   length ready' + positive m' = length ready + positive m"
proof (induction ds m ready rule: release.induct)
  case (1 m ready)
  then show ?case by simp
next
  case (2 d ds m ready)
  then show ?case
    by (auto split: option.splits if_splits dest!: decrement_positive)
qed

function kahn ::
  "(resource_ref \<Rightarrow> resource_ref list) \<Rightarrow> counts \<Rightarrow> resource_ref list \<Rightarrow> nat \<Rightarrow> nat option" where
  "kahn dependents m [] visited = Some visited"
| "kahn dependents m (r # ready) visited =
     (case release (dependents r) m ready of
        None \<Rightarrow> None
      | Some (m', ready') \<Rightarrow> kahn dependents m' ready' (visited + 1))"
  by pat_completeness auto
termination
proof (relation "measure (\<lambda>(d, m, ready, v). length ready + positive m)")
  fix dependents m visited x m' ready' and r :: resource_ref and ready
  assume "release (dependents r) m ready = Some x" and "(m', ready') = x"
  then have "length ready' + positive m' = length ready + positive m"
    using release_positive [of "dependents r" m ready m' ready'] by simp
  then show "((dependents, m', ready', visited + 1), (dependents, m, r # ready, visited))
      \<in> measure (\<lambda>(d, m, ready, v). length ready + positive m)" by simp
qed simp

section \<open>Counts and dependents of a list of nodes\<close>

abbreviation node_ref :: "operation_node \<Rightarrow> resource_ref" where
  "node_ref n \<equiv> op_resource (node_operation n)"

definition initial_counts :: "operation_node list \<Rightarrow> counts" where
  "initial_counts nodes = map (\<lambda>n. (node_ref n, length (remdups (depends_on n)))) nodes"

definition node_dependents :: "operation_node list \<Rightarrow> resource_ref \<Rightarrow> resource_ref list" where
  "node_dependents nodes r = map node_ref (filter (\<lambda>n. r \<in> set (depends_on n)) nodes)"

definition initial_ready :: "counts \<Rightarrow> resource_ref list" where
  "initial_ready m = map fst (filter (\<lambda>(k, c). c = 0) m)"

definition visited_nodes :: "operation_node list \<Rightarrow> nat option" where
  "visited_nodes nodes =
     (let m = initial_counts nodes in kahn (node_dependents nodes) m (initial_ready m) 0)"

section \<open>The specification: an acyclic dependency relation\<close>

definition dependency_relation :: "operation_node list \<Rightarrow> (resource_ref \<times> resource_ref) set" where
  "dependency_relation nodes = {(d, node_ref n) | d n. n \<in> set nodes \<and> d \<in> set (depends_on n)}"

text \<open>
  What holds of the nodes when the check starts: the references are distinct and every
  dependency is one of them.
\<close>

definition closed_nodes :: "operation_node list \<Rightarrow> bool" where
  "closed_nodes nodes \<longleftrightarrow> distinct (map node_ref nodes)
     \<and> (\<forall>n \<in> set nodes. set (depends_on n) \<subseteq> node_ref ` set nodes)"

definition deps_at :: "operation_node list \<Rightarrow> resource_ref \<Rightarrow> resource_ref set" where
  "deps_at nodes r = {d. (d, r) \<in> dependency_relation nodes}"

lemma deps_at_node:
  "closed_nodes nodes \<Longrightarrow> n \<in> set nodes \<Longrightarrow> deps_at nodes (node_ref n) = set (depends_on n)"
  by (auto simp: closed_nodes_def deps_at_def dependency_relation_def distinct_map dest: inj_onD)

lemma finite_deps_at: "closed_nodes nodes \<Longrightarrow> r \<in> node_ref ` set nodes \<Longrightarrow> finite (deps_at nodes r)"
  by (auto simp: deps_at_node)

lemma deps_at_subset: "closed_nodes nodes \<Longrightarrow> deps_at nodes r \<subseteq> node_ref ` set nodes"
  by (auto simp: closed_nodes_def deps_at_def dependency_relation_def)

lemma set_node_dependents:
  "closed_nodes nodes \<Longrightarrow> set (node_dependents nodes r) = {d. r \<in> deps_at nodes d}"
  by (auto simp: node_dependents_def deps_at_def dependency_relation_def)

lemma distinct_node_dependents: "closed_nodes nodes \<Longrightarrow> distinct (node_dependents nodes r)"
  by (auto simp: node_dependents_def closed_nodes_def distinct_map inj_on_def)

section \<open>Correctness of the worklist\<close>

lemma decrement_spec:
  "map_of m d = Some (Suc n) \<Longrightarrow>
   \<exists>m'. decrement d m = Some (m', n) \<and> map fst m' = map fst m \<and> map_of m' = (map_of m)(d \<mapsto> n)"
proof (induction m)
  case Nil
  then show ?case by simp
next
  case (Cons kc m)
  obtain k c where kc: "kc = (k, c)" by (cases kc)
  show ?case
  proof (cases "k = d")
    case True
    with Cons.prems kc show ?thesis by auto
  next
    case False
    with Cons.prems kc have "map_of m d = Some (Suc n)" by simp
    from Cons.IH [OF this] obtain m' where "decrement d m = Some (m', n)"
      "map fst m' = map fst m" "map_of m' = (map_of m)(d \<mapsto> n)" by blast
    with False kc show ?thesis by (auto simp: fun_eq_iff)
  qed
qed

lemma release_spec:
  assumes "distinct ds" and "\<forall>d \<in> set ds. \<exists>n. map_of m d = Some (Suc n)"
  shows "\<exists>m'. release ds m ready =
        Some (m', rev (filter (\<lambda>d. map_of m d = Some 1) ds) @ ready)
      \<and> map fst m' = map fst m
      \<and> (\<forall>k. map_of m' k =
          (if k \<in> set ds then map_option (\<lambda>c. c - 1) (map_of m k) else map_of m k))"
  using assms
proof (induction ds arbitrary: m ready)
  case Nil
  then show ?case by simp
next
  case (Cons d ds)
  then obtain n where n: "map_of m d = Some (Suc n)" by auto
  from decrement_spec [OF n] obtain m1 where m1: "decrement d m = Some (m1, n)"
    "map fst m1 = map fst m" "map_of m1 = (map_of m)(d \<mapsto> n)" by blast
  have same: "map_of m1 e = map_of m e" if "e \<in> set ds" for e
    using Cons.prems(1) that by (auto simp: m1(3))
  then have "\<forall>e \<in> set ds. \<exists>k. map_of m1 e = Some (Suc k)" using Cons.prems(2) by simp
  from Cons.IH [OF _ this, of "if n = 0 then d # ready else ready"] Cons.prems(1)
  obtain m2 where m2: "release ds m1 (if n = 0 then d # ready else ready) =
      Some (m2, rev (filter (\<lambda>d. map_of m1 d = Some 1) ds) @ (if n = 0 then d # ready else ready))"
    "map fst m2 = map fst m1"
    "\<forall>k. map_of m2 k = (if k \<in> set ds then map_option (\<lambda>c. c - 1) (map_of m1 k) else map_of m1 k)"
    by auto
  have "filter (\<lambda>d. map_of m1 d = Some 1) ds = filter (\<lambda>d. map_of m d = Some 1) ds"
    using same by (intro filter_cong) simp_all
  with m1 m2 n Cons.prems(1) show ?case by (intro exI [of _ m2]) (auto simp: same)
qed

text \<open>
  The invariant, with the set \<open>P\<close> of the references popped so far: the counts are the unmet
  dependencies, the ready nodes are those that have none and are not popped yet.
\<close>

definition ready_set :: "operation_node list \<Rightarrow> resource_ref set \<Rightarrow> resource_ref set" where
  "ready_set nodes P = {r \<in> node_ref ` set nodes. deps_at nodes r \<subseteq> P} - P"

definition kahn_inv ::
  "operation_node list \<Rightarrow> resource_ref set \<Rightarrow> counts \<Rightarrow> resource_ref list \<Rightarrow> bool" where
  "kahn_inv nodes P m ready \<longleftrightarrow>
     (\<forall>k \<in> node_ref ` set nodes. map_of m k = Some (card (deps_at nodes k - P)))
   \<and> distinct ready \<and> set ready = ready_set nodes P
   \<and> P \<subseteq> node_ref ` set nodes
   \<and> (\<forall>k \<in> P. deps_at nodes k \<subseteq> P)
   \<and> P \<subseteq> Wellfounded.acc (dependency_relation nodes)"

lemma dependent_count:
  assumes "closed_nodes nodes" and "r \<notin> P" and "k \<in> set (node_dependents nodes r)"
  shows "card (deps_at nodes k - P) = Suc (card (deps_at nodes k - insert r P))"
    and "k \<in> node_ref ` set nodes"
proof -
  show k: "k \<in> node_ref ` set nodes" using assms(3) by (auto simp: node_dependents_def)
  have "r \<in> deps_at nodes k - P" using assms by (simp add: set_node_dependents)
  moreover have "finite (deps_at nodes k - P)" using finite_deps_at [OF assms(1) k] by blast
  moreover have "deps_at nodes k - insert r P = (deps_at nodes k - P) - {r}" by blast
  ultimately show "card (deps_at nodes k - P) = Suc (card (deps_at nodes k - insert r P))"
    by (metis card_Suc_Diff1)
qed

lemma release_counts:
  assumes closed: "closed_nodes nodes" and r: "r \<notin> P"
    and counts: "\<forall>k \<in> node_ref ` set nodes. map_of m k = Some (card (deps_at nodes k - P))"
  shows "\<exists>m'. release (node_dependents nodes r) m ready = Some (m',
        rev (filter (\<lambda>d. deps_at nodes d \<subseteq> insert r P) (node_dependents nodes r)) @ ready)
      \<and> (\<forall>k \<in> node_ref ` set nodes. map_of m' k = Some (card (deps_at nodes k - insert r P)))"
proof -
  let ?ds = "node_dependents nodes r"
  have suc: "map_of m d = Some (Suc (card (deps_at nodes d - insert r P)))" if "d \<in> set ?ds" for d
  proof -
    have "map_of m d = Some (card (deps_at nodes d - P))"
      using counts dependent_count(2) [OF closed r that] by blast
    with dependent_count(1) [OF closed r that] show ?thesis by (simp only:)
  qed
  then have "\<forall>d \<in> set ?ds. \<exists>n. map_of m d = Some (Suc n)" by blast
  from release_spec [OF distinct_node_dependents [OF closed] this, of ready] obtain m' where m':
    "release ?ds m ready = Some (m', rev (filter (\<lambda>d. map_of m d = Some 1) ?ds) @ ready)"
    "\<forall>k. map_of m' k = (if k \<in> set ?ds then map_option (\<lambda>c. c - 1) (map_of m k) else map_of m k)"
    by blast
  have "map_of m d = Some 1 \<longleftrightarrow> deps_at nodes d \<subseteq> insert r P" if "d \<in> set ?ds" for d
    using suc [OF that] finite_deps_at [OF closed dependent_count(2) [OF closed r that]]
    by auto
  then have "filter (\<lambda>d. map_of m d = Some 1) ?ds = filter (\<lambda>d. deps_at nodes d \<subseteq> insert r P) ?ds"
    by (intro filter_cong) simp_all
  moreover have "map_of m' k = Some (card (deps_at nodes k - insert r P))"
    if "k \<in> node_ref ` set nodes" for k
  proof (cases "k \<in> set ?ds")
    case True
    then show ?thesis using m'(2) suc by simp
  next
    case False
    then have "deps_at nodes k - insert r P = deps_at nodes k - P"
      using set_node_dependents [OF closed, of r] by blast
    moreover have "map_of m k = Some (card (deps_at nodes k - P))" using counts that by blast
    ultimately show ?thesis using m'(2) False by simp
  qed
  ultimately show ?thesis using m'(1) by auto
qed

lemma ready_set_insert:
  assumes closed: "closed_nodes nodes" and P: "\<forall>k \<in> P. deps_at nodes k \<subseteq> P" and r: "r \<in> ready_set nodes P"
  shows "ready_set nodes (insert r P) =
      {d \<in> set (node_dependents nodes r). deps_at nodes d \<subseteq> insert r P} \<union> (ready_set nodes P - {r})"
    and "{d \<in> set (node_dependents nodes r). deps_at nodes d \<subseteq> insert r P} \<inter> ready_set nodes P = {}"
proof -
  have dep: "set (node_dependents nodes r) = {d. r \<in> deps_at nodes d}"
    by (rule set_node_dependents [OF closed])
  have sub: "set (node_dependents nodes r) \<subseteq> node_ref ` set nodes"
    by (auto simp: node_dependents_def)
  from r have r': "r \<notin> P" "deps_at nodes r \<subseteq> P" by (auto simp: ready_set_def)
  show "ready_set nodes (insert r P) =
      {d \<in> set (node_dependents nodes r). deps_at nodes d \<subseteq> insert r P} \<union> (ready_set nodes P - {r})"
    using dep sub r' P unfolding ready_set_def by blast
  show "{d \<in> set (node_dependents nodes r). deps_at nodes d \<subseteq> insert r P} \<inter> ready_set nodes P = {}"
    using dep r' unfolding ready_set_def by blast
qed

lemma kahn_inv_step:
  assumes closed: "closed_nodes nodes" and inv: "kahn_inv nodes P m (r # ready)"
  shows "\<exists>m' ready'. release (node_dependents nodes r) m ready = Some (m', ready')
      \<and> kahn_inv nodes (insert r P) m' ready'"
proof -
  let ?new = "rev (filter (\<lambda>d. deps_at nodes d \<subseteq> insert r P) (node_dependents nodes r))"
  from inv have counts: "\<forall>k \<in> node_ref ` set nodes. map_of m k = Some (card (deps_at nodes k - P))"
    and d: "distinct (r # ready)" and ready: "insert r (set ready) = ready_set nodes P"
    and P: "P \<subseteq> node_ref ` set nodes" "\<forall>k \<in> P. deps_at nodes k \<subseteq> P"
    "P \<subseteq> Wellfounded.acc (dependency_relation nodes)"
    using inv unfolding kahn_inv_def list.set(2) by blast+
  from ready have rin: "r \<in> ready_set nodes P" by blast
  then have r: "r \<in> node_ref ` set nodes" "deps_at nodes r \<subseteq> P" "r \<notin> P"
    by (auto simp: ready_set_def)
  from release_counts [OF closed r(3) counts, of ready] obtain m' where m':
    "release (node_dependents nodes r) m ready = Some (m', ?new @ ready)"
    "\<forall>k \<in> node_ref ` set nodes. map_of m' k = Some (card (deps_at nodes k - insert r P))" by blast
  have rest: "set ready = ready_set nodes P - {r}" using ready d by auto
  have acc: "r \<in> Wellfounded.acc (dependency_relation nodes)"
  proof (rule accI)
    fix y assume "(y, r) \<in> dependency_relation nodes"
    with r(2) P(3) show "y \<in> Wellfounded.acc (dependency_relation nodes)"
      unfolding deps_at_def by blast
  qed
  have "distinct (?new @ ready)"
    using d rest ready_set_insert(2) [OF closed P(2) rin] distinct_node_dependents [OF closed, of r]
    unfolding distinct_append distinct_rev set_rev set_filter by auto
  moreover have "set (?new @ ready) = ready_set nodes (insert r P)"
    using rest ready_set_insert(1) [OF closed P(2) rin] by simp
  ultimately have "kahn_inv nodes (insert r P) m' (?new @ ready)"
    using m'(2) P r acc unfolding kahn_inv_def by blast
  with m'(1) show ?thesis by blast
qed

lemma finite_dependency_relation: "finite (dependency_relation nodes)"
proof -
  have "dependency_relation nodes =
      (\<Union>n \<in> set nodes. (\<lambda>d. (d, node_ref n)) ` set (depends_on n))"
    by (auto simp: dependency_relation_def)
  then show ?thesis by simp
qed

text \<open>With nothing ready, every node was visited exactly when the relation is acyclic.\<close>

lemma kahn_inv_done:
  assumes closed: "closed_nodes nodes" and inv: "kahn_inv nodes P m []"
  shows "card P = length nodes \<longleftrightarrow> acyclic (dependency_relation nodes)"
proof
  let ?N = "node_ref ` set nodes"
  have N: "card ?N = length nodes"
    using closed distinct_card [of "map node_ref nodes"] by (simp add: closed_nodes_def)
  assume "card P = length nodes"
  moreover have "P \<subseteq> ?N" using inv unfolding kahn_inv_def by blast
  ultimately have "P = ?N" using N by (intro card_subset_eq) simp_all
  moreover have "P \<subseteq> Wellfounded.acc (dependency_relation nodes)"
    using inv unfolding kahn_inv_def by blast
  ultimately have N_acc: "?N \<subseteq> Wellfounded.acc (dependency_relation nodes)" by simp
  have "x \<in> Wellfounded.acc (dependency_relation nodes)" for x
  proof (cases "x \<in> ?N")
    case False
    show ?thesis
    proof (rule accI)
      fix y assume "(y, x) \<in> dependency_relation nodes"
      with False show "y \<in> Wellfounded.acc (dependency_relation nodes)"
        unfolding dependency_relation_def by blast
    qed
  qed (use N_acc in blast)
  then have "wf (dependency_relation nodes)" by (simp add: acc_wfI)
  then show "acyclic (dependency_relation nodes)" by (rule wf_acyclic)
next
  let ?N = "node_ref ` set nodes"
  assume "acyclic (dependency_relation nodes)"
  then have wf: "wf (dependency_relation nodes)"
    by (rule finite_acyclic_wf [OF finite_dependency_relation])
  have "?N \<subseteq> P"
  proof
    fix x assume "x \<in> ?N"
    with wf show "x \<in> P"
    proof (induction x rule: wf_induct_rule)
      case (less x)
      have "deps_at nodes x \<subseteq> P"
        using less.IH deps_at_subset [OF closed, of x] by (auto simp: deps_at_def)
      moreover have "ready_set nodes P = {}" using inv unfolding kahn_inv_def by simp
      ultimately show ?case using less.prems unfolding ready_set_def by blast
    qed
  qed
  moreover have "P \<subseteq> ?N" using inv unfolding kahn_inv_def by blast
  ultimately have "P = ?N" by blast
  then show "card P = length nodes"
    using closed distinct_card [of "map node_ref nodes"] by (simp add: closed_nodes_def)
qed

lemma kahn_run:
  assumes closed: "closed_nodes nodes"
  shows "kahn_inv nodes P m ready \<Longrightarrow> finite P \<Longrightarrow>
    \<exists>v. kahn (node_dependents nodes) m ready (card P) = Some v
      \<and> (v = length nodes \<longleftrightarrow> acyclic (dependency_relation nodes))"
proof (induction "node_dependents nodes" m ready "card P" arbitrary: P rule: kahn.induct)
  case (1 m)
  then show ?case using kahn_inv_done [OF closed] by simp
next
  case (2 m r ready)
  from kahn_inv_step [OF closed 2(2)] obtain m' ready' where step:
    "release (node_dependents nodes r) m ready = Some (m', ready')"
    "kahn_inv nodes (insert r P) m' ready'" by blast
  have "r \<in> ready_set nodes P" using 2(2) unfolding kahn_inv_def by (metis list.set_intros(1))
  then have "r \<notin> P" by (simp add: ready_set_def)
  then have "card P + 1 = card (insert r P)" using 2(3) by simp
  from 2(1) [OF step(1) refl this step(2)] 2(3) step(1) show ?case
    using \<open>card P + 1 = card (insert r P)\<close> by simp
qed

text \<open>Whatever order the hash map yields the first ready nodes in, the verdict is the same.\<close>

lemma initial_counts_lookup:
  "closed_nodes nodes \<Longrightarrow> n \<in> set nodes \<Longrightarrow>
   map_of (initial_counts nodes) (node_ref n) = Some (card (deps_at nodes (node_ref n)))"
proof -
  assume c: "closed_nodes nodes" and n: "n \<in> set nodes"
  have "distinct (map fst (initial_counts nodes))"
    using c by (simp add: initial_counts_def closed_nodes_def comp_def)
  moreover have "(node_ref n, length (remdups (depends_on n))) \<in> set (initial_counts nodes)"
    using n by (auto simp: initial_counts_def)
  ultimately show ?thesis
    using deps_at_node [OF c n] by (simp add: length_remdups_card_conv)
qed

lemma kahn_verdict:
  assumes closed: "closed_nodes nodes" and "distinct ready"
    and "set ready = set (initial_ready (initial_counts nodes))"
  shows "\<exists>v. kahn (node_dependents nodes) (initial_counts nodes) ready 0 = Some v
      \<and> (v = length nodes \<longleftrightarrow> acyclic (dependency_relation nodes))"
proof -
  have "set (initial_ready (initial_counts nodes)) = ready_set nodes {}"
  proof -
    have "set (initial_ready (initial_counts nodes)) = {node_ref n | n. n \<in> set nodes \<and> depends_on n = []}"
      by (force simp: initial_ready_def initial_counts_def)
    then show ?thesis using deps_at_node [OF closed] by (auto simp: ready_set_def)
  qed
  then have "kahn_inv nodes {} (initial_counts nodes) ready"
    using assms initial_counts_lookup [OF closed] by (auto simp: kahn_inv_def)
  from kahn_run [OF closed this] show ?thesis by simp
qed

lemma visited_nodes_verdict:
  assumes closed: "closed_nodes nodes"
  shows "\<exists>v. visited_nodes nodes = Some v
    \<and> (v = length nodes \<longleftrightarrow> acyclic (dependency_relation nodes))"
proof -
  have "distinct (initial_ready (initial_counts nodes))"
  proof -
    have "distinct (map fst (initial_counts nodes))"
      using closed by (simp add: initial_counts_def closed_nodes_def comp_def)
    then show ?thesis unfolding initial_ready_def by (rule distinct_map_filter)
  qed
  from kahn_verdict [OF closed this refl] show ?thesis by (simp add: visited_nodes_def Let_def)
qed

end
