(* ===== verification/Intent_Spec.thy ===== *)
theory Intent_Spec
  imports Intents
begin

text \<open>
  The declarative specification of \<^verbatim>\<open>intent.rs\<close>: what a valid intent is, without loops, sets or an
  order of checks, and the proof that \<open>TargetIntent::new\<close> accepts exactly the valid intents
  (\<open>target_intent_new_iff\<close>). Each validation step is first shown to accept exactly its part.
\<close>

section \<open>Container settings\<close>

fun ulimit_le :: "ulimit_value \<Rightarrow> ulimit_value \<Rightarrow> bool" where
  "ulimit_le UlimitUnlimited UlimitUnlimited = True"
| "ulimit_le UlimitUnlimited (UlimitValue _) = False"
| "ulimit_le (UlimitValue _) UlimitUnlimited = True"
| "ulimit_le (UlimitValue soft) (UlimitValue hard) = (soft \<le> hard)"

definition wf_ulimit :: "ulimit \<Rightarrow> bool" where
  "wf_ulimit l \<longleftrightarrow> token_bytes (ulimit_name l) = ''nofile'' \<and> ulimit_value_valid (ulimit_soft l)
     \<and> ulimit_value_valid (ulimit_hard l) \<and> ulimit_le (ulimit_soft l) (ulimit_hard l)"

definition wf_device :: "device_mapping \<Rightarrow> bool" where
  "wf_device d \<longleftrightarrow> device_read (device_permissions d) \<or> device_write (device_permissions d)
     \<or> device_create (device_permissions d)"

definition wf_sysctl :: "container_label \<Rightarrow> bool" where
  "wf_sysctl l \<longleftrightarrow> label_key l = ''net.ipv4.ip_forward'' \<and> label_value l \<in> {''0'', ''1''}"

definition wf_log_config :: "log_config \<Rightarrow> bool" where
  "wf_log_config l \<longleftrightarrow> distinct (map label_key (log_options l))
     \<and> list_all (\<lambda>x. log_driver l = JsonFile \<and> label_key x = ''max-size''
         \<and> valid_log_max_size (label_value x)) (log_options l)"

definition wf_settings :: "container_settings \<Rightarrow> bool" where
  "wf_settings s \<longleftrightarrow>
     limits_in_range s
   \<and> distinct (map (\<lambda>l. token_bytes (ulimit_name l)) (set_ulimits s))
   \<and> list_all wf_ulimit (set_ulimits s)
   \<and> distinct (map (\<lambda>d. directory_bytes (device_container_path d)) (set_devices s))
   \<and> list_all wf_device (set_devices s)
   \<and> distinct (map token_bytes (set_cap_add s @ set_cap_drop s))
   \<and> token_bytes ` set (set_cap_add s) \<subseteq> {''NET_BIND_SERVICE''}
   \<and> token_bytes ` set (set_cap_drop s) \<subseteq> {''SYS_ADMIN''}
   \<and> length (set_security_options s) \<le> 1
   \<and> distinct (map label_key (set_sysctls s)) \<and> list_all wf_sysctl (set_sysctls s)
   \<and> distinct (map user_bytes (set_group_add s))
   \<and> list_all (\<lambda>u. valid_user_principal (user_bytes u)) (set_group_add s)
   \<and> distinct (map (\<lambda>h. hostname_bytes (extra_name h)) (set_extra_hosts s))
   \<and> pred_option wf_log_config (set_log_config s)"

lemma validate_ulimit_Inr:
  "validate_ulimit ns l = Inr t \<longleftrightarrow> token_bytes (ulimit_name l) \<notin> set ns \<and> wf_ulimit l
     \<and> t = token_bytes (ulimit_name l) # ns"
  by (cases "ulimit_soft l"; cases "ulimit_hard l")
     (auto simp: validate_ulimit_def wf_ulimit_def Let_def not_less)

lemma validate_device_Inr:
  "validate_device ts d = Inr t \<longleftrightarrow> directory_bytes (device_container_path d) \<notin> set ts
     \<and> wf_device d \<and> t = directory_bytes (device_container_path d) # ts"
  by (auto simp: validate_device_def wf_device_def Let_def)

lemma validate_sysctl_Inr:
  "validate_sysctl us l = Inr t \<longleftrightarrow> label_key l \<notin> set us \<and> wf_sysctl l \<and> t = label_key l # us"
  by (auto simp: validate_sysctl_def wf_sysctl_def)

lemma validate_log_option_Inr:
  "validate_log_option d us l = Inr t \<longleftrightarrow> label_key l \<notin> set us
     \<and> (d = JsonFile \<and> label_key l = ''max-size'' \<and> valid_log_max_size (label_value l))
     \<and> t = label_key l # us"
  by (auto simp: validate_log_option_def)

lemma validate_log_config_Inr: "validate_log_config l = Inr u \<longleftrightarrow> wf_log_config l"
proof (cases "log_driver l = NoLog \<and> log_options l \<noteq> []")
  case True
  then show ?thesis
    by (cases "log_options l") (auto simp: validate_log_config_def wf_log_config_def)
next
  case False
  then show ?thesis
    by (auto simp: validate_log_config_def wf_log_config_def discard_Inr_iff
        try_fold_keyed_ok [OF validate_log_option_Inr])
qed

lemma distinct_discriminants:
  "distinct (map security_discriminant xs) \<longleftrightarrow> length xs \<le> 1"
proof -
  have "security_discriminant x = 0" for x by (cases x) simp
  then have "map security_discriminant xs = replicate (length xs) 0"
    by (simp add: map_replicate_const flip: map_replicate_const cong: map_cong)
  then show ?thesis by (cases xs) auto
qed

lemma validate_container_settings_Inr:
  "validate_container_settings s = Inr u \<longleftrightarrow> wf_settings s"
  unfolding validate_container_settings_def wf_settings_def
  by (cases "set_log_config s")
     (simp_all add: check_simps validate_log_config_Inr distinct_discriminants
       try_fold_keyed_ok [OF validate_ulimit_Inr] try_fold_keyed_ok [OF validate_device_Inr]
       try_fold_keyed_ok [OF validate_sysctl_Inr] list_ex_iff list_all_iff image_subset_iff
       del: distinct_append map_append)

section \<open>Networks\<close>

definition wf_pool :: "bool \<Rightarrow> network_ipam_pool \<Rightarrow> bool" where
  "wf_pool enable_ipv6 p \<longleftrightarrow>
     (is_ipv6 (subnet_address (pool_subnet p)) \<longrightarrow> enable_ipv6)
   \<and> pred_option (contains_usable_host (pool_subnet p)) (pool_gateway p)
   \<and> pred_option (\<lambda>r. is_ipv6 (subnet_address r) = is_ipv6 (subnet_address (pool_subnet p))
        \<and> subnet_prefix (pool_subnet p) \<le> subnet_prefix r
        \<and> subnet_contains (pool_subnet p) (subnet_address r)) (pool_ip_range p)
   \<and> distinct (map (\<lambda>x. alias_bytes (aux_name x)) (pool_auxiliary p))
   \<and> list_all (\<lambda>x. contains_usable_host (pool_subnet p) (aux_address x)) (pool_auxiliary p)
   \<and> distinct (map address_value (option_list (pool_gateway p) @ map aux_address (pool_auxiliary p)))"

text \<open>No two pools of a network share an address.\<close>

definition pools_disjoint :: "network_ipam_pool \<Rightarrow> network_ipam_pool \<Rightarrow> bool" where
  "pools_disjoint p q \<longleftrightarrow>
     \<not> (\<exists>a. subnet_contains (pool_subnet p) a \<and> subnet_contains (pool_subnet q) a)"

definition wf_ipam :: "bool \<Rightarrow> network_ipam \<Rightarrow> bool" where
  "wf_ipam enable_ipv6 ipam \<longleftrightarrow> ipam_pools ipam \<noteq> []
     \<and> list_all (wf_pool enable_ipv6) (ipam_pools ipam)
     \<and> sorted_wrt pools_disjoint (ipam_pools ipam)"

definition wf_option :: "bridge_option \<Rightarrow> bool" where
  "wf_option opt = (case opt of HostBindingIp a \<Rightarrow> \<not> is_ipv6 a | _ \<Rightarrow> True)"

definition wf_create :: "network_create \<Rightarrow> bool" where
  "wf_create create \<longleftrightarrow> create_driver create = Bridge
     \<and> distinct (map option_key (create_options create))
     \<and> list_all wf_option (create_options create)
     \<and> distinct (map network_label_key (create_labels create))
     \<and> pred_option (wf_ipam (create_enable_ipv6 create)) (create_ipam create)"

definition wf_network_source :: "network_source \<Rightarrow> bool" where
  "wf_network_source s =
     (case s of ExternalNetwork driver _ \<Rightarrow> driver = Bridge | CreateNetwork create \<Rightarrow> wf_create create)"

lemma validate_auxiliaries_Inr:
  "try_fold (validate_auxiliary sub) (ns, rs) xs = Inr t \<longleftrightarrow>
   all_inserted ns (map (\<lambda>x. alias_bytes (aux_name x)) xs)
   \<and> list_all (\<lambda>x. contains_usable_host sub (aux_address x)) xs
   \<and> all_inserted rs (map (\<lambda>x. address_value (aux_address x)) xs)
   \<and> t = (rev (map (\<lambda>x. alias_bytes (aux_name x)) xs) @ ns,
          rev (map (\<lambda>x. address_value (aux_address x)) xs) @ rs)"
  by (induction xs arbitrary: ns rs)
     (auto simp: bind_res_Inr_iff validate_auxiliary_def Let_def)

lemma option_any_pred: "option_any p x \<longleftrightarrow> \<not> pred_option (\<lambda>y. \<not> p y) x"
  by (cases x) (simp_all add: option_any_def)

lemma reserved_distinct:
  "distinct (map f (option_list g @ xs)) \<longleftrightarrow> all_inserted (map f (option_list g)) (map f xs)"
  by (cases g) (auto simp: all_inserted_iff)

lemma validate_pool_Inr:
  "validate_pool e earlier p = Inr t \<longleftrightarrow>
   (\<forall>q \<in> set earlier. pools_disjoint q p) \<and> wf_pool e p \<and> t = earlier @ [p]"
proof -
  have clash: "list_ex (\<lambda>other. subnet_overlaps (pool_subnet p) (pool_subnet other)) earlier
      \<longleftrightarrow> \<not> (\<forall>q \<in> set earlier. pools_disjoint q p)"
    by (auto simp: list_ex_iff pools_disjoint_def subnet_overlaps_iff)
  show ?thesis
    unfolding validate_pool_def pool_rejected_def clash wf_pool_def reserved_distinct
    by (auto simp: bind_res_Inr_iff validate_auxiliaries_Inr option_any_pred all_inserted_Nil
        comp_def not_less)
qed

lemma validate_pools_Inr:
  "try_fold (validate_pool e) acc ps = Inr t \<longleftrightarrow>
   no_clash (\<lambda>q p. \<not> pools_disjoint q p) acc ps \<and> list_all (wf_pool e) ps \<and> t = acc @ ps"
  by (induction ps arbitrary: acc) (auto simp: bind_res_Inr_iff validate_pool_Inr)

lemma validate_ipam_Inr: "validate_ipam e ipam = Inr u \<longleftrightarrow> wf_ipam e ipam"
  by (auto simp: validate_ipam_def wf_ipam_def discard_Inr_iff validate_pools_Inr no_clash_iff)

lemma validate_option_Inr:
  "validate_option seen opt = Inr t \<longleftrightarrow>
   option_key opt \<notin> set seen \<and> wf_option opt \<and> t = option_key opt # seen"
  by (cases opt) (auto simp: validate_option_def wf_option_def)

lemma validate_network_source_Inr: "validate_network_source s = Inr u \<longleftrightarrow> wf_network_source s"
proof (cases s)
  case (CreateNetwork create)
  then show ?thesis
    by (cases "create_ipam create")
       (auto simp: wf_network_source_def wf_create_def check_simps validate_ipam_Inr
         try_fold_keyed_ok [OF validate_option_Inr])
next
  case (ExternalNetwork driver internal)
  then show ?thesis by (simp add: wf_network_source_def reject_if_Inr_iff)
qed

section \<open>Ports\<close>

definition fixed_clash :: "fixed_port \<Rightarrow> fixed_port \<Rightarrow> bool" where
  "fixed_clash x y = (case x of (n, p, a) \<Rightarrow> case y of (n', p', a') \<Rightarrow>
     n = n' \<and> p = p' \<and> host_ip_overlaps a a')"

definition binding_fixed :: "protocol \<Rightarrow> host_binding \<Rightarrow> fixed_port list" where
  "binding_fixed p b = (case host_port b of Fixed n \<Rightarrow> [(n, p, host_ip b)] | Ephemeral \<Rightarrow> [])"

definition binding_dynamic :: "host_binding \<Rightarrow> port_host_ip list" where
  "binding_dynamic b = (case host_port b of Fixed n \<Rightarrow> [] | Ephemeral \<Rightarrow> [host_ip b])"

definition port_fixed :: "port_publication \<Rightarrow> fixed_port list" where
  "port_fixed p = concat (map (binding_fixed (pub_protocol p)) (pub_bindings p))"

definition port_dynamic :: "port_publication \<Rightarrow> port_host_ip list" where
  "port_dynamic p = concat (map binding_dynamic (pub_bindings p))"

definition container_fixed :: "container_intent \<Rightarrow> fixed_port list" where
  "container_fixed c = concat (map port_fixed (c_ports c))"

lemma add_binding_Inr:
  "add_binding p (fixed, dyn) b = Inr t \<longleftrightarrow>
   no_clash fixed_clash fixed (binding_fixed p b) \<and> no_clash host_ip_overlaps dyn (binding_dynamic b)
   \<and> t = (fixed @ binding_fixed p b, dyn @ binding_dynamic b)"
  by (cases "host_port b")
     (auto simp: add_binding_def binding_fixed_def binding_dynamic_def list_ex_iff fixed_clash_def)

lemma add_bindings_Inr:
  "try_fold (add_binding p) (fixed, dyn) bs = Inr t \<longleftrightarrow>
   no_clash fixed_clash fixed (concat (map (binding_fixed p) bs))
   \<and> no_clash host_ip_overlaps dyn (concat (map binding_dynamic bs))
   \<and> t = (fixed @ concat (map (binding_fixed p) bs), dyn @ concat (map binding_dynamic bs))"
  by (induction bs arbitrary: fixed dyn)
     (auto simp: bind_res_Inr_iff add_binding_Inr no_clash_append)

definition wf_port :: "port_publication \<Rightarrow> bool" where
  "wf_port p \<longleftrightarrow> sorted_wrt (\<lambda>a b. \<not> host_ip_overlaps a b) (port_dynamic p)"

lemma add_port_Inr:
  "add_port (ports, fixed) p = Inr t \<longleftrightarrow>
   (pub_container p, pub_protocol p) \<notin> set ports
   \<and> no_clash fixed_clash fixed (port_fixed p) \<and> wf_port p
   \<and> t = ((pub_container p, pub_protocol p) # ports, fixed @ port_fixed p)"
  by (auto simp: add_port_def Let_def bind_res_Inr_iff add_bindings_Inr port_fixed_def
      wf_port_def port_dynamic_def no_clash_iff [of host_ip_overlaps "[]"])

lemma add_ports_Inr:
  "try_fold add_port (ports, fixed) ps = Inr t \<longleftrightarrow>
   all_inserted ports (map (\<lambda>p. (pub_container p, pub_protocol p)) ps)
   \<and> no_clash fixed_clash fixed (concat (map port_fixed ps)) \<and> list_all wf_port ps
   \<and> t = (rev (map (\<lambda>p. (pub_container p, pub_protocol p)) ps) @ ports,
          fixed @ concat (map port_fixed ps))"
  by (induction ps arbitrary: ports fixed)
     (auto simp: bind_res_Inr_iff add_port_Inr no_clash_append)

section \<open>Attachments and containers\<close>

definition network_at :: "target_resource list \<Rightarrow> resource_ref \<Rightarrow> network_intent option" where
  "network_at rs r =
     (case List.find (\<lambda>x. resource_reference x = r) rs of
        Some (NetworkResource n) \<Rightarrow> Some n | _ \<Rightarrow> None)"

definition wf_attachment :: "target_resource list \<Rightarrow> network_attachment \<Rightarrow> bool" where
  "wf_attachment rs a \<longleftrightarrow>
     pred_option (\<lambda>x. \<not> is_ipv6 x) (attachment_ipv4 a) \<and> pred_option is_ipv6 (attachment_ipv6 a)
   \<and> distinct (map alias_bytes (attachment_aliases a))
   \<and> pred_option (\<lambda>n. attachment_fits (network_source n) a) (network_at rs (attachment_network a))"

lemma validate_attachment_Inr:
  "validate_attachment rs seen a = Inr t \<longleftrightarrow>
   attachment_network a \<notin> set seen \<and> wf_attachment rs a \<and> t = attachment_network a # seen"
proof -
  have "(case List.find (\<lambda>r. resource_reference r = attachment_network a) rs of
      Some (NetworkResource n) \<Rightarrow> \<not> attachment_fits (network_source n) a | _ \<Rightarrow> False)
    \<longleftrightarrow> \<not> pred_option (\<lambda>n. attachment_fits (network_source n) a) (network_at rs (attachment_network a))"
    by (auto simp: network_at_def split: option.splits target_resource.splits)
  then show ?thesis
    by (auto simp: validate_attachment_def wf_attachment_def option_any_pred all_inserted_Nil)
qed

definition mount_key :: "mount \<Rightarrow> bytes list" where
  "mount_key m = lexical_absolute_path_key (mount_target m)"

definition device_key :: "device_mapping \<Rightarrow> bytes list" where
  "device_key d = lexical_absolute_path_key (directory_bytes (device_container_path d))"

definition wf_container_rest :: "target_resource list \<Rightarrow> container_intent \<Rightarrow> bool" where
  "wf_container_rest rs c \<longleftrightarrow>
     distinct (map label_key (set_labels (c_settings c)))
   \<and> distinct (map attachment_network (c_networks c))
   \<and> list_all (wf_attachment rs) (c_networks c)
   \<and> distinct (map mount_key (c_mounts c))
   \<and> mount_key ` set (c_mounts c) \<inter> device_key ` set (set_devices (c_settings c)) = {}
   \<and> \<not> command_args_rejected (c_entrypoint c) \<and> \<not> command_args_rejected (c_command c)
   \<and> (c_command c = Clear \<longrightarrow> (\<exists>args. c_entrypoint c = Exec args))
   \<and> pred_option (\<lambda>a. argument_bytes a \<noteq> []) (set_stop_signal (c_settings c))
   \<and> wf_settings (c_settings c)
   \<and> (\<forall>n. c_restart c = Some (OnFailure n) \<longrightarrow> unat n \<le> i32_max)"

definition wf_container :: "target_resource list \<Rightarrow> container_intent \<Rightarrow> bool" where
  "wf_container rs c \<longleftrightarrow>
     distinct (map environment_key (c_environment c))
   \<and> distinct (map (\<lambda>p. (pub_container p, pub_protocol p)) (c_ports c))
   \<and> list_all wf_port (c_ports c)
   \<and> wf_container_rest rs c"

lemma mounts_clash_iff:
  "mounts_clash c \<longleftrightarrow> \<not> (distinct (map mount_key (c_mounts c))
     \<and> mount_key ` set (c_mounts c) \<inter> device_key ` set (set_devices (c_settings c)) = {})"
proof -
  have keys: "(\<lambda>m. lexical_absolute_path_key (mount_target m)) = mount_key"
    by (simp add: fun_eq_iff mount_key_def)
  have "mounts_clash c \<longleftrightarrow> \<not> (distinct (map mount_key (c_mounts c))
      \<and> (\<forall>d \<in> set (set_devices (c_settings c)). device_key d \<notin> mount_key ` set (c_mounts c)))"
    unfolding mounts_clash_def Let_def keys all_inserted_Nil list_ex_iff set_map
      device_key_def [symmetric] by blast
  moreover have "(\<forall>d \<in> B. g d \<notin> A) \<longleftrightarrow> A \<inter> g ` B = {}" for A B and g :: "device_mapping \<Rightarrow> bytes list"
    by auto
  ultimately show ?thesis by simp
qed

lemma not_exec_iff:
  "(case e of Exec _ \<Rightarrow> False | _ \<Rightarrow> True) \<longleftrightarrow> \<not> (\<exists>args. e = Exec args)"
  by (cases e) simp_all

lemma restart_rejected_iff:
  "(case r of Some (OnFailure n) \<Rightarrow> unat n > m | _ \<Rightarrow> False) \<longleftrightarrow>
   \<not> (\<forall>n. r = Some (OnFailure n) \<longrightarrow> unat n \<le> m)"
  by (auto split: option.splits restart_policy.splits)

lemma validate_container_rest_Inr:
  "validate_container_rest rs c = Inr u \<longleftrightarrow> wf_container_rest rs c"
  unfolding validate_container_rest_def wf_container_rest_def
    mounts_clash_iff not_exec_iff restart_rejected_iff option_any_pred
  by (simp add: check_simps validate_container_settings_Inr
      try_fold_keyed_ok [OF validate_attachment_Inr])

lemma validate_container_Inr:
  "validate_container rs fixed c = Inr t \<longleftrightarrow>
   wf_container rs c \<and> no_clash fixed_clash fixed (container_fixed c) \<and> t = fixed @ container_fixed c"
  by (auto simp: validate_container_def wf_container_def container_fixed_def bind_res_Inr_iff
      add_ports_Inr validate_container_rest_Inr all_inserted_Nil)

section \<open>Intents\<close>

definition wf_volume_labels :: "volume_label list \<Rightarrow> bool" where
  "wf_volume_labels labels \<longleftrightarrow> length labels \<le> max_volume_label_count
     \<and> sum_list (map (\<lambda>l. length (volume_label_key l) + length (volume_label_value l)) labels)
         \<le> max_volume_label_total_bytes
     \<and> distinct (map volume_label_key labels)"

definition wf_resource :: "target_resource list \<Rightarrow> target_resource \<Rightarrow> bool" where
  "wf_resource rs r =
     (case r of
        NetworkResource n \<Rightarrow> wf_network_source (network_source n)
      | VolumeResource _ _ labels \<Rightarrow> wf_volume_labels labels
      | ExternalVolumeResource _ _ \<Rightarrow> True
      | ContainerResource c \<Rightarrow> wf_container rs c)"

fun is_default_network :: "target_resource \<Rightarrow> bool" where
  "is_default_network (NetworkResource n) = (network_role n = ApplicationDefault)"
| "is_default_network _ = False"

fun resource_fixed :: "target_resource \<Rightarrow> fixed_port list" where
  "resource_fixed (ContainerResource c) = container_fixed c"
| "resource_fixed _ = []"

definition identity_key :: "target_resource \<Rightarrow> target_kind \<times> bytes" where
  "identity_key r = (resource_kind r, identity_bytes (resource_identity r))"

text \<open>
  A valid intent: something to create; references unique, identities unique per kind; at most one
  default network; every resource valid by itself and against the networks it names; no two fixed
  host ports that would collide on a host address, over all containers; no static address twice
  on one network.
\<close>

definition wf_intent :: "target_resource list \<Rightarrow> bool" where
  "wf_intent rs \<longleftrightarrow>
     rs \<noteq> []
   \<and> distinct (map resource_reference rs)
   \<and> distinct (map identity_key rs)
   \<and> length (filter is_default_network rs) \<le> 1
   \<and> list_all (wf_resource rs) rs
   \<and> sorted_wrt (\<lambda>x y. \<not> fixed_clash x y) (concat (map resource_fixed rs))
   \<and> distinct (concat (map static_addresses rs))"

lemma volume_labels_valid_Inr: "volume_labels_valid ls = Inr u \<longleftrightarrow> wf_volume_labels ls"
  by (auto simp: volume_labels_valid_def wf_volume_labels_def check_simps not_less)

definition labels_part :: "target_resource \<Rightarrow> bool" where
  "labels_part r = (case r of VolumeResource _ _ labels \<Rightarrow> wf_volume_labels labels | _ \<Rightarrow> True)"

lemma validate_identity_Inr:
  "validate_identity (d, ids) r = Inr t \<longleftrightarrow>
   labels_part r \<and> \<not> (is_default_network r \<and> d) \<and> identity_key r \<notin> set ids
   \<and> t = (d \<or> is_default_network r, identity_key r # ids)"
  by (cases r)
     (auto simp: validate_identity_def labels_part_def identity_key_def Let_def
       volume_labels_valid_Inr bind_res_Inr_iff)

lemma validate_identities_Inr:
  "try_fold validate_identity (d, ids) rs = Inr t \<longleftrightarrow>
   list_all labels_part rs \<and> length (filter is_default_network rs) \<le> (if d then 0 else 1)
   \<and> all_inserted ids (map identity_key rs)
   \<and> t = (d \<or> filter is_default_network rs \<noteq> [], rev (map identity_key rs) @ ids)"
proof (induction rs arbitrary: d ids)
  case Nil
  then show ?case by auto
next
  case (Cons r rs)
  show ?case
    by (cases "is_default_network r"; cases d)
       (auto simp: bind_res_Inr_iff validate_identity_Inr Cons.IH)
qed

definition second_part :: "target_resource list \<Rightarrow> target_resource \<Rightarrow> bool" where
  "second_part rs r =
     (case r of
        NetworkResource n \<Rightarrow> wf_network_source (network_source n)
      | ContainerResource c \<Rightarrow> wf_container rs c
      | _ \<Rightarrow> True)"

lemma validate_resource_Inr:
  "validate_resource all fixed r = Inr t \<longleftrightarrow>
   second_part all r \<and> no_clash fixed_clash fixed (resource_fixed r) \<and> t = fixed @ resource_fixed r"
  by (cases r)
     (auto simp: validate_resource_def second_part_def bind_res_Inr_iff
       validate_network_source_Inr validate_container_Inr)

lemma validate_resources_Inr:
  "try_fold (validate_resource all) fixed rs = Inr t \<longleftrightarrow>
   list_all (second_part all) rs \<and> no_clash fixed_clash fixed (concat (map resource_fixed rs))
   \<and> t = fixed @ concat (map resource_fixed rs)"
  by (induction rs arbitrary: fixed)
     (auto simp: bind_res_Inr_iff validate_resource_Inr no_clash_append)

lemma wf_resource_parts: "wf_resource rs r \<longleftrightarrow> labels_part r \<and> second_part rs r"
  by (cases r) (simp_all add: wf_resource_def labels_part_def second_part_def)

lemma target_intent_new_iff:
  "target_intent_new_with_orchestration rs orch = Inr i \<longleftrightarrow>
   orch = Standalone \<and> wf_intent rs \<and> i = TargetIntent rs"
proof -
  have parts: "list_all (wf_resource rs) rs \<longleftrightarrow> list_all labels_part rs \<and> list_all (second_part rs) rs"
    by (auto simp: list_all_iff wf_resource_parts)
  have first: "(\<exists>t. try_fold validate_identity (False, []) rs = Inr t) \<longleftrightarrow>
      list_all labels_part rs \<and> length (filter is_default_network rs) \<le> 1
      \<and> distinct (map identity_key rs)"
    by (simp add: validate_identities_Inr all_inserted_Nil)
  have second: "(\<exists>t. try_fold (validate_resource rs) [] rs = Inr t) \<longleftrightarrow>
      list_all (second_part rs) rs
      \<and> sorted_wrt (\<lambda>x y. \<not> fixed_clash x y) (concat (map resource_fixed rs))"
    by (simp add: validate_resources_Inr no_clash_iff)
  have "target_intent_new_with_orchestration rs orch = Inr i \<longleftrightarrow>
      orch = Standalone \<and> rs \<noteq> [] \<and> distinct (map resource_reference rs)
      \<and> (\<exists>t. try_fold validate_identity (False, []) rs = Inr t)
      \<and> (\<exists>t. try_fold (validate_resource rs) [] rs = Inr t)
      \<and> distinct (concat (map static_addresses rs)) \<and> i = TargetIntent rs"
    by (auto simp: target_intent_new_with_orchestration_def bind_res_Inr_iff all_inserted_Nil)
  then show ?thesis unfolding first second wf_intent_def parts by blast
qed

end
