(* ===== verification/Graphs.thy ===== *)
theory Graphs
  imports Dependency_Order Intent_Spec
begin

text \<open>
  \<^verbatim>\<open>src/target_modules/graph.rs\<close>, the second half: \<open>OperationGraph::new\<close> with its phases in the
  order of the code, and the planner that derives the nodes from an intent. A result is an option
  of a sum: \<open>None\<close> is a panic, \<open>Inl\<close> a planning error.
\<close>

section \<open>The phases of the constructor\<close>

definition intent_action :: "target_resource \<Rightarrow> operation_action" where
  "intent_action r =
     (case r of
        NetworkResource n \<Rightarrow>
          (case network_source n of ExternalNetwork _ _ \<Rightarrow> RequireExisting | _ \<Rightarrow> Create)
      | ExternalVolumeResource _ _ \<Rightarrow> RequireExisting
      | _ \<Rightarrow> Create)"

definition node_matches :: "target_resource list \<Rightarrow> operation_node \<Rightarrow> bool" where
  "node_matches rs n =
     list_ex (\<lambda>r. resource_reference r = node_ref n
       \<and> resource_kind r = op_kind (node_operation n)
       \<and> op_action (node_operation n) = intent_action r) rs"

definition dependencies_known :: "resource_ref list \<Rightarrow> operation_node \<Rightarrow> bool" where
  "dependencies_known refs n =
     list_all (\<lambda>d. d \<in> set refs \<and> d \<noteq> node_ref n) (depends_on n)"

text \<open>A collected hash map keeps the last resource of a reference.\<close>

definition resource_map :: "target_resource list \<Rightarrow> resource_ref \<Rightarrow> target_resource option" where
  "resource_map rs = map_of (rev (map (\<lambda>r. (resource_reference r, r)) rs))"

definition volume_references :: "container_intent \<Rightarrow> resource_ref list" where
  "volume_references c =
     concat (map (\<lambda>m. case mount_source m of Volume r \<Rightarrow> [r] | _ \<Rightarrow> []) (c_mounts c))"

definition required_references :: "container_intent \<Rightarrow> (resource_ref \<times> target_kind) list" where
  "required_references c =
     map (\<lambda>a. (attachment_network a, NetworkKind)) (c_networks c)
     @ map (\<lambda>r. (r, VolumeKind)) (volume_references c)"

definition check_dependency ::
  "(resource_ref \<Rightarrow> target_resource option) \<Rightarrow> operation_node \<Rightarrow> resource_ref \<times> target_kind
   \<Rightarrow> planning_error + unit" where
  "check_dependency resource_at n rk =
     (let (reference, kind) = rk in
      reject_if ((case resource_at reference of None \<Rightarrow> True | Some r \<Rightarrow> resource_kind r \<noteq> kind)
          \<or> reference \<notin> set (depends_on n))
        (DependencyMismatch (node_ref n) reference kind))"

definition check_dependencies ::
  "(resource_ref \<Rightarrow> target_resource option) \<Rightarrow> operation_node \<Rightarrow> planning_error + unit" where
  "check_dependencies resource_at n =
     (case resource_at (node_ref n) of
        Some (ContainerResource c) \<Rightarrow>
          checks (map (check_dependency resource_at n) (required_references c))
      | _ \<Rightarrow> Inr ())"

section \<open>Steps\<close>

definition base_id :: "resource_ref \<Rightarrow> operation_step_id" where
  "base_id r = \<lparr>step_resource = r, step_ordinal = 0\<rparr>"

definition base_step :: "operation_node \<Rightarrow> operation_step" where
  "base_step n =
     \<lparr>step_id = base_id (node_ref n),
      step_action = (case op_action (node_operation n) of
          Create \<Rightarrow> CreateStep (op_kind (node_operation n))
        | RequireExisting \<Rightarrow> RequireExistingStep (op_kind (node_operation n))),
      step_depends_on = map base_id (depends_on n)\<rparr>"

definition connect_step :: "resource_ref \<Rightarrow> nat \<Rightarrow> network_attachment \<Rightarrow> operation_step" where
  "connect_step r i a =
     \<lparr>step_id = \<lparr>step_resource = r, step_ordinal = i\<rparr>,
      step_action = ConnectNetwork (attachment_network a) i,
      step_depends_on = [base_id r, base_id (attachment_network a)]\<rparr>"

text \<open>\<^verbatim>\<open>enumerate().skip(1)\<close>: every attachment but the first, with its index.\<close>

definition connect_steps :: "resource_ref \<Rightarrow> network_attachment list \<Rightarrow> operation_step list" where
  "connect_steps r attachments =
     map (\<lambda>(i, a). connect_step r i a) (drop 1 (zip [0..<length attachments] attachments))"

definition node_steps ::
  "(resource_ref \<Rightarrow> target_resource option) \<Rightarrow> operation_node \<Rightarrow> operation_step list" where
  "node_steps resource_at n =
     base_step n # (case resource_at (node_ref n) of
        Some (ContainerResource c) \<Rightarrow> connect_steps (node_ref n) (c_networks c)
      | _ \<Rightarrow> [])"

section \<open>The graph\<close>

record operation_graph =
  graph_intent :: target_intent
  graph_context :: planning_context
  graph_nodes :: "operation_node list"
  graph_steps :: "operation_step list"

text \<open>The structural checks, before any capability is looked at.\<close>

definition check_nodes :: "target_resource list \<Rightarrow> operation_node list \<Rightarrow> planning_error + unit" where
  "check_nodes rs nodes = checks (
     reject_if (length nodes \<noteq> length rs \<or> \<not> all_inserted [] (map node_ref nodes)) InvalidDependency
     # reject_if (\<not> list_all (node_matches rs) nodes) InvalidDependency
     # reject_if (\<not> list_all (dependencies_known (map node_ref nodes)) nodes) InvalidDependency
     # map (check_dependencies (resource_map rs)) nodes)"

definition check_target ::
  "(capability \<Rightarrow> bool) \<Rightarrow> planning_context \<Rightarrow> target_resource list \<Rightarrow> planning_error + unit" where
  "check_target supports ctx rs =
     (let api = context_api ctx in
      if api_major api \<noteq> 1 \<or> api < minimum_api then Inl (UnsupportedApi api minimum_api)
      else check_resources supports (context_mode ctx) rs)"

definition operation_graph_new ::
  "target_intent \<Rightarrow> planning_capabilities \<Rightarrow> operation_node list
   \<Rightarrow> (planning_error + operation_graph) option" where
  "operation_graph_new i caps nodes =
     (let rs = resources i in
      case check_nodes rs nodes of
        Inl e \<Rightarrow> Some (Inl e)
      | Inr _ \<Rightarrow>
        (case visited_nodes nodes of
           None \<Rightarrow> None
         | Some visited \<Rightarrow>
           if visited \<noteq> length nodes then Some (Inl Cycle)
           else (case pc_context caps of
              None \<Rightarrow> None
            | Some ctx \<Rightarrow>
              Some (bind_res (check_target (pc_supports caps) ctx rs) (\<lambda>_.
                Inr \<lparr>graph_intent = i, graph_context = ctx, graph_nodes = nodes,
                     graph_steps = concat (map (node_steps (resource_map rs)) nodes)\<rparr>)))))"

section \<open>The planner\<close>

definition push_new :: "resource_ref list \<Rightarrow> resource_ref \<Rightarrow> resource_ref list" where
  "push_new refs r = (if r \<in> set refs then refs else refs @ [r])"

definition plan_dependencies :: "target_resource \<Rightarrow> resource_ref list" where
  "plan_dependencies r =
     (case r of
        ContainerResource c \<Rightarrow>
          foldl push_new (foldl push_new [] (map attachment_network (c_networks c)))
            (volume_references c)
      | _ \<Rightarrow> [])"

definition plan_node :: "target_resource \<Rightarrow> operation_node" where
  "plan_node r =
     \<lparr>node_operation = \<lparr>op_resource = resource_reference r, op_kind = resource_kind r,
        op_action = intent_action r\<rparr>,
      depends_on = plan_dependencies r\<rparr>"

definition docker_plan ::
  "target_intent \<Rightarrow> planning_capabilities \<Rightarrow> (planning_error + operation_graph) option" where
  "docker_plan i caps = operation_graph_new i caps (map plan_node (resources i))"

section \<open>What the structural checks accept\<close>

lemma check_nodes_closed: "check_nodes rs nodes = Inr u \<Longrightarrow> closed_nodes nodes"
  by (auto simp: check_nodes_def check_simps closed_nodes_def dependencies_known_def list_all_iff)

definition dependencies_right :: "target_resource list \<Rightarrow> operation_node list \<Rightarrow> bool" where
  "dependencies_right rs nodes \<longleftrightarrow>
     (\<forall>n c r k. n \<in> set nodes \<and> resource_map rs (node_ref n) = Some (ContainerResource c)
        \<and> (r, k) \<in> set (required_references c)
        \<longrightarrow> r \<in> set (depends_on n) \<and> (\<exists>x. resource_map rs r = Some x \<and> resource_kind x = k))"

lemma check_dependency_Inr:
  "check_dependency m n (r, k) = Inr u \<longleftrightarrow>
   r \<in> set (depends_on n) \<and> (\<exists>x. m r = Some x \<and> resource_kind x = k)"
  by (cases "m r") (auto simp: check_dependency_def reject_if_Inr_iff)

lemma check_dependencies_Inr:
  "check_dependencies m n = Inr u \<longleftrightarrow>
   (\<forall>c. m (node_ref n) = Some (ContainerResource c) \<longrightarrow>
     (\<forall>(r, k) \<in> set (required_references c).
        r \<in> set (depends_on n) \<and> (\<exists>x. m r = Some x \<and> resource_kind x = k)))"
  by (auto simp: check_dependencies_def checks_map_Inr_iff check_dependency_Inr
      split: option.splits target_resource.splits)

lemma check_nodes_Inr:
  "check_nodes rs nodes = Inr u \<longleftrightarrow>
   length nodes = length rs \<and> distinct (map node_ref nodes)
   \<and> (\<forall>n \<in> set nodes. node_matches rs n)
   \<and> (\<forall>n \<in> set nodes. set (depends_on n) \<subseteq> node_ref ` set nodes - {node_ref n})
   \<and> dependencies_right rs nodes"
proof -
  have "(\<forall>n \<in> set nodes. check_dependencies (resource_map rs) n = Inr ()) \<longleftrightarrow> dependencies_right rs nodes"
    unfolding check_dependencies_Inr dependencies_right_def by fastforce
  then show ?thesis
    by (auto simp: check_nodes_def check_simps dependencies_known_def list_all_iff)
qed

lemma check_target_Inr:
  "check_target supports ctx rs = Inr u \<longleftrightarrow>
   api_major (context_api ctx) = 1 \<and> minimum_api \<le> context_api ctx
   \<and> (\<forall>r \<in> set rs. plannable (context_mode ctx) r
        \<and> (\<forall>c \<in> required_capabilities (context_mode ctx) r. supports c))"
  by (auto simp: check_target_def Let_def check_resources_Inr not_less)

lemma operation_graph_new_cases:
  "operation_graph_new i caps nodes =
   (case check_nodes (resources i) nodes of
      Inl e \<Rightarrow> Some (Inl e)
    | Inr _ \<Rightarrow>
      if \<not> acyclic (dependency_relation nodes) then Some (Inl Cycle)
      else map_option (\<lambda>ctx. bind_res (check_target (pc_supports caps) ctx (resources i)) (\<lambda>_.
                Inr \<lparr>graph_intent = i, graph_context = ctx, graph_nodes = nodes,
                  graph_steps = concat (map (node_steps (resource_map (resources i))) nodes)\<rparr>))
              (pc_context caps))"
proof (cases "check_nodes (resources i) nodes")
  case (Inl e)
  then show ?thesis by (simp add: operation_graph_new_def Let_def)
next
  case (Inr u)
  from visited_nodes_verdict [OF check_nodes_closed [OF Inr]] obtain v where v:
    "visited_nodes nodes = Some v" "v = length nodes \<longleftrightarrow> acyclic (dependency_relation nodes)"
    by blast
  then show ?thesis
    by (cases "pc_context caps") (simp_all add: operation_graph_new_def Let_def Inr)
qed

section \<open>Resources by reference\<close>

lemma resource_map_Some:
  "resource_map rs r = Some x \<Longrightarrow> x \<in> set rs \<and> resource_reference x = r"
  by (auto simp: resource_map_def dest!: map_of_SomeD)

lemma resource_map_mem:
  assumes "distinct (map resource_reference rs)" and "x \<in> set rs"
  shows "resource_map rs (resource_reference x) = Some x"
proof -
  have "distinct (map fst (rev (map (\<lambda>r. (resource_reference r, r)) rs)))"
    using assms(1) by (simp add: comp_def rev_map [symmetric])
  then show ?thesis using assms(2) unfolding resource_map_def by (intro map_of_is_SomeI) auto
qed

lemma resource_map_iff:
  "distinct (map resource_reference rs) \<Longrightarrow>
   resource_map rs r = Some x \<longleftrightarrow> x \<in> set rs \<and> resource_reference x = r"
  using resource_map_Some resource_map_mem by blast

section \<open>The planner's nodes\<close>

lemma foldl_push_new:
  "distinct acc \<Longrightarrow> distinct (foldl push_new acc xs) \<and> set (foldl push_new acc xs) = set acc \<union> set xs"
  by (induction xs arbitrary: acc) (auto simp: push_new_def)

lemma plan_dependencies_set:
  "set (plan_dependencies (ContainerResource c)) = fst ` set (required_references c)"
  "distinct (plan_dependencies r)"
proof -
  show "set (plan_dependencies (ContainerResource c)) = fst ` set (required_references c)"
    by (simp add: plan_dependencies_def foldl_push_new required_references_def image_Un image_image)
  show "distinct (plan_dependencies r)"
    by (cases r) (simp_all add: plan_dependencies_def foldl_push_new)
qed

lemma plan_dependencies_other [simp]:
  "plan_dependencies (NetworkResource n) = []" "plan_dependencies (VolumeResource r i ls) = []"
  "plan_dependencies (ExternalVolumeResource r i) = []"
  by (simp_all add: plan_dependencies_def)

lemma plan_node_simps [simp]:
  "node_ref (plan_node r) = resource_reference r" "depends_on (plan_node r) = plan_dependencies r"
  "op_kind (node_operation (plan_node r)) = resource_kind r"
  "op_action (node_operation (plan_node r)) = intent_action r"
  by (simp_all add: plan_node_def)

text \<open>Every reference a container names is a resource of the intent of the right kind.\<close>

definition references_resolved :: "target_resource list \<Rightarrow> bool" where
  "references_resolved rs \<longleftrightarrow>
     (\<forall>c r k. ContainerResource c \<in> set rs \<and> (r, k) \<in> set (required_references c)
        \<longrightarrow> (\<exists>x \<in> set rs. resource_reference x = r \<and> resource_kind x = k))"

lemma required_kind: "(r, k) \<in> set (required_references c) \<Longrightarrow> k \<noteq> ContainerKind"
  by (auto simp: required_references_def)

lemma distinct_references_eq:
  "distinct (map resource_reference rs) \<Longrightarrow> x \<in> set rs \<Longrightarrow> y \<in> set rs \<Longrightarrow>
   resource_reference x = resource_reference y \<Longrightarrow> x = y"
  by (auto simp: distinct_map dest: inj_onD)

lemma plan_nodes_right:
  assumes "distinct (map resource_reference rs)"
  shows "dependencies_right rs (map plan_node rs) \<longleftrightarrow> references_resolved rs"
proof
  assume right: "dependencies_right rs (map plan_node rs)"
  show "references_resolved rs"
    unfolding references_resolved_def
  proof (intro allI impI, elim conjE)
    fix c r k
    assume c: "ContainerResource c \<in> set rs" and rk: "(r, k) \<in> set (required_references c)"
    from c have "plan_node (ContainerResource c) \<in> set (map plan_node rs)" by simp
    moreover have "resource_map rs (node_ref (plan_node (ContainerResource c))) = Some (ContainerResource c)"
      using resource_map_mem [OF assms c] by simp
    ultimately obtain x where "resource_map rs r = Some x" "resource_kind x = k"
      using right rk unfolding dependencies_right_def by blast
    then show "\<exists>x \<in> set rs. resource_reference x = r \<and> resource_kind x = k"
      using resource_map_Some by blast
  qed
next
  assume res: "references_resolved rs"
  show "dependencies_right rs (map plan_node rs)"
    unfolding dependencies_right_def
  proof (intro allI impI, elim conjE)
    fix n c r k
    assume n: "n \<in> set (map plan_node rs)" "resource_map rs (node_ref n) = Some (ContainerResource c)"
      and rk: "(r, k) \<in> set (required_references c)"
    from n(1) obtain x where x: "x \<in> set rs" "n = plan_node x" by auto
    with n(2) resource_map_mem [OF assms x(1)] have xc: "x = ContainerResource c" by simp
    have "r \<in> set (depends_on n)" using rk x(2) xc by (force simp: plan_dependencies_set)
    moreover obtain y where "y \<in> set rs" "resource_reference y = r" "resource_kind y = k"
      using res rk x(1) xc unfolding references_resolved_def by blast
    ultimately show "r \<in> set (depends_on n) \<and> (\<exists>x. resource_map rs r = Some x \<and> resource_kind x = k)"
      using resource_map_mem [OF assms] by blast
  qed
qed

lemma plan_dependency_kind:
  assumes "references_resolved rs" and "x \<in> set rs" and "d \<in> set (plan_dependencies x)"
  shows "\<exists>c y. x = ContainerResource c \<and> y \<in> set rs \<and> resource_reference y = d
    \<and> resource_kind y \<noteq> ContainerKind"
proof (cases x)
  case (ContainerResource c)
  with assms(3) obtain k where k: "(d, k) \<in> set (required_references c)"
    by (auto simp: plan_dependencies_set)
  with assms(1,2) ContainerResource obtain y where "y \<in> set rs" "resource_reference y = d"
    "resource_kind y = k" unfolding references_resolved_def by blast
  with required_kind [OF k] ContainerResource show ?thesis by blast
qed (use assms(3) in simp_all)

lemma check_plan_nodes:
  assumes "distinct (map resource_reference rs)"
  shows "check_nodes rs (map plan_node rs) = Inr u \<longleftrightarrow> references_resolved rs"
proof
  assume "check_nodes rs (map plan_node rs) = Inr u"
  then show "references_resolved rs" by (simp add: check_nodes_Inr plan_nodes_right [OF assms])
next
  assume res: "references_resolved rs"
  have deps: "d \<in> resource_reference ` set rs \<and> d \<noteq> resource_reference x"
    if "x \<in> set rs" "d \<in> set (plan_dependencies x)" for x d
  proof -
    from plan_dependency_kind [OF res that] obtain c y where xy: "x = ContainerResource c"
      "y \<in> set rs" "resource_reference y = d" "resource_kind y \<noteq> ContainerKind" by blast
    then have "y \<noteq> x" by auto
    then show ?thesis using xy that(1) distinct_references_eq [OF assms] by blast
  qed
  show "check_nodes rs (map plan_node rs) = Inr u"
    unfolding check_nodes_Inr plan_nodes_right [OF assms]
    using assms res deps by (auto simp: comp_def node_matches_def list_ex_iff image_image)
qed

lemma plan_nodes_acyclic:
  assumes "distinct (map resource_reference rs)" and "references_resolved rs"
  shows "acyclic (dependency_relation (map plan_node rs))"
proof -
  let ?rank = "\<lambda>r. case resource_map rs r of Some (ContainerResource c) \<Rightarrow> 1 | _ \<Rightarrow> (0 :: nat)"
  have "dependency_relation (map plan_node rs) \<subseteq> measure ?rank"
  proof
    fix e assume "e \<in> dependency_relation (map plan_node rs)"
    then obtain d x where e: "e = (d, resource_reference x)" "x \<in> set rs"
      "d \<in> set (plan_dependencies x)" by (auto simp: dependency_relation_def)
    from plan_dependency_kind [OF assms(2) e(2,3)] obtain c y where "x = ContainerResource c"
      "y \<in> set rs" "resource_reference y = d" "resource_kind y \<noteq> ContainerKind" by blast
    moreover have "resource_map rs (resource_reference x) = Some x"
      "resource_map rs (resource_reference y) = Some y"
      using resource_map_mem [OF assms(1)] e(2) \<open>y \<in> set rs\<close> by blast+
    ultimately show "e \<in> measure ?rank" using e(1) by (cases y) simp_all
  qed
  then have "wf (dependency_relation (map plan_node rs))" by (rule wf_subset [OF wf_measure])
  then show ?thesis by (rule wf_acyclic)
qed

lemma docker_plan_cases:
  assumes "distinct (map resource_reference (resources i))" and "pc_context caps = Some ctx"
  shows "docker_plan i caps = Some (
    case check_nodes (resources i) (map plan_node (resources i)) of
      Inl e \<Rightarrow> Inl e
    | Inr _ \<Rightarrow> bind_res (check_target (pc_supports caps) ctx (resources i)) (\<lambda>_.
        Inr \<lparr>graph_intent = i, graph_context = ctx, graph_nodes = map plan_node (resources i),
          graph_steps = concat (map (node_steps (resource_map (resources i)))
            (map plan_node (resources i)))\<rparr>))"
proof (cases "check_nodes (resources i) (map plan_node (resources i))")
  case (Inl e)
  then show ?thesis by (simp add: docker_plan_def operation_graph_new_cases)
next
  case (Inr u)
  then have "references_resolved (resources i)" by (simp add: check_plan_nodes [OF assms(1)])
  with Inr assms(2) plan_nodes_acyclic [OF assms(1)] show ?thesis
    by (simp add: docker_plan_def operation_graph_new_cases)
qed

end
