(* ===== verification/Render_Requests.thy ===== *)
theory Render_Requests
  imports Render_Text Graphs
begin

text \<open>
  \<^verbatim>\<open>src/target_modules/render/network.rs\<close> and \<^verbatim>\<open>src/target_modules/render/container.rs\<close>: the bodies
  of the requests that create networks, volumes and containers and connect further networks,
  piece by piece as the code appends them, and after each renderer the JSON document a reader
  finds in its text.
\<close>

datatype render_error = InvalidGraph

type_synonym 'a render = "(render_error, 'a) rendered"

section \<open>Networks\<close>

definition address_text :: "network_address \<Rightarrow> bytes" where
  "address_text a = show_ip (address_value a)"

definition subnet_text :: "network_subnet \<Rightarrow> bytes" where
  "subnet_text s = address_text (subnet_address s) @ ''/'' @ dec (unat (subnet_prefix s))"

definition aux_pairs :: "network_ipam_pool \<Rightarrow> (bytes \<times> bytes) list" where
  "aux_pairs p = map (\<lambda>x. (alias_bytes (aux_name x), address_text (aux_address x))) (pool_auxiliary p)"

definition render_pool :: "network_ipam_pool \<Rightarrow> bytes render" where
  "render_pool p = cat [
     lit ''{'', key ''Subnet'', json_string (subnet_text (pool_subnet p)),
     if_some (pool_ip_range p) (\<lambda>r. cat [next_key ''IPRange'', json_string (subnet_text r)]),
     if_some (pool_gateway p) (\<lambda>g. cat [next_key ''Gateway'', json_string (address_text g)]),
     optional (pool_auxiliary p \<noteq> [])
       (cat [next_key ''AuxiliaryAddresses'', lit ''{'', json_pairs (aux_pairs p), lit ''}'']),
     lit ''}'']"

fun ipam_driver_name :: "network_ipam_driver \<Rightarrow> bytes" where
  "ipam_driver_name DefaultIpam = ''default''"

definition render_ipam :: "network_ipam \<Rightarrow> bytes render" where
  "render_ipam i = cat [
     next_key ''IPAM'', lit ''{'',
     if_some (ipam_driver i) (\<lambda>d. cat [key ''Driver'', json_string (ipam_driver_name d), lit '','']),
     key ''Config'', lit ''['', commas (map render_pool (ipam_pools i)), lit '']}'']"

fun option_pair :: "bridge_option \<Rightarrow> bytes \<times> bytes" where
  "option_pair (Mtu m) = (''com.docker.network.driver.mtu'', dec (unat m))"
| "option_pair (InterContainerCommunication b) =
     (''com.docker.network.bridge.enable_icc'', bool_text b)"
| "option_pair (IpMasquerade b) =
     (''com.docker.network.bridge.enable_ip_masquerade'', bool_text b)"
| "option_pair (HostBindingIp a) =
     (''com.docker.network.bridge.host_binding_ipv4'', address_text a)"

definition network_label_pair :: "network_label \<Rightarrow> bytes \<times> bytes" where
  "network_label_pair l = (network_label_key l, network_label_value l)"

definition render_create_options :: "network_create \<Rightarrow> bytes render" where
  "render_create_options create = cat [
     optional (create_internal create) (cat [next_key ''Internal'', lit (bool_text True)]),
     optional (create_enable_ipv6 create) (cat [next_key ''EnableIPv6'', lit (bool_text True)]),
     if_some (create_ipam create) render_ipam,
     optional (create_options create \<noteq> [])
       (cat [next_key ''Options'', lit ''{'', json_pairs (map option_pair (create_options create)),
         lit ''}'']),
     optional (create_labels create \<noteq> [])
       (cat [next_key ''Labels'', lit ''{'',
         json_pairs (map network_label_pair (create_labels create)), lit ''}''])]"

definition render_network :: "network_intent \<Rightarrow> bytes render" where
  "render_network n =
     (case network_source n of
        CreateNetwork create \<Rightarrow> cat [
          lit ''{'', key ''Name'', json_string (identity_bytes (network_identity n)),
          next_key ''Driver'', lit (quoted ''bridge''), render_create_options create, lit ''}'']
      | ExternalNetwork _ _ \<Rightarrow> Inl Panics)"

section \<open>Volumes\<close>

text \<open>The volume branch of \<open>render\<close> in \<^verbatim>\<open>src/target_modules/render.rs\<close>.\<close>

definition volume_label_pair :: "volume_label \<Rightarrow> bytes \<times> bytes" where
  "volume_label_pair l = (volume_label_key l, volume_label_value l)"

definition render_volume :: "target_identity \<Rightarrow> volume_label list \<Rightarrow> bytes render" where
  "render_volume identity labels = cat [
     lit ''{'', key ''Name'', json_string (identity_bytes identity),
     optional (labels \<noteq> [])
       (cat [next_key ''Labels'', lit ''{'', json_pairs (map volume_label_pair labels), lit ''}'']),
     lit ''}'']"

section \<open>Endpoints, commands and ports\<close>

definition render_endpoint :: "network_attachment \<Rightarrow> bytes render" where
  "render_endpoint a = cat [
     lit ''{'',
     optional (attachment_aliases a \<noteq> [])
       (cat [key ''Aliases'', lit ''['', json_strings (map alias_bytes (attachment_aliases a)),
         lit '']'']),
     optional (attachment_ipv4 a \<noteq> None \<or> attachment_ipv6 a \<noteq> None) (cat [
       optional (attachment_aliases a \<noteq> []) (lit '',''),
       key ''IPAMConfig'', lit ''{'',
       if_some (attachment_ipv4 a) (\<lambda>x. cat [key ''IPv4Address'', json_string (address_text x)]),
       if_some (attachment_ipv6 a) (\<lambda>x. cat [
         optional (attachment_ipv4 a \<noteq> None) (lit '',''),
         key ''IPv6Address'', json_string (address_text x)]),
       lit ''}'']),
     lit ''}'']"

definition network_lookup ::
  "(resource_ref \<Rightarrow> target_resource option) \<Rightarrow> resource_ref \<Rightarrow> network_intent render" where
  "network_lookup resource_at r =
     (case resource_at r of Some (NetworkResource n) \<Rightarrow> Inr n | _ \<Rightarrow> Inl (Returns InvalidGraph))"

text \<open>The path, without its version prefix, and the body of a connect request.\<close>

definition render_secondary_connection ::
  "container_intent \<Rightarrow> network_attachment \<Rightarrow> (resource_ref \<Rightarrow> target_resource option)
   \<Rightarrow> (bytes \<times> bytes) render" where
  "render_secondary_connection c a resource_at =
     bind_res (network_lookup resource_at (attachment_network a)) (\<lambda>n.
       bind_res (cat [
           lit ''{'', key ''Container'', json_string (identity_bytes (c_identity c)),
           next_key ''EndpointConfig'', render_endpoint a, lit ''}''])
         (\<lambda>body. Inr (''networks/'' @ percent_encode (identity_bytes (network_identity n)) @ ''/connect'',
            body)))"

fun protocol_name :: "protocol \<Rightarrow> bytes" where
  "protocol_name Tcp = ''tcp''"
| "protocol_name Udp = ''udp''"

definition port_key :: "port_publication \<Rightarrow> bytes" where
  "port_key p = dec (unat (pub_container p)) @ ''/'' @ protocol_name (pub_protocol p)"

definition json_arguments :: "argument list \<Rightarrow> bytes render" where
  "json_arguments args = json_strings (map argument_bytes args)"

definition render_image_command :: "bytes \<Rightarrow> image_command \<Rightarrow> bytes render" where
  "render_image_command k cmd =
     (case cmd of
        Inherit \<Rightarrow> lit []
      | Clear \<Rightarrow> cat [next_key k, lit ''[]'']
      | Exec args \<Rightarrow> cat [next_key k, lit ''['', json_arguments args, lit '']''])"

section \<open>Containers, outside the host configuration\<close>

definition environment_pair :: "environment_assignment \<Rightarrow> bytes" where
  "environment_pair e = environment_key e @ ''='' @ environment_value e"

definition render_environment :: "container_intent \<Rightarrow> bytes render" where
  "render_environment c = optional (c_environment c \<noteq> [])
     (cat [next_key ''Env'', lit ''['', json_strings (map environment_pair (c_environment c)), lit '']''])"

fun render_health_test :: "health_test \<Rightarrow> bytes render" where
  "render_health_test (HealthExec args) = cat [lit (quoted ''CMD''), lit '','', json_arguments args]"
| "render_health_test (HealthShell command) =
     cat [lit (quoted ''CMD-SHELL''), lit '','', json_string (argument_bytes command)]"
| "render_health_test HealthDisabled = lit (quoted ''NONE'')"

definition number_field :: "bytes \<Rightarrow> 'w::len word option \<Rightarrow> bytes render" where
  "number_field k x = if_some x (\<lambda>v. cat [next_key k, lit (dec (unat v))])"

definition render_healthcheck :: "healthcheck \<Rightarrow> bytes render" where
  "render_healthcheck h = cat [
     next_key ''Healthcheck'', lit ''{'', key ''Test'', lit ''['', render_health_test (health_test h),
     lit '']'',
     number_field ''Interval'' (health_interval h),
     number_field ''Timeout'' (health_timeout h),
     number_field ''Retries'' (health_retries h),
     number_field ''StartPeriod'' (health_start_period h),
     number_field ''StartInterval'' (health_start_interval h),
     lit '' }'']"

definition label_pair :: "container_label \<Rightarrow> bytes \<times> bytes" where
  "label_pair l = (label_key l, label_value l)"

definition render_identity_settings :: "container_settings \<Rightarrow> bytes render" where
  "render_identity_settings s = cat [
     optional (set_labels s \<noteq> [])
       (cat [next_key ''Labels'', lit ''{'', json_pairs (map label_pair (set_labels s)), lit ''}'']),
     if_some (set_user s) (\<lambda>u. cat [next_key ''User'', json_string (user_bytes u)]),
     if_some (set_working_dir s) (\<lambda>d. cat [next_key ''WorkingDir'', json_string (directory_bytes d)]),
     if_some (set_hostname s) (\<lambda>h. cat [next_key ''Hostname'', json_string (hostname_bytes h)]),
     if_some (set_stop_signal s) (\<lambda>a. cat [next_key ''StopSignal'', json_string (argument_bytes a)]),
     number_field ''StopTimeout'' (set_stop_timeout s)]"

definition render_exposed_ports :: "container_intent \<Rightarrow> bytes render" where
  "render_exposed_ports c = optional (c_ports c \<noteq> []) (cat [
     next_key ''ExposedPorts'', lit ''{'',
     commas (map (\<lambda>p. cat [json_string (port_key p), lit '':{}'']) (c_ports c)), lit ''}''])"

section \<open>The host configuration\<close>

text \<open>
  The flag \<^verbatim>\<open>host_field\<close> and \<open>host_field_prefix\<close>: a comma in front of a field once another has
  been pushed. An absent field is \<open>None\<close>.
\<close>

fun host_fields :: "bool \<Rightarrow> bytes render option list \<Rightarrow> bytes render" where
  "host_fields host_field [] = lit []"
| "host_fields host_field (None # fs) = host_fields host_field fs"
| "host_fields host_field (Some f # fs) =
     cat [optional host_field (lit '',''), f, host_fields True fs]"

definition field_if :: "bool \<Rightarrow> bytes render \<Rightarrow> bytes render option" where
  "field_if b x = (if b then Some x else None)"

definition render_binding :: "host_binding \<Rightarrow> bytes render" where
  "render_binding b = cat [
     lit ''{'',
     (case host_ip b of
        Address a \<Rightarrow> cat [key ''HostIp'', json_string (show_ip a), lit '','']
      | Unspecified \<Rightarrow> lit []),
     key ''HostPort'',
     (case host_port b of
        Fixed p \<Rightarrow> json_string (dec (unat p))
      | Ephemeral \<Rightarrow> json_string []),
     lit ''}'']"

definition port_bindings_field :: "container_intent \<Rightarrow> bytes render option" where
  "port_bindings_field c =
     field_if (list_ex (\<lambda>p. pub_bindings p \<noteq> []) (c_ports c)) (cat [
       key ''PortBindings'', lit ''{'',
       commas (map (\<lambda>p. cat [json_string (port_key p), lit '':['',
           commas (map render_binding (pub_bindings p)), lit '']''])
         (filter (\<lambda>p. pub_bindings p \<noteq> []) (c_ports c))),
       lit ''}''])"

definition render_bind :: "mount \<Rightarrow> bytes render" where
  "render_bind m =
     (case mount_source m of
        Bind source \<Rightarrow>
          (case mount_relabel m of
             None \<Rightarrow> Inl (Returns InvalidGraph)
           | Some relabel \<Rightarrow>
             json_string (source @ '':'' @ mount_target m
               @ (if mount_read_only m then '':ro,'' else '':rw,'')
               @ (case relabel of SharedRelabel \<Rightarrow> ''z'' | PrivateRelabel \<Rightarrow> ''Z'')))
      | _ \<Rightarrow> Inl (Returns InvalidGraph))"

definition binds_field :: "container_intent \<Rightarrow> bytes render option" where
  "binds_field c =
     field_if (list_ex (\<lambda>m. mount_relabel m \<noteq> None) (c_mounts c)) (cat [
       key ''Binds'', lit ''['',
       commas (map render_bind (filter (\<lambda>m. mount_relabel m \<noteq> None) (c_mounts c))), lit '']''])"

text \<open>The kind of a mount and its source, if it has one.\<close>

definition mount_kind ::
  "(resource_ref \<Rightarrow> target_resource option) \<Rightarrow> mount_source \<Rightarrow> (bytes \<times> bytes option) render" where
  "mount_kind resource_at src =
     (case src of
        Bind path \<Rightarrow> Inr (''bind'', Some path)
      | Volume r \<Rightarrow>
          (case resource_at r of
             Some (VolumeResource _ i _) \<Rightarrow> Inr (''volume'', Some (identity_bytes i))
           | Some (ExternalVolumeResource _ i) \<Rightarrow> Inr (''volume'', Some (identity_bytes i))
           | _ \<Rightarrow> Inl (Returns InvalidGraph))
      | Tmpfs _ \<Rightarrow> Inr (''tmpfs'', None))"

definition render_tmpfs :: "tmpfs_options \<Rightarrow> bytes render" where
  "render_tmpfs t = optional (tmpfs_size_bytes t \<noteq> None \<or> tmpfs_mode t \<noteq> None) (cat [
     next_key ''TmpfsOptions'', lit ''{'',
     if_some (tmpfs_size_bytes t) (\<lambda>s. cat [key ''SizeBytes'', lit (dec (unat s))]),
     if_some (tmpfs_mode t) (\<lambda>m. cat [
       optional (tmpfs_size_bytes t \<noteq> None) (lit '',''), key ''Mode'', lit (dec (unat m))]),
     lit ''}''])"

definition render_mount ::
  "(resource_ref \<Rightarrow> target_resource option) \<Rightarrow> mount \<Rightarrow> bytes render" where
  "render_mount resource_at m =
     bind_res (mount_kind resource_at (mount_source m)) (\<lambda>(kind, source). cat [
       lit ''{'', key ''Type'', json_string kind,
       if_some source (\<lambda>b. cat [next_key ''Source'', json_string b]),
       next_key ''Target'', json_string (mount_target m),
       next_key ''ReadOnly'', lit (bool_text (mount_read_only m)),
       (case mount_source m of Tmpfs t \<Rightarrow> render_tmpfs t | _ \<Rightarrow> lit []),
       lit ''}''])"

definition mounts_field ::
  "(resource_ref \<Rightarrow> target_resource option) \<Rightarrow> container_intent \<Rightarrow> bytes render option" where
  "mounts_field resource_at c =
     field_if (list_ex (\<lambda>m. mount_relabel m = None) (c_mounts c)) (cat [
       key ''Mounts'', lit ''['',
       commas (map (render_mount resource_at) (filter (\<lambda>m. mount_relabel m = None) (c_mounts c))),
       lit '']''])"

definition first_network :: "container_intent \<Rightarrow> network_attachment option" where
  "first_network c = (case c_networks c of [] \<Rightarrow> None | a # _ \<Rightarrow> Some a)"

definition network_mode_field ::
  "(resource_ref \<Rightarrow> target_resource option) \<Rightarrow> container_intent \<Rightarrow> bytes render option" where
  "network_mode_field resource_at c =
     map_option (\<lambda>a. bind_res (network_lookup resource_at (attachment_network a)) (\<lambda>n.
         cat [key ''NetworkMode'', json_string (identity_bytes (network_identity n))]))
       (first_network c)"

fun restart_values :: "restart_policy \<Rightarrow> bytes \<times> nat" where
  "restart_values RestartNo = (''no'', 0)"
| "restart_values Always = (''always'', 0)"
| "restart_values UnlessStopped = (''unless-stopped'', 0)"
| "restart_values (OnFailure n) = (''on-failure'', unat n)"

definition restart_field :: "container_intent \<Rightarrow> bytes render option" where
  "restart_field c =
     map_option (\<lambda>p. cat [
         key ''RestartPolicy'', lit ''{'', key ''Name'', json_string (fst (restart_values p)),
         next_key ''MaximumRetryCount'', lit (dec (snd (restart_values p))), lit ''}''])
       (c_restart c)"

definition bool_field :: "bytes \<Rightarrow> bool option \<Rightarrow> bytes render option" where
  "bool_field k x = map_option (\<lambda>b. cat [key k, lit (bool_text b)]) x"

fun memory_value :: "memory_limit \<Rightarrow> nat" where
  "memory_value MemoryUnlimited = 0"
| "memory_value (MemoryBytes v) = unat v"

text \<open>\<^verbatim>\<open>as i64\<close> reads the 64 bits of the count as a signed number.\<close>

fun pids_value :: "pids_limit \<Rightarrow> int" where
  "pids_value PidsUnlimited = - 1"
| "pids_value (PidsCount v) = sint v"

fun ulimit_number :: "ulimit_value \<Rightarrow> int" where
  "ulimit_number UlimitUnlimited = - 1"
| "ulimit_number (UlimitValue v) = sint v"

definition render_ulimit :: "ulimit \<Rightarrow> bytes render" where
  "render_ulimit u = cat [
     lit ''{'', key ''Name'', json_string (token_bytes (ulimit_name u)),
     next_key ''Soft'', lit (dec_int (ulimit_number (ulimit_soft u))),
     next_key ''Hard'', lit (dec_int (ulimit_number (ulimit_hard u))), lit ''}'']"

definition permission_text :: "device_permissions \<Rightarrow> bytes" where
  "permission_text p = (if device_read p then ''r'' else '''') @ (if device_write p then ''w'' else '''')
     @ (if device_create p then ''m'' else '''')"

definition render_device :: "device_mapping \<Rightarrow> bytes render" where
  "render_device d = cat [
     lit ''{'', key ''PathOnHost'', json_string (directory_bytes (device_host_path d)),
     next_key ''PathInContainer'', json_string (directory_bytes (device_container_path d)),
     next_key ''CgroupPermissions'', json_string (permission_text (device_permissions d)), lit ''}'']"

definition strings_field :: "bytes \<Rightarrow> bytes list \<Rightarrow> bytes render option" where
  "strings_field k bs = field_if (bs \<noteq> []) (cat [key k, lit ''['', json_strings bs, lit '']''])"

fun security_text :: "security_option \<Rightarrow> bytes" where
  "security_text (NoNewPrivileges b) =
     (if b then ''no-new-privileges:true'' else ''no-new-privileges:false'')"

definition extra_host_text :: "extra_host \<Rightarrow> bytes" where
  "extra_host_text h = hostname_bytes (extra_name h) @ '':'' @ show_ip (extra_address h)"

fun log_driver_name :: "log_driver \<Rightarrow> bytes" where
  "log_driver_name JsonFile = ''json-file''"
| "log_driver_name LocalLog = ''local''"
| "log_driver_name NoLog = ''none''"

definition log_config_field :: "log_config option \<Rightarrow> bytes render option" where
  "log_config_field x = map_option (\<lambda>l. cat [
     key ''LogConfig'', lit ''{'', key ''Type'', json_string (log_driver_name (log_driver l)),
     next_key ''Config'', lit ''{'', json_pairs (map label_pair (log_options l)), lit ''}}'']) x"

fun userns_text :: "user_namespace_mode \<Rightarrow> bytes" where
  "userns_text HostNamespace = ''host''"

text \<open>The fields of \<^verbatim>\<open>HostConfig\<close>, in the order of the code.\<close>

definition host_config_fields ::
  "(resource_ref \<Rightarrow> target_resource option) \<Rightarrow> container_intent \<Rightarrow> bytes render option list" where
  "host_config_fields resource_at c = (let s = c_settings c in [
     port_bindings_field c,
     binds_field c,
     mounts_field resource_at c,
     network_mode_field resource_at c,
     restart_field c,
     bool_field ''ReadonlyRootfs'' (set_read_only_rootfs s),
     bool_field ''Init'' (set_init s),
     map_option (\<lambda>m. cat [key ''Memory'', lit (dec (memory_value m))]) (set_memory_limit s),
     map_option (\<lambda>p. cat [key ''PidsLimit'', lit (dec_int (pids_value p))]) (set_pids_limit s),
     map_option (\<lambda>v. cat [key ''ShmSize'', lit (dec (unat v))]) (set_shm_size s),
     field_if (set_ulimits s \<noteq> [])
       (cat [key ''Ulimits'', lit ''['', commas (map render_ulimit (set_ulimits s)), lit '']'']),
     field_if (set_devices s \<noteq> [])
       (cat [key ''Devices'', lit ''['', commas (map render_device (set_devices s)), lit '']'']),
     strings_field ''CapAdd'' (map token_bytes (set_cap_add s)),
     strings_field ''CapDrop'' (map token_bytes (set_cap_drop s)),
     strings_field ''SecurityOpt'' (map security_text (set_security_options s)),
     field_if (set_sysctls s \<noteq> [])
       (cat [key ''Sysctls'', lit ''{'', json_pairs (map label_pair (set_sysctls s)), lit ''}'']),
     strings_field ''GroupAdd'' (map user_bytes (set_group_add s)),
     strings_field ''Dns'' (map show_ip (set_dns s)),
     strings_field ''ExtraHosts'' (map extra_host_text (set_extra_hosts s)),
     log_config_field (set_log_config s),
     map_option (\<lambda>m. cat [key ''UsernsMode'', json_string (userns_text m)]) (set_userns s)])"

definition render_networking_config ::
  "(resource_ref \<Rightarrow> target_resource option) \<Rightarrow> container_intent \<Rightarrow> bytes render" where
  "render_networking_config resource_at c =
     if_some (first_network c) (\<lambda>a. bind_res (network_lookup resource_at (attachment_network a)) (\<lambda>n. cat [
       next_key ''NetworkingConfig'', lit ''{'', key ''EndpointsConfig'', lit ''{'',
       json_string (identity_bytes (network_identity n)), lit '':'', render_endpoint a, lit ''}}'']))"

definition render_container ::
  "container_intent \<Rightarrow> (resource_ref \<Rightarrow> target_resource option) \<Rightarrow> bytes render" where
  "render_container c resource_at = cat [
     lit ''{'', key ''Image'', json_string (image_bytes (c_image c)),
     render_environment c,
     render_image_command ''Entrypoint'' (c_entrypoint c),
     render_image_command ''Cmd'' (c_command c),
     if_some (c_healthcheck c) render_healthcheck,
     render_identity_settings (c_settings c),
     render_exposed_ports c,
     next_key ''HostConfig'', lit ''{'', host_fields False (host_config_fields resource_at c), lit ''}'',
     render_networking_config resource_at c,
     lit ''}'']"

end
