(* ===== verification/Render_Documents.thy ===== *)
theory Render_Documents
  imports Render_Requests
begin

text \<open>
  The JSON documents of the request bodies, written without text, and the proof that every
  renderer of \<open>Render_Requests\<close> writes a text of its document.
\<close>

lemma valid_utf8_dec [simp]: "valid_utf8 (dec n)"
  by (rule valid_utf8_ascii) (auto dest: dec_digits digit_ascii)

lemma valid_utf8_join [simp]: "is_ascii c \<Longrightarrow> valid_utf8 s \<Longrightarrow> valid_utf8 t \<Longrightarrow> valid_utf8 (s @ c # t)"
  by (rule valid_utf8_append) simp_all

lemma ascii_marks [simp]:
  "is_ascii CHR '':''" "is_ascii CHR ''/''" "is_ascii CHR ''=''" "is_ascii CHR '',''"
  by (simp_all add: is_ascii_def)

declare valid_utf8_show_ip [simp]

lemma valid_utf8_address [simp]: "valid_utf8 (address_text a)" "valid_utf8 (subnet_text s)"
  by (simp_all add: address_text_def subnet_text_def)

lemma label_ok_utf8: "label_ok (k, v) \<Longrightarrow> valid_utf8 k \<and> valid_utf8 v"
  by (simp add: label_ok_def)

lemmas punct_simps = is_punct_def plain_char_def

section \<open>Networks and volumes\<close>

definition pool_doc :: "network_ipam_pool \<Rightarrow> json" where
  "pool_doc p = JObject ((''Subnet'', JString (subnet_text (pool_subnet p)))
     # member_of ''IPRange'' (\<lambda>r. JString (subnet_text r)) (pool_ip_range p)
     @ member_of ''Gateway'' (\<lambda>g. JString (address_text g)) (pool_gateway p)
     @ member_if (pool_auxiliary p \<noteq> []) ''AuxiliaryAddresses'' (pairs_doc (aux_pairs p)))"

definition ipam_doc :: "network_ipam \<Rightarrow> json" where
  "ipam_doc i = JObject (member_of ''Driver'' (\<lambda>d. JString (ipam_driver_name d)) (ipam_driver i)
     @ [(''Config'', JArray (map pool_doc (ipam_pools i)))])"

definition create_members :: "network_create \<Rightarrow> (bytes \<times> json) list" where
  "create_members create =
     member_if (create_internal create) ''Internal'' (JBool True)
     @ member_if (create_enable_ipv6 create) ''EnableIPv6'' (JBool True)
     @ member_of ''IPAM'' ipam_doc (create_ipam create)
     @ member_if (create_options create \<noteq> []) ''Options''
         (pairs_doc (map option_pair (create_options create)))
     @ member_if (create_labels create \<noteq> []) ''Labels''
         (pairs_doc (map network_label_pair (create_labels create)))"

definition network_doc :: "target_identity \<Rightarrow> network_create \<Rightarrow> json" where
  "network_doc identity create = JObject ((''Name'', JString (identity_bytes identity))
     # (''Driver'', JString ''bridge'') # create_members create)"

definition volume_doc :: "target_identity \<Rightarrow> volume_label list \<Rightarrow> json" where
  "volume_doc identity labels = JObject ((''Name'', JString (identity_bytes identity))
     # member_if (labels \<noteq> []) ''Labels'' (pairs_doc (map volume_label_pair labels)))"

text \<open>The texts a network intent can hold, by its constructors.\<close>

definition network_built :: "network_intent \<Rightarrow> bool" where
  "network_built n \<longleftrightarrow> valid_identity (identity_bytes (network_identity n))
     \<and> (case network_source n of
          ExternalNetwork _ _ \<Rightarrow> True
        | CreateNetwork create \<Rightarrow>
            list_all (\<lambda>l. label_ok (network_label_key l, network_label_value l)) (create_labels create)
          \<and> pred_option (\<lambda>i. list_all (\<lambda>p. list_all (\<lambda>x. valid_identity (alias_bytes (aux_name x)))
                (pool_auxiliary p)) (ipam_pools i)) (create_ipam create))"

lemma identity_utf8: "valid_identity b \<Longrightarrow> valid_utf8 b"
  by (rule valid_utf8_ascii) (auto simp: valid_identity_iff list_all_iff dest: name_byte_text)

lemma aux_pairs_utf8:
  "list_all (\<lambda>x. valid_identity (alias_bytes (aux_name x))) (pool_auxiliary p) \<Longrightarrow>
   list_all (\<lambda>(k, v). valid_utf8 k \<and> valid_utf8 v) (aux_pairs p)"
  by (auto simp: aux_pairs_def list_all_iff identity_utf8)

lemma renders_pool [renders_intros]:
  assumes "list_all (\<lambda>x. valid_identity (alias_bytes (aux_name x))) (pool_auxiliary p)"
  shows "renders (render_pool p) (json_tokens (pool_doc p))"
  unfolding render_pool_def
  by (rule renders_eq, (rule renders_intros
      | simp add: punct_simps aux_pairs_utf8 assms pool_doc_def doc_simps split: option.split)+)

lemma renders_ipam [renders_intros]:
  assumes "list_all (\<lambda>p. list_all (\<lambda>x. valid_identity (alias_bytes (aux_name x)))
                (pool_auxiliary p)) (ipam_pools i)"
  shows "renders (render_ipam i) (comma # TString ''IPAM'' # colon # json_tokens (ipam_doc i))"
proof -
  have *: "list_all (\<lambda>x. valid_identity (alias_bytes (aux_name x))) (pool_auxiliary p)"
    if "p \<in> set (ipam_pools i)" for p using that assms by (simp add: list_all_iff)
  have d: "valid_utf8 (ipam_driver_name d)" for d
    by (cases d) (simp add: is_ascii_def)
  show ?thesis
    unfolding render_ipam_def
    by (rule renders_eq, (rule renders_intros | simp add: punct_simps * d)+,
        cases "ipam_driver i"; simp add: ipam_doc_def doc_simps member_of_def comp_def)
qed

lemma option_pair_utf8: "option_pair x = (k, v) \<Longrightarrow> valid_utf8 k \<and> valid_utf8 v"
  by (cases x) (auto simp: bool_text_def is_ascii_def)

lemma renders_create_options [renders_intros]:
  assumes "network_built n" and "network_source n = CreateNetwork create"
  shows "renders (render_create_options create) (tail_tokens (create_members create))"
proof -
  have l: "list_all (\<lambda>(k, v). valid_utf8 k \<and> valid_utf8 v) (map network_label_pair (create_labels create))"
    using assms by (auto simp: network_built_def list_all_iff network_label_pair_def label_ok_def)
  have o: "list_all (\<lambda>(k, v). valid_utf8 k \<and> valid_utf8 v) (map option_pair (create_options create))"
    by (auto simp: list_all_iff dest: option_pair_utf8)
  have p: "list_all (\<lambda>p. list_all (\<lambda>x. valid_identity (alias_bytes (aux_name x)))
      (pool_auxiliary p)) (ipam_pools i)" if "create_ipam create = Some i" for i
    using assms that by (simp add: network_built_def)
  show ?thesis
    unfolding render_create_options_def
    by (rule renders_eq, (rule renders_intros
        | simp add: punct_simps l o p create_members_def doc_simps split: option.split)+)
qed

lemma renders_network:
  assumes "network_built n" and "network_source n = CreateNetwork create"
  shows "renders (render_network n) (json_tokens (network_doc (network_identity n) create))"
proof -
  have "valid_utf8 (identity_bytes (network_identity n))"
    using assms(1) by (simp add: network_built_def identity_utf8)
  then show ?thesis
    unfolding render_network_def assms(2) network_source.case
    by - (rule renders_eq, (rule renders_create_options [OF assms] renders_intros
      | simp add: punct_simps network_doc_def doc_simps)+)
qed

lemma renders_volume:
  assumes "valid_identity (identity_bytes identity)"
    and "list_all (\<lambda>l. volume_label_ok (volume_label_key l, volume_label_value l)) labels"
  shows "renders (render_volume identity labels) (json_tokens (volume_doc identity labels))"
proof -
  have "list_all (\<lambda>(k, v). valid_utf8 k \<and> valid_utf8 v) (map volume_label_pair labels)"
    using assms(2) by (auto simp: list_all_iff volume_label_pair_def volume_label_ok_def label_ok_def)
  then show ?thesis
    unfolding render_volume_def
    by - (rule renders_eq, (rule renders_intros
      | simp add: punct_simps identity_utf8 assms(1) volume_doc_def doc_simps)+)
qed

section \<open>Endpoints\<close>

definition endpoint_doc :: "network_attachment \<Rightarrow> json" where
  "endpoint_doc a = JObject (
     member_if (attachment_aliases a \<noteq> []) ''Aliases''
       (strings_doc (map alias_bytes (attachment_aliases a)))
     @ member_if (attachment_ipv4 a \<noteq> None \<or> attachment_ipv6 a \<noteq> None) ''IPAMConfig'' (JObject (
         member_of ''IPv4Address'' (\<lambda>x. JString (address_text x)) (attachment_ipv4 a)
         @ member_of ''IPv6Address'' (\<lambda>x. JString (address_text x)) (attachment_ipv6 a))))"

definition connection_doc :: "container_intent \<Rightarrow> network_attachment \<Rightarrow> json" where
  "connection_doc c a = JObject [(''Container'', JString (identity_bytes (c_identity c))),
     (''EndpointConfig'', endpoint_doc a)]"

lemma empty_object_tokens: "json_tokens (JObject []) = [open_object, close_object]"
  by (simp add: object_tokens)

lemma renders_endpoint [renders_intros]:
  assumes "attachment_built a"
  shows "renders (render_endpoint a) (json_tokens (endpoint_doc a))"
proof -
  have u: "list_all valid_utf8 (map alias_bytes (attachment_aliases a))"
    using assms by (auto simp: attachment_built_def list_all_iff identity_utf8)
  show ?thesis
    unfolding render_endpoint_def
    by (rule renders_eq, (rule renders_intros | simp add: punct_simps u)+,
        cases "attachment_ipv4 a"; cases "attachment_ipv6 a"; cases "attachment_aliases a = []")
       (simp_all add: endpoint_doc_def doc_simps member_if_def member_of_def empty_object_tokens)
qed

lemma renders_connection:
  assumes "attachment_built a" and "valid_identity (identity_bytes (c_identity c))"
  shows "renders (cat [
           lit ''{'', key ''Container'', json_string (identity_bytes (c_identity c)),
           next_key ''EndpointConfig'', render_endpoint a, lit ''}'']) (json_tokens (connection_doc c a))"
  by (rule renders_eq, (rule renders_intros
      | simp add: punct_simps assms identity_utf8 connection_doc_def doc_simps)+)

section \<open>Container members outside the host configuration\<close>

definition arguments_doc :: "argument list \<Rightarrow> json" where
  "arguments_doc args = strings_doc (map argument_bytes args)"

definition command_members :: "bytes \<Rightarrow> image_command \<Rightarrow> (bytes \<times> json) list" where
  "command_members k cmd =
     (case cmd of Inherit \<Rightarrow> [] | Clear \<Rightarrow> [(k, JArray [])] | Exec args \<Rightarrow> [(k, arguments_doc args)])"

text \<open>The elements of the test array.\<close>

fun health_test_strings :: "health_test \<Rightarrow> bytes list" where
  "health_test_strings (HealthExec args) = ''CMD'' # map argument_bytes args"
| "health_test_strings (HealthShell command) = [''CMD-SHELL'', argument_bytes command]"
| "health_test_strings HealthDisabled = [''NONE'']"

definition number_member :: "bytes \<Rightarrow> 'w::len word option \<Rightarrow> (bytes \<times> json) list" where
  "number_member k x = member_of k (\<lambda>v. JNum (int (unat v))) x"

definition healthcheck_doc :: "healthcheck \<Rightarrow> json" where
  "healthcheck_doc h = JObject ((''Test'', strings_doc (health_test_strings (health_test h)))
     # number_member ''Interval'' (health_interval h)
     @ number_member ''Timeout'' (health_timeout h)
     @ number_member ''Retries'' (health_retries h)
     @ number_member ''StartPeriod'' (health_start_period h)
     @ number_member ''StartInterval'' (health_start_interval h))"

definition identity_settings_members :: "container_settings \<Rightarrow> (bytes \<times> json) list" where
  "identity_settings_members s =
     member_if (set_labels s \<noteq> []) ''Labels'' (pairs_doc (map label_pair (set_labels s)))
     @ member_of ''User'' (\<lambda>u. JString (user_bytes u)) (set_user s)
     @ member_of ''WorkingDir'' (\<lambda>d. JString (directory_bytes d)) (set_working_dir s)
     @ member_of ''Hostname'' (\<lambda>h. JString (hostname_bytes h)) (set_hostname s)
     @ member_of ''StopSignal'' (\<lambda>a. JString (argument_bytes a)) (set_stop_signal s)
     @ number_member ''StopTimeout'' (set_stop_timeout s)"

definition exposed_ports_doc :: "container_intent \<Rightarrow> json" where
  "exposed_ports_doc c = JObject (map (\<lambda>p. (port_key p, JObject [])) (c_ports c))"

lemma list_all_text: "list_all (\<lambda>a. text_ok (f a)) xs \<Longrightarrow> list_all valid_utf8 (map f xs)"
  by (auto simp: list_all_iff text_ok_def)

lemma renders_arguments [renders_intros]:
  "list_all (\<lambda>a. text_ok (argument_bytes a)) args \<Longrightarrow>
   renders (json_arguments args) (separated (map (\<lambda>b. [TString b]) (map argument_bytes args)))"
  unfolding json_arguments_def by (intro renders_json_strings list_all_text)

lemma renders_image_command [renders_intros]:
  assumes "command_ok cmd" and "list_all plain_char k"
  shows "renders (render_image_command k cmd) (tail_tokens (command_members k cmd))"
proof (cases cmd)
  case Inherit
  then show ?thesis
    by (simp add: render_image_command_def command_members_def renders_lit doc_simps)
next
  case Clear
  show ?thesis
    unfolding Clear render_image_command_def image_command.case
    by (rule renders_eq, (rule renders_intros assms
        | simp add: punct_simps command_members_def doc_simps)+)
next
  case (Exec args)
  then have "list_all (\<lambda>a. text_ok (argument_bytes a)) args"
    using assms(1) by (simp add: command_ok_def)
  then show ?thesis
    unfolding Exec render_image_command_def image_command.case
    by - (rule renders_eq, (rule renders_intros assms
        | simp add: punct_simps command_members_def arguments_doc_def doc_simps)+)
qed

lemma separated_strings_Cons:
  "bs \<noteq> [] \<Longrightarrow> separated (map (\<lambda>b. [TString b]) (b # bs)) =
   TString b # comma # separated (map (\<lambda>b. [TString b]) bs)"
  by (simp add: separated_Cons)

lemma health_command_nonempty: "wf_healthcheck h \<Longrightarrow> health_test h = HealthExec args \<Longrightarrow> args \<noteq> []"
  by (auto simp: wf_healthcheck_def)

lemma renders_health_test:
  assumes "wf_healthcheck h" and "health_texts_ok h"
  shows "renders (render_health_test (health_test h))
    (separated (map (\<lambda>b. [TString b]) (health_test_strings (health_test h))))"
proof (cases "health_test h")
  case (HealthExec args)
  with assms have "list_all (\<lambda>a. text_ok (argument_bytes a)) args" "args \<noteq> []"
    by (auto simp: health_texts_ok_def dest: health_command_nonempty)
  then show ?thesis
    unfolding HealthExec render_health_test.simps
    by - (rule renders_eq, (rule renders_intros
      | simp add: punct_simps doc_simps separated_strings_Cons [of "map argument_bytes args", simplified])+)
next
  case (HealthShell command)
  with assms have "valid_utf8 (argument_bytes command)"
    by (simp add: health_texts_ok_def text_ok_def)
  then show ?thesis
    unfolding HealthShell render_health_test.simps
    by - (rule renders_eq, (rule renders_intros | simp add: punct_simps doc_simps)+)
next
  case HealthDisabled
  then show ?thesis
    by (simp only: render_health_test.simps)
       (rule renders_eq, (rule renders_intros | simp add: punct_simps doc_simps)+)
qed

lemma renders_number_field [renders_intros]:
  "list_all plain_char k \<Longrightarrow> renders (number_field k x) (tail_tokens (number_member k x))"
  unfolding number_field_def
  by (rule renders_eq, (rule renders_intros
      | simp add: number_member_def doc_simps split: option.split)+)

lemma renders_healthcheck [renders_intros]:
  assumes "wf_healthcheck h" and "health_texts_ok h"
  shows "renders (render_healthcheck h) (comma # TString ''Healthcheck'' # colon
    # json_tokens (healthcheck_doc h))"
  unfolding render_healthcheck_def
  by (rule renders_eq, (rule renders_space renders_intros renders_health_test [OF assms]
      | simp add: punct_simps healthcheck_doc_def doc_simps)+)

lemma label_pairs_utf8:
  "list_all container_label_ok ls \<Longrightarrow>
   list_all (\<lambda>(k, v). valid_utf8 k \<and> valid_utf8 v) (map label_pair ls)"
  by (auto simp: list_all_iff container_label_ok_def label_pair_def label_ok_def)

lemma renders_identity_settings [renders_intros]:
  assumes "settings_built s"
  shows "renders (render_identity_settings s) (tail_tokens (identity_settings_members s))"
proof -
  have l: "list_all (\<lambda>(k, v). valid_utf8 k \<and> valid_utf8 v) (map label_pair (set_labels s))"
    using assms by (simp add: settings_built_def label_pairs_utf8)
  have t: "set_user s = Some u \<Longrightarrow> valid_utf8 (user_bytes u)"
    "set_working_dir s = Some d \<Longrightarrow> valid_utf8 (directory_bytes d)"
    "set_hostname s = Some h \<Longrightarrow> valid_utf8 (hostname_bytes h)"
    "set_stop_signal s = Some a \<Longrightarrow> valid_utf8 (argument_bytes a)" for u d h a
    using assms
    by (auto simp: settings_built_def hostname_ok_def text_ok_def
        dest: user_ok_text valid_absolute_path_text)
  show ?thesis
    unfolding render_identity_settings_def
    by (rule renders_eq, (rule renders_intros
        | simp add: punct_simps l t identity_settings_members_def doc_simps split: option.split)+)
qed

lemma port_key_utf8 [simp]: "valid_utf8 (port_key p)"
proof -
  have "valid_utf8 (protocol_name q)" for q by (cases q) (simp_all add: is_ascii_def)
  then show ?thesis by (simp add: port_key_def)
qed

lemma renders_exposed_ports [renders_intros]:
  "renders (render_exposed_ports c)
    (tail_tokens (member_if (c_ports c \<noteq> []) ''ExposedPorts'' (exposed_ports_doc c)))"
  unfolding render_exposed_ports_def
  by (rule renders_eq, (rule renders_intros
      | simp add: punct_simps exposed_ports_doc_def doc_simps object_tokens comp_def empty_object_tokens)+)

lemma renders_environment [renders_intros]:
  assumes "list_all (\<lambda>e. environment_ok (environment_key e, environment_value e)) (c_environment c)"
  shows "renders (render_environment c)
    (tail_tokens (member_if (c_environment c \<noteq> []) ''Env''
      (strings_doc (map environment_pair (c_environment c)))))"
proof -
  have "list_all valid_utf8 (map environment_pair (c_environment c))"
    using assms by (auto simp: list_all_iff environment_pair_def environment_ok_def label_ok_def)
  then show ?thesis
    unfolding render_environment_def
    by - (rule renders_eq, (rule renders_intros | simp add: punct_simps doc_simps)+)
qed

section \<open>The fields of the host configuration\<close>

text \<open>A field of the list is absent, or a text of one member.\<close>

definition field_renders :: "bytes render option \<Rightarrow> (bytes \<times> json) list \<Rightarrow> bool" where
  "field_renders f ms \<longleftrightarrow>
     (f = None \<and> ms = []) \<or> (\<exists>x m. f = Some x \<and> ms = [m] \<and> renders x (member_tokens m))"

lemma renders_comma [renders_intros]: "renders (optional b (lit '','')) (if b then [comma] else [])"
  by (rule renders_eq, (rule renders_intros | simp add: punct_simps)+)

lemma renders_host_fields:
  assumes "list_all2 field_renders fs mss"
  shows "renders (host_fields b fs)
    (if b then tail_tokens (concat mss) else separated (map member_tokens (concat mss)))"
  using assms
proof (induction arbitrary: b rule: list_all2_induct)
  case Nil
  then show ?case by (simp add: renders_lit doc_simps)
next
  case (Cons f fs ms mss)
  from Cons(1) consider "f = None" "ms = []"
    | x m where "f = Some x" "ms = [m]" "renders x (member_tokens m)"
    unfolding field_renders_def by blast
  then show ?case
  proof cases
    case 1
    then show ?thesis using Cons(3) [of True] Cons(3) [of False] by (cases b) simp_all
  next
    case 2
    have "renders (cat [optional b (lit '',''), x, host_fields True fs])
        ((if b then [comma] else []) @ member_tokens m @ tail_tokens (concat mss) @ [])"
      using Cons(3) [of True] 2(3)
      by (intro renders_cat_Cons [OF renders_comma] renders_cat_Cons renders_cat_Nil) simp_all
    with 2 show ?thesis
      using separated_members [of m "concat mss"]
      by (cases b) (simp_all add: tail_tokens_simps del: cat.simps)
  qed
qed

lemma field_if_renders:
  "(b \<Longrightarrow> renders x (TString k # colon # json_tokens j)) \<Longrightarrow> field_renders (field_if b x) (member_if b k j)"
  by (simp add: field_renders_def field_if_def member_if_def member_tokens_def)

lemma field_map_renders:
  "(\<And>y. x = Some y \<Longrightarrow> renders (f y) (TString k # colon # json_tokens (g y))) \<Longrightarrow>
   field_renders (map_option f x) (member_of k g x)"
  by (cases x) (simp_all add: field_renders_def member_of_def member_tokens_def)

definition binding_doc :: "host_binding \<Rightarrow> json" where
  "binding_doc b = JObject (
     (case host_ip b of Address a \<Rightarrow> [(''HostIp'', JString (show_ip a))] | Unspecified \<Rightarrow> [])
     @ [(''HostPort'', JString (case host_port b of Fixed p \<Rightarrow> dec (unat p) | Ephemeral \<Rightarrow> []))])"

definition port_bindings_doc :: "container_intent \<Rightarrow> json" where
  "port_bindings_doc c = JObject (map (\<lambda>p. (port_key p, JArray (map binding_doc (pub_bindings p))))
     (filter (\<lambda>p. pub_bindings p \<noteq> []) (c_ports c)))"

text \<open>The legacy \<open>source:target:mode\<close> string of a relabelled bind.\<close>

definition bind_text :: "mount \<Rightarrow> bytes" where
  "bind_text m =
     (case mount_source m of Bind source \<Rightarrow> source | _ \<Rightarrow> []) @ '':'' @ mount_target m
     @ (if mount_read_only m then '':ro,'' else '':rw,'')
     @ (case mount_relabel m of Some PrivateRelabel \<Rightarrow> ''Z'' | _ \<Rightarrow> ''z'')"

definition network_name :: "(resource_ref \<Rightarrow> target_resource option) \<Rightarrow> resource_ref \<Rightarrow> bytes" where
  "network_name resource_at r =
     (case resource_at r of Some x \<Rightarrow> identity_bytes (resource_identity x) | None \<Rightarrow> [])"

definition mount_source_members ::
  "(resource_ref \<Rightarrow> target_resource option) \<Rightarrow> mount \<Rightarrow> (bytes \<times> json) list" where
  "mount_source_members resource_at m =
     (case mount_source m of
        Bind path \<Rightarrow> [(''Type'', JString ''bind''), (''Source'', JString path)]
      | Volume r \<Rightarrow> [(''Type'', JString ''volume''), (''Source'', JString (network_name resource_at r))]
      | Tmpfs _ \<Rightarrow> [(''Type'', JString ''tmpfs'')])"

definition tmpfs_members :: "mount \<Rightarrow> (bytes \<times> json) list" where
  "tmpfs_members m =
     (case mount_source m of
        Tmpfs t \<Rightarrow> member_if (tmpfs_size_bytes t \<noteq> None \<or> tmpfs_mode t \<noteq> None) ''TmpfsOptions''
          (JObject (number_member ''SizeBytes'' (tmpfs_size_bytes t)
             @ number_member ''Mode'' (tmpfs_mode t)))
      | _ \<Rightarrow> [])"

definition mount_doc :: "(resource_ref \<Rightarrow> target_resource option) \<Rightarrow> mount \<Rightarrow> json" where
  "mount_doc resource_at m = JObject (mount_source_members resource_at m
     @ [(''Target'', JString (mount_target m)), (''ReadOnly'', JBool (mount_read_only m))]
     @ tmpfs_members m)"

definition restart_doc :: "restart_policy \<Rightarrow> json" where
  "restart_doc p = JObject [(''Name'', JString (fst (restart_values p))),
     (''MaximumRetryCount'', JNum (int (snd (restart_values p))))]"

definition ulimit_doc :: "ulimit \<Rightarrow> json" where
  "ulimit_doc u = JObject [(''Name'', JString (token_bytes (ulimit_name u))),
     (''Soft'', JNum (ulimit_number (ulimit_soft u))), (''Hard'', JNum (ulimit_number (ulimit_hard u)))]"

definition device_doc :: "device_mapping \<Rightarrow> json" where
  "device_doc d = JObject [(''PathOnHost'', JString (directory_bytes (device_host_path d))),
     (''PathInContainer'', JString (directory_bytes (device_container_path d))),
     (''CgroupPermissions'', JString (permission_text (device_permissions d)))]"

definition log_config_doc :: "log_config \<Rightarrow> json" where
  "log_config_doc l = JObject [(''Type'', JString (log_driver_name (log_driver l))),
     (''Config'', pairs_doc (map label_pair (log_options l)))]"

definition strings_member :: "bytes \<Rightarrow> bytes list \<Rightarrow> (bytes \<times> json) list" where
  "strings_member k bs = member_if (bs \<noteq> []) k (strings_doc bs)"

definition host_config_members ::
  "(resource_ref \<Rightarrow> target_resource option) \<Rightarrow> container_intent \<Rightarrow> (bytes \<times> json) list list" where
  "host_config_members resource_at c = (let s = c_settings c in [
     member_if (list_ex (\<lambda>p. pub_bindings p \<noteq> []) (c_ports c)) ''PortBindings'' (port_bindings_doc c),
     member_if (list_ex (\<lambda>m. mount_relabel m \<noteq> None) (c_mounts c)) ''Binds''
       (strings_doc (map bind_text (filter (\<lambda>m. mount_relabel m \<noteq> None) (c_mounts c)))),
     member_if (list_ex (\<lambda>m. mount_relabel m = None) (c_mounts c)) ''Mounts''
       (JArray (map (mount_doc resource_at) (filter (\<lambda>m. mount_relabel m = None) (c_mounts c)))),
     member_of ''NetworkMode'' (\<lambda>a. JString (network_name resource_at (attachment_network a)))
       (first_network c),
     member_of ''RestartPolicy'' restart_doc (c_restart c),
     member_of ''ReadonlyRootfs'' JBool (set_read_only_rootfs s),
     member_of ''Init'' JBool (set_init s),
     member_of ''Memory'' (\<lambda>m. JNum (int (memory_value m))) (set_memory_limit s),
     member_of ''PidsLimit'' (\<lambda>p. JNum (pids_value p)) (set_pids_limit s),
     member_of ''ShmSize'' (\<lambda>v. JNum (int (unat v))) (set_shm_size s),
     member_if (set_ulimits s \<noteq> []) ''Ulimits'' (JArray (map ulimit_doc (set_ulimits s))),
     member_if (set_devices s \<noteq> []) ''Devices'' (JArray (map device_doc (set_devices s))),
     strings_member ''CapAdd'' (map token_bytes (set_cap_add s)),
     strings_member ''CapDrop'' (map token_bytes (set_cap_drop s)),
     strings_member ''SecurityOpt'' (map security_text (set_security_options s)),
     member_if (set_sysctls s \<noteq> []) ''Sysctls'' (pairs_doc (map label_pair (set_sysctls s))),
     strings_member ''GroupAdd'' (map user_bytes (set_group_add s)),
     strings_member ''Dns'' (map show_ip (set_dns s)),
     strings_member ''ExtraHosts'' (map extra_host_text (set_extra_hosts s)),
     member_of ''LogConfig'' log_config_doc (set_log_config s),
     member_of ''UsernsMode'' (\<lambda>m. JString (userns_text m)) (set_userns s)])"

definition container_doc ::
  "(resource_ref \<Rightarrow> target_resource option) \<Rightarrow> container_intent \<Rightarrow> json" where
  "container_doc resource_at c = JObject ((''Image'', JString (image_bytes (c_image c)))
     # member_if (c_environment c \<noteq> []) ''Env'' (strings_doc (map environment_pair (c_environment c)))
     @ command_members ''Entrypoint'' (c_entrypoint c)
     @ command_members ''Cmd'' (c_command c)
     @ member_of ''Healthcheck'' healthcheck_doc (c_healthcheck c)
     @ identity_settings_members (c_settings c)
     @ member_if (c_ports c \<noteq> []) ''ExposedPorts'' (exposed_ports_doc c)
     @ [(''HostConfig'', JObject (concat (host_config_members resource_at c)))]
     @ member_of ''NetworkingConfig''
         (\<lambda>a. JObject [(''EndpointsConfig'',
            JObject [(network_name resource_at (attachment_network a), endpoint_doc a)])])
         (first_network c))"

section \<open>The host configuration\<close>

text \<open>Every network and volume the container names is there, of the right kind, with its name.\<close>

definition resolves :: "(resource_ref \<Rightarrow> target_resource option) \<Rightarrow> container_intent \<Rightarrow> bool" where
  "resolves resource_at c \<longleftrightarrow>
     (\<forall>(r, k) \<in> set (required_references c). \<exists>x. resource_at r = Some x \<and> resource_kind x = k
        \<and> valid_identity (identity_bytes (resource_identity x)))"

lemma resolves_network:
  assumes "resolves m c" and "a \<in> set (c_networks c)"
  shows "\<exists>n. network_lookup m (attachment_network a) = Inr n
    \<and> identity_bytes (network_identity n) = network_name m (attachment_network a)
    \<and> valid_utf8 (network_name m (attachment_network a))"
proof -
  have "(attachment_network a, NetworkKind) \<in> set (required_references c)"
    using assms(2) by (simp add: required_references_def)
  from bspec [OF assms(1) [unfolded resolves_def] this] obtain x where x: "m (attachment_network a) = Some x" "resource_kind x = NetworkKind"
    "valid_identity (identity_bytes (resource_identity x))"
    by auto
  from x(2) obtain n where "x = NetworkResource n" by (cases x) simp_all
  with x show ?thesis by (simp add: network_lookup_def network_name_def identity_utf8)
qed

lemma resolves_volume:
  assumes "resolves m c" and "mt \<in> set (c_mounts c)" and "mount_source mt = Volume r"
  shows "mount_kind m (Volume r) = Inr (''volume'', Some (network_name m r))
    \<and> valid_utf8 (network_name m r)"
proof -
  have "r \<in> set (volume_references c)"
    using assms(2,3) by (force simp: volume_references_def)
  then have "(r, VolumeKind) \<in> set (required_references c)"
    by (simp add: required_references_def)
  from bspec [OF assms(1) [unfolded resolves_def] this] obtain x where x: "m r = Some x" "resource_kind x = VolumeKind"
    "valid_identity (identity_bytes (resource_identity x))"
    by auto
  from x(2) show ?thesis
    by (cases x) (use x(1,3) in \<open>simp_all add: mount_kind_def network_name_def identity_utf8\<close>)
qed

lemma renders_host_ip [renders_intros]:
  "renders (case host_ip b of Address a \<Rightarrow> cat [key ''HostIp'', json_string (show_ip a), lit '','']
      | Unspecified \<Rightarrow> lit [])
    (case host_ip b of Address a \<Rightarrow> [TString ''HostIp'', colon, TString (show_ip a), comma]
      | Unspecified \<Rightarrow> [])"
proof (cases "host_ip b")
  case (Address a)
  show ?thesis
    unfolding Address port_host_ip.case
    by (rule renders_eq, (rule renders_intros | simp add: punct_simps)+)
qed (simp add: renders_lit)

lemma renders_host_port [renders_intros]:
  "renders (case host_port b of Fixed p \<Rightarrow> json_string (dec (unat p)) | Ephemeral \<Rightarrow> json_string [])
    [TString (case host_port b of Fixed p \<Rightarrow> dec (unat p) | Ephemeral \<Rightarrow> [])]"
  by (cases "host_port b") (simp_all add: renders_json_string)

lemma renders_binding [renders_intros]: "renders (render_binding b) (json_tokens (binding_doc b))"
  unfolding render_binding_def
  by (rule renders_eq, (rule renders_intros | simp add: punct_simps)+)
     (simp add: binding_doc_def doc_simps split: port_host_ip.split)

lemma port_bindings_field:
  "field_renders (port_bindings_field c)
    (member_if (list_ex (\<lambda>p. pub_bindings p \<noteq> []) (c_ports c)) ''PortBindings'' (port_bindings_doc c))"
  unfolding port_bindings_field_def
  by (rule field_if_renders, rule renders_eq, (rule renders_intros
      | simp add: punct_simps port_bindings_doc_def object_tokens comp_def member_tokens_def)+)

lemma renders_bind [renders_intros]:
  assumes "wf_mount m" and "mount_relabel m \<noteq> None"
  shows "renders (render_bind m) [TString (bind_text m)]"
proof -
  obtain source r where s: "mount_source m = Bind source" "mount_relabel m = Some r"
    using assms by (cases "mount_source m"; cases "mount_relabel m") (simp_all add: wf_mount_def)
  have "valid_utf8 source" "valid_utf8 (mount_target m)"
    using assms(1) s(1) by (auto simp: wf_mount_def text_ok_def dest!: valid_absolute_path_text)
  moreover have "valid_utf8 (if b then '':ro,'' else '':rw,'')"
    "valid_utf8 (case r of SharedRelabel \<Rightarrow> ''z'' | PrivateRelabel \<Rightarrow> ''Z'')" for b
    by (cases b; cases r; simp add: is_ascii_def)+
  ultimately have "valid_utf8 (bind_text m)"
    using s by (auto simp: bind_text_def is_ascii_def intro!: valid_utf8_append split: bind_relabel.splits)
  moreover have "render_bind m = json_string (bind_text m)"
    using s by (cases r) (simp_all add: render_bind_def bind_text_def)
  ultimately show ?thesis by (simp add: renders_json_string)
qed

lemma binds_field:
  assumes "list_all wf_mount (c_mounts c)"
  shows "field_renders (binds_field c)
    (member_if (list_ex (\<lambda>m. mount_relabel m \<noteq> None) (c_mounts c)) ''Binds''
       (strings_doc (map bind_text (filter (\<lambda>m. mount_relabel m \<noteq> None) (c_mounts c)))))"
  unfolding binds_field_def
  by (rule field_if_renders, rule renders_eq, (rule renders_intros
      | use assms in \<open>simp add: punct_simps doc_simps comp_def list_all_iff\<close>)+)

lemma renders_tmpfs [renders_intros]:
  "mount_source m = Tmpfs t \<Longrightarrow> renders (render_tmpfs t) (tail_tokens (tmpfs_members m))"
  unfolding render_tmpfs_def
  by (rule renders_eq, (rule renders_intros | simp add: punct_simps)+,
      cases "tmpfs_size_bytes t"; cases "tmpfs_mode t")
     (simp_all add: tmpfs_members_def number_member_def member_if_def member_of_def doc_simps)

lemma renders_mount_parts:
  assumes "mount_kind m (mount_source mt) = Inr (kind, source)"
    and "valid_utf8 kind" and "pred_option valid_utf8 source" and "valid_utf8 (mount_target mt)"
    and "renders (case mount_source mt of Tmpfs t \<Rightarrow> render_tmpfs t | _ \<Rightarrow> lit [])
      (tail_tokens (tmpfs_members mt))"
    and "mount_source_members m mt =
      (''Type'', JString kind) # member_of ''Source'' JString source"
  shows "renders (render_mount m mt) (json_tokens (mount_doc m mt))"
proof -
  have s: "source = Some y \<Longrightarrow> valid_utf8 y" for y using assms(3) by simp
  show ?thesis
    unfolding render_mount_def assms(1) bind_res_simps prod.case
    by (rule renders_eq, (rule renders_intros assms(5) | simp add: punct_simps assms(2,4) s)+)
       (simp add: mount_doc_def assms(6) doc_simps split: option.split)
qed

lemma renders_mount [renders_intros]:
  assumes "wf_mount mt" and "resolves m c" and "mt \<in> set (c_mounts c)"
  shows "renders (render_mount m mt) (json_tokens (mount_doc m mt))"
proof (cases "mount_source mt")
  case (Bind path)
  show ?thesis
  proof (rule renders_mount_parts)
    show "mount_kind m (mount_source mt) = Inr (''bind'', Some path)"
      by (simp add: mount_kind_def Bind)
  qed (use assms(1) Bind in \<open>simp_all add: wf_mount_def valid_absolute_path_def is_ascii_def
      tmpfs_members_def mount_source_members_def member_of_def renders_lit doc_simps\<close>)
next
  case (Volume r)
  show ?thesis
  proof (rule renders_mount_parts)
    show "mount_kind m (mount_source mt) = Inr (''volume'', Some (network_name m r))"
      using resolves_volume [OF assms(2,3) Volume] Volume by simp
  qed (use assms(1) Volume resolves_volume [OF assms(2,3) Volume]
      in \<open>simp_all add: wf_mount_def valid_absolute_path_def is_ascii_def
      tmpfs_members_def mount_source_members_def member_of_def renders_lit doc_simps\<close>)
next
  case (Tmpfs opts)
  show ?thesis
  proof (rule renders_mount_parts)
    show "mount_kind m (mount_source mt) = Inr (''tmpfs'', None)"
      by (simp add: mount_kind_def Tmpfs)
    show "renders (case mount_source mt of Tmpfs t \<Rightarrow> render_tmpfs t | _ \<Rightarrow> lit [])
      (tail_tokens (tmpfs_members mt))"
      unfolding Tmpfs mount_source.case by (rule renders_tmpfs [OF Tmpfs])
  qed (use assms(1) Tmpfs in \<open>simp_all add: wf_mount_def valid_absolute_path_def is_ascii_def
      mount_source_members_def member_of_def\<close>)
qed

lemma mounts_field:
  assumes "list_all wf_mount (c_mounts c)" and "resolves m c"
  shows "field_renders (mounts_field m c)
    (member_if (list_ex (\<lambda>m. mount_relabel m = None) (c_mounts c)) ''Mounts''
       (JArray (map (mount_doc m) (filter (\<lambda>m. mount_relabel m = None) (c_mounts c)))))"
  unfolding mounts_field_def
  by (rule field_if_renders, rule renders_eq, (rule renders_intros assms(2)
      | use assms(1) in \<open>simp add: punct_simps doc_simps comp_def list_all_iff\<close>)+)

lemma first_network_mem: "first_network c = Some a \<Longrightarrow> a \<in> set (c_networks c)"
  by (auto simp: first_network_def split: list.splits)

lemma network_mode_field:
  assumes "resolves m c"
  shows "field_renders (network_mode_field m c)
    (member_of ''NetworkMode'' (\<lambda>a. JString (network_name m (attachment_network a))) (first_network c))"
  unfolding network_mode_field_def
proof (rule field_map_renders)
  fix a
  assume "first_network c = Some a"
  from resolves_network [OF assms first_network_mem [OF this]] obtain n where
    n: "network_lookup m (attachment_network a) = Inr n"
      "identity_bytes (network_identity n) = network_name m (attachment_network a)"
      "valid_utf8 (network_name m (attachment_network a))" by blast
  show "renders (bind_res (network_lookup m (attachment_network a)) (\<lambda>n.
      cat [key ''NetworkMode'', json_string (identity_bytes (network_identity n))]))
    (TString ''NetworkMode'' # colon # json_tokens (JString (network_name m (attachment_network a))))"
    unfolding n(1) bind_res_simps
    by (rule renders_eq, (rule renders_intros | simp add: punct_simps n(2,3))+)
qed

lemma restart_field: "field_renders (restart_field c) (member_of ''RestartPolicy'' restart_doc (c_restart c))"
proof -
  have "valid_utf8 (fst (restart_values p))" for p by (cases p) (simp_all add: is_ascii_def)
  then show ?thesis
    unfolding restart_field_def
    by (intro field_map_renders) (rule renders_eq, (rule renders_intros
      | simp add: punct_simps restart_doc_def doc_simps)+)
qed

lemma bool_field: "list_all plain_char k \<Longrightarrow> field_renders (bool_field k x) (member_of k JBool x)"
  unfolding bool_field_def
  by (intro field_map_renders) (rule renders_eq, (rule renders_intros | simp)+)

lemma strings_field:
  "list_all plain_char k \<Longrightarrow> list_all valid_utf8 bs \<Longrightarrow>
   field_renders (strings_field k bs) (strings_member k bs)"
  unfolding strings_field_def strings_member_def
  by (intro field_if_renders) (rule renders_eq, (rule renders_intros | simp add: punct_simps doc_simps)+)

lemma pairs_field:
  assumes "list_all plain_char k" and "list_all container_label_ok ls"
  shows "field_renders (field_if b (cat [key k, lit ''{'', json_pairs (map label_pair ls), lit ''}'']))
    (member_if b k (pairs_doc (map label_pair ls)))"
  by (intro field_if_renders) (rule renders_eq, (rule renders_intros assms
      | simp add: punct_simps doc_simps label_pairs_utf8 [OF assms(2)])+)

lemma number_field_map:
  "list_all plain_char k \<Longrightarrow>
   field_renders (map_option (\<lambda>v. cat [key k, lit (dec (f v))]) x) (member_of k (\<lambda>v. JNum (int (f v))) x)"
  by (intro field_map_renders) (rule renders_eq, (rule renders_intros | simp)+)

lemma int_field_map:
  "list_all plain_char k \<Longrightarrow>
   field_renders (map_option (\<lambda>v. cat [key k, lit (dec_int (f v))]) x) (member_of k (\<lambda>v. JNum (f v)) x)"
  by (intro field_map_renders) (rule renders_eq, (rule renders_intros | simp)+)

lemma ulimits_field:
  assumes "list_all (\<lambda>u. token_ok (token_bytes (ulimit_name u))) us"
  shows "field_renders (field_if b (cat [key ''Ulimits'', lit ''['', commas (map render_ulimit us), lit '']'']))
    (member_if b ''Ulimits'' (JArray (map ulimit_doc us)))"
proof -
  have u: "renders (render_ulimit u) (json_tokens (ulimit_doc u))" if "u \<in> set us" for u
  proof -
    have "valid_utf8 (token_bytes (ulimit_name u))"
      using assms that by (simp add: list_all_iff token_ok_def text_ok_def)
    then show ?thesis
      unfolding render_ulimit_def
      by - (rule renders_eq, (rule renders_intros | simp add: punct_simps ulimit_doc_def doc_simps)+)
  qed
  show ?thesis
    by (rule field_if_renders, rule renders_eq, (rule renders_intros u
      | simp add: punct_simps comp_def)+)
qed

lemma devices_field:
  assumes "list_all (\<lambda>d. valid_absolute_path (directory_bytes (device_host_path d))
       \<and> valid_absolute_path (directory_bytes (device_container_path d))) ds"
  shows "field_renders (field_if b (cat [key ''Devices'', lit ''['', commas (map render_device ds), lit '']'']))
    (member_if b ''Devices'' (JArray (map device_doc ds)))"
proof -
  have p: "valid_utf8 (permission_text p)" for p
    by (rule valid_utf8_ascii) (auto simp: permission_text_def is_ascii_def split: if_splits)
  have d: "renders (render_device d) (json_tokens (device_doc d))" if "d \<in> set ds" for d
  proof -
    have "valid_utf8 (directory_bytes (device_host_path d))"
      "valid_utf8 (directory_bytes (device_container_path d))"
      using assms that by (auto simp: list_all_iff valid_absolute_path_def)
    then show ?thesis
      unfolding render_device_def
      by - (rule renders_eq, (rule renders_intros | simp add: punct_simps p device_doc_def doc_simps)+)
  qed
  show ?thesis
    by (rule field_if_renders, rule renders_eq, (rule renders_intros d
      | simp add: punct_simps comp_def)+)
qed

lemma log_config_field:
  assumes "pred_option (\<lambda>l. list_all container_label_ok (log_options l)) x"
  shows "field_renders (log_config_field x) (member_of ''LogConfig'' log_config_doc x)"
  unfolding log_config_field_def
proof (rule field_map_renders)
  fix l
  assume "x = Some l"
  with assms have l: "list_all (\<lambda>(k, v). valid_utf8 k \<and> valid_utf8 v) (map label_pair (log_options l))"
    by (simp add: label_pairs_utf8)
  have d: "valid_utf8 (log_driver_name (log_driver l))"
    by (cases "log_driver l") (simp_all add: is_ascii_def)
  show "renders (cat [key ''LogConfig'', lit ''{'', key ''Type'', json_string (log_driver_name (log_driver l)),
     next_key ''Config'', lit ''{'', json_pairs (map label_pair (log_options l)), lit ''}}''])
    (TString ''LogConfig'' # colon # json_tokens (log_config_doc l))"
    by (rule renders_eq, (rule renders_intros l d | simp add: punct_simps log_config_doc_def doc_simps)+)
qed

lemma userns_field:
  "field_renders (map_option (\<lambda>m. cat [key ''UsernsMode'', json_string (userns_text m)]) x)
    (member_of ''UsernsMode'' (\<lambda>m. JString (userns_text m)) x)"
proof -
  have "valid_utf8 (userns_text m)" for m by (cases m) (simp add: is_ascii_def)
  then show ?thesis
    by (intro field_map_renders) (rule renders_eq, (rule renders_intros | simp add: punct_simps)+)
qed

lemma user_ok_utf8: "user_ok b \<Longrightarrow> valid_utf8 b"
  using user_ok_text by (simp add: text_ok_def)

lemma host_texts_utf8:
  assumes "settings_built s"
  shows "list_all valid_utf8 (map token_bytes (set_cap_add s))"
    "list_all valid_utf8 (map token_bytes (set_cap_drop s))"
    "list_all valid_utf8 (map security_text (set_security_options s))"
    "list_all valid_utf8 (map user_bytes (set_group_add s))"
    "list_all valid_utf8 (map show_ip (set_dns s))"
    "list_all valid_utf8 (map extra_host_text (set_extra_hosts s))"
proof -
  have "valid_utf8 (security_text x)" for x by (cases x) (simp add: is_ascii_def)
  then show "list_all valid_utf8 (map security_text (set_security_options s))"
    by (simp add: list_all_iff)
qed (use assms in \<open>auto simp: settings_built_def list_all_iff token_ok_def text_ok_def
    hostname_ok_def extra_host_text_def dest: user_ok_utf8\<close>)

lemma host_config_renders:
  assumes "container_built c" and "resolves m c"
  shows "list_all2 field_renders (host_config_fields m c) (host_config_members m c)"
proof -
  have s: "settings_built (c_settings c)" "list_all wf_mount (c_mounts c)"
    using assms(1) by (simp_all add: container_built_def)
  note sb = s(1) [unfolded settings_built_def]
  note host_texts_utf8 [OF s(1)]
  then show ?thesis
    unfolding host_config_fields_def host_config_members_def Let_def list_all2_Cons
    using sb s(2) assms(2)
    by (intro conjI list.rel_intros(1) port_bindings_field binds_field mounts_field
        network_mode_field restart_field bool_field strings_field pairs_field number_field_map int_field_map
        ulimits_field devices_field log_config_field userns_field)
       (simp_all add: punct_simps)
qed

section \<open>Whole container bodies\<close>

lemma renders_networking_config:
  assumes "container_built c" and "resolves m c"
  shows "renders (render_networking_config m c) (tail_tokens (member_of ''NetworkingConfig''
         (\<lambda>a. JObject [(''EndpointsConfig'',
            JObject [(network_name m (attachment_network a), endpoint_doc a)])]) (first_network c)))"
proof (cases "first_network c")
  case None
  then show ?thesis by (simp add: render_networking_config_def if_some_def renders_lit doc_simps)
next
  case (Some a)
  note mem = first_network_mem [OF Some]
  from resolves_network [OF assms(2) mem] obtain n where
    n: "network_lookup m (attachment_network a) = Inr n"
      "identity_bytes (network_identity n) = network_name m (attachment_network a)"
      "valid_utf8 (network_name m (attachment_network a))" by blast
  have a: "attachment_built a" using assms(1) mem by (simp add: container_built_def list_all_iff)
  show ?thesis
    unfolding render_networking_config_def Some if_some_def option.case n(1) bind_res_simps
    by (rule renders_eq, (rule renders_intros a | simp add: punct_simps n(2,3) doc_simps)+)
qed

lemma renders_container:
  assumes "container_built c" and "resolves m c"
  shows "renders (render_container c m) (json_tokens (container_doc m c))"
proof -
  have host: "renders (host_fields False (host_config_fields m c))
      (separated (map member_tokens (concat (host_config_members m c))))"
    using renders_host_fields [OF host_config_renders [OF assms], of False] by simp
  have image: "valid_utf8 (image_bytes (c_image c))"
    using assms(1) image_ok_text by (auto simp: container_built_def text_ok_def)
  have parts: "list_all (\<lambda>e. environment_ok (environment_key e, environment_value e)) (c_environment c)"
    "command_ok (c_entrypoint c)" "command_ok (c_command c)" "settings_built (c_settings c)"
    "c_healthcheck c = Some h \<Longrightarrow> wf_healthcheck h"
    "c_healthcheck c = Some h \<Longrightarrow> health_texts_ok h" for h
    using assms(1) by (simp_all add: container_built_def)
  show ?thesis
    unfolding render_container_def
    by (rule renders_eq, (rule renders_networking_config [OF assms] host renders_intros parts
        | assumption | simp add: punct_simps image)+)
       (simp add: container_doc_def doc_simps object_tokens [of "concat xs" for xs] split: option.split)
qed

end
