(* ===== verification/Rendering.thy ===== *)
theory Rendering
  imports Render_Documents
begin

text \<open>
  \<^verbatim>\<open>src/target_modules/render.rs\<close>: the loop that emits the requests of an operation graph in an
  order its dependencies allow and collects the prerequisites, and the two texts of the rendered
  artifact, the newline-delimited requests and the complete review document.
\<close>

section \<open>Artifacts\<close>

record network_prerequisite =
  np_reference :: resource_ref
  np_driver :: network_driver
  np_internal :: "bool option"
  np_identity :: bytes

record volume_prerequisite =
  vp_reference :: resource_ref
  vp_identity :: bytes

datatype source_condition =
  SourceExists | TypeReviewed | ContentsReviewed | OwnershipReviewed | PermissionsReviewed

datatype relabel_condition =
  DaemonSelinuxEnabled | ContainerMountLabelPresent | PolicyFilesystemSupport | RelabelAuthority

record bind_prerequisite =
  bp_reference :: resource_ref
  bp_mount_index :: nat
  bp_identity :: bytes
  bp_source :: bytes
  bp_target :: bytes
  bp_read_only :: bool
  bp_relabel :: bind_relabel
  bp_source_conditions :: "source_condition list"
  bp_selinux_conditions :: "relabel_condition list"

datatype prerequisite_order = NetworkPre nat | VolumePre nat | BindSourcePre nat

record native_state =
  native_context :: planning_context
  native_requests :: "bytes list"
  native_order :: "prerequisite_order list"

record rendered_artifact =
  ra_bytes :: bytes
  ra_networks :: "network_prerequisite list"
  ra_volumes :: "volume_prerequisite list"
  ra_binds :: "bind_prerequisite list"
  ra_native :: "native_state option"

definition artifact_new :: "bytes \<Rightarrow> rendered_artifact" where
  "artifact_new b =
     \<lparr>ra_bytes = b, ra_networks = [], ra_volumes = [], ra_binds = [], ra_native = None\<rparr>"

section \<open>The emission loop\<close>

text \<open>The local variables of \<open>render\<close>.\<close>

record render_state =
  rs_lines :: bytes
  rs_requests :: "bytes list"
  rs_networks :: "network_prerequisite list"
  rs_volumes :: "volume_prerequisite list"
  rs_binds :: "bind_prerequisite list"
  rs_order :: "prerequisite_order list"

definition empty_state :: render_state where
  "empty_state =
     \<lparr>rs_lines = [], rs_requests = [], rs_networks = [], rs_volumes = [], rs_binds = [], rs_order = []\<rparr>"

definition request_text :: "bytes \<Rightarrow> bytes \<Rightarrow> bytes render" where
  "request_text path body = cat [
     lit ''{'', key ''method'', lit (quoted ''POST''), next_key ''path'', json_string path,
     next_key ''body'', lit body, lit ''}'']"

definition append_request :: "render_state \<Rightarrow> bytes \<times> bytes \<Rightarrow> render_state render" where
  "append_request st pb =
     (let (path, body) = pb in
      bind_res (request_text path body) (\<lambda>request.
        Inr (st\<lparr>rs_lines := rs_lines st @ request @ [CHR 0x0A],
                rs_requests := rs_requests st @ [request]\<rparr>)))"

definition all_source_conditions :: "source_condition list" where
  "all_source_conditions =
     [SourceExists, TypeReviewed, ContentsReviewed, OwnershipReviewed, PermissionsReviewed]"

definition all_relabel_conditions :: "relabel_condition list" where
  "all_relabel_conditions =
     [DaemonSelinuxEnabled, ContainerMountLabelPresent, PolicyFilesystemSupport, RelabelAuthority]"

text \<open>The loop over the mounts of a container: one prerequisite for each relabelled bind.\<close>

definition push_bind ::
  "container_intent \<Rightarrow> render_state \<Rightarrow> nat \<times> mount \<Rightarrow> render_state render" where
  "push_bind c st im =
     (let (index, m) = im in
      case mount_relabel m of
        None \<Rightarrow> Inr st
      | Some relabel \<Rightarrow>
        (case mount_source m of
           Bind source \<Rightarrow>
             Inr (st\<lparr>rs_order := rs_order st @ [BindSourcePre (length (rs_binds st))],
                     rs_binds := rs_binds st @ [
                       \<lparr>bp_reference = c_reference c, bp_mount_index = index,
                        bp_identity = identity_bytes (c_identity c), bp_source = source,
                        bp_target = mount_target m, bp_read_only = mount_read_only m,
                        bp_relabel = relabel, bp_source_conditions = all_source_conditions,
                        bp_selinux_conditions = all_relabel_conditions\<rparr>]\<rparr>)
         | _ \<Rightarrow> Inl (Returns InvalidGraph)))"

definition push_network :: "network_intent \<Rightarrow> network_driver \<Rightarrow> bool option \<Rightarrow> render_state \<Rightarrow> render_state" where
  "push_network n driver internal st =
     st\<lparr>rs_order := rs_order st @ [NetworkPre (length (rs_networks st))],
        rs_networks := rs_networks st @ [
          \<lparr>np_reference = network_reference n, np_driver = driver, np_internal = internal,
           np_identity = identity_bytes (network_identity n)\<rparr>]\<rparr>"

definition push_volume :: "resource_ref \<Rightarrow> target_identity \<Rightarrow> render_state \<Rightarrow> render_state" where
  "push_volume r identity st =
     st\<lparr>rs_order := rs_order st @ [VolumePre (length (rs_volumes st))],
        rs_volumes := rs_volumes st @ [
          \<lparr>vp_reference = r, vp_identity = identity_bytes identity\<rparr>]\<rparr>"

text \<open>The match over a node's resource: the new prerequisites, and the request if there is one.\<close>

definition node_request ::
  "bytes \<Rightarrow> (resource_ref \<Rightarrow> target_resource option) \<Rightarrow> target_resource \<Rightarrow> render_state
   \<Rightarrow> (render_state \<times> (bytes \<times> bytes) option) render" where
  "node_request prefix resource_at r st =
     (case r of
        NetworkResource n \<Rightarrow>
          (case network_source n of
             CreateNetwork _ \<Rightarrow> bind_res (render_network n) (\<lambda>body.
               Inr (st, Some (prefix @ ''networks/create'', body)))
           | ExternalNetwork driver internal \<Rightarrow> Inr (push_network n driver internal st, None))
      | VolumeResource _ identity labels \<Rightarrow> bind_res (render_volume identity labels) (\<lambda>body.
          Inr (st, Some (prefix @ ''volumes/create'', body)))
      | ExternalVolumeResource reference identity \<Rightarrow> Inr (push_volume reference identity st, None)
      | ContainerResource c \<Rightarrow>
          bind_res (try_fold (push_bind c) st (zip [0..<length (c_mounts c)] (c_mounts c))) (\<lambda>st'.
            bind_res (render_container c resource_at) (\<lambda>body.
              Inr (st', Some (prefix @ ''containers/create?name=''
                 @ percent_encode (identity_bytes (c_identity c)), body)))))"

definition connects :: "resource_ref \<Rightarrow> operation_step \<Rightarrow> bool" where
  "connects r s \<longleftrightarrow> step_resource (step_id s) = r
     \<and> (case step_action s of ConnectNetwork _ _ \<Rightarrow> True | _ \<Rightarrow> False)"

definition connect_request ::
  "bytes \<Rightarrow> (resource_ref \<Rightarrow> target_resource option) \<Rightarrow> container_intent \<Rightarrow> render_state
   \<Rightarrow> operation_step \<Rightarrow> render_state render" where
  "connect_request prefix resource_at c st s =
     (case step_action s of
        ConnectNetwork _ index \<Rightarrow>
          if index < length (c_networks c) then
            bind_res (render_secondary_connection c (c_networks c ! index) resource_at) (\<lambda>(path, body).
              append_request st (prefix @ path, body))
          else Inl (Returns InvalidGraph)
      | _ \<Rightarrow> Inl Panics)"

definition connect_requests ::
  "bytes \<Rightarrow> operation_graph \<Rightarrow> (resource_ref \<Rightarrow> target_resource option) \<Rightarrow> operation_node
   \<Rightarrow> target_resource \<Rightarrow> render_state \<Rightarrow> render_state render" where
  "connect_requests prefix g resource_at n r st =
     (case r of
        ContainerResource c \<Rightarrow>
          try_fold (connect_request prefix resource_at c) st (filter (connects (node_ref n)) (graph_steps g))
      | _ \<Rightarrow> Inr st)"

text \<open>The body of the loop for one node.\<close>

definition emit_node ::
  "bytes \<Rightarrow> operation_graph \<Rightarrow> (resource_ref \<Rightarrow> target_resource option) \<Rightarrow> operation_node
   \<Rightarrow> render_state \<Rightarrow> render_state render" where
  "emit_node prefix g resource_at n st =
     (case resource_at (node_ref n) of
        None \<Rightarrow> Inl (Returns InvalidGraph)
      | Some r \<Rightarrow>
        bind_res (node_request prefix resource_at r st) (\<lambda>(st1, request).
          bind_res (case request of None \<Rightarrow> Inr st1 | Some pb \<Rightarrow> append_request st1 pb) (\<lambda>st2.
            connect_requests prefix g resource_at n r st2)))"

text \<open>The first node that is not emitted and whose dependencies all are.\<close>

definition next_node :: "operation_node list \<Rightarrow> resource_ref list \<Rightarrow> operation_node option" where
  "next_node nodes emitted =
     List.find (\<lambda>n. node_ref n \<notin> set emitted \<and> list_all (\<lambda>d. d \<in> set emitted) (depends_on n)) nodes"

text \<open>
  The set \<^verbatim>\<open>emitted\<close> is a list without repetitions, latest first: a node is inserted only when it
  is not in it, so that the length of the list is the size of the set and the loop ends.
\<close>

function emit_loop ::
  "bytes \<Rightarrow> operation_graph \<Rightarrow> (resource_ref \<Rightarrow> target_resource option) \<Rightarrow> resource_ref list
   \<Rightarrow> render_state \<Rightarrow> (resource_ref list \<times> render_state) render" where
  "emit_loop prefix g resource_at emitted st =
     (if length emitted < length (graph_nodes g) then
        (case next_node (graph_nodes g) emitted of
           None \<Rightarrow> Inl (Returns InvalidGraph)
         | Some n \<Rightarrow>
           bind_res (emit_node prefix g resource_at n st) (\<lambda>st'.
             emit_loop prefix g resource_at (node_ref n # emitted) st'))
      else Inr (emitted, st))"
  by pat_completeness auto
termination
  by (relation "measure (\<lambda>(_, g, _, emitted, _). length (graph_nodes g) - length emitted)") auto

declare emit_loop.simps [simp del]

definition version_prefix :: "api_version \<Rightarrow> bytes" where
  "version_prefix v = ''/v'' @ dec (unat (api_major v)) @ ''.'' @ dec (unat (api_minor v)) @ ''/''"

definition render :: "operation_graph \<Rightarrow> rendered_artifact render" where
  "render g =
     (let prefix = version_prefix (context_api (graph_context g));
          resource_at = resource_map (resources (graph_intent g)) in
      bind_res (emit_loop prefix g resource_at [] empty_state) (\<lambda>(_, st).
        Inr \<lparr>ra_bytes = rs_lines st, ra_networks = rs_networks st, ra_volumes = rs_volumes st,
             ra_binds = rs_binds st,
             ra_native = Some \<lparr>native_context = graph_context g, native_requests = rs_requests st,
               native_order = rs_order st\<rparr>\<rparr>))"

section \<open>The complete artifact\<close>

datatype complete_error = MissingNativeProvenance

type_synonym complete_text = "(complete_error, bytes) rendered"

fun daemon_mode_name :: "daemon_mode \<Rightarrow> bytes" where
  "daemon_mode_name Rootful = ''rootful''"
| "daemon_mode_name Rootless = ''rootless''"
| "daemon_mode_name UnknownMode = ''unknown''"

fun network_driver_name :: "network_driver \<Rightarrow> bytes" where
  "network_driver_name Bridge = ''bridge''"
| "network_driver_name Host = ''host''"
| "network_driver_name Overlay = ''overlay''"
| "network_driver_name Macvlan = ''macvlan''"

definition api_text :: "api_version \<Rightarrow> bytes" where
  "api_text v = dec (unat (api_major v)) @ ''.'' @ dec (unat (api_minor v))"

definition append_api_version :: "api_version \<Rightarrow> complete_text" where
  "append_api_version v = json_string (api_text v)"

definition append_build :: "engine_build \<Rightarrow> complete_text" where
  "append_build b =
     (case b of
        Upstream \<Rightarrow> cat [lit ''{'', key ''kind'', lit (quoted ''upstream''), lit ''}'']
      | DebianPackage revision \<Rightarrow> cat [
          lit ''{'', key ''kind'', lit (quoted ''debian_package''),
          next_key ''revision'', json_string (revision_text revision), lit ''}''])"

definition append_context :: "planning_context \<Rightarrow> complete_text" where
  "append_context ctx =
     (case ctx of
        Observed scope \<Rightarrow> cat [
          lit ''{'', key ''kind'', lit (quoted ''observed''),
          next_key ''provenance'', lit (quoted ''process_local_only''),
          next_key ''engine_release'', json_string (release_text (scope_release scope)),
          next_key ''api_version'', append_api_version (scope_api scope),
          next_key ''daemon_mode'', json_string (daemon_mode_name (scope_mode scope)), lit ''}'']
      | Target profile \<Rightarrow> (let identity = tp_identity profile in cat [
          lit ''{'', key ''kind'', lit (quoted ''target''),
          next_key ''build'', append_build (pi_build identity),
          next_key ''engine_release'', json_string (release_text (pi_release identity)),
          next_key ''advertised_api_version'', append_api_version (pi_advertised identity),
          next_key ''acquisition_api_version'', append_api_version (pi_acquisition identity),
          next_key ''rendering_api_version'', append_api_version (pi_rendering identity),
          next_key ''daemon_mode'', json_string (daemon_mode_name (pi_mode identity)),
          next_key ''evidence_sha256'',
          lit (quoted (concat (map hex2 (sha256_bytes (tp_evidence_key profile))))), lit ''}'']))"

definition append_bind_source :: "bind_prerequisite \<Rightarrow> complete_text" where
  "append_bind_source b = cat [
     lit ''{'', key ''kind'', lit (quoted ''bind_source''),
     next_key ''reference'', json_string (dec (unat (local_index (bp_reference b)))),
     next_key ''identity'', json_string (bp_identity b),
     next_key ''mount_index'', json_string (dec (bp_mount_index b)),
     next_key ''source'', json_string (bp_source b),
     next_key ''target'', json_string (bp_target b),
     next_key ''read_only'', lit (bool_text (bp_read_only b)),
     next_key ''relabel'', json_string (case bp_relabel b of
        SharedRelabel \<Rightarrow> ''shared'' | PrivateRelabel \<Rightarrow> ''private''),
     next_key ''source_conditions'', lit ''['',
     commas (map (\<lambda>k. lit (quoted k)) [''exists'', ''type_reviewed'', ''contents_reviewed'',
       ''ownership_reviewed'', ''permissions_reviewed'']), lit '']'',
     next_key ''selinux_effect'', lit (quoted ''unverified''),
     next_key ''selinux_conditions'', lit ''['',
     commas (map (\<lambda>k. lit (quoted k)) [''daemon_selinux_enabled'', ''container_mount_label_present'',
       ''policy_filesystem_support'', ''relabel_authority'']), lit '']'']"

definition append_network_prerequisite :: "network_prerequisite \<Rightarrow> complete_text" where
  "append_network_prerequisite n = cat [
     lit ''{'', key ''kind'', lit (quoted ''network''),
     next_key ''reference'', json_string (dec (unat (local_index (np_reference n)))),
     next_key ''identity'', json_string (np_identity n),
     next_key ''expected_driver'', json_string (network_driver_name (np_driver n)),
     if_some (np_internal n) (\<lambda>b. cat [next_key ''expected_internal'', lit (bool_text b)])]"

definition append_volume_prerequisite :: "volume_prerequisite \<Rightarrow> complete_text" where
  "append_volume_prerequisite v = cat [
     lit ''{'', key ''kind'', lit (quoted ''volume''),
     next_key ''reference'', json_string (dec (unat (local_index (vp_reference v)))),
     next_key ''identity'', json_string (vp_identity v)]"

text \<open>Indexing a vector out of range panics.\<close>

definition indexed :: "'a list \<Rightarrow> nat \<Rightarrow> ('a \<Rightarrow> complete_text) \<Rightarrow> complete_text" where
  "indexed xs i f = (if i < length xs then f (xs ! i) else Inl Panics)"

definition append_prerequisite :: "rendered_artifact \<Rightarrow> prerequisite_order \<Rightarrow> complete_text" where
  "append_prerequisite a p = cat [
     (case p of
        NetworkPre i \<Rightarrow> indexed (ra_networks a) i append_network_prerequisite
      | VolumePre i \<Rightarrow> indexed (ra_volumes a) i append_volume_prerequisite
      | BindSourcePre i \<Rightarrow> indexed (ra_binds a) i append_bind_source),
     lit ''}'']"

definition schema_version :: "rendered_artifact \<Rightarrow> nat" where
  "schema_version a =
     (if list_ex (\<lambda>n. np_internal n \<noteq> None) (ra_networks a) then 3
      else if ra_binds a = [] then 1 else 2)"

definition complete_bytes :: "rendered_artifact \<Rightarrow> complete_text" where
  "complete_bytes a =
     (case ra_native a of
        None \<Rightarrow> Inl (Returns MissingNativeProvenance)
      | Some native \<Rightarrow> cat [
          lit ''{'', key ''schema_version'', lit (dec (schema_version a)),
          next_key ''context'', append_context (native_context native),
          next_key ''requests'', lit ''['', commas (map lit (native_requests native)), lit '']'',
          next_key ''prerequisites'', lit ''['',
          commas (map (append_prerequisite a) (native_order native)), lit '']}'', lit [CHR 0x0A]])"

end
