(* ===== verification/Intent_Properties.thy ===== *)
theory Intent_Properties
  imports Intent_Spec "HOL-Library.Multiset"
begin

text \<open>
  What an accepted intent guarantees: the validation is order-independent, host ports and static
  addresses never collide, address pools are disjoint and hold their ranges, and the lexical
  mount keys are canonical. Two lemmas at the end record inputs that are accepted although their
  neighbours in the code would refuse them.
\<close>

section \<open>Host addresses\<close>

text \<open>A binding listens on one host address, or on all of them.\<close>

definition listens :: "port_host_ip \<Rightarrow> ip_addr \<Rightarrow> bool" where
  "listens h a \<longleftrightarrow> wildcard h \<or> h = Address a"

lemma host_ip_overlaps_iff: "host_ip_overlaps l r \<longleftrightarrow> (\<exists>a. listens l a \<and> listens r a)"
  by (cases l; cases r) (auto simp: host_ip_overlaps_def listens_def)

lemma host_ip_overlaps_sym: "host_ip_overlaps l r = host_ip_overlaps r l"
  by (auto simp: host_ip_overlaps_def)

lemma fixed_clash_sym: "fixed_clash x y = fixed_clash y x"
  by (cases x; cases y) (auto simp: fixed_clash_def host_ip_overlaps_sym)

section \<open>Order independence\<close>

lemma sorted_wrt_perm:
  assumes "\<And>x y. r x y = r y x"
  shows "mset xs = mset ys \<Longrightarrow> sorted_wrt r xs = sorted_wrt r ys"
proof (induction xs arbitrary: ys)
  case Nil
  then show ?case by simp
next
  case (Cons x xs)
  then have "x \<in> set ys" by (metis list.set_intros(1) mset_eq_setD)
  then obtain as bs where ys: "ys = as @ x # bs" by (meson split_list)
  with Cons.prems have m: "mset xs = mset (as @ bs)" by simp
  then have "set xs = set as \<union> set bs" by (metis mset_eq_setD set_append)
  with Cons.IH [OF m] ys show ?case by (auto simp: sorted_wrt_append assms)
qed

lemma find_perm:
  assumes "mset xs = mset ys" and "distinct (map f xs)"
  shows "List.find (\<lambda>x. f x = k) xs = List.find (\<lambda>x. f x = k) ys"
proof (cases "List.find (\<lambda>x. f x = k) xs")
  case None
  then show ?thesis using assms(1) by (metis find_None_iff mset_eq_setD)
next
  case (Some x)
  then have x: "x \<in> set xs" "f x = k" by (auto simp: find_Some_iff)
  with assms(1) have "x \<in> set ys" by (metis mset_eq_setD)
  with x obtain y where y: "List.find (\<lambda>x. f x = k) ys = Some y" "y \<in> set ys" "f y = k"
    by (cases "List.find (\<lambda>x. f x = k) ys") (auto simp: find_None_iff find_Some_iff)
  with assms(1) have "y \<in> set xs" by (metis mset_eq_setD)
  with x y(3) assms(2) have "y = x" by (metis distinct_map inj_on_def)
  with Some y(1) show ?thesis by simp
qed

lemma mset_concat_map: "mset xs = mset ys \<Longrightarrow> mset (concat (map f xs)) = mset (concat (map f ys))"
proof (induction xs arbitrary: ys)
  case Nil
  then show ?case by simp
next
  case (Cons x xs)
  then have "x \<in> set ys" by (metis list.set_intros(1) mset_eq_setD)
  then obtain as bs where ys: "ys = as @ x # bs" by (meson split_list)
  with Cons.prems have "mset xs = mset (as @ bs)" by simp
  from Cons.IH [OF this] ys show ?case by simp
qed

lemma distinct_perm: "mset xs = mset ys \<Longrightarrow> distinct xs = distinct ys"
  by (rule mset_eq_imp_distinct_iff)

lemma wf_resource_perm:
  assumes "mset rs = mset rs'" and "distinct (map resource_reference rs)"
  shows "wf_resource rs r = wf_resource rs' r"
proof -
  have "network_at rs = network_at rs'"
    by (rule ext) (simp add: network_at_def find_perm [OF assms])
  then have "wf_attachment rs = wf_attachment rs'"
    by (simp add: fun_eq_iff wf_attachment_def)
  then show ?thesis
    by (cases r) (simp_all add: wf_resource_def wf_container_def wf_container_rest_def)
qed

lemma wf_intent_perm:
  assumes "mset rs = mset rs'" and "wf_intent rs"
  shows "wf_intent rs'"
proof -
  from assms(2) have refs: "distinct (map resource_reference rs)" by (simp add: wf_intent_def)
  have set: "set rs = set rs'" using assms(1) by (rule mset_eq_setD)
  have m: "mset (map f rs) = mset (map f rs')" for f :: "target_resource \<Rightarrow> 'b"
    using assms(1) by (metis mset_map)
  have "distinct (map resource_reference rs')" "distinct (map identity_key rs')"
    using assms(2) distinct_perm [OF m] by (auto simp: wf_intent_def)
  moreover have "distinct (concat (map static_addresses rs'))"
    using assms(2) distinct_perm [OF mset_concat_map [OF assms(1)]] by (auto simp: wf_intent_def)
  moreover have "length (filter is_default_network rs') \<le> 1"
    using assms by (metis mset_filter size_mset wf_intent_def)
  moreover have "list_all (wf_resource rs') rs'"
    using assms(2) set wf_resource_perm [OF assms(1) refs] by (simp add: wf_intent_def list_all_iff)
  moreover have "sorted_wrt (\<lambda>x y. \<not> fixed_clash x y) (concat (map resource_fixed rs'))"
    using assms(2) sorted_wrt_perm [OF _ mset_concat_map [OF assms(1), of resource_fixed],
        of "\<lambda>x y. \<not> fixed_clash x y"] fixed_clash_sym
    by (simp add: wf_intent_def)
  moreover have "rs' \<noteq> []" using assms by (auto simp: wf_intent_def)
  ultimately show ?thesis by (simp add: wf_intent_def)
qed

section \<open>Lexical path keys\<close>

definition key_component :: "bytes \<Rightarrow> bool" where
  "key_component c \<longleftrightarrow> c \<noteq> [] \<and> c \<noteq> ''.'' \<and> c \<noteq> ''..'' \<and> CHR ''/'' \<notin> set c"

lemma path_fold_components:
  "list_all key_component acc \<Longrightarrow> \<forall>c \<in> set cs. CHR ''/'' \<notin> set c \<Longrightarrow>
   list_all key_component (foldl path_step acc cs)"
proof (induction cs arbitrary: acc)
  case Nil
  then show ?case by simp
next
  case (Cons c cs)
  have "list_all key_component (path_step acc c)"
    using Cons.prems by (auto simp: list_all_iff key_component_def dest: in_set_butlastD)
  with Cons show ?case by simp
qed

lemma lexical_key_components: "list_all key_component (lexical_absolute_path_key p)"
  unfolding lexical_absolute_path_key_def
  by (rule path_fold_components) (auto dest: split_on_no_sep)

text \<open>The clean path of a key: its components joined by slashes.\<close>

definition clean_path :: "bytes list \<Rightarrow> bytes" where
  "clean_path cs = concat (map (\<lambda>c. CHR ''/'' # c) cs)"

lemma split_on_prefix: "d \<notin> set w \<Longrightarrow> split_on d (w @ d # s) = w # split_on d s"
  by (induction w) auto

lemma split_on_whole: "d \<notin> set w \<Longrightarrow> split_on d w = [w]"
  by (induction w) auto

lemma split_clean_path:
  "list_all key_component (c # cs) \<Longrightarrow>
   split_on CHR ''/'' (c @ clean_path cs) = c # cs"
proof (induction cs arbitrary: c)
  case Nil
  then show ?case by (simp add: clean_path_def key_component_def split_on_whole)
next
  case (Cons d cs)
  then show ?case by (simp add: clean_path_def key_component_def split_on_prefix)
qed

lemma path_fold_clean: "list_all key_component cs \<Longrightarrow> foldl path_step acc cs = acc @ cs"
  by (induction cs arbitrary: acc) (auto simp: key_component_def)

lemma lexical_key_clean:
  "list_all key_component cs \<Longrightarrow> lexical_absolute_path_key (clean_path cs) = cs"
proof (cases cs)
  case Nil
  then show ?thesis by (simp add: lexical_absolute_path_key_def clean_path_def)
next
  case (Cons c cs')
  assume cs: "list_all key_component cs"
  have "split_on CHR ''/'' (clean_path cs) = [] # cs"
    using split_clean_path [of c cs'] cs Cons by (simp add: clean_path_def)
  with path_fold_clean [OF cs, of "[]"] show ?thesis
    by (simp add: lexical_absolute_path_key_def)
qed

section \<open>Static addresses and pools\<close>

lemma network_at_Some:
  "network_at rs r = Some n \<Longrightarrow> NetworkResource n \<in> set rs \<and> network_reference n = r"
  by (auto simp: network_at_def find_Some_iff split: option.splits target_resource.splits)
     (metis nth_mem)

lemma network_at_found:
  assumes "distinct (map resource_reference rs)" and "NetworkResource n \<in> set rs"
  shows "network_at rs (network_reference n) = Some n"
proof -
  obtain as bs where rs: "rs = as @ NetworkResource n # bs" using assms(2) by (meson split_list)
  with assms(1) have "\<forall>x \<in> set as. resource_reference x \<noteq> network_reference n"
    by (auto simp: image_iff)
  then have "List.find (\<lambda>x. resource_reference x = network_reference n) rs = Some (NetworkResource n)"
    unfolding rs by (induction as) auto
  then show ?thesis by (simp add: network_at_def)
qed

lemma wf_intent_container:
  "wf_intent rs \<Longrightarrow> ContainerResource c \<in> set rs \<Longrightarrow> wf_container rs c"
  by (auto simp: wf_intent_def list_all_iff wf_resource_def)

lemma wf_intent_network:
  "wf_intent rs \<Longrightarrow> NetworkResource n \<in> set rs \<Longrightarrow> wf_network_source (network_source n)"
  by (auto simp: wf_intent_def list_all_iff wf_resource_def)

lemma wf_intent_attachment:
  assumes "wf_intent rs" and "ContainerResource c \<in> set rs" and "a \<in> set (c_networks c)"
  shows "wf_attachment rs a"
  using wf_intent_container [OF assms(1,2)] assms(3)
  by (simp add: wf_container_def wf_container_rest_def list_all_iff)

text \<open>The address is a usable host of a pool, and nobody else's in that pool.\<close>

definition assignable :: "network_create \<Rightarrow> network_address \<Rightarrow> bool" where
  "assignable create x \<longleftrightarrow> (\<exists>ipam pool. create_ipam create = Some ipam
     \<and> pool \<in> set (ipam_pools ipam) \<and> contains_usable_host (pool_subnet pool) x
     \<and> pool_gateway pool \<noteq> Some x \<and> x \<notin> aux_address ` set (pool_auxiliary pool))"

lemma address_reserved_iff: "address_reserved create x \<longleftrightarrow> \<not> assignable create x"
proof (cases "create_ipam create")
  case None
  then show ?thesis by (simp add: address_reserved_def assignable_def)
next
  case (Some ipam)
  then show ?thesis
    by (auto simp: address_reserved_def assignable_def list_ex_iff image_iff)
qed

lemma static_address_assignable:
  assumes "wf_intent rs" and "ContainerResource c \<in> set rs" and "a \<in> set (c_networks c)"
    and "NetworkResource n \<in> set rs" and "network_reference n = attachment_network a"
    and "x \<in> set (attachment_addresses a)"
  shows "\<exists>create. network_source n = CreateNetwork create \<and> assignable create x"
proof -
  from assms(1) have "distinct (map resource_reference rs)" by (simp add: wf_intent_def)
  from network_at_found [OF this assms(4)] assms(5)
  have "network_at rs (attachment_network a) = Some n" by simp
  with wf_intent_attachment [OF assms(1-3)] have fits: "attachment_fits (network_source n) a"
    by (simp add: wf_attachment_def)
  show ?thesis
  proof (cases "network_source n")
    case (CreateNetwork create)
    with fits assms(6) show ?thesis
      by (auto simp: attachment_fits_def list_ex_iff address_reserved_iff)
  next
    case (ExternalNetwork driver internal)
    with fits assms(6) show ?thesis
      by (auto simp: attachment_fits_def attachment_addresses_def)
  qed
qed

lemma range_within_pool:
  assumes "subnet_prefix s \<le> subnet_prefix r" and "subnet_contains s (subnet_address r)"
    and "subnet_contains r a"
  shows "subnet_contains s a"
proof -
  have "unat (subnet_prefix s) \<le> unat (subnet_prefix r)"
    using assms(1) by (simp add: word_le_nat_alt)
  moreover have fam: "is_ipv6 (subnet_address s) = is_ipv6 (subnet_address r)"
    "is_ipv6 (subnet_address r) = is_ipv6 a"
    using assms(2,3) by (simp_all add: subnet_contains_div)
  ultimately have "addr_nat (subnet_address r) div subnet_size s = addr_nat a div subnet_size s"
    using assms(3) unfolding subnet_contains_div subnet_size_def subnet_low_def
    by (auto elim!: div_coarser simp: address_bits_def)
  then show ?thesis using assms(2) fam by (simp add: subnet_contains_div)
qed

section \<open>A sample intent\<close>

text \<open>One network with a pool, one volume and one container that uses both; the witnesses use it.\<close>

definition sample_subnet :: network_subnet where
  "sample_subnet = \<lparr>subnet_address = NetworkAddress (V4 0x0A000000), subnet_prefix = 24\<rparr>"

definition sample_pool :: network_ipam_pool where
  "sample_pool = \<lparr>pool_subnet = sample_subnet,
     pool_gateway = Some (NetworkAddress (V4 0x0A000001)),
     pool_ip_range = Some \<lparr>subnet_address = NetworkAddress (V4 0x0A000080), subnet_prefix = 25\<rparr>,
     pool_auxiliary = []\<rparr>"

definition sample_ipam :: network_ipam where
  "sample_ipam = \<lparr>ipam_driver = None, ipam_pools = [sample_pool]\<rparr>"

definition sample_create :: network_create where
  "sample_create = network_create_bridge\<lparr>create_ipam := Some sample_ipam\<rparr>"

definition sample_network :: network_intent where
  "sample_network = \<lparr>network_reference = ResourceRef 1, network_identity = TargetIdentity ''net'',
     network_role = Declared, network_source = CreateNetwork sample_create\<rparr>"

definition sample_attachment :: network_attachment where
  "sample_attachment = \<lparr>attachment_network = ResourceRef 1, attachment_aliases = [NetworkAlias ''web''],
     attachment_ipv4 = Some (NetworkAddress (V4 0x0A000005)), attachment_ipv6 = None\<rparr>"

definition sample_ports :: "port_publication list" where
  "sample_ports = [\<lparr>pub_container = 80, pub_protocol = Tcp, pub_bindings =
     [\<lparr>host_ip = Address (V4 0x7F000001), host_port = Fixed 8080\<rparr>,
      \<lparr>host_ip = Address (V4 0x0A00000A), host_port = Fixed 8080\<rparr>]\<rparr>]"

definition sample_container :: container_intent where
  "sample_container = \<lparr>c_reference = ResourceRef 3, c_identity = TargetIdentity ''app'',
     c_image = ImageReference ''app:1'',
     c_environment = [EnvironmentAssignment ''KEY'' ''v''], c_ports = sample_ports,
     c_mounts = [\<lparr>mount_source = Volume (ResourceRef 2), mount_target = ''/data'',
       mount_read_only = False, mount_relabel = None\<rparr>],
     c_networks = [sample_attachment], c_entrypoint = Inherit, c_command = Exec [Argument ''run''],
     c_healthcheck = None, c_restart = Some (OnFailure 3), c_settings = default_settings\<rparr>"

definition sample_resources :: "target_resource list" where
  "sample_resources = [ContainerResource sample_container, NetworkResource sample_network,
     VolumeResource (ResourceRef 2) (TargetIdentity ''vol'') []]"

lemma sample_subnet_wf: "wf_subnet sample_subnet"
  by (simp add: wf_subnet_def sample_subnet_def subnet_low_def subnet_size_def address_bits_def
      is_ipv6_def)

lemma sample_usable:
  "0x0A000000 < unat v \<Longrightarrow> unat v < 0x0A0000FF \<Longrightarrow>
   contains_usable_host sample_subnet (NetworkAddress (V4 v))"
  unfolding contains_usable_host_interval [OF sample_subnet_wf]
    subnet_contains_interval [OF sample_subnet_wf]
  by (simp add: sample_subnet_def subnet_low_def subnet_size_def subnet_broadcast_def
      address_bits_def is_ipv6_def)

lemma sample_pool_wf: "wf_pool e sample_pool"
proof -
  have "subnet_contains sample_subnet (NetworkAddress (V4 0x0A000080))"
    unfolding subnet_contains_interval [OF sample_subnet_wf]
    by (simp add: sample_subnet_def subnet_low_def subnet_size_def address_bits_def is_ipv6_def)
  moreover have "contains_usable_host sample_subnet (NetworkAddress (V4 0x0A000001))"
    by (rule sample_usable) simp_all
  ultimately show ?thesis
    by (simp add: wf_pool_def sample_pool_def) (simp add: sample_subnet_def is_ipv6_def)
qed

lemma sample_network_wf: "wf_network_source (network_source sample_network)"
  by (simp add: wf_network_source_def wf_create_def sample_network_def sample_create_def
      network_create_bridge_def wf_ipam_def sample_ipam_def sample_pool_wf)

lemma sample_assignable: "assignable sample_create (NetworkAddress (V4 0x0A000005))"
proof -
  have "contains_usable_host sample_subnet (NetworkAddress (V4 0x0A000005))"
    by (rule sample_usable) simp_all
  then show ?thesis
    by (simp add: assignable_def sample_create_def sample_ipam_def sample_pool_def)
qed

lemma sample_attachment_wf: "wf_attachment sample_resources sample_attachment"
proof -
  have "network_at sample_resources (ResourceRef 1) = Some sample_network"
    by (simp add: network_at_def sample_resources_def sample_container_def sample_network_def)
  moreover have "attachment_fits (network_source sample_network) sample_attachment"
    using sample_assignable
    by (simp add: attachment_fits_def sample_network_def sample_attachment_def
        attachment_addresses_def address_reserved_iff)
  ultimately show ?thesis
    by (simp add: wf_attachment_def) (simp add: sample_attachment_def is_ipv6_def)
qed

lemma default_settings_wf: "wf_settings default_settings"
  by (simp add: wf_settings_def default_settings_def limits_in_range_def option_any_def)

lemma sample_container_wf: "wf_container sample_resources sample_container"
  unfolding wf_container_def wf_container_rest_def
  using sample_attachment_wf default_settings_wf
  by (simp add: sample_container_def)
     (simp add: default_settings_def sample_ports_def wf_port_def port_dynamic_def
       binding_dynamic_def i32_max_def)

lemma sample_fixed:
  "concat (map resource_fixed sample_resources) =
   [(8080, Tcp, Address (V4 0x7F000001)), (8080, Tcp, Address (V4 0x0A00000A))]"
  by (simp add: sample_resources_def container_fixed_def sample_container_def sample_ports_def
      port_fixed_def binding_fixed_def)

lemma sample_static:
  "concat (map static_addresses sample_resources) = [(ResourceRef 1, V4 0x0A000005)]"
  by (simp add: sample_resources_def sample_container_def sample_attachment_def
      attachment_addresses_def)

lemma sample_intent_wf: "wf_intent sample_resources"
proof -
  have "list_all (wf_resource sample_resources) sample_resources"
    using sample_container_wf sample_network_wf
    by (subst (2) sample_resources_def)
       (simp add: wf_resource_def wf_volume_labels_def max_volume_label_count_def
         max_volume_label_total_bytes_def)
  then show ?thesis
    unfolding wf_intent_def sample_fixed sample_static
    by (simp add: sample_resources_def sample_container_def sample_network_def identity_key_def
        fixed_clash_def host_ip_overlaps_def)
qed

lemma sample_intent_accepted: "target_intent_new sample_resources = Inr (TargetIntent sample_resources)"
  by (simp add: target_intent_new_def target_intent_new_iff sample_intent_wf)

section \<open>Properties\<close>

text \<open>C5: \<open>TargetIntent::new\<close> accepts exactly the valid intents of the declarative specification,
  for standalone orchestration only, and keeps the resources as they were given.\<close>

theorem target_intent_accepts:
  "target_intent_new_with_orchestration rs orch = Inr i \<longleftrightarrow>
   orch = Standalone \<and> wf_intent rs \<and> i = TargetIntent rs"
  by (rule target_intent_new_iff)

text \<open>Acceptance does not depend on the order in which the resources are given, although the
  loops compare each element only with the earlier ones.\<close>

theorem acceptance_order_independent:
  assumes "mset rs = mset rs'"
  shows "(\<exists>i. target_intent_new rs = Inr i) = (\<exists>i. target_intent_new rs' = Inr i)"
  using wf_intent_perm [OF assms] wf_intent_perm [OF assms [symmetric]]
  by (auto simp: target_intent_new_def target_intent_new_iff)

definition sample_identity :: "bytes \<Rightarrow> target_identity" where
  "sample_identity b = TargetIdentity b"

definition sample_volume :: "u64 \<Rightarrow> bytes \<Rightarrow> target_resource" where
  "sample_volume n b = VolumeResource (ResourceRef n) (TargetIdentity b) []"

theorem acceptance_order_independent_witness:
  "(\<exists>i. target_intent_new [sample_volume 2 ''b'', sample_volume 1 ''a''] = Inr i)"
proof -
  have "mset [sample_volume 1 ''a'', sample_volume 2 ''b'']
      = mset [sample_volume 2 ''b'', sample_volume 1 ''a'']" by simp
  note acceptance_order_independent [OF this]
  moreover have "\<exists>i. target_intent_new [sample_volume 1 ''a'', sample_volume 2 ''b''] = Inr i"
    by (simp add: target_intent_new_def target_intent_new_with_orchestration_def sample_volume_def
        validate_identity_def validate_resource_def volume_labels_valid_def
        max_volume_label_count_def max_volume_label_total_bytes_def)
  ultimately show ?thesis by simp
qed

text \<open>C6: in an accepted intent no two fixed host bindings, of any containers, claim the same port
  of the same protocol on a common host address.\<close>

theorem fixed_ports_disjoint:
  assumes "target_intent_new rs = Inr i" and "ports = concat (map resource_fixed rs)"
    and "j < k" and "k < length ports"
    and "ports ! j = (n, p, h)" and "ports ! k = (n, p, h')"
  shows "\<not> (listens h a \<and> listens h' a)"
proof -
  from assms(1) have "wf_intent rs" by (simp add: target_intent_new_def target_intent_new_iff)
  then have "sorted_wrt (\<lambda>x y. \<not> fixed_clash x y) ports" by (simp add: wf_intent_def assms(2))
  with assms(3,4) have "\<not> fixed_clash (ports ! j) (ports ! k)"
    by (simp add: sorted_wrt_iff_nth_less)
  with assms(5,6) show ?thesis by (auto simp: fixed_clash_def host_ip_overlaps_iff)
qed

theorem fixed_ports_disjoint_witness:
  "\<not> (listens (Address (V4 0x7F000001)) (V4 0x7F000001)
      \<and> listens (Address (V4 0x0A00000A)) (V4 0x7F000001))"
  using fixed_ports_disjoint [OF sample_intent_accepted refl, where j = 0 and k = 1
      and n = 8080 and p = Tcp and h = "Address (V4 0x7F000001)" and h' = "Address (V4 0x0A00000A)"
      and a = "V4 0x7F000001"]
  by (simp add: sample_fixed)

text \<open>C7: every static address of an accepted intent, on a network the intent itself has, is on a
  created network, is a usable host of one of its pools, and is neither that pool's gateway nor
  one of its auxiliary addresses; and no address is asked for twice on one network.\<close>

theorem static_addresses_usable:
  assumes "target_intent_new rs = Inr i"
    and "ContainerResource c \<in> set rs" and "a \<in> set (c_networks c)"
    and "NetworkResource n \<in> set rs" and "network_reference n = attachment_network a"
    and "x \<in> set (attachment_addresses a)"
  shows "(\<exists>create. network_source n = CreateNetwork create \<and> assignable create x)
    \<and> distinct (concat (map static_addresses rs))"
proof -
  from assms(1) have wf: "wf_intent rs" by (simp add: target_intent_new_def target_intent_new_iff)
  then have "distinct (concat (map static_addresses rs))" by (simp add: wf_intent_def)
  with static_address_assignable [OF wf assms(2-6)] show ?thesis by blast
qed

theorem static_addresses_usable_witness:
  "\<exists>create. network_source sample_network = CreateNetwork create
     \<and> assignable create (NetworkAddress (V4 0x0A000005))"
  using static_addresses_usable [OF sample_intent_accepted, where c = sample_container
      and a = sample_attachment and n = sample_network and x = "NetworkAddress (V4 0x0A000005)"]
  by (simp add: sample_resources_def sample_container_def sample_network_def sample_attachment_def
      attachment_addresses_def)

text \<open>C8: in an accepted intent the pools of a created network are pairwise disjoint sets of
  addresses, each pool's range is a subset of its subnet, and its gateway is a usable host of
  it.\<close>

theorem pools_disjoint_and_nested:
  assumes "target_intent_new rs = Inr i" and "NetworkResource n \<in> set rs"
    and "network_source n = CreateNetwork create" and "create_ipam create = Some ipam"
  shows "ipam_pools ipam \<noteq> [] \<and> sorted_wrt pools_disjoint (ipam_pools ipam)
    \<and> (\<forall>p r a. p \<in> set (ipam_pools ipam) \<and> pool_ip_range p = Some r \<and> subnet_contains r a
        \<longrightarrow> subnet_contains (pool_subnet p) a)
    \<and> (\<forall>p g. p \<in> set (ipam_pools ipam) \<and> pool_gateway p = Some g
        \<longrightarrow> contains_usable_host (pool_subnet p) g)"
proof -
  from assms(1) have "wf_intent rs" by (simp add: target_intent_new_def target_intent_new_iff)
  from wf_intent_network [OF this assms(2)] assms(3,4)
  have ipam: "wf_ipam (create_enable_ipv6 create) ipam"
    by (simp add: wf_network_source_def wf_create_def)
  then have pool: "wf_pool (create_enable_ipv6 create) p" if "p \<in> set (ipam_pools ipam)" for p
    using that by (simp add: wf_ipam_def list_all_iff)
  have "subnet_contains (pool_subnet p) a"
    if "p \<in> set (ipam_pools ipam)" "pool_ip_range p = Some r" "subnet_contains r a" for p r a
    using pool [OF that(1)] that(2,3) by (auto simp: wf_pool_def intro: range_within_pool)
  moreover have "contains_usable_host (pool_subnet p) g"
    if "p \<in> set (ipam_pools ipam)" "pool_gateway p = Some g" for p g
    using pool [OF that(1)] that(2) by (simp add: wf_pool_def)
  ultimately show ?thesis using ipam by (simp add: wf_ipam_def)
qed

theorem pools_disjoint_and_nested_witness:
  "ipam_pools sample_ipam \<noteq> []"
  using pools_disjoint_and_nested [OF sample_intent_accepted, where n = sample_network
      and create = sample_create and ipam = sample_ipam]
  by (simp add: sample_resources_def sample_network_def sample_create_def)

text \<open>The lexical key of a path is canonical: its components are non-empty, free of slashes and
  dots, joining them gives a path with the same key, and two paths have the same key exactly
  when they clean to the same path.\<close>

theorem lexical_key_canonical:
  "list_all key_component (lexical_absolute_path_key p)
   \<and> lexical_absolute_path_key (clean_path (lexical_absolute_path_key p)) = lexical_absolute_path_key p
   \<and> (lexical_absolute_path_key p = lexical_absolute_path_key q) =
       (clean_path (lexical_absolute_path_key p) = clean_path (lexical_absolute_path_key q))"
  using lexical_key_components [of p] lexical_key_components [of q]
  by (metis lexical_key_clean)

section \<open>Inputs accepted beside refused ones\<close>

text \<open>
  The size of a log file is parsed with \<^verbatim>\<open>str::parse::<u64>\<close>, which takes a leading plus sign, so
  a signed size passes the check of a plain decimal with a unit.
\<close>

lemma log_max_size_accepts_sign:
  "valid_log_max_size ''+5k'' \<and> valid_log_max_size ''5k'' \<and> \<not> valid_log_max_size ''-5k''"
  by (simp add: valid_log_max_size_def option_any_def parse_uint_def u64_max_def is_digit_def
      dec_value_def digit_val_def is_ascii_def)

text \<open>
  Device targets are compared with the mount targets by their lexical keys, but with each other
  byte by byte: two spellings of one destination pass.
\<close>

definition spelled_device :: "bytes \<Rightarrow> device_mapping" where
  "spelled_device p = \<lparr>device_host_path = WorkingDirectory ''/dev/a'',
     device_container_path = WorkingDirectory p,
     device_permissions = \<lparr>device_read = True, device_write = False, device_create = False\<rparr>\<rparr>"

lemma device_targets_compared_by_bytes:
  "wf_settings (default_settings\<lparr>set_devices := [spelled_device ''/dev/x'', spelled_device ''/dev//x'']\<rparr>)
   \<and> device_key (spelled_device ''/dev/x'') = device_key (spelled_device ''/dev//x'')"
  by (simp add: wf_settings_def default_settings_def limits_in_range_def option_any_def
      spelled_device_def wf_device_def device_key_def lexical_absolute_path_key_def)

end
