(* ===== verification/Graph_Properties.thy ===== *)
theory Graph_Properties
  imports Graphs Intent_Properties
begin

text \<open>
  What planning guarantees. The interface \<open>planning_source\<close> is the sealed trait
  \<open>PlanningCapabilitySet\<close>: a client gets a support test and a context, and the provider promises
  that a valid source has a context of a known mode. Both implementations of the trait are
  interpretations; the client lemmas say that planning with any source returns, and that what it
  accepts is supported.
\<close>

section \<open>The interface to capability sources\<close>

locale planning_source =
  fixes valid :: "'s \<Rightarrow> bool" and supports :: "'s \<Rightarrow> capability \<Rightarrow> bool"
    and context_of :: "'s \<Rightarrow> planning_context option"
  assumes context_known:
    "valid s \<Longrightarrow> \<exists>ctx. context_of s = Some ctx \<and> context_mode ctx \<noteq> UnknownMode"
begin

lemma graph_new_returns:
  assumes "valid s" and "caps = \<lparr>pc_supports = supports s, pc_context = context_of s\<rparr>"
  shows "operation_graph_new i caps nodes \<noteq> None"
proof -
  from context_known [OF assms(1)] obtain ctx where "pc_context caps = Some ctx"
    using assms(2) by auto
  then show ?thesis by (simp add: operation_graph_new_cases split: sum.split)
qed

lemma graph_new_supported:
  assumes "caps = \<lparr>pc_supports = supports s, pc_context = context_of s\<rparr>"
    and "operation_graph_new i caps nodes = Some (Inr g)"
  shows "context_of s = Some (graph_context g) \<and> graph_intent g = i \<and> graph_nodes g = nodes
    \<and> check_nodes (resources i) nodes = Inr () \<and> acyclic (dependency_relation nodes)
    \<and> check_target (supports s) (graph_context g) (resources i) = Inr ()
    \<and> graph_steps g = concat (map (node_steps (resource_map (resources i))) nodes)"
  using assms
  by (auto simp: operation_graph_new_cases bind_res_Inr_iff split: sum.splits if_splits)

lemma planned_supported:
  assumes "caps = \<lparr>pc_supports = supports s, pc_context = context_of s\<rparr>"
    and "docker_plan i caps = Some (Inr g)" and "r \<in> set (resources i)"
    and "c \<in> required_capabilities (context_mode (graph_context g)) r"
  shows "supports s c"
  using graph_new_supported [OF assms(1) assms(2) [unfolded docker_plan_def]] assms(3,4)
  by (simp add: check_target_Inr)

end

lemma lane_mode_known: "lane_matches_identity lane i \<Longrightarrow> pi_mode i \<noteq> UnknownMode"
  by (auto simp: lane_matches_identity_def Let_def)

definition observed_source :: "validated_capabilities \<Rightarrow> bool" where
  "observed_source v \<longleftrightarrow> validated_capabilities_new (validated_facts v) = Inr v"

definition resolved_source :: "target_capabilities \<Rightarrow> bool" where
  "resolved_source t \<longleftrightarrow> (\<exists>rs cat p. from_records rs = Inr cat \<and> resolve cat p = Inr t)"

interpretation observed: planning_source observed_source validated_supports validated_context
proof
  fix v assume "observed_source v"
  then show "\<exists>ctx. validated_context v = Some ctx \<and> context_mode ctx \<noteq> UnknownMode"
    by (auto simp: observed_source_def validated_capabilities_new_Inr daemon_identified_def
        validated_context_def context_mode_def Let_def)
qed

interpretation target: planning_source resolved_source target_supports target_context
proof
  fix t assume "resolved_source t"
  then obtain rs cat p where res: "from_records rs = Inr cat" "resolve cat p = Inr t"
    by (auto simp: resolved_source_def)
  obtain r where t: "t = TargetCapabilities r" by (cases t)
  have "r \<in> set rs" using res(2) resolve_iff [OF res(1)] by (simp add: t)
  moreover have "list_all admitted_record rs" using res(1) by (simp add: from_records_Inr)
  ultimately have "admitted_record r" by (simp add: list_all_iff)
  then have "pi_mode (tp_identity (tr_profile r)) \<noteq> UnknownMode"
    using lane_mode_known unfolding admitted_record_def by blast
  then show "\<exists>ctx. target_context t = Some ctx \<and> context_mode ctx \<noteq> UnknownMode"
    by (simp add: t target_context_def context_mode_def)
qed

section \<open>Steps\<close>

definition step_relation :: "operation_step list \<Rightarrow> (operation_step_id \<times> operation_step_id) set" where
  "step_relation steps = {(d, step_id s) | d s. s \<in> set steps \<and> d \<in> set (step_depends_on s)}"

definition node_width ::
  "(resource_ref \<Rightarrow> target_resource option) \<Rightarrow> operation_node \<Rightarrow> nat" where
  "node_width m n =
     (case m (node_ref n) of
        Some (ContainerResource c) \<Rightarrow> max 1 (length (c_networks c)) | _ \<Rightarrow> 1)"

lemma connect_step_ids:
  "map step_id (connect_steps r as) =
   map (\<lambda>i. \<lparr>step_resource = r, step_ordinal = i\<rparr>) [1..<length as]"
proof -
  have "map step_id (connect_steps r as) =
      map ((\<lambda>i. \<lparr>step_resource = r, step_ordinal = i\<rparr>) \<circ> fst) (drop 1 (zip [0..<length as] as))"
    by (auto simp: connect_steps_def connect_step_def)
  also have "\<dots> = map (\<lambda>i. \<lparr>step_resource = r, step_ordinal = i\<rparr>)
      (drop 1 (map fst (zip [0..<length as] as)))"
    unfolding map_map [symmetric] drop_map [symmetric] ..
  finally show ?thesis by (simp add: drop_upt)
qed

lemma node_step_ids:
  "map step_id (node_steps m n) =
   map (\<lambda>i. \<lparr>step_resource = node_ref n, step_ordinal = i\<rparr>) [0..<node_width m n]"
proof -
  have "[0..<max 1 k] = 0 # [1..<k]" for k :: nat
    by (cases k) (simp_all add: upt_conv_Cons del: upt_Suc)
  moreover have "[0..<1] = [0 :: nat]" by simp
  ultimately show ?thesis
    by (auto simp: node_steps_def node_width_def connect_step_ids base_step_def base_id_def
        split: option.splits target_resource.splits)
qed

lemma step_ids_distinct:
  "distinct (map node_ref nodes) \<Longrightarrow> distinct (map step_id (concat (map (node_steps m) nodes)))"
proof (induction nodes)
  case Nil
  then show ?case by simp
next
  case (Cons n nodes)
  have this_id: "step_resource x = node_ref n'" if "x \<in> set (map step_id (node_steps m n'))" for x n'
    using that unfolding node_step_ids by auto
  have rest_id: "step_resource x \<in> node_ref ` set nodes"
    if x: "x \<in> set (map step_id (concat (map (node_steps m) nodes)))" for x
  proof -
    from x obtain n' where "n' \<in> set nodes" "x \<in> set (map step_id (node_steps m n'))"
      unfolding set_map set_concat by blast
    with this_id show ?thesis by blast
  qed
  have "node_ref n \<notin> node_ref ` set nodes" using Cons.prems by auto
  then have "set (map step_id (node_steps m n)) \<inter>
      set (map step_id (concat (map (node_steps m) nodes))) = {}"
    using this_id rest_id by (metis disjoint_iff)
  moreover have "distinct (map step_id (node_steps m n))"
    unfolding node_step_ids by (simp add: distinct_map inj_on_def)
  moreover have "distinct (map step_id (concat (map (node_steps m) nodes)))"
    using Cons by simp
  ultimately show ?case by (simp only: list.map concat.simps map_append distinct_append)
qed

lemma node_steps_cases:
  assumes "s \<in> set (node_steps m n)"
  obtains (base) "s = base_step n"
    | (connect) c i a where "m (node_ref n) = Some (ContainerResource c)"
        "s = connect_step (node_ref n) i a" "0 < i" "a \<in> set (c_networks c)"
proof (cases "s = base_step n")
  case True
  then show ?thesis by (rule base)
next
  case False
  with assms obtain c where c: "m (node_ref n) = Some (ContainerResource c)"
    "s \<in> set (connect_steps (node_ref n) (c_networks c))"
    by (cases "m (node_ref n)") (auto simp: node_steps_def split: target_resource.splits)
  then obtain i a where ia: "(i, a) \<in> set (drop 1 (zip [0..<length (c_networks c)] (c_networks c)))"
    "s = connect_step (node_ref n) i a" by (auto simp: connect_steps_def)
  have "a \<in> set (c_networks c)" using ia(1) by (auto dest!: in_set_dropD set_zip_rightD)
  moreover have "0 < i"
  proof -
    have "i \<in> set (map fst (drop 1 (zip [0..<length (c_networks c)] (c_networks c))))"
      using ia(1) by force
    then have "i \<in> set (drop 1 [0..<length (c_networks c)])" by (simp flip: drop_map)
    then show ?thesis by (simp add: drop_upt)
  qed
  ultimately show ?thesis using connect c(1) ia(2) by blast
qed

lemma base_step_mem: "n \<in> set nodes \<Longrightarrow> base_id (node_ref n) \<in> step_id ` set (concat (map (node_steps m) nodes))"
  by (force simp: node_steps_def base_step_def)

lemma steps_closed:
  assumes "check_nodes rs nodes = Inr ()" and "s \<in> set (concat (map (node_steps (resource_map rs)) nodes))"
    and "d \<in> set (step_depends_on s)"
  shows "d \<in> step_id ` set (concat (map (node_steps (resource_map rs)) nodes))"
proof -
  from assms(2) obtain n where n: "n \<in> set nodes" "s \<in> set (node_steps (resource_map rs) n)" by auto
  from assms(1) have deps: "set (depends_on n) \<subseteq> node_ref ` set nodes"
    and right: "dependencies_right rs nodes" using n(1) by (auto simp: check_nodes_Inr)
  have "\<exists>r \<in> node_ref ` set nodes. d = base_id r"
  proof (cases rule: node_steps_cases [OF n(2)])
    case 1
    then show ?thesis using assms(3) deps by (auto simp: base_step_def)
  next
    case (2 c i a)
    have "(attachment_network a, NetworkKind) \<in> set (required_references c)"
      using 2(4) by (auto simp: required_references_def)
    then have "attachment_network a \<in> set (depends_on n)"
      using right n(1) 2(1) unfolding dependencies_right_def by blast
    then have "attachment_network a \<in> node_ref ` set nodes" using deps by blast
    then show ?thesis using assms(3) n(1) 2(2) by (auto simp: connect_step_def)
  qed
  then show ?thesis using base_step_mem by blast
qed

lemma steps_acyclic:
  assumes "acyclic (dependency_relation nodes)"
  shows "acyclic (step_relation (concat (map (node_steps m) nodes)))"
proof -
  let ?key = "\<lambda>x. (if step_ordinal x = 0 then 0 else 1 :: nat, step_resource x)"
  have wf: "wf (dependency_relation nodes)"
    by (rule finite_acyclic_wf [OF finite_dependency_relation assms])
  have "step_relation (concat (map (node_steps m) nodes)) \<subseteq>
      inv_image (less_than <*lex*> dependency_relation nodes) ?key"
  proof
    fix e assume "e \<in> step_relation (concat (map (node_steps m) nodes))"
    then obtain d s n where e: "e = (d, step_id s)" "n \<in> set nodes" "s \<in> set (node_steps m n)"
      "d \<in> set (step_depends_on s)" by (auto simp: step_relation_def)
    show "e \<in> inv_image (less_than <*lex*> dependency_relation nodes) ?key"
    proof (cases rule: node_steps_cases [OF e(3)])
      case 1
      then show ?thesis using e by (auto simp: base_step_def base_id_def dependency_relation_def)
    next
      case (2 c i a)
      then show ?thesis using e by (auto simp: connect_step_def base_id_def)
    qed
  qed
  then have "wf (step_relation (concat (map (node_steps m) nodes)))"
    by (rule wf_subset [OF wf_inv_image [OF wf_lex_prod [OF wf_less_than wf]]])
  then show ?thesis by (rule wf_acyclic)
qed

section \<open>Restricted ports\<close>

lemma restricted_port_refused:
  assumes "\<not> list_ex refuses (container_checks Rootless r c)" and "p \<in> set (c_ports c)"
    and "b \<in> set (pub_bindings p)" and "host_port b = Fixed n"
  shows "1024 \<le> unat n"
proof (rule ccontr)
  assume "\<not> 1024 \<le> unat n"
  then have "restricted_port b" using assms(4) by (simp add: restricted_port_def)
  then have "list_ex restricted_port (concat (map pub_bindings (c_ports c)))"
    using assms(2,3) unfolding list_ex_iff by auto
  then have "Refuse (RestrictedPort r Rootless) \<in> set (container_checks Rootless r c)"
    by (simp add: container_checks_def refuse_if_def)
  with assms(1) show False unfolding list_ex_iff by force
qed

lemma graph_source:
  assumes "operation_graph_new i caps nodes = Some (Inr g)"
  shows "pc_context caps = Some (graph_context g) \<and> graph_intent g = i \<and> graph_nodes g = nodes
    \<and> check_nodes (resources i) nodes = Inr () \<and> acyclic (dependency_relation nodes)
    \<and> check_target (pc_supports caps) (graph_context g) (resources i) = Inr ()
    \<and> graph_steps g = concat (map (node_steps (resource_map (resources i))) nodes)"
  using assms
  by (auto simp: operation_graph_new_cases bind_res_Inr_iff split: sum.splits if_splits)

lemma sample_resolved:
  "references_resolved sample_resources"
  unfolding references_resolved_def
  by (auto simp: sample_resources_def sample_container_def sample_attachment_def sample_network_def
      required_references_def volume_references_def)

definition everything :: planning_capabilities where
  "everything = \<lparr>pc_supports = (\<lambda>_. True), pc_context = target_context (TargetCapabilities sample_record)\<rparr>"

lemma sample_plannable: "x \<in> set sample_resources \<Longrightarrow> plannable Rootless x"
  by (auto simp: sample_resources_def plannable_def resource_checks_def container_checks_def
      refuse_if_def need_if_def sample_container_def sample_ports_def restricted_port_def
      port_checks_def binding_checks_def mount_checks_def attachment_checks_def command_checks_def
      settings_checks_def default_settings_def option_any_def sample_attachment_def
      network_checks_def network_create_checks_def sample_network_def sample_create_def
      network_create_bridge_def sample_ipam_def sample_pool_def sample_subnet_def)

lemma sample_refs: "distinct (map resource_reference sample_resources)"
  by (simp add: sample_resources_def sample_container_def sample_network_def)

lemma sample_target_context:
  "context_api (Target (tr_profile sample_record)) = ApiVersion 1 55"
  "context_mode (Target (tr_profile sample_record)) = Rootless"
  by (simp_all add: context_api_def context_mode_def sample_record_def target_profile_new_def)

lemma sample_plan: "\<exists>g. docker_plan (TargetIntent sample_resources) everything = Some (Inr g)
    \<and> graph_context g = Target (tr_profile sample_record)"
proof -
  have "check_nodes sample_resources (map plan_node sample_resources) = Inr ()"
    using sample_resolved by (simp add: check_plan_nodes [OF sample_refs])
  moreover have "check_target (\<lambda>_. True) (Target (tr_profile sample_record)) sample_resources = Inr ()"
    using sample_plannable by (simp add: check_target_Inr sample_target_context minimum_api_def)
  ultimately show ?thesis
    using docker_plan_cases [of "TargetIntent sample_resources" everything] sample_refs
    by (simp add: everything_def target_context_def)
qed

section \<open>Errors\<close>

lemma graph_new_iff:
  assumes "pc_context caps = Some ctx"
  shows "(\<exists>g. operation_graph_new i caps nodes = Some (Inr g)) \<longleftrightarrow>
    check_nodes (resources i) nodes = Inr () \<and> acyclic (dependency_relation nodes)
    \<and> check_target (pc_supports caps) ctx (resources i) = Inr ()"
  using assms
  by (cases "check_nodes (resources i) nodes") (auto simp: operation_graph_new_cases bind_res_Inr_iff)

lemma check_dependency_Inl:
  "check_dependency m n (r, k) = Inl e \<Longrightarrow> e = DependencyMismatch (node_ref n) r k"
  by (auto simp: check_dependency_def reject_if_Inl_iff)

lemma check_dependencies_Inl:
  "check_dependencies m n = Inl e \<Longrightarrow> \<exists>r k. e = DependencyMismatch (node_ref n) r k"
  unfolding check_dependencies_def
  by (auto split: option.splits target_resource.splits
      dest!: checks_Inl_mem sym [of "Inl e"] check_dependency_Inl)

lemma reject_if_eq_Inl: "Inl e = reject_if c e' \<Longrightarrow> e = e'"
  by (auto simp: reject_if_def split: if_splits)

lemma check_nodes_Inl:
  "check_nodes rs nodes = Inl e \<Longrightarrow> e = InvalidDependency \<or> (\<exists>n r k. e = DependencyMismatch n r k)"
  unfolding check_nodes_def
  by (drule checks_Inl_mem)
     (auto dest: reject_if_eq_Inl check_dependencies_Inl [OF sym])

lemma need_if_no_refusal: "Refuse e \<notin> set (need_if b f c)"
  by (simp add: need_if_def)

lemma binding_no_refusal: "Refuse e \<notin> set (binding_checks b)"
proof (cases "host_ip b")
  case (Address a)
  then show ?thesis by (cases a) (simp_all add: binding_checks_def need_if_no_refusal)
qed (simp add: binding_checks_def need_if_no_refusal)

lemma port_no_refusal: "Refuse e \<notin> set (port_checks p)"
  by (simp add: port_checks_def need_if_no_refusal binding_no_refusal)

lemma mount_no_refusal: "Refuse e \<notin> set (mount_checks m)"
proof -
  have "Refuse e \<notin> set (case mount_relabel m of None \<Rightarrow> []
      | Some SharedRelabel \<Rightarrow> [Need FldBindRelabel CapBindRelabelShared]
      | Some PrivateRelabel \<Rightarrow> [Need FldBindRelabel CapBindRelabelPrivate])"
    by (simp split: option.split bind_relabel.split)
  then show ?thesis by (cases "mount_source m") (simp_all add: mount_checks_def)
qed

lemma attachment_no_refusal: "Refuse e \<notin> set (attachment_checks a)"
  by (simp add: attachment_checks_def need_if_no_refusal)

lemma command_no_refusal: "Refuse e \<notin> set (command_checks c)"
  by (cases "c_command c"; cases "c_entrypoint c") (simp_all add: command_checks_def)

lemma health_no_refusal: "Refuse e \<notin> set (health_checks h)"
  by (cases "health_test h") (simp_all add: health_checks_def need_if_no_refusal)

lemma settings_no_refusal: "Refuse e \<notin> set (settings_checks s)"
  by (simp add: settings_checks_def need_if_no_refusal)

lemmas no_refusals = need_if_no_refusal port_no_refusal mount_no_refusal attachment_no_refusal
  command_no_refusal health_no_refusal settings_no_refusal

lemma refuse_if_mem: "Refuse e \<in> set (refuse_if b e') \<longleftrightarrow> b \<and> e = e'"
  by (auto simp: refuse_if_def)

lemma refusals:
  assumes "Refuse e \<in> set (resource_checks mode x)"
  shows "(\<exists>r. e = UnsupportedNetworkIpam r) \<or> (\<exists>r. e = RestrictedPort r mode)"
proof (cases x)
  case (NetworkResource n)
  with assms show ?thesis
    by (cases "network_source n")
       (auto simp: resource_checks_def network_checks_def network_create_checks_def refuse_if_mem
         no_refusals)
next
  case (ContainerResource c)
  with assms show ?thesis
    by (cases "c_healthcheck c")
       (auto simp: resource_checks_def container_checks_def refuse_if_mem no_refusals)
qed (use assms in \<open>auto simp: resource_checks_def no_refusals\<close>)

lemma check_resources_Inl:
  assumes "check_resources supports mode rs = Inl e"
  shows "\<exists>x \<in> set rs. (\<exists>r. e = UnsupportedNetworkIpam r) \<or> (\<exists>r. e = RestrictedPort r mode)
    \<or> (\<exists>f c. e = MissingCapability (resource_reference x) f c \<and> \<not> supports c
          \<and> c \<in> required_capabilities mode x)"
proof -
  from checks_Inl_mem [OF assms [unfolded check_resources_def]] obtain x where
    x: "x \<in> set rs" "run_checks supports (resource_reference x) (resource_checks mode x) = Inl e"
    by (auto dest: sym)
  from run_checks_Inl [OF x(2)] refusals [of e mode x] x(1) show ?thesis
    unfolding required_capabilities_def by force
qed

lemma check_target_Inl:
  "check_target supports ctx rs = Inl e \<Longrightarrow>
   e = UnsupportedApi (context_api ctx) minimum_api
   \<or> check_resources supports (context_mode ctx) rs = Inl e"
  by (auto simp: check_target_def Let_def split: if_splits)

section \<open>Properties\<close>

text \<open>C10: \<open>OperationGraph::new\<close>, for any nodes a caller gives it, never panics, and accepts exactly
  the node lists that match the intent one to one, name only other known references, include
  every network and volume each container needs with the right kind, and have an acyclic
  dependency relation, when the target's API and capabilities allow every resource. Kahn's
  worklist decides acyclicity.\<close>

theorem operation_graph_accepts:
  assumes "pc_context caps = Some ctx"
  shows "operation_graph_new i caps nodes \<noteq> None
    \<and> ((\<exists>g. operation_graph_new i caps nodes = Some (Inr g)) \<longleftrightarrow>
        length nodes = length (resources i) \<and> distinct (map node_ref nodes)
        \<and> (\<forall>n \<in> set nodes. node_matches (resources i) n)
        \<and> (\<forall>n \<in> set nodes. set (depends_on n) \<subseteq> node_ref ` set nodes - {node_ref n})
        \<and> dependencies_right (resources i) nodes
        \<and> acyclic (dependency_relation nodes)
        \<and> check_target (pc_supports caps) ctx (resources i) = Inr ())"
proof
  show "operation_graph_new i caps nodes \<noteq> None"
    by (simp add: operation_graph_new_cases assms split: sum.split)
  show "(\<exists>g. operation_graph_new i caps nodes = Some (Inr g)) \<longleftrightarrow>
        length nodes = length (resources i) \<and> distinct (map node_ref nodes)
        \<and> (\<forall>n \<in> set nodes. node_matches (resources i) n)
        \<and> (\<forall>n \<in> set nodes. set (depends_on n) \<subseteq> node_ref ` set nodes - {node_ref n})
        \<and> dependencies_right (resources i) nodes
        \<and> acyclic (dependency_relation nodes)
        \<and> check_target (pc_supports caps) ctx (resources i) = Inr ()"
    unfolding graph_new_iff [OF assms] check_nodes_Inr by blast
qed

theorem operation_graph_accepts_witness:
  "operation_graph_new (TargetIntent sample_resources) everything [] \<noteq> None"
  using operation_graph_accepts [of everything "Target (tr_profile sample_record)"]
  by (simp add: everything_def target_context_def)

text \<open>The outcome of the planner, for an accepted intent.\<close>

lemma docker_plan_decides:
  assumes "target_intent_new rs = Inr i" and "pc_context caps = Some ctx"
  shows "docker_plan i caps \<noteq> None \<and> docker_plan i caps \<noteq> Some (Inl Cycle)
    \<and> ((\<exists>g. docker_plan i caps = Some (Inr g)) \<longleftrightarrow>
        references_resolved rs
        \<and> api_major (context_api ctx) = 1 \<and> ApiVersion 1 41 \<le> context_api ctx
        \<and> (\<forall>r \<in> set rs. plannable (context_mode ctx) r
            \<and> required_capabilities (context_mode ctx) r \<subseteq> {c. pc_supports caps c}))"
proof -
  from assms(1) have i: "resources i = rs" and refs: "distinct (map resource_reference rs)"
    by (auto simp: target_intent_new_def target_intent_new_iff wf_intent_def)
  have "check_nodes rs (map plan_node rs) \<noteq> Inl Cycle" using check_nodes_Inl by fastforce
  moreover have "check_target (pc_supports caps) ctx rs \<noteq> Inl Cycle"
    using check_target_Inl check_resources_Inl by fastforce
  ultimately have "docker_plan i caps \<noteq> None \<and> docker_plan i caps \<noteq> Some (Inl Cycle)"
    using docker_plan_cases [of i caps ctx] refs assms(2)
    by (auto simp: i bind_res_def split: sum.splits)
  moreover have "(\<exists>g. docker_plan i caps = Some (Inr g)) \<longleftrightarrow>
      references_resolved rs \<and> check_target (pc_supports caps) ctx rs = Inr ()"
    unfolding docker_plan_def graph_new_iff [OF assms(2)] i check_plan_nodes [OF refs]
    using plan_nodes_acyclic [OF refs] by blast
  ultimately show ?thesis by (auto simp: check_target_Inr minimum_api_def)
qed

text \<open>C11: the planner never reports a cycle: for an accepted intent it returns a graph exactly when
  every reference a container names is a resource of the right kind, the rendering API is 1.x
  from 1.41 on, and every resource is plannable and supported.\<close>

theorem docker_plan_accepts:
  assumes "target_intent_new rs = Inr i" and "pc_context caps = Some ctx"
  shows "docker_plan i caps \<noteq> None \<and> docker_plan i caps \<noteq> Some (Inl Cycle)
    \<and> ((\<exists>g. docker_plan i caps = Some (Inr g)) \<longleftrightarrow>
        references_resolved rs
        \<and> api_major (context_api ctx) = 1 \<and> ApiVersion 1 41 \<le> context_api ctx
        \<and> (\<forall>r \<in> set rs. plannable (context_mode ctx) r
            \<and> required_capabilities (context_mode ctx) r \<subseteq> {c. pc_supports caps c}))"
  by (rule docker_plan_decides [OF assms])

theorem docker_plan_accepts_witness:
  "\<exists>g. docker_plan (TargetIntent sample_resources) everything = Some (Inr g)"
  using docker_plan_accepts [OF sample_intent_accepted, of everything
      "Target (tr_profile sample_record)"] sample_resolved sample_plannable
  by (auto simp: everything_def target_context_def sample_target_context)

text \<open>Planning offline uses only reviewed behaviour: when a plan for a resolved target
  succeeds, then for every capability any resource of the intent needs, all native shapes of
  that capability were admitted in the reviewed record of exactly that target; in particular no
  plan uses host networking or user namespaces.\<close>

theorem planned_features_reviewed:
  assumes "from_records rs = Inr cat" and "resolve cat p = Inr t"
    and "docker_plan i (target_planning t) = Some (Inr g)" and "r \<in> set (resources i)"
    and "c \<in> required_capabilities (pi_mode (tp_identity p)) r"
  shows "tc_record t \<in> set rs \<and> graph_context g = Target p
    \<and> {s. shape_capability s = c} \<subseteq> set (tr_shapes (tc_record t))
    \<and> c \<noteq> CapHostNetwork \<and> c \<noteq> CapUserNamespace"
proof -
  obtain x where t: "t = TargetCapabilities x" by (cases t)
  have x: "x \<in> set rs" "tr_profile x = p"
    using assms(2) resolve_iff [OF assms(1)] by (simp_all add: t)
  with assms(1) have adm: "admitted_record x" by (simp add: from_records_Inr list_all_iff)
  have ctx: "graph_context g = Target p"
    using graph_source [OF assms(3) [unfolded docker_plan_def]] x(2)
    by (simp add: target_planning_def target_context_def t)
  then have "c \<in> required_capabilities (context_mode (graph_context g)) r"
    using assms(5) by (simp add: context_mode_def)
  from target.planned_supported [OF target_planning_def assms(3,4) this]
  have "c \<in> set (available_capabilities (tr_capabilities x))" by (simp add: target_supports_iff t)
  with adm x(1) ctx show ?thesis unfolding admitted_record_def by (simp add: t) blast
qed

theorem planned_features_reviewed_witness:
  "{s. shape_capability s = CapNamedVolume} \<subseteq> set (tr_shapes sample_record)"
proof -
  let ?t = "TargetCapabilities sample_record" and ?i = "TargetIntent [sample_volume 1 ''v'']"
  have res: "resolve (Catalog [sample_record]) (tr_profile sample_record) = Inr ?t"
    by (simp add: resolve_def)
  have ctx: "pc_context (target_planning ?t) = Some (Target (tr_profile sample_record))"
    by (simp add: target_planning_def target_context_def)
  have sup: "pc_supports (target_planning ?t) CapNamedVolume"
    by (simp add: target_planning_def target_supports_def sample_record_def)
  have "\<exists>g. docker_plan ?i (target_planning ?t) = Some (Inr g)"
    using docker_plan_cases [of ?i, OF _ ctx] sup
    by (simp add: sample_volume_def check_nodes_def reject_if_def node_matches_def intent_action_def
        dependencies_known_def check_dependencies_def resource_map_def check_target_def
        sample_target_context minimum_api_def check_resources_def resource_checks_def need_if_def)
  then obtain g where g: "docker_plan ?i (target_planning ?t) = Some (Inr g)" by blast
  have "CapNamedVolume \<in> required_capabilities (pi_mode (tp_identity (tr_profile sample_record)))
      (sample_volume 1 ''v'')"
    by (simp add: required_capabilities_def resource_checks_def sample_volume_def)
  from planned_features_reviewed [OF sample_records_admitted res g _ this] show ?thesis by simp
qed

text \<open>The steps of a graph have distinct identities, every step depends only on steps of the
  graph, and the order of dependence of the steps is acyclic, connecting steps included.\<close>

theorem graph_steps_sound:
  assumes "operation_graph_new i caps nodes = Some (Inr g)"
  shows "distinct (map step_id (graph_steps g))
    \<and> (\<forall>s d. s \<in> set (graph_steps g) \<and> d \<in> set (step_depends_on s) \<longrightarrow> d \<in> step_id ` set (graph_steps g))
    \<and> acyclic (step_relation (graph_steps g))"
proof -
  from graph_source [OF assms] have nodes: "check_nodes (resources i) nodes = Inr ()"
    and ac: "acyclic (dependency_relation nodes)"
    and steps: "graph_steps g = concat (map (node_steps (resource_map (resources i))) nodes)"
    by simp_all
  from nodes have "distinct (map node_ref nodes)" by (simp add: check_nodes_Inr)
  with steps_closed [OF nodes] steps_acyclic [OF ac] step_ids_distinct show ?thesis
    unfolding steps by blast
qed

theorem graph_steps_sound_witness:
  "\<exists>g. docker_plan (TargetIntent sample_resources) everything = Some (Inr g)
     \<and> distinct (map step_id (graph_steps g))"
proof -
  from sample_plan obtain g where g: "docker_plan (TargetIntent sample_resources) everything = Some (Inr g)"
    by blast
  from graph_steps_sound [OF g [unfolded docker_plan_def]] g show ?thesis by blast
qed

text \<open>A graph for a rootless daemon publishes no fixed host port below 1024.\<close>

theorem rootless_ports_unprivileged:
  assumes "operation_graph_new i caps nodes = Some (Inr g)"
    and "context_mode (graph_context g) = Rootless" and "ContainerResource c \<in> set (resources i)"
    and "p \<in> set (c_ports c)" and "b \<in> set (pub_bindings p)" and "host_port b = Fixed n"
  shows "1024 \<le> unat n"
proof -
  from graph_source [OF assms(1)] assms(2,3) have "plannable Rootless (ContainerResource c)"
    by (auto simp: check_target_Inr)
  then have "\<not> list_ex refuses (container_checks Rootless (c_reference c) c)"
    by (simp add: plannable_def resource_checks_def)
  from restricted_port_refused [OF this assms(4-6)] show ?thesis .
qed

theorem rootless_ports_unprivileged_witness:
  "1024 \<le> unat (8080 :: u16)"
proof -
  from sample_plan obtain g where g: "docker_plan (TargetIntent sample_resources) everything = Some (Inr g)"
    "graph_context g = Target (tr_profile sample_record)" by blast
  show ?thesis
    by (rule rootless_ports_unprivileged [OF g(1) [unfolded docker_plan_def], where c = sample_container
        and p = "hd sample_ports" and b = "hd (pub_bindings (hd sample_ports))"])
       (simp_all add: g(2) sample_target_context sample_resources_def sample_container_def
         sample_ports_def)
qed

text \<open>An error about a missing capability is right: the resource it names is in the intent,
  needs that capability in the target's mode, and the source does not support it.\<close>

theorem missing_capability_reported:
  assumes "docker_plan i caps = Some (Inl (MissingCapability r f c))" and "pc_context caps = Some ctx"
  shows "\<not> pc_supports caps c
    \<and> (\<exists>x \<in> set (resources i). resource_reference x = r \<and> c \<in> required_capabilities (context_mode ctx) x)"
proof -
  have "check_nodes (resources i) (map plan_node (resources i)) \<noteq> Inl (MissingCapability r f c)"
    using check_nodes_Inl by fastforce
  with assms have "check_target (pc_supports caps) ctx (resources i) = Inl (MissingCapability r f c)"
    by (auto simp: docker_plan_def operation_graph_new_cases bind_res_Inl_iff
        split: sum.splits if_splits)
  then have "check_resources (pc_supports caps) (context_mode ctx) (resources i)
      = Inl (MissingCapability r f c)" using check_target_Inl by fastforce
  from check_resources_Inl [OF this] show ?thesis by auto
qed

theorem missing_capability_reported_witness:
  "\<not> pc_supports (everything\<lparr>pc_supports := (\<lambda>c. c \<noteq> CapNamedVolume)\<rparr>) CapNamedVolume"
proof -
  let ?caps = "everything\<lparr>pc_supports := (\<lambda>c. c \<noteq> CapNamedVolume)\<rparr>"
  have ctx: "pc_context ?caps = Some (Target (tr_profile sample_record))"
    by (simp add: everything_def target_context_def)
  have "docker_plan (TargetIntent [sample_volume 1 ''v'']) ?caps
      = Some (Inl (MissingCapability (ResourceRef 1) FldResource CapNamedVolume))"
    using docker_plan_cases [of "TargetIntent [sample_volume 1 ''v'']", OF _ ctx]
    by (simp add: sample_volume_def check_nodes_def reject_if_def node_matches_def intent_action_def
        dependencies_known_def check_dependencies_def resource_map_def check_target_def
        sample_target_context minimum_api_def check_resources_def resource_checks_def)
  from missing_capability_reported [OF this ctx] show ?thesis by simp
qed

text \<open>C17: the cycle check of a graph with closed dependencies ends without its worklist panicking,
  whatever order the hash map gives the first ready nodes in, and it counts every node exactly when
  no node depends on itself through others.\<close>

theorem cycle_check_decides:
  assumes "closed_nodes nodes" and "distinct ready"
    and "set ready = set (initial_ready (initial_counts nodes))"
  shows "\<exists>v. kahn (node_dependents nodes) (initial_counts nodes) ready 0 = Some v
    \<and> (v = length nodes \<longleftrightarrow> acyclic (dependency_relation nodes))"
  by (rule kahn_verdict [OF assms])

definition sample_edge :: "u64 \<Rightarrow> u64 \<Rightarrow> operation_node" where
  "sample_edge r d = \<lparr>node_operation = \<lparr>op_resource = ResourceRef r, op_kind = ContainerKind,
     op_action = Create\<rparr>,
     depends_on = [ResourceRef d]\<rparr>"

theorem cycle_check_decides_witness:
  "\<not> acyclic (dependency_relation [sample_edge 1 2, sample_edge 2 1])"
proof -
  let ?ns = "[sample_edge 1 2, sample_edge 2 1]"
  have "closed_nodes ?ns" by (simp add: closed_nodes_def sample_edge_def)
  from cycle_check_decides [OF this, of "[]"] show ?thesis
    by (simp add: initial_ready_def initial_counts_def sample_edge_def)
qed

end
