(* ===== verification/Render_Order.thy ===== *)
theory Render_Order
  imports Rendering Graph_Properties
begin

text \<open>
  The emission loop: on a graph the constructor accepted for an accepted intent it neither fails
  nor panics, emits every node once and after its dependencies, and writes for each node one line
  per document of the specification \<open>node_docs\<close>.
\<close>

section \<open>What a node stands for\<close>

definition request_doc :: "bytes \<Rightarrow> json \<Rightarrow> json" where
  "request_doc path body =
     JObject [(''method'', JString ''POST''), (''path'', JString path), (''body'', body)]"

definition connect_doc ::
  "bytes \<Rightarrow> (resource_ref \<Rightarrow> target_resource option) \<Rightarrow> container_intent \<Rightarrow> network_attachment \<Rightarrow> json"
where
  "connect_doc prefix m c a =
     request_doc (prefix @ ''networks/'' @ percent_encode (network_name m (attachment_network a))
       @ ''/connect'') (connection_doc c a)"

text \<open>The requests of a resource: created resources have one, a container one more for each
  network after its first, existing resources none.\<close>

definition resource_docs ::
  "bytes \<Rightarrow> (resource_ref \<Rightarrow> target_resource option) \<Rightarrow> target_resource \<Rightarrow> json list" where
  "resource_docs prefix m r =
     (case r of
        NetworkResource n \<Rightarrow>
          (case network_source n of
             CreateNetwork create \<Rightarrow>
               [request_doc (prefix @ ''networks/create'') (network_doc (network_identity n) create)]
           | ExternalNetwork _ _ \<Rightarrow> [])
      | VolumeResource _ i labels \<Rightarrow>
          [request_doc (prefix @ ''volumes/create'') (volume_doc i labels)]
      | ExternalVolumeResource _ _ \<Rightarrow> []
      | ContainerResource c \<Rightarrow>
          request_doc (prefix @ ''containers/create?name='' @ percent_encode (identity_bytes (c_identity c)))
            (container_doc m c)
          # map (connect_doc prefix m c) (drop 1 (c_networks c)))"

definition node_docs ::
  "bytes \<Rightarrow> (resource_ref \<Rightarrow> target_resource option) \<Rightarrow> operation_node \<Rightarrow> json list" where
  "node_docs prefix m n =
     (case m (node_ref n) of None \<Rightarrow> [] | Some r \<Rightarrow> resource_docs prefix m r)"

datatype prerequisite =
  NetworkRequired network_prerequisite
| VolumeRequired volume_prerequisite
| BindRequired bind_prerequisite

definition bind_required :: "container_intent \<Rightarrow> nat \<times> mount \<Rightarrow> prerequisite list" where
  "bind_required c im =
     (case (mount_relabel (snd im), mount_source (snd im)) of
        (Some relabel, Bind source) \<Rightarrow> [BindRequired
          \<lparr>bp_reference = c_reference c, bp_mount_index = fst im,
           bp_identity = identity_bytes (c_identity c), bp_source = source,
           bp_target = mount_target (snd im), bp_read_only = mount_read_only (snd im),
           bp_relabel = relabel, bp_source_conditions = all_source_conditions,
           bp_selinux_conditions = all_relabel_conditions\<rparr>]
      | _ \<Rightarrow> [])"

text \<open>What must exist before the requests are used: external networks and volumes, and the
  sources of relabelled binds, with their index among the mounts.\<close>

definition resource_prerequisites :: "target_resource \<Rightarrow> prerequisite list" where
  "resource_prerequisites r =
     (case r of
        NetworkResource n \<Rightarrow>
          (case network_source n of
             ExternalNetwork driver internal \<Rightarrow> [NetworkRequired
               \<lparr>np_reference = network_reference n, np_driver = driver, np_internal = internal,
                np_identity = identity_bytes (network_identity n)\<rparr>]
           | CreateNetwork _ \<Rightarrow> [])
      | VolumeResource _ _ _ \<Rightarrow> []
      | ExternalVolumeResource ref i \<Rightarrow> [VolumeRequired
          \<lparr>vp_reference = ref, vp_identity = identity_bytes i\<rparr>]
      | ContainerResource c \<Rightarrow>
          concat (map (bind_required c) (zip [0..<length (c_mounts c)] (c_mounts c))))"

definition node_prerequisites ::
  "(resource_ref \<Rightarrow> target_resource option) \<Rightarrow> operation_node \<Rightarrow> prerequisite list" where
  "node_prerequisites m n =
     (case m (node_ref n) of None \<Rightarrow> [] | Some r \<Rightarrow> resource_prerequisites r)"

text \<open>Every node after the nodes it depends on.\<close>

fun topological :: "resource_ref set \<Rightarrow> operation_node list \<Rightarrow> bool" where
  "topological emitted [] = True"
| "topological emitted (n # ns) =
     (set (depends_on n) \<subseteq> emitted \<and> topological (insert (node_ref n) emitted) ns)"

section \<open>The state after some requests and prerequisites\<close>

definition add_lines :: "bytes list \<Rightarrow> render_state \<Rightarrow> render_state" where
  "add_lines reqs st = st\<lparr>rs_lines := rs_lines st @ concat (map (\<lambda>r. r @ [CHR 0x0A]) reqs),
     rs_requests := rs_requests st @ reqs\<rparr>"

fun add_prerequisite :: "render_state \<Rightarrow> prerequisite \<Rightarrow> render_state" where
  "add_prerequisite st (NetworkRequired x) =
     st\<lparr>rs_order := rs_order st @ [NetworkPre (length (rs_networks st))],
        rs_networks := rs_networks st @ [x]\<rparr>"
| "add_prerequisite st (VolumeRequired x) =
     st\<lparr>rs_order := rs_order st @ [VolumePre (length (rs_volumes st))],
        rs_volumes := rs_volumes st @ [x]\<rparr>"
| "add_prerequisite st (BindRequired x) =
     st\<lparr>rs_order := rs_order st @ [BindSourcePre (length (rs_binds st))],
        rs_binds := rs_binds st @ [x]\<rparr>"

abbreviation add_prerequisites :: "prerequisite list \<Rightarrow> render_state \<Rightarrow> render_state" where
  "add_prerequisites ps st \<equiv> foldl add_prerequisite st ps"

lemma add_lines_simps [simp]:
  "add_lines [] st = st" "add_lines rs (add_lines qs st) = add_lines (qs @ rs) st"
  by (simp_all add: add_lines_def)

lemma add_prerequisite_lines: "add_prerequisite (add_lines rs st) p = add_lines rs (add_prerequisite st p)"
  by (cases p) (simp_all add: add_lines_def)

lemma add_prerequisites_lines:
  "add_prerequisites ps (add_lines rs st) = add_lines rs (add_prerequisites ps st)"
  by (induction ps arbitrary: st) (simp_all add: add_prerequisite_lines)

definition texts_of :: "bytes list \<Rightarrow> json list \<Rightarrow> bool" where
  "texts_of reqs docs \<longleftrightarrow> list_all2 (\<lambda>s j. lexes s (json_tokens j)) reqs docs"

lemma texts_of_simps [simp]:
  "texts_of [] []" "texts_of (r # rs) (d # ds) \<longleftrightarrow> lexes r (json_tokens d) \<and> texts_of rs ds"
  by (simp_all add: texts_of_def)

lemma texts_of_append: "texts_of qs cs \<Longrightarrow> texts_of rs ds \<Longrightarrow> texts_of (qs @ rs) (cs @ ds)"
  by (simp add: texts_of_def list_all2_appendI)

section \<open>One request\<close>

lemma append_request_lines:
  assumes "lexes body (json_tokens j)" and "valid_utf8 path"
  shows "\<exists>q. append_request st (path, body) = Inr (add_lines [q] st)
    \<and> lexes q (json_tokens (request_doc path j))"
proof -
  have b: "renders (lit body) (json_tokens j)" using assms(1) by (simp add: renders_def)
  have "renders (request_text path body) (json_tokens (request_doc path j))"
    unfolding request_text_def
    by (rule renders_eq, (rule b renders_intros
        | simp add: punct_simps assms(2) request_doc_def doc_simps)+)
  then obtain q where "request_text path body = Inr q" "lexes q (json_tokens (request_doc path j))"
    by (auto simp: renders_def)
  then show ?thesis by (intro exI [of _ q]) (simp add: append_request_def add_lines_def)
qed

lemma valid_utf8_percent_encode [simp]: "valid_utf8 (percent_encode b)"
proof -
  have d: "is_ascii (upper_digit_char n)" if "n < 16" for n
    using hex_val_upper_digit_char [OF that] by (auto simp: hex_val_def is_ascii_def is_digit_def split: if_splits)
  have h: "\<forall>x \<in> set (upper_hex2 c). is_ascii x" for c
  proof -
    have "byte_val c div 16 < 16" using byte_val_less [of c] by linarith
    then show ?thesis by (simp add: upper_hex2_def d)
  qed
  have "\<forall>x \<in> set (percent_encode b). is_ascii x"
    using h by (auto simp: percent_encode_def unreserved_def is_ascii_def dest: alnum_ascii [unfolded is_ascii_def]
        split: if_splits)
  then show ?thesis by (rule valid_utf8_ascii)
qed

lemma valid_utf8_prefix [simp]: "valid_utf8 (version_prefix v)"
  unfolding version_prefix_def by (intro valid_utf8_append) (simp_all add: is_ascii_def)

section \<open>One node\<close>

definition resource_built :: "target_resource \<Rightarrow> bool" where
  "resource_built r =
     (case r of
        NetworkResource n \<Rightarrow> network_built n
      | VolumeResource _ i labels \<Rightarrow> valid_identity (identity_bytes i)
          \<and> list_all (\<lambda>l. volume_label_ok (volume_label_key l, volume_label_value l)) labels
      | ExternalVolumeResource _ i \<Rightarrow> valid_identity (identity_bytes i)
      | ContainerResource c \<Rightarrow> container_built c)"

lemma resource_built_identity: "resource_built r \<Longrightarrow> valid_identity (identity_bytes (resource_identity r))"
  by (cases r) (simp_all add: resource_built_def network_built_def container_built_def)

lemma renders_lexes: "renders x ts \<Longrightarrow> \<exists>s. x = Inr s \<and> lexes s ts"
  by (simp add: renders_def)

lemma push_bind_add:
  "wf_mount (snd im) \<Longrightarrow> push_bind c st im = Inr (add_prerequisites (bind_required c im) st)"
  by (cases im; cases "mount_relabel (snd im)"; cases "mount_source (snd im)")
     (simp_all add: push_bind_def bind_required_def wf_mount_def)

lemma push_binds_add:
  "\<forall>im \<in> set ims. wf_mount (snd im) \<Longrightarrow>
   try_fold (push_bind c) st ims = Inr (add_prerequisites (concat (map (bind_required c) ims)) st)"
  by (induction ims arbitrary: st) (simp_all add: push_bind_add)

lemma connect_request_lines:
  assumes "container_built c" and "resolves m c" and "i < length (c_networks c)" and "valid_utf8 prefix"
  shows "\<exists>q. connect_request prefix m c st (connect_step r i (c_networks c ! i)) = Inr (add_lines [q] st)
    \<and> lexes q (json_tokens (connect_doc prefix m c (c_networks c ! i)))"
proof -
  let ?a = "c_networks c ! i"
  have mem: "?a \<in> set (c_networks c)" using assms(3) by simp
  from resolves_network [OF assms(2) mem] obtain n where
    n: "network_lookup m (attachment_network ?a) = Inr n"
      "identity_bytes (network_identity n) = network_name m (attachment_network ?a)" by blast
  have built: "attachment_built ?a" "valid_identity (identity_bytes (c_identity c))"
    using assms(1) mem by (auto simp: container_built_def list_all_iff)
  from renders_lexes [OF renders_connection [OF built]] obtain body where
    body: "cat [lit ''{'', key ''Container'', json_string (identity_bytes (c_identity c)),
        next_key ''EndpointConfig'', render_endpoint ?a, lit ''}''] = (Inr body :: bytes render)"
      "lexes body (json_tokens (connection_doc c ?a))" by blast
  let ?path = "prefix @ ''networks/'' @ percent_encode (network_name m (attachment_network ?a)) @ ''/connect''"
  have "valid_utf8 ''networks/''" "valid_utf8 ''/connect''" by (simp_all add: is_ascii_def)
  then have "valid_utf8 ?path" using assms(4) by (intro valid_utf8_append) simp_all
  from append_request_lines [OF body(2) this, of st] obtain q where
    q: "append_request st (?path, body) = Inr (add_lines [q] st)"
      "lexes q (json_tokens (request_doc ?path (connection_doc c ?a)))" by blast
  have "render_secondary_connection c ?a m = Inr (''networks/'' @ percent_encode (network_name m
      (attachment_network ?a)) @ ''/connect'', body)"
    unfolding render_secondary_connection_def n(1) body(1) bind_res_simps n(2) ..
  then show ?thesis
    using q assms(3)
    by (intro exI [of _ q]) (simp add: connect_request_def connect_step_def connect_doc_def)
qed

lemma connect_requests_lines:
  assumes "container_built c" and "resolves m c" and "valid_utf8 prefix"
    and "list_all (\<lambda>(i, a). i < length (c_networks c) \<and> a = c_networks c ! i) ias"
  shows "\<exists>qs. try_fold (connect_request prefix m c) st (map (\<lambda>(i, a). connect_step r i a) ias)
      = Inr (add_lines qs st)
    \<and> texts_of qs (map (\<lambda>(i, a). connect_doc prefix m c a) ias)"
  using assms(4)
proof (induction ias arbitrary: st)
  case Nil
  show ?case by (rule exI [of _ "[]"]) simp
next
  case (Cons ia ias)
  obtain i a where ia: "ia = (i, a)" by (cases ia)
  with Cons.prems have i: "i < length (c_networks c)" "a = c_networks c ! i" by simp_all
  from connect_request_lines [OF assms(1,2) i(1) assms(3), of st r] obtain q where
    q: "connect_request prefix m c st (connect_step r i a) = Inr (add_lines [q] st)"
      "lexes q (json_tokens (connect_doc prefix m c a))" unfolding i(2) by blast
  from Cons.IH [of "add_lines [q] st"] Cons.prems obtain qs where
    "try_fold (connect_request prefix m c) (add_lines [q] st) (map (\<lambda>(i, a). connect_step r i a) ias)
      = Inr (add_lines (q # qs) st)"
    "texts_of qs (map (\<lambda>(i, a). connect_doc prefix m c a) ias)" by auto
  with q ia show ?case by (intro exI [of _ "q # qs"]) simp
qed

lemma connects_steps:
  assumes "distinct (map node_ref nodes)" and "n \<in> set nodes"
  shows "filter (connects (node_ref n)) (concat (map (node_steps m) nodes)) =
    (case m (node_ref n) of Some (ContainerResource c) \<Rightarrow> connect_steps (node_ref n) (c_networks c)
     | _ \<Rightarrow> [])"
proof -
  have other: "filter (connects (node_ref n)) (node_steps m k) = []" if "node_ref k \<noteq> node_ref n" for k
    using that by (auto simp: filter_empty_conv node_steps_def base_step_def base_id_def connect_steps_def
        connect_step_def connects_def split: option.splits target_resource.splits)
  have same: "filter (connects (node_ref n)) (node_steps m n) =
    (case m (node_ref n) of Some (ContainerResource c) \<Rightarrow> connect_steps (node_ref n) (c_networks c)
     | _ \<Rightarrow> [])"
  proof -
    have "filter (connects r) (connect_steps r as) = connect_steps r as" for r as
      by (auto simp: filter_id_conv connect_steps_def connect_step_def connects_def)
    moreover have "\<not> connects r (base_step n)" for r
      by (simp add: connects_def base_step_def split: operation_action.splits)
    ultimately show ?thesis by (simp add: node_steps_def split: option.split target_resource.split)
  qed
  have none: "filter (connects (node_ref n)) (concat (map (node_steps m) ks)) = []"
    if "node_ref n \<notin> node_ref ` set ks" for ks
    using that by (induction ks) (auto simp: other)
  from assms show ?thesis
  proof (induction nodes)
    case (Cons k ks)
    show ?case
    proof (cases "k = n")
      case True
      with Cons.prems none [of ks] same show ?thesis by auto
    next
      case False
      with Cons show ?thesis using other [of k] by (auto simp: image_iff)
    qed
  qed simp
qed

lemma connect_steps_lines:
  assumes "container_built c" and "resolves m c" and "valid_utf8 prefix"
  shows "\<exists>qs. try_fold (connect_request prefix m c) st (connect_steps r (c_networks c))
      = Inr (add_lines qs st)
    \<and> texts_of qs (map (connect_doc prefix m c) (drop 1 (c_networks c)))"
proof -
  let ?ias = "drop 1 (zip [0..<length (c_networks c)] (c_networks c))"
  have "list_all (\<lambda>(i, a). i < length (c_networks c) \<and> a = c_networks c ! i) ?ias"
    by (auto simp: list_all_iff set_zip dest!: in_set_dropD)
  from connect_requests_lines [OF assms this] obtain qs where
    "try_fold (connect_request prefix m c) st (connect_steps r (c_networks c)) = Inr (add_lines qs st)"
    "texts_of qs (map (\<lambda>(i, a). connect_doc prefix m c a) ?ias)"
    unfolding connect_steps_def by blast
  moreover have "map (\<lambda>(i, a). connect_doc prefix m c a) ?ias = map (connect_doc prefix m c) (drop 1 (c_networks c))"
  proof -
    have "map snd ?ias = drop 1 (c_networks c)" by (simp flip: drop_map)
    then have "map (connect_doc prefix m c) (map snd ?ias) = map (connect_doc prefix m c) (drop 1 (c_networks c))"
      by (rule arg_cong)
    then show ?thesis by (simp add: comp_def case_prod_unfold)
  qed
  ultimately show ?thesis by auto
qed

lemma emit_node_lines:
  assumes "distinct (map node_ref (graph_nodes g))" and "n \<in> set (graph_nodes g)"
    and "graph_steps g = concat (map (node_steps m) (graph_nodes g))"
    and "m (node_ref n) = Some r" and "resource_built r"
    and "\<And>c. r = ContainerResource c \<Longrightarrow> resolves m c" and "valid_utf8 prefix"
  shows "\<exists>qs. emit_node prefix g m n st =
      Inr (add_lines qs (add_prerequisites (node_prerequisites m n) st))
    \<and> texts_of qs (node_docs prefix m n)"
proof -
  have path: "valid_utf8 (prefix @ ''networks/create'')" "valid_utf8 (prefix @ ''volumes/create'')"
    "valid_utf8 (prefix @ ''containers/create?name='' @ percent_encode b)" for b
    using assms(7) by (auto simp: is_ascii_def intro!: valid_utf8_append)
  show ?thesis
  proof (cases r)
    case (NetworkResource net)
    show ?thesis
    proof (cases "network_source net")
      case (CreateNetwork create)
      have "network_built net" using assms(5) NetworkResource by (simp add: resource_built_def)
      from renders_lexes [OF renders_network [OF this CreateNetwork]] obtain body where
        body: "render_network net = Inr body" "lexes body (json_tokens (network_doc (network_identity net) create))"
        by blast
      from append_request_lines [OF body(2) path(1), of st] obtain q where
        "append_request st (prefix @ ''networks/create'', body) = Inr (add_lines [q] st)"
        "lexes q (json_tokens (request_doc (prefix @ ''networks/create'') (network_doc (network_identity net) create)))"
        by blast
      then show ?thesis
        using assms(4) NetworkResource CreateNetwork body(1)
        by (intro exI [of _ "[q]"]) (simp add: emit_node_def node_request_def connect_requests_def
            node_prerequisites_def resource_prerequisites_def node_docs_def resource_docs_def)
    next
      case (ExternalNetwork driver internal)
      then show ?thesis
        using assms(4) NetworkResource
        by (intro exI [of _ "[]"]) (simp add: emit_node_def node_request_def connect_requests_def
            node_prerequisites_def resource_prerequisites_def node_docs_def resource_docs_def
            push_network_def)
    qed
  next
    case (VolumeResource ref i labels)
    have "valid_identity (identity_bytes i)"
      "list_all (\<lambda>l. volume_label_ok (volume_label_key l, volume_label_value l)) labels"
      using assms(5) VolumeResource by (simp_all add: resource_built_def)
    from renders_lexes [OF renders_volume [OF this]] obtain body where
      body: "render_volume i labels = Inr body" "lexes body (json_tokens (volume_doc i labels))" by blast
    from append_request_lines [OF body(2) path(2), of st] obtain q where
      "append_request st (prefix @ ''volumes/create'', body) = Inr (add_lines [q] st)"
      "lexes q (json_tokens (request_doc (prefix @ ''volumes/create'') (volume_doc i labels)))" by blast
    then show ?thesis
      using assms(4) VolumeResource body(1)
      by (intro exI [of _ "[q]"]) (simp add: emit_node_def node_request_def connect_requests_def
          node_prerequisites_def resource_prerequisites_def node_docs_def resource_docs_def)
  next
    case (ExternalVolumeResource ref i)
    then show ?thesis
      using assms(4)
      by (intro exI [of _ "[]"]) (simp add: emit_node_def node_request_def connect_requests_def
          node_prerequisites_def resource_prerequisites_def node_docs_def resource_docs_def push_volume_def)
  next
    case (ContainerResource c)
    have built: "container_built c" and res: "resolves m c"
      using assms(5,6) ContainerResource by (simp_all add: resource_built_def)
    let ?ps = "concat (map (bind_required c) (zip [0..<length (c_mounts c)] (c_mounts c)))"
    let ?st = "add_prerequisites ?ps st"
    have binds: "try_fold (push_bind c) st (zip [0..<length (c_mounts c)] (c_mounts c)) = Inr ?st"
      using built by (intro push_binds_add) (auto simp: container_built_def list_all_iff dest!: set_zip_rightD)
    from renders_lexes [OF renders_container [OF built res]] obtain body where
      body: "render_container c m = Inr body" "lexes body (json_tokens (container_doc m c))" by blast
    let ?path = "prefix @ ''containers/create?name='' @ percent_encode (identity_bytes (c_identity c))"
    from append_request_lines [OF body(2) path(3), of ?st] obtain q where
      q: "append_request ?st (?path, body) = Inr (add_lines [q] ?st)"
        "lexes q (json_tokens (request_doc ?path (container_doc m c)))" by blast
    from connect_steps_lines [OF built res assms(7), of "add_lines [q] ?st" "node_ref n"] obtain qs where
      qs: "try_fold (connect_request prefix m c) (add_lines [q] ?st) (connect_steps (node_ref n) (c_networks c))
          = Inr (add_lines (q # qs) ?st)"
        "texts_of qs (map (connect_doc prefix m c) (drop 1 (c_networks c)))"
      by (simp only: add_lines_simps append_Cons append_Nil) blast
    have "filter (connects (node_ref n)) (graph_steps g) = connect_steps (node_ref n) (c_networks c)"
      using connects_steps [OF assms(1,2), of m] assms(3,4) ContainerResource by simp
    then show ?thesis
      using assms(4) ContainerResource body(1) q qs binds
      by (intro exI [of _ "q # qs"]) (simp add: emit_node_def node_request_def connect_requests_def
          node_prerequisites_def resource_prerequisites_def node_docs_def resource_docs_def)
  qed
qed

section \<open>The loop\<close>

lemma next_node_Some:
  assumes "next_node nodes emitted = Some n"
  shows "n \<in> set nodes \<and> node_ref n \<notin> set emitted \<and> set (depends_on n) \<subseteq> set emitted"
  using assms by (auto simp: next_node_def find_Some_iff list_all_iff in_set_conv_nth)

lemma next_node_exists:
  assumes "closed_nodes nodes" and "acyclic (dependency_relation nodes)"
    and "distinct emitted" and "length emitted < length nodes"
  shows "\<exists>n. next_node nodes emitted = Some n"
proof -
  let ?left = "node_ref ` set nodes - set emitted"
  have "card (set emitted) < card (node_ref ` set nodes)"
    using assms(1,3,4) distinct_card [of "map node_ref nodes"] by (simp add: closed_nodes_def distinct_card)
  then have "?left \<noteq> {}" by (metis Diff_eq_empty_iff card_mono List.finite_set not_less)
  moreover have "wf (dependency_relation nodes)"
  proof (rule finite_acyclic_wf)
    have "dependency_relation nodes \<subseteq> (node_ref ` set nodes) \<times> (node_ref ` set nodes)"
      using assms(1) by (auto simp: dependency_relation_def closed_nodes_def)
    then show "finite (dependency_relation nodes)" by (rule finite_subset) simp
  qed (rule assms(2))
  ultimately obtain r where r: "r \<in> ?left" "\<And>d. (d, r) \<in> dependency_relation nodes \<Longrightarrow> d \<notin> ?left"
    by (metis wfE_min ex_in_conv)
  then obtain n where n: "n \<in> set nodes" "node_ref n = r" by auto
  have "d \<in> set emitted" if "d \<in> set (depends_on n)" for d
  proof -
    have "(d, r) \<in> dependency_relation nodes" using that n by (auto simp: dependency_relation_def)
    moreover have "d \<in> node_ref ` set nodes" using assms(1) n that by (auto simp: closed_nodes_def)
    ultimately show ?thesis using r(2) by blast
  qed
  then have "\<exists>n \<in> set nodes. node_ref n \<notin> set emitted \<and> list_all (\<lambda>d. d \<in> set emitted) (depends_on n)"
    using n r(1) by (intro bexI [of _ n]) (auto simp: list_all_iff)
  then show ?thesis
    unfolding next_node_def by (metis (mono_tags, lifting) find_None_iff not_None_eq)
qed

text \<open>What holds of a graph when it is rendered.\<close>

definition renderable :: "operation_graph \<Rightarrow> (resource_ref \<Rightarrow> target_resource option) \<Rightarrow> bool" where
  "renderable g m \<longleftrightarrow> closed_nodes (graph_nodes g) \<and> acyclic (dependency_relation (graph_nodes g))
     \<and> graph_steps g = concat (map (node_steps m) (graph_nodes g))
     \<and> (\<forall>n \<in> set (graph_nodes g). \<exists>r. m (node_ref n) = Some r \<and> resource_built r
          \<and> (\<forall>c. r = ContainerResource c \<longrightarrow> resolves m c))"

lemma emit_loop_done:
  assumes "renderable g m" and "valid_utf8 prefix"
    and "distinct emitted" and "set emitted \<subseteq> node_ref ` set (graph_nodes g)"
  shows "\<exists>order qs. emit_loop prefix g m emitted st =
      Inr (rev (map node_ref order) @ emitted,
        add_lines qs (add_prerequisites (concat (map (node_prerequisites m) order)) st))
    \<and> texts_of qs (concat (map (node_docs prefix m) order))
    \<and> topological (set emitted) order
    \<and> distinct (rev (map node_ref order) @ emitted) \<and> set order \<subseteq> set (graph_nodes g)
    \<and> length order + length emitted = length (graph_nodes g)"
  using assms(3,4)
proof (induction "length (graph_nodes g) - length emitted" arbitrary: emitted st)
  case 0
  have "distinct (map node_ref (graph_nodes g))"
    using assms(1) by (simp add: renderable_def closed_nodes_def)
  then have "card (node_ref ` set (graph_nodes g)) = length (graph_nodes g)"
    by (metis distinct_card length_map set_map)
  moreover have "card (set emitted) \<le> card (node_ref ` set (graph_nodes g))"
    using 0(3) by (intro card_mono) auto
  ultimately have "length emitted = length (graph_nodes g)"
    using 0 distinct_card [of emitted] by simp
  then show ?case
    using 0 by (intro exI [of _ "[]"]) (simp add: emit_loop.simps)
next
  case (Suc k)
  from assms(1) have g: "closed_nodes (graph_nodes g)" "acyclic (dependency_relation (graph_nodes g))"
    "graph_steps g = concat (map (node_steps m) (graph_nodes g))" by (simp_all add: renderable_def)
  have short: "length emitted < length (graph_nodes g)" using Suc(2) by simp
  from next_node_exists [OF g(1,2) Suc(3) short] obtain n where n: "next_node (graph_nodes g) emitted = Some n"
    by blast
  from next_node_Some [OF n] have nn: "n \<in> set (graph_nodes g)" "node_ref n \<notin> set emitted"
    "set (depends_on n) \<subseteq> set emitted" by simp_all
  from assms(1) nn(1) obtain r where r: "m (node_ref n) = Some r" "resource_built r"
    "\<And>c. r = ContainerResource c \<Longrightarrow> resolves m c" unfolding renderable_def by blast
  from emit_node_lines [OF _ nn(1) g(3) r assms(2), of st] g(1) obtain qs where
    qs: "emit_node prefix g m n st = Inr (add_lines qs (add_prerequisites (node_prerequisites m n) st))"
      "texts_of qs (node_docs prefix m n)" unfolding closed_nodes_def by blast
  have "k = length (graph_nodes g) - length (node_ref n # emitted)" using Suc(2) by simp
  from Suc(1) [OF this, of "add_lines qs (add_prerequisites (node_prerequisites m n) st)"] Suc(3,4) nn
  obtain order rs where ih:
    "emit_loop prefix g m (node_ref n # emitted) (add_lines qs (add_prerequisites (node_prerequisites m n) st)) =
      Inr (rev (map node_ref order) @ node_ref n # emitted,
        add_lines rs (add_prerequisites (concat (map (node_prerequisites m) order))
          (add_lines qs (add_prerequisites (node_prerequisites m n) st))))"
    "texts_of rs (concat (map (node_docs prefix m) order))"
    "topological (set (node_ref n # emitted)) order"
    "distinct (rev (map node_ref order) @ node_ref n # emitted)" "set order \<subseteq> set (graph_nodes g)"
    "length order + length (node_ref n # emitted) = length (graph_nodes g)" by fastforce
  have "emit_loop prefix g m emitted st = Inr (rev (map node_ref (n # order)) @ emitted,
      add_lines (qs @ rs) (add_prerequisites (concat (map (node_prerequisites m) (n # order))) st))"
    using ih(1) by (subst emit_loop.simps) (simp add: short n qs(1) add_prerequisites_lines)
  then show ?case
    using ih(2-6) qs(2) nn
    by (intro exI [of _ "n # order"] exI [of _ "qs @ rs"]) (simp add: texts_of_append)
qed

end
