(* ===== verification/Render_Complete.thy ===== *)
theory Render_Complete
  imports Render_Order
begin

text \<open>
  The complete artifact of \<^verbatim>\<open>src/target_modules/render.rs\<close>: the document of its text, with the
  context, the requests and the prerequisites in the order they were met, and the framing of the
  request stream by line feeds.
\<close>

section \<open>Documents\<close>

definition api_doc :: "api_version \<Rightarrow> json" where
  "api_doc v = JString (api_text v)"

definition build_doc :: "engine_build \<Rightarrow> json" where
  "build_doc b =
     (case b of
        Upstream \<Rightarrow> JObject [(''kind'', JString ''upstream'')]
      | DebianPackage revision \<Rightarrow> JObject [(''kind'', JString ''debian_package''),
          (''revision'', JString (revision_text revision))])"

definition context_doc :: "planning_context \<Rightarrow> json" where
  "context_doc ctx =
     (case ctx of
        Observed s \<Rightarrow> JObject [(''kind'', JString ''observed''),
          (''provenance'', JString ''process_local_only''),
          (''engine_release'', JString (release_text (scope_release s))),
          (''api_version'', api_doc (scope_api s)),
          (''daemon_mode'', JString (daemon_mode_name (scope_mode s)))]
      | Target p \<Rightarrow> JObject [(''kind'', JString ''target''),
          (''build'', build_doc (pi_build (tp_identity p))),
          (''engine_release'', JString (release_text (pi_release (tp_identity p)))),
          (''advertised_api_version'', api_doc (pi_advertised (tp_identity p))),
          (''acquisition_api_version'', api_doc (pi_acquisition (tp_identity p))),
          (''rendering_api_version'', api_doc (pi_rendering (tp_identity p))),
          (''daemon_mode'', JString (daemon_mode_name (pi_mode (tp_identity p)))),
          (''evidence_sha256'', JString (concat (map hex2 (sha256_bytes (tp_evidence_key p)))))])"

definition reference_doc :: "resource_ref \<Rightarrow> json" where
  "reference_doc r = JString (dec (unat (local_index r)))"

definition bind_doc :: "bind_prerequisite \<Rightarrow> json" where
  "bind_doc b = JObject [(''kind'', JString ''bind_source''), (''reference'', reference_doc (bp_reference b)),
     (''identity'', JString (bp_identity b)), (''mount_index'', JString (dec (bp_mount_index b))),
     (''source'', JString (bp_source b)), (''target'', JString (bp_target b)),
     (''read_only'', JBool (bp_read_only b)),
     (''relabel'', JString (case bp_relabel b of SharedRelabel \<Rightarrow> ''shared'' | PrivateRelabel \<Rightarrow> ''private'')),
     (''source_conditions'', strings_doc [''exists'', ''type_reviewed'', ''contents_reviewed'',
       ''ownership_reviewed'', ''permissions_reviewed'']),
     (''selinux_effect'', JString ''unverified''),
     (''selinux_conditions'', strings_doc [''daemon_selinux_enabled'', ''container_mount_label_present'',
       ''policy_filesystem_support'', ''relabel_authority''])]"

fun prerequisite_doc :: "prerequisite \<Rightarrow> json" where
  "prerequisite_doc (NetworkRequired n) = JObject ([(''kind'', JString ''network''),
     (''reference'', reference_doc (np_reference n)), (''identity'', JString (np_identity n)),
     (''expected_driver'', JString (network_driver_name (np_driver n)))]
     @ member_of ''expected_internal'' JBool (np_internal n))"
| "prerequisite_doc (VolumeRequired v) = JObject [(''kind'', JString ''volume''),
     (''reference'', reference_doc (vp_reference v)), (''identity'', JString (vp_identity v))]"
| "prerequisite_doc (BindRequired b) = bind_doc b"

text \<open>Schema 3 once a network states an expectation about \<^verbatim>\<open>Internal\<close>, else 2 once a bind source
  must be reviewed, else 1.\<close>

definition schema_of :: "prerequisite list \<Rightarrow> nat" where
  "schema_of ps =
     (if \<exists>n. NetworkRequired n \<in> set ps \<and> np_internal n \<noteq> None then 3
      else if \<exists>b. BindRequired b \<in> set ps then 2 else 1)"

definition complete_doc :: "planning_context \<Rightarrow> json list \<Rightarrow> prerequisite list \<Rightarrow> json" where
  "complete_doc ctx docs ps = JObject [(''schema_version'', JNum (int (schema_of ps))),
     (''context'', context_doc ctx), (''requests'', JArray docs),
     (''prerequisites'', JArray (map prerequisite_doc ps))]"

section \<open>Contexts and prerequisites are rendered\<close>

text \<open>The strings of a context are Rust strings, so they are UTF-8.\<close>

definition context_text :: "planning_context \<Rightarrow> bool" where
  "context_text ctx \<longleftrightarrow>
     (case ctx of
        Observed s \<Rightarrow> valid_utf8 (release_text (scope_release s))
      | Target p \<Rightarrow> valid_utf8 (release_text (pi_release (tp_identity p)))
          \<and> (case pi_build (tp_identity p) of
               Upstream \<Rightarrow> True | DebianPackage r \<Rightarrow> valid_utf8 (revision_text r)))"

lemma valid_utf8_api [simp]: "valid_utf8 (api_text v)"
  by (simp add: api_text_def is_ascii_def)

lemma valid_utf8_names [simp]:
  "valid_utf8 (daemon_mode_name mode)" "valid_utf8 (network_driver_name driver)"
proof -
  show "valid_utf8 (daemon_mode_name mode)" by (cases mode) (simp_all add: is_ascii_def)
  show "valid_utf8 (network_driver_name driver)" by (cases driver) (simp_all add: is_ascii_def)
qed

lemma renders_api [renders_intros]: "renders (append_api_version v) (json_tokens (api_doc v))"
  by (simp add: append_api_version_def api_doc_def renders_json_string)

lemma renders_build [renders_intros]:
  "(case b of Upstream \<Rightarrow> True | DebianPackage r \<Rightarrow> valid_utf8 (revision_text r)) \<Longrightarrow>
   renders (append_build b) (json_tokens (build_doc b))"
proof (cases b)
  case Upstream
  show ?thesis
    unfolding Upstream append_build_def engine_build.case
    by (rule renders_eq, (rule renders_intros | simp add: punct_simps build_doc_def doc_simps)+)
next
  case (DebianPackage r)
  assume "case b of Upstream \<Rightarrow> True | DebianPackage r \<Rightarrow> valid_utf8 (revision_text r)"
  then have "valid_utf8 (revision_text r)" using DebianPackage by simp
  then show ?thesis
    unfolding DebianPackage append_build_def engine_build.case
    by - (rule renders_eq, (rule renders_intros | simp add: punct_simps build_doc_def doc_simps)+)
qed

lemma plain_hex: "list_all plain_char (concat (map hex2 b))"
proof -
  have "plain_char (digit_char n)" if "n < 16" for n
    using that by (drule_tac less_16_cases, elim disjE, drule_tac less_10_cases)
      (auto simp: digit_char_def plain_char_def)
  moreover have "byte_val c div 16 < 16" for c using byte_val_less [of c] by linarith
  ultimately show ?thesis by (simp add: list_all_iff hex2_def)
qed

lemma renders_context [renders_intros]:
  assumes "context_text ctx"
  shows "renders (append_context ctx) (json_tokens (context_doc ctx))"
proof (cases ctx)
  case (Observed s)
  then have "valid_utf8 (release_text (scope_release s))" using assms by (simp add: context_text_def)
  then show ?thesis
    unfolding Observed append_context_def planning_context.case
    by - (rule renders_eq, (rule renders_intros | simp add: punct_simps context_doc_def doc_simps)+)
next
  case (Target p)
  then have "valid_utf8 (release_text (pi_release (tp_identity p)))"
    "case pi_build (tp_identity p) of Upstream \<Rightarrow> True | DebianPackage r \<Rightarrow> valid_utf8 (revision_text r)"
    using assms by (simp_all add: context_text_def)
  then show ?thesis
    unfolding Target append_context_def planning_context.case Let_def
    by - (rule renders_eq, (rule renders_intros plain_hex | assumption
      | simp add: punct_simps context_doc_def doc_simps)+)
qed

text \<open>The texts a prerequisite carries.\<close>

fun prerequisite_text :: "prerequisite \<Rightarrow> bool" where
  "prerequisite_text (NetworkRequired n) = valid_utf8 (np_identity n)"
| "prerequisite_text (VolumeRequired v) = valid_utf8 (vp_identity v)"
| "prerequisite_text (BindRequired b) =
     (valid_utf8 (bp_identity b) \<and> valid_utf8 (bp_source b) \<and> valid_utf8 (bp_target b))"

lemma renders_quoted_list [renders_intros]:
  "list_all (list_all plain_char) ks \<Longrightarrow>
   renders (commas (map (\<lambda>k. lit (quoted k)) ks)) (separated (map (\<lambda>b. [TString b]) ks))"
  by (rule renders_commas_map) (auto simp: list_all_iff intro: renders_quoted [unfolded list_all_iff])

fun append_required :: "prerequisite \<Rightarrow> complete_text" where
  "append_required (NetworkRequired n) = append_network_prerequisite n"
| "append_required (VolumeRequired v) = append_volume_prerequisite v"
| "append_required (BindRequired b) = append_bind_source b"

lemma renders_required:
  assumes "prerequisite_text p"
  shows "renders (cat [append_required p, lit ''}'']) (json_tokens (prerequisite_doc p))"
proof (cases p)
  case (NetworkRequired n)
  with assms show ?thesis
    unfolding append_required.simps append_network_prerequisite_def NetworkRequired
    by - (rule renders_eq, (rule renders_intros
      | simp add: punct_simps reference_doc_def doc_simps split: option.split)+)
next
  case (VolumeRequired v)
  with assms show ?thesis
    unfolding append_required.simps append_volume_prerequisite_def VolumeRequired
    by - (rule renders_eq, (rule renders_intros | simp add: punct_simps reference_doc_def doc_simps)+)
next
  case (BindRequired b)
  have "valid_utf8 (case bp_relabel b of SharedRelabel \<Rightarrow> ''shared'' | PrivateRelabel \<Rightarrow> ''private'')"
    by (cases "bp_relabel b") (simp_all add: is_ascii_def)
  with assms BindRequired show ?thesis
    unfolding append_required.simps append_bind_source_def BindRequired
    by - (rule renders_eq, (rule renders_intros
      | simp add: punct_simps reference_doc_def bind_doc_def doc_simps)+)
qed

section \<open>The order of the prerequisites\<close>

definition resolve_order :: "render_state \<Rightarrow> prerequisite_order \<Rightarrow> prerequisite option" where
  "resolve_order st p =
     (case p of
        NetworkPre i \<Rightarrow> if i < length (rs_networks st) then Some (NetworkRequired (rs_networks st ! i)) else None
      | VolumePre i \<Rightarrow> if i < length (rs_volumes st) then Some (VolumeRequired (rs_volumes st ! i)) else None
      | BindSourcePre i \<Rightarrow> if i < length (rs_binds st) then Some (BindRequired (rs_binds st ! i)) else None)"

lemma resolve_order_add:
  "resolve_order st o' = Some x \<Longrightarrow> resolve_order (add_prerequisite st p) o' = Some x"
  by (cases p; cases o') (auto simp: resolve_order_def nth_append split: if_splits)

lemma order_added:
  "\<exists>o'. rs_order (add_prerequisite st p) = rs_order st @ [o']
    \<and> resolve_order (add_prerequisite st p) o' = Some p"
  by (cases p) (simp_all add: resolve_order_def)

lemma resolve_orders:
  "map (resolve_order (add_prerequisites ps empty_state)) (rs_order (add_prerequisites ps empty_state))
   = map Some ps"
proof (induction ps rule: rev_induct)
  case Nil
  show ?case by (simp add: empty_state_def)
next
  case (snoc p ps)
  let ?st = "add_prerequisites ps empty_state"
  have "map (resolve_order (add_prerequisite ?st p)) (rs_order ?st) = map Some ps"
    using snoc resolve_order_add by (simp add: list_eq_iff_nth_eq)
  with order_added [of ?st p] show ?case by auto
qed

lemma added_member:
  "set (rs_networks (add_prerequisite st p)) = set (rs_networks st) \<union> {n. NetworkRequired n = p}"
  "set (rs_binds (add_prerequisite st p)) = set (rs_binds st) \<union> {b. BindRequired b = p}"
  "rs_requests (add_prerequisite st p) = rs_requests st" "rs_lines (add_prerequisite st p) = rs_lines st"
  by (cases p; simp)+

lemma added_members:
  "set (rs_networks (add_prerequisites ps st)) = set (rs_networks st) \<union> {n. NetworkRequired n \<in> set ps}"
  "set (rs_binds (add_prerequisites ps st)) = set (rs_binds st) \<union> {b. BindRequired b \<in> set ps}"
  by (induction ps arbitrary: st) (auto simp: added_member)

lemma schema_version_of:
  assumes "ra_networks a = rs_networks (add_prerequisites ps empty_state)"
    and "ra_binds a = rs_binds (add_prerequisites ps empty_state)"
  shows "schema_version a = schema_of ps"
proof -
  have "set (ra_networks a) = {n. NetworkRequired n \<in> set ps}" "set (ra_binds a) = {b. BindRequired b \<in> set ps}"
    using assms added_members [where ps = ps and st = empty_state]
    by (simp_all add: empty_state_def)
  moreover have "ra_binds a = [] \<longleftrightarrow> set (ra_binds a) = {}" by simp
  ultimately show ?thesis by (auto simp: schema_version_def schema_of_def list_ex_iff)
qed

section \<open>The complete text\<close>

definition artifact_of :: "planning_context \<Rightarrow> bytes list \<Rightarrow> prerequisite list \<Rightarrow> rendered_artifact" where
  "artifact_of ctx reqs ps =
     (let st = add_lines reqs (add_prerequisites ps empty_state) in
      \<lparr>ra_bytes = rs_lines st, ra_networks = rs_networks st, ra_volumes = rs_volumes st,
       ra_binds = rs_binds st,
       ra_native = Some \<lparr>native_context = ctx, native_requests = rs_requests st,
         native_order = rs_order st\<rparr>\<rparr>)"

lemma add_lines_fields [simp]:
  "rs_networks (add_lines qs st) = rs_networks st" "rs_volumes (add_lines qs st) = rs_volumes st"
  "rs_binds (add_lines qs st) = rs_binds st" "rs_order (add_lines qs st) = rs_order st"
  "rs_requests (add_lines qs st) = rs_requests st @ qs"
  "rs_lines (add_lines qs st) = rs_lines st @ concat (map (\<lambda>r. r @ [CHR 0x0A]) qs)"
  by (simp_all add: add_lines_def)

lemma add_prerequisites_requests [simp]:
  "rs_requests (add_prerequisites ps st) = rs_requests st" "rs_lines (add_prerequisites ps st) = rs_lines st"
  by (induction ps arbitrary: st) (simp_all add: added_member)

lemma empty_state_fields [simp]: "rs_requests empty_state = []" "rs_lines empty_state = []"
  by (simp_all add: empty_state_def)

lemma renders_orders:
  assumes "list_all prerequisite_text ps"
  shows "renders (commas (map (append_prerequisite (artifact_of ctx reqs ps))
      (rs_order (add_prerequisites ps empty_state))))
    (separated (map (\<lambda>p. json_tokens (prerequisite_doc p)) ps))"
proof (rule renders_commas)
  let ?st = "add_prerequisites ps empty_state" and ?a = "artifact_of ctx reqs ps"
  have step: "renders (append_prerequisite ?a o') (json_tokens (prerequisite_doc p))"
    if "resolve_order ?st o' = Some p" "prerequisite_text p" for o' p
  proof -
    have "append_prerequisite ?a o' = cat [append_required p, lit ''}'']"
      using that(1)
      by (cases o') (auto simp: resolve_order_def append_prerequisite_def artifact_of_def Let_def indexed_def
          split: if_splits)
    then show ?thesis using renders_required [OF that(2)] by simp
  qed
  have len: "length (rs_order ?st) = length ps"
    using arg_cong [OF resolve_orders [of ps], of length] by simp
  show "list_all2 renders (map (append_prerequisite ?a) (rs_order ?st))
      (map (\<lambda>p. json_tokens (prerequisite_doc p)) ps)"
  proof (rule list_all2_all_nthI)
    fix k
    assume "k < length (map (append_prerequisite ?a) (rs_order ?st))"
    then have k: "k < length (rs_order ?st)" "k < length ps" using len by simp_all
    have "resolve_order ?st (rs_order ?st ! k) = Some (ps ! k)"
      using arg_cong [OF resolve_orders [of ps], of "\<lambda>l. l ! k"] k by simp
    with step k assms show "renders (map (append_prerequisite ?a) (rs_order ?st) ! k)
        (map (\<lambda>p. json_tokens (prerequisite_doc p)) ps ! k)"
      by (simp add: list_all_length)
  qed (simp add: len)
qed

lemma renders_requests:
  assumes "texts_of reqs docs"
  shows "renders (commas (map lit reqs)) (separated (map json_tokens docs))"
  using assms unfolding texts_of_def
  by (intro renders_commas) (simp add: list.rel_map renders_def)

lemma complete_bytes_parse:
  assumes "context_text ctx" and "texts_of reqs docs" and "list_all prerequisite_text ps"
  shows "\<exists>s. complete_bytes (artifact_of ctx reqs ps) = Inr s
    \<and> parse_json s = Some (complete_doc ctx docs ps)"
proof -
  let ?a = "artifact_of ctx reqs ps"
  have schema: "schema_version ?a = schema_of ps"
    by (rule schema_version_of) (simp_all add: artifact_of_def Let_def)
  let ?parts = "[lit ''{'', key ''schema_version'', lit (dec (schema_version ?a)),
          next_key ''context'', append_context ctx,
          next_key ''requests'', lit ''['', commas (map lit reqs), lit '']'',
          next_key ''prerequisites'', lit ''['',
          commas (map (append_prerequisite ?a) (rs_order (add_prerequisites ps empty_state))), lit '']}'']"
  have "renders (cat ?parts) (json_tokens (complete_doc ctx docs ps))"
    by (rule renders_eq, (rule renders_intros renders_requests [OF assms(2)] renders_orders [OF assms(3)]
      | simp add: punct_simps assms(1) complete_doc_def doc_simps schema comp_def)+)
  then obtain s where s: "cat ?parts = Inr s" "lexes s (json_tokens (complete_doc ctx docs ps))"
    using renders_lexes by blast
  have "cat (xs @ [lit b]) = bind_res (cat xs) (\<lambda>a. lit (a @ b))" for xs :: "complete_text list" and b
    by (induction xs) (auto simp: bind_res_def split: sum.split)
  from this [of ?parts "[CHR 0x0A]"] s(1)
  have "complete_bytes ?a = Inr (s @ [CHR 0x0A])"
    by (simp add: complete_bytes_def artifact_of_def Let_def del: cat.simps)
  moreover have "parse_json (s @ [CHR 0x0A]) = Some (complete_doc ctx docs ps)"
  proof (rule parse_json_tokens)
    show "valid_utf8 (s @ [CHR 0x0A])"
      using s(2) by (intro valid_utf8_append) (simp_all add: lexes_def is_ascii_def)
    have "lex [CHR 0x0A] = Some []"
      by (simp add: lex.simps(2) is_punct_def is_digit_def)
    with s(2) show "lex (s @ [CHR 0x0A]) = Some (json_tokens (complete_doc ctx docs ps))"
      by (simp add: lexes_def)
  qed
  ultimately show ?thesis by blast
qed

section \<open>The request stream\<close>

lemma split_lines:
  assumes "list_all (\<lambda>r. CHR 0x0A \<notin> set r) rs"
  shows "split_on (CHR 0x0A) (concat (map (\<lambda>r. r @ [CHR 0x0A]) rs)) = rs @ [[]]"
  using assms by (induction rs) (simp_all add: split_on_prefix)

end
