(* ===== verification/Render_Keys.thy ===== *)
theory Render_Keys
  imports Render_Complete "HOL-Library.Sublist"
begin

text \<open>
  The keys of the documents: no object of a request for a resource of a valid intent has a key
  twice, so that a JSON reader cannot drop or reorder one of two values. The fixed keys of an
  object are a subsequence of the list of all its keys; the keys taken from the intent are the
  ones its validation keeps distinct.
\<close>

fun unique_keys :: "json \<Rightarrow> bool" where
  "unique_keys (JBool _) = True"
| "unique_keys (JNum _) = True"
| "unique_keys (JString _) = True"
| "unique_keys (JArray js) = list_all unique_keys js"
| "unique_keys (JObject ms) = (distinct (map fst ms) \<and> list_all (\<lambda>(k, j). unique_keys j) ms)"

section \<open>Keys of optional members\<close>

lemma distinct_subseq: "subseq xs ys \<Longrightarrow> distinct ys \<Longrightarrow> distinct xs"
  by (induction rule: list_emb.induct) (auto dest: list_emb_set)

text \<open>\<open>keyed ks ms\<close>: the members have keys out of \<open>ks\<close>, in this order, and values with unique keys.\<close>

definition keyed :: "bytes list \<Rightarrow> (bytes \<times> json) list \<Rightarrow> bool" where
  "keyed ks ms \<longleftrightarrow> subseq (map fst ms) ks \<and> list_all (\<lambda>(k, j). unique_keys j) ms"

named_theorems keyed_intros

lemma keyed_Nil [keyed_intros]: "keyed [] []"
  by (simp add: keyed_def)

lemma keyed_append [keyed_intros]: "keyed ks ms \<Longrightarrow> keyed ls ns \<Longrightarrow> keyed (ks @ ls) (ms @ ns)"
  by (simp add: keyed_def list_emb_append_mono)

lemma keyed_Cons [keyed_intros]: "unique_keys j \<Longrightarrow> keyed ks ms \<Longrightarrow> keyed (k # ks) ((k, j) # ms)"
  by (simp add: keyed_def)

lemma keyed_if [keyed_intros]: "(b \<Longrightarrow> unique_keys j) \<Longrightarrow> keyed [k] (member_if b k j)"
  by (simp add: keyed_def member_if_def)

lemma keyed_of [keyed_intros]: "(\<And>y. x = Some y \<Longrightarrow> unique_keys (f y)) \<Longrightarrow> keyed [k] (member_of k f x)"
  by (cases x) (simp_all add: keyed_def member_of_def)

lemma keyed_concat: "list_all2 (\<lambda>k ms. keyed [k] ms) ks mss \<Longrightarrow> keyed ks (concat mss)"
proof (induction rule: list_all2_induct)
  case (Cons k ks ms mss)
  from keyed_append [OF this(1,3)] show ?case by simp
qed (simp add: keyed_Nil)

lemma keyed_object: "keyed ks ms \<Longrightarrow> distinct ks \<Longrightarrow> unique_keys (JObject ms)"
  by (auto simp: keyed_def dest: distinct_subseq)

lemma unique_strings [simp]: "unique_keys (strings_doc bs)"
  by (simp add: strings_doc_def list_all_iff)

lemma unique_pairs: "distinct (map fst ps) \<Longrightarrow> unique_keys (pairs_doc ps)"
  by (simp add: pairs_doc_def list_all_iff case_prod_unfold comp_def)

lemma unique_map:
  assumes "distinct (map k xs)" and "\<And>x y. f x = f y \<Longrightarrow> k x = k y"
  shows "distinct (map f xs)"
proof -
  have "inj_on f (set xs)"
    using assms unfolding distinct_map inj_on_def by blast
  with assms(1) show ?thesis by (simp add: distinct_map)
qed

section \<open>Networks and volumes\<close>

lemma unique_pool:
  assumes "wf_pool e p"
  shows "unique_keys (pool_doc p)"
proof -
  have "unique_keys (pairs_doc (aux_pairs p))"
    using assms by (intro unique_pairs) (simp add: wf_pool_def aux_pairs_def comp_def)
  then have "keyed (''Subnet'' # [''IPRange''] @ [''Gateway''] @ [''AuxiliaryAddresses''])
      ((''Subnet'', JString (subnet_text (pool_subnet p)))
     # member_of ''IPRange'' (\<lambda>r. JString (subnet_text r)) (pool_ip_range p)
     @ member_of ''Gateway'' (\<lambda>g. JString (address_text g)) (pool_gateway p)
     @ member_if (pool_auxiliary p \<noteq> []) ''AuxiliaryAddresses'' (pairs_doc (aux_pairs p)))"
    by (intro keyed_intros) simp_all
  then show ?thesis unfolding pool_doc_def by (rule keyed_object) simp
qed

lemma unique_ipam:
  assumes "wf_ipam e i"
  shows "unique_keys (ipam_doc i)"
proof -
  have "list_all unique_keys (map pool_doc (ipam_pools i))"
    using assms unique_pool by (auto simp: wf_ipam_def list_all_iff)
  then have "keyed ([''Driver''] @ [''Config''])
      (member_of ''Driver'' (\<lambda>d. JString (ipam_driver_name d)) (ipam_driver i)
       @ [(''Config'', JArray (map pool_doc (ipam_pools i)))])"
    by (intro keyed_intros) simp_all
  then show ?thesis unfolding ipam_doc_def by (rule keyed_object) simp
qed

lemma option_pair_key: "fst (option_pair x) = fst (option_pair y) \<Longrightarrow> option_key x = option_key y"
  by (cases x; cases y) simp_all

lemma unique_network:
  assumes "wf_create create"
  shows "unique_keys (network_doc identity create)"
proof -
  have "unique_keys (pairs_doc (map option_pair (create_options create)))"
    using assms unique_map [of option_key _ "\<lambda>x. fst (option_pair x)", OF _ option_pair_key]
    by (intro unique_pairs) (simp add: wf_create_def comp_def)
  moreover have "unique_keys (pairs_doc (map network_label_pair (create_labels create)))"
    using assms by (intro unique_pairs) (simp add: wf_create_def comp_def network_label_pair_def)
  moreover have "unique_keys (ipam_doc i)" if "create_ipam create = Some i" for i
    using assms that by (auto simp: wf_create_def intro: unique_ipam)
  ultimately have "keyed ([''Internal''] @ [''EnableIPv6''] @ [''IPAM''] @ [''Options''] @ [''Labels''])
      (create_members create)"
    unfolding create_members_def by (intro keyed_intros) simp_all
  then have "keyed (''Name'' # ''Driver'' # [''Internal''] @ [''EnableIPv6''] @ [''IPAM''] @ [''Options''] @ [''Labels''])
      ((''Name'', JString (identity_bytes identity)) # (''Driver'', JString ''bridge'') # create_members create)"
    by (intro keyed_Cons) simp_all
  then show ?thesis unfolding network_doc_def by (rule keyed_object) simp
qed

lemma unique_volume:
  assumes "wf_volume_labels labels"
  shows "unique_keys (volume_doc identity labels)"
proof -
  have "unique_keys (pairs_doc (map volume_label_pair labels))"
    using assms by (intro unique_pairs) (simp add: wf_volume_labels_def comp_def volume_label_pair_def)
  then have "keyed (''Name'' # [''Labels'']) ((''Name'', JString (identity_bytes identity))
     # member_if (labels \<noteq> []) ''Labels'' (pairs_doc (map volume_label_pair labels)))"
    by (intro keyed_intros) simp_all
  then show ?thesis unfolding volume_doc_def by (rule keyed_object) simp
qed

lemma unique_endpoint [simp]: "unique_keys (endpoint_doc a)"
proof -
  have "keyed ([''IPv4Address''] @ [''IPv6Address''])
      (member_of ''IPv4Address'' (\<lambda>x. JString (address_text x)) (attachment_ipv4 a)
       @ member_of ''IPv6Address'' (\<lambda>x. JString (address_text x)) (attachment_ipv6 a))" (is "keyed _ ?ips")
    by (intro keyed_intros) simp_all
  then have "unique_keys (JObject ?ips)" by (rule keyed_object) simp
  then have "keyed ([''Aliases''] @ [''IPAMConfig''])
     (member_if (attachment_aliases a \<noteq> []) ''Aliases''
       (strings_doc (map alias_bytes (attachment_aliases a)))
     @ member_if (attachment_ipv4 a \<noteq> None \<or> attachment_ipv6 a \<noteq> None) ''IPAMConfig'' (JObject ?ips))"
    by (intro keyed_intros) simp_all
  then show ?thesis unfolding endpoint_doc_def by (rule keyed_object) simp
qed

lemma unique_connection: "unique_keys (connection_doc c a)"
  by (simp add: connection_doc_def)

section \<open>Containers\<close>

lemma port_key_inject:
  assumes "port_key p = port_key q"
  shows "(pub_container p, pub_protocol p) = (pub_container q, pub_protocol q)"
proof -
  have no: "CHR ''/'' \<notin> set (dec n)" for n
    by (auto simp: is_digit_def dest: dec_digits)
  have "split_once CHR ''/'' (port_key r) = Some (dec (unat (pub_container r)), protocol_name (pub_protocol r))" for r
    using split_once_append [OF no] by (simp add: port_key_def)
  then have "dec (unat (pub_container p)) = dec (unat (pub_container q))"
    "protocol_name (pub_protocol p) = protocol_name (pub_protocol q)"
    using assms by (metis option.inject prod.inject)+
  then show ?thesis
    by (cases "pub_protocol p"; cases "pub_protocol q") (simp_all add: dec_inject word_unat_eq_iff)
qed

lemma unique_ports:
  assumes "distinct (map (\<lambda>p. (pub_container p, pub_protocol p)) (c_ports c))"
  shows "unique_keys (exposed_ports_doc c)" and "unique_keys (port_bindings_doc c)"
proof -
  have d: "distinct (map port_key (c_ports c))" by (rule unique_map [OF assms port_key_inject])
  then show "unique_keys (exposed_ports_doc c)"
    by (simp add: exposed_ports_doc_def comp_def list_all_iff)
  have "unique_keys (binding_doc b)" for b
    by (cases "host_ip b") (simp_all add: binding_doc_def)
  with distinct_map_filter [OF d] show "unique_keys (port_bindings_doc c)"
    by (simp add: port_bindings_doc_def comp_def list_all_iff)
qed

lemma unique_numbers [keyed_intros]: "keyed [k] (number_member k x)"
  unfolding number_member_def by (rule keyed_of) simp

lemma unique_mount [simp]: "unique_keys (mount_doc m x)"
proof -
  have "keyed ([''SizeBytes''] @ [''Mode'']) (number_member ''SizeBytes'' n @ number_member ''Mode'' o')"
    for n :: "u64 option" and o' :: "u32 option"
    by (intro keyed_intros)
  then have opts: "unique_keys (JObject (number_member ''SizeBytes'' n @ number_member ''Mode'' o'))"
    for n :: "u64 option" and o' :: "u32 option"
    by (rule keyed_object) simp
  have "keyed [''TmpfsOptions''] (tmpfs_members x)"
    using opts by (cases "mount_source x") (auto simp: tmpfs_members_def keyed_def member_if_def)
  moreover have "keyed [''Type'', ''Source''] (mount_source_members m x)"
    by (cases "mount_source x") (simp_all add: mount_source_members_def keyed_def)
  ultimately have "keyed ([''Type'', ''Source''] @ [''Target'', ''ReadOnly''] @ [''TmpfsOptions''])
      (mount_source_members m x
       @ [(''Target'', JString (mount_target x)), (''ReadOnly'', JBool (mount_read_only x))]
       @ tmpfs_members x)"
    by (intro keyed_append) (simp_all add: keyed_def)
  then show ?thesis unfolding mount_doc_def by (rule keyed_object) simp
qed

lemma unique_parts [simp]:
  "unique_keys (restart_doc p)" "unique_keys (ulimit_doc u)" "unique_keys (device_doc d)"
  by (simp_all add: restart_doc_def ulimit_doc_def device_doc_def)

lemma unique_healthcheck [simp]: "unique_keys (healthcheck_doc h)"
proof -
  have "keyed (''Test'' # [''Interval''] @ [''Timeout''] @ [''Retries''] @ [''StartPeriod''] @ [''StartInterval''])
     ((''Test'', strings_doc (health_test_strings (health_test h)))
     # number_member ''Interval'' (health_interval h)
     @ number_member ''Timeout'' (health_timeout h)
     @ number_member ''Retries'' (health_retries h)
     @ number_member ''StartPeriod'' (health_start_period h)
     @ number_member ''StartInterval'' (health_start_interval h))"
    by (intro keyed_intros) simp
  then show ?thesis unfolding healthcheck_doc_def by (rule keyed_object) simp
qed

lemma unique_labels: "distinct (map label_key ls) \<Longrightarrow> unique_keys (pairs_doc (map label_pair ls))"
  by (rule unique_pairs) (simp add: comp_def label_pair_def)

definition host_keys :: "bytes list" where
  "host_keys = [''PortBindings'', ''Binds'', ''Mounts'', ''NetworkMode'', ''RestartPolicy'',
     ''ReadonlyRootfs'', ''Init'', ''Memory'', ''PidsLimit'', ''ShmSize'', ''Ulimits'', ''Devices'',
     ''CapAdd'', ''CapDrop'', ''SecurityOpt'', ''Sysctls'', ''GroupAdd'', ''Dns'', ''ExtraHosts'',
     ''LogConfig'', ''UsernsMode'']"

lemma unique_host_config:
  assumes "wf_container rs c"
  shows "unique_keys (JObject (concat (host_config_members m c)))"
proof -
  have "unique_keys (port_bindings_doc c)" "unique_keys (pairs_doc (map label_pair (set_sysctls (c_settings c))))"
    using assms
    by (simp_all add: wf_container_def wf_container_rest_def wf_settings_def unique_ports unique_labels)
  moreover have "unique_keys (log_config_doc l)" if "set_log_config (c_settings c) = Some l" for l
    using assms that unique_labels [of "log_options l"]
    by (simp add: wf_container_def wf_container_rest_def wf_settings_def wf_log_config_def log_config_doc_def)
  ultimately have "list_all2 (\<lambda>k ms. keyed [k] ms) host_keys (host_config_members m c)"
    unfolding host_keys_def host_config_members_def Let_def strings_member_def
    by (simp add: keyed_if keyed_of list_all_iff)
  then show ?thesis by (rule keyed_object [OF keyed_concat]) (simp add: host_keys_def)
qed

lemma unique_container:
  assumes "wf_container rs c"
  shows "unique_keys (container_doc m c)"
proof -
  have "unique_keys (exposed_ports_doc c)" "unique_keys (pairs_doc (map label_pair (set_labels (c_settings c))))"
    using assms by (simp_all add: wf_container_def wf_container_rest_def unique_ports unique_labels)
  then have s: "keyed ([''Labels''] @ [''User''] @ [''WorkingDir''] @ [''Hostname''] @ [''StopSignal''] @ [''StopTimeout''])
      (identity_settings_members (c_settings c))"
    unfolding identity_settings_members_def by (intro keyed_intros) simp_all
  have cmd: "keyed [k] (command_members k x)" for k x
    by (cases x) (simp_all add: command_members_def arguments_doc_def keyed_def)
  have "keyed (''Image'' # [''Env''] @ [''Entrypoint''] @ [''Cmd''] @ [''Healthcheck'']
      @ ([''Labels''] @ [''User''] @ [''WorkingDir''] @ [''Hostname''] @ [''StopSignal''] @ [''StopTimeout''])
      @ [''ExposedPorts''] @ [''HostConfig''] @ [''NetworkingConfig''])
    ((''Image'', JString (image_bytes (c_image c)))
     # member_if (c_environment c \<noteq> []) ''Env'' (strings_doc (map environment_pair (c_environment c)))
     @ command_members ''Entrypoint'' (c_entrypoint c)
     @ command_members ''Cmd'' (c_command c)
     @ member_of ''Healthcheck'' healthcheck_doc (c_healthcheck c)
     @ identity_settings_members (c_settings c)
     @ member_if (c_ports c \<noteq> []) ''ExposedPorts'' (exposed_ports_doc c)
     @ [(''HostConfig'', JObject (concat (host_config_members m c)))]
     @ member_of ''NetworkingConfig''
         (\<lambda>a. JObject [(''EndpointsConfig'',
            JObject [(network_name m (attachment_network a), endpoint_doc a)])])
         (first_network c))"
    using unique_host_config [OF assms, of m] \<open>unique_keys (exposed_ports_doc c)\<close>
    by (intro keyed_Cons keyed_append s cmd keyed_if keyed_of keyed_Nil) simp_all
  then show ?thesis unfolding container_doc_def by (rule keyed_object) simp
qed

lemma unique_resource_docs:
  assumes "wf_resource rs r"
  shows "list_all unique_keys (resource_docs p m r)"
  using assms
  by (cases r)
     (auto simp: resource_docs_def wf_resource_def wf_network_source_def request_doc_def list_all_iff
       connect_doc_def unique_network unique_volume unique_container unique_connection
       split: network_source.splits)

end
