(* ===== verification/Render_Properties.thy ===== *)
theory Render_Properties
  imports Render_Keys
begin

text \<open>
  What rendering guarantees for a graph of an accepted intent: it returns, its requests are the
  documents of the resources in an order their dependencies allow, its stream is framed by line
  feeds, its complete artifact is one JSON document, no object of a request repeats a key, and
  escaping loses nothing.
\<close>

section \<open>Graphs of accepted intents can be rendered\<close>

lemma graph_renderable:
  assumes "target_intent_new rs = Inr i" and "list_all resource_built rs"
    and "operation_graph_new i caps nodes = Some (Inr g)"
  shows "renderable g (resource_map rs)"
proof -
  have i: "resources i = rs" and refs: "distinct (map resource_reference rs)"
    using assms(1) by (auto simp: target_intent_new_def target_intent_new_iff wf_intent_def)
  note src = graph_source [OF assms(3), unfolded i]
  have nodes: "\<forall>n \<in> set nodes. node_matches rs n" "dependencies_right rs nodes"
    using src by (simp_all add: check_nodes_Inr)
  have there: "\<exists>r. resource_map rs (node_ref n) = Some r \<and> resource_built r
      \<and> (\<forall>c. r = ContainerResource c \<longrightarrow> resolves (resource_map rs) c)" if n: "n \<in> set nodes" for n
  proof -
    from n nodes(1) obtain r where r: "r \<in> set rs" "resource_reference r = node_ref n"
      by (auto simp: node_matches_def list_ex_iff)
    then have m: "resource_map rs (node_ref n) = Some r" using resource_map_mem [OF refs r(1)] by simp
    moreover have "resource_built r" using assms(2) r(1) by (simp add: list_all_iff)
    moreover have "resolves (resource_map rs) c" if "r = ContainerResource c" for c
      unfolding resolves_def
    proof clarify
      fix ref k
      assume "(ref, k) \<in> set (required_references c)"
      with nodes(2) n m that obtain x where x: "resource_map rs ref = Some x" "resource_kind x = k"
        unfolding dependencies_right_def by blast
      then have "resource_built x" using assms(2) resource_map_Some [OF x(1)] by (simp add: list_all_iff)
      with x show "\<exists>x. resource_map rs ref = Some x \<and> resource_kind x = k
          \<and> valid_identity (identity_bytes (resource_identity x))"
        using resource_built_identity by blast
    qed
    ultimately show ?thesis by blast
  qed
  have "closed_nodes nodes" using src check_nodes_closed by blast
  with src there show ?thesis unfolding renderable_def by simp
qed

text \<open>An order of all nodes in which each comes after its dependencies.\<close>

definition emission_order :: "operation_node list \<Rightarrow> operation_node list \<Rightarrow> bool" where
  "emission_order nodes order \<longleftrightarrow> mset order = mset nodes \<and> topological {} order"

lemma render_artifact:
  assumes "renderable g m" and "m = resource_map (resources (graph_intent g))"
  defines "pre \<equiv> version_prefix (context_api (graph_context g))"
  shows "\<exists>order reqs. emission_order (graph_nodes g) order
    \<and> texts_of reqs (concat (map (node_docs pre m) order))
    \<and> render g = Inr (artifact_of (graph_context g) reqs (concat (map (node_prerequisites m) order)))"
proof -
  have "distinct ([] :: resource_ref list)" "set [] \<subseteq> node_ref ` set (graph_nodes g)" by simp_all
  from emit_loop_done [OF assms(1) _ this, of pre empty_state]
  obtain order reqs where o: "emit_loop pre g m [] empty_state = Inr (rev (map node_ref order) @ [],
        add_lines reqs (add_prerequisites (concat (map (node_prerequisites m) order)) empty_state))"
    "texts_of reqs (concat (map (node_docs pre m) order))" "topological (set []) order"
    "distinct (rev (map node_ref order) @ [])" "set order \<subseteq> set (graph_nodes g)"
    "length order + length ([] :: resource_ref list) = length (graph_nodes g)"
    unfolding pre_def by (metis valid_utf8_prefix)
  have "distinct order" using o(4) by (simp add: distinct_map)
  moreover have "distinct (graph_nodes g)"
    using assms(1) by (simp add: renderable_def closed_nodes_def distinct_map)
  moreover have "set order = set (graph_nodes g)"
    using o(5,6) \<open>distinct order\<close> \<open>distinct (graph_nodes g)\<close>
    by (intro card_subset_eq) (simp_all add: distinct_card)
  ultimately have "mset order = mset (graph_nodes g)" by (simp add: set_eq_iff_mset_eq_distinct)
  moreover have "render g = Inr (artifact_of (graph_context g) reqs (concat (map (node_prerequisites m) order)))"
    using o(1) by (simp add: render_def Let_def assms(2) pre_def artifact_of_def)
  ultimately show ?thesis using o(2,3) by (auto simp: emission_order_def)
qed

lemma texts_parse: "texts_of reqs docs \<Longrightarrow> map parse_json reqs = map Some docs"
  unfolding texts_of_def by (induction rule: list_all2_induct) (simp_all add: lexes_parse)

lemma texts_lines: "texts_of reqs docs \<Longrightarrow> list_all (\<lambda>r. CHR 0x0A \<notin> set r) reqs"
  unfolding texts_of_def by (induction rule: list_all2_induct) (simp_all add: lexes_def)

section \<open>The texts of the prerequisites\<close>

lemma bind_required_text:
  assumes "container_built c" and "im \<in> set (zip [0..<length (c_mounts c)] (c_mounts c))"
  shows "list_all prerequisite_text (bind_required c im)"
proof -
  have "snd im \<in> set (map snd (zip [0..<length (c_mounts c)] (c_mounts c)))"
    using assms(2) by (simp only: set_map image_eqI)
  then have "snd im \<in> set (c_mounts c)" by simp
  then have "wf_mount (snd im)" "valid_utf8 (identity_bytes (c_identity c))"
    using assms(1) by (auto simp: container_built_def list_all_iff identity_utf8)
  then show ?thesis
    by (auto simp: bind_required_def wf_mount_def valid_absolute_path_def
        split: option.split mount_source.split)
qed

lemma node_prerequisites_text:
  assumes "renderable g m" and "n \<in> set (graph_nodes g)"
  shows "list_all prerequisite_text (node_prerequisites m n)"
proof -
  from assms obtain r where r: "m (node_ref n) = Some r" "resource_built r"
    unfolding renderable_def by blast
  show ?thesis
  proof (cases r)
    case (NetworkResource net)
    with r show ?thesis
      by (auto simp: node_prerequisites_def resource_prerequisites_def resource_built_def network_built_def
          identity_utf8 split: network_source.split)
  next
    case (ContainerResource c)
    with r bind_required_text [of c] show ?thesis
      by (auto simp: node_prerequisites_def resource_prerequisites_def resource_built_def list_all_iff)
  qed (use r in \<open>simp_all add: node_prerequisites_def resource_prerequisites_def resource_built_def identity_utf8\<close>)
qed

lemma rendered:
  assumes "target_intent_new rs = Inr i" and "list_all resource_built rs"
    and "operation_graph_new i caps nodes = Some (Inr g)"
  shows "\<exists>order reqs. emission_order nodes order
    \<and> texts_of reqs (concat (map (node_docs (version_prefix (context_api (graph_context g)))
        (resource_map rs)) order))
    \<and> render g = Inr (artifact_of (graph_context g) reqs
        (concat (map (node_prerequisites (resource_map rs)) order)))"
proof -
  have i: "resources i = rs" using assms(1) by (auto simp: target_intent_new_def target_intent_new_iff)
  note src = graph_source [OF assms(3)]
  have "resource_map rs = resource_map (resources (graph_intent g))" using src i by simp
  from render_artifact [OF graph_renderable [OF assms] this] src show ?thesis by simp
qed

lemma unique_node_docs:
  assumes "target_intent_new rs = Inr i"
  shows "list_all unique_keys (node_docs p (resource_map rs) n)"
proof (cases "resource_map rs (node_ref n)")
  case None
  then show ?thesis by (simp add: node_docs_def)
next
  case (Some r)
  have "wf_intent rs" using assms by (auto simp: target_intent_new_def target_intent_new_iff)
  then have "wf_resource rs r"
    using resource_map_Some [OF Some] by (auto simp: wf_intent_def list_all_iff)
  with Some unique_resource_docs show ?thesis by (simp add: node_docs_def)
qed

section \<open>A sample rendering\<close>

lemma sample_image: "image_ok ''app:1''"
proof -
  have "utf8_chars ''app:1'' = Some (map (\<lambda>c. [c]) ''app:1'')"
    by (rule utf8_chars_ascii) (simp add: is_ascii_def)
  then show ?thesis by (simp add: image_ok_def is_unicode_ws_def NUL_def)
qed

lemma sample_container_built: "container_built sample_container"
  unfolding container_built_def sample_container_def settings_built_def default_settings_def
  by (simp add: sample_image name_byte_def char_class_defs NUL_def
      environment_ok_def label_ok_def text_ok_def wf_mount_def valid_absolute_path_def command_ok_def
      attachment_built_def sample_attachment_def)

lemma sample_resources_built: "list_all resource_built sample_resources"
  using sample_container_built
  by (simp add: sample_resources_def resource_built_def
      sample_network_def network_built_def sample_create_def sample_ipam_def sample_pool_def
      network_create_bridge_def name_byte_def char_class_defs)

lemma sample_context_text: "context_text (Target (tr_profile sample_record))"
  by (simp add: context_text_def sample_record_def target_profile_new_def is_ascii_def)

section \<open>Properties\<close>

text \<open>C18: rendering the graph of an accepted intent never panics and never fails: the artifact's
  requests are JSON texts, and parsed they are the documents the resources stand for, node by node,
  in an order that emits every node exactly once and after everything it depends on. The byte
  stream is those requests, one per line.\<close>

theorem render_emits_requests:
  assumes "target_intent_new rs = Inr i" and "list_all resource_built rs"
    and "operation_graph_new i caps nodes = Some (Inr g)"
  shows "\<exists>a native order. render g = Inr a \<and> ra_native a = Some native
    \<and> native_context native = graph_context g
    \<and> emission_order nodes order
    \<and> map parse_json (native_requests native)
        = map Some (concat (map (node_docs (version_prefix (context_api (graph_context g)))
            (resource_map rs)) order))
    \<and> split_on (CHR 0x0A) (ra_bytes a) = native_requests native @ [[]]"
proof -
  from rendered [OF assms] obtain order reqs where
    o: "emission_order nodes order"
      "texts_of reqs (concat (map (node_docs (version_prefix (context_api (graph_context g)))
            (resource_map rs)) order))"
      "render g = Inr (artifact_of (graph_context g) reqs
        (concat (map (node_prerequisites (resource_map rs)) order)))" by blast
  then show ?thesis
    using texts_parse [OF o(2)] split_lines [OF texts_lines [OF o(2)]]
    by (auto simp: artifact_of_def Let_def)
qed

theorem render_emits_requests_witness:
  "\<exists>g a native. docker_plan (TargetIntent sample_resources) everything = Some (Inr g)
     \<and> render g = Inr a \<and> ra_native a = Some native
     \<and> native_context native = Target (tr_profile sample_record)"
proof -
  from sample_plan obtain g where g: "docker_plan (TargetIntent sample_resources) everything = Some (Inr g)"
    "graph_context g = Target (tr_profile sample_record)" by blast
  from render_emits_requests [OF sample_intent_accepted sample_resources_built g(1) [unfolded docker_plan_def]]
  show ?thesis using g by auto
qed

text \<open>C19: the complete artifact of such a graph is one JSON document: its schema version, its
  planning context, the documents of the requests and the prerequisites of the same emission order.\<close>

theorem complete_artifact_document:
  assumes "target_intent_new rs = Inr i" and "list_all resource_built rs"
    and "operation_graph_new i caps nodes = Some (Inr g)" and "context_text (graph_context g)"
  shows "\<exists>a s order. render g = Inr a \<and> complete_bytes a = Inr s \<and> emission_order nodes order
    \<and> parse_json s = Some (complete_doc (graph_context g)
        (concat (map (node_docs (version_prefix (context_api (graph_context g))) (resource_map rs)) order))
        (concat (map (node_prerequisites (resource_map rs)) order)))"
proof -
  from rendered [OF assms(1-3)] obtain order reqs where
    o: "emission_order nodes order"
      "texts_of reqs (concat (map (node_docs (version_prefix (context_api (graph_context g)))
            (resource_map rs)) order))"
      "render g = Inr (artifact_of (graph_context g) reqs
        (concat (map (node_prerequisites (resource_map rs)) order)))" by blast
  have "set order = set (graph_nodes g)"
    using o(1) graph_source [OF assms(3)] by (metis emission_order_def mset_eq_setD)
  then have "list_all prerequisite_text (concat (map (node_prerequisites (resource_map rs)) order))"
    using node_prerequisites_text [OF graph_renderable [OF assms(1-3)]] by (auto simp: list_all_iff)
  from complete_bytes_parse [OF assms(4) o(2) this] o(1,3) show ?thesis by auto
qed

theorem complete_artifact_document_witness:
  "\<exists>g a s j. docker_plan (TargetIntent sample_resources) everything = Some (Inr g)
     \<and> render g = Inr a \<and> complete_bytes a = Inr s \<and> parse_json s = Some j"
proof -
  from sample_plan obtain g where g: "docker_plan (TargetIntent sample_resources) everything = Some (Inr g)"
    "graph_context g = Target (tr_profile sample_record)" by blast
  have "context_text (graph_context g)" using g(2) sample_context_text by simp
  from complete_artifact_document [OF sample_intent_accepted sample_resources_built
      g(1) [unfolded docker_plan_def] this]
  show ?thesis using g(1) by blast
qed

text \<open>C20: no request an accepted intent is rendered to has a JSON object with a key twice: the
  keys taken from the intent (labels, options, auxiliary addresses, ports, sysctls, log options)
  stay apart from each other and from the fixed ones.\<close>

theorem requests_have_unique_keys:
  assumes "target_intent_new rs = Inr i" and "list_all resource_built rs"
    and "operation_graph_new i caps nodes = Some (Inr g)" and "render g = Inr a"
    and "ra_native a = Some native" and "q \<in> set (native_requests native)"
  shows "\<exists>j. parse_json q = Some j \<and> unique_keys j"
proof -
  from rendered [OF assms(1-3)] obtain order reqs where
    o: "texts_of reqs (concat (map (node_docs (version_prefix (context_api (graph_context g)))
            (resource_map rs)) order))"
      "render g = Inr (artifact_of (graph_context g) reqs
        (concat (map (node_prerequisites (resource_map rs)) order)))" by blast
  have "q \<in> set reqs" using o(2) assms(4-6) by (auto simp: artifact_of_def Let_def)
  then have "parse_json q \<in> set (map parse_json reqs)" by simp
  then obtain j where "parse_json q = Some j" "j \<in> set (concat (map (node_docs (version_prefix
      (context_api (graph_context g))) (resource_map rs)) order))"
    unfolding texts_parse [OF o(1)] by auto
  with unique_node_docs [OF assms(1)] show ?thesis by (auto simp: list_all_iff)
qed

theorem requests_have_unique_keys_witness:
  "\<exists>g a native. docker_plan (TargetIntent sample_resources) everything = Some (Inr g)
     \<and> render g = Inr a \<and> ra_native a = Some native
     \<and> (\<forall>q. q \<in> set (native_requests native) \<longrightarrow> (\<exists>j. parse_json q = Some j \<and> unique_keys j))"
proof -
  from sample_plan obtain g where g: "docker_plan (TargetIntent sample_resources) everything = Some (Inr g)"
    by blast
  note hyps = sample_intent_accepted sample_resources_built g [unfolded docker_plan_def]
  from rendered [OF hyps] obtain a native where a: "render g = Inr a" "ra_native a = Some native"
    by (auto simp: artifact_of_def Let_def)
  from requests_have_unique_keys [OF hyps a] g a show ?thesis by blast
qed

text \<open>C21: escaping loses nothing: every Rust string is rendered as a JSON string that a JSON reader
  reads back as that string, and every container and network name survives percent encoding.\<close>

theorem escaping_roundtrip:
  shows "(valid_utf8 b \<longrightarrow> (\<exists>s. (json_string b :: complete_text) = Inr s
      \<and> CHR 0x0A \<notin> set s \<and> parse_json s = Some (JString b)))
    \<and> percent_decode (percent_encode b) = Some b"
proof (intro conjI impI percent_decode_encode)
  assume "valid_utf8 b"
  from lexes_json_string [OF this] obtain s where
    s: "(json_string b :: complete_text) = Inr s" "lexes s [TString b]" by blast
  have "lexes s (json_tokens (JString b))" using s(2) by simp
  with s show "\<exists>s. (json_string b :: complete_text) = Inr s
      \<and> CHR 0x0A \<notin> set s \<and> parse_json s = Some (JString b)"
    using lexes_parse by (auto simp: lexes_def)
qed

theorem escaping_roundtrip_witness:
  "\<exists>s. (json_string ''a\"b'' :: complete_text) = Inr s \<and> parse_json s = Some (JString ''a\"b'')"
  using escaping_roundtrip [of "''a\"b''"] by (auto simp: is_ascii_def)

end
