(* ===== verification/Acquisition_Data.thy ===== *)
theory Acquisition_Data
  imports Capabilities
begin

text \<open>
  The data of \<^verbatim>\<open>src/acquisition.rs\<close> and \<^verbatim>\<open>src/evidence.rs\<close>: native identifiers, the closed list of
  read requests, selectors, selected roots, limits, and captured exchanges. A \<^verbatim>\<open>usize\<close> is a
  natural number up to \<open>usize_max\<close> (a 64-bit target); a \<^verbatim>\<open>Duration\<close> is a natural number of
  nanoseconds; the redacting \<^verbatim>\<open>Debug\<close> implementations are left out.
\<close>

definition usize_max :: nat where
  "usize_max = 2 ^ 64 - 1"

type_synonym duration = nat

text \<open>\<^verbatim>\<open>checked_add\<close> and \<^verbatim>\<open>saturating_add\<close> on \<^verbatim>\<open>usize\<close>.\<close>

definition checked_add :: "nat \<Rightarrow> nat \<Rightarrow> nat option" where
  "checked_add m n = (if m + n \<le> usize_max then Some (m + n) else None)"

definition saturating_add :: "nat \<Rightarrow> nat \<Rightarrow> nat" where
  "saturating_add m n = min (m + n) usize_max"

text \<open>A subtraction that panics when it would go below zero.\<close>

definition checked_sub :: "nat \<Rightarrow> nat \<Rightarrow> nat option" where
  "checked_sub m n = (if n \<le> m then Some (m - n) else None)"

section \<open>Identifiers, requests and selectors\<close>

datatype native_id = NativeId (id_text: bytes)

definition native_id_new :: "bytes \<Rightarrow> native_id option" where
  "native_id_new v = (if v \<noteq> [] then Some (NativeId v) else None)"

datatype read_request =
  DaemonVersion | DaemonInfo
| ListContainers | InspectContainer native_id
| ListNetworks | InspectNetwork native_id
| ListVolumes | InspectVolume native_id

datatype selector =
  ContainerIds "native_id list" | NetworkIds "native_id list" | VolumeNames "native_id list"
| ContainerNames "native_id list" | NamePrefix native_id
| LabelSelector protected_value "protected_value option"
| Discovery | AllContainers

datatype selection_reason =
  ExactId | ExactNetworkId | ExactVolumeName | ExactName | ByNamePrefix | ByLabel | ExplicitAll

datatype root_kind = RootContainer | RootNetwork | RootVolume

record selected_root =
  root_resource :: resource_ref
  root_kind :: root_kind
  root_reason :: selection_reason

section \<open>Limits\<close>

datatype limit_error =
  InvalidLimits | TooManyRequests | PendingResponse | ResponseWithoutRequest | BudgetExhausted
| TooManySelectedResources | TooManyExpansions | TooManyBytes | Elapsed | InputError
| InvalidResourceRef | Incomplete | ObservationIdExhausted | CaptureAccounting
| MissingRequestApiVersion | ResourceConflict

record limits =
  max_requests :: nat
  max_selected_resources :: nat
  max_expansions :: nat
  max_response_bytes :: nat
  max_total_bytes :: nat
  max_elapsed :: duration

definition limits_validate :: "limits \<Rightarrow> limit_error + limits" where
  "limits_validate l =
     (if max_requests l = 0 \<or> max_selected_resources l = 0 \<or> max_expansions l = 0
       \<or> max_response_bytes l = 0 \<or> max_response_bytes l = usize_max
       \<or> max_total_bytes l = 0 \<or> max_response_bytes l > max_total_bytes l
       \<or> max_elapsed l = 0
      then Inl InvalidLimits else Inr l)"

datatype acquisition_error =
  EndpointError | Cancelled | Deadline | IoError | ProtocolError | StatusError | VersionError
| ShapeError | SelectionError | BudgetError limit_error

section \<open>Captured exchanges\<close>

record capture_bounds =
  cb_requests :: nat
  cb_selected :: nat
  cb_expansions :: nat
  cb_bytes :: nat

datatype http_status = HttpStatus (status_code: u16)

datatype capture_error = AccountingMismatch | InvalidStatus

definition http_status_new :: "u16 \<Rightarrow> capture_error + http_status" where
  "http_status_new code =
     (if 100 \<le> unat code \<and> unat code \<le> 599 then Inr (HttpStatus code) else Inl InvalidStatus)"

record captured_exchange =
  ex_request :: read_request
  ex_resource :: "resource_ref option"
  ex_api :: "api_version option"
  ex_status :: http_status
  ex_body :: protected_value

datatype capture_route = CallerAssembled | ExplicitUnixSocket

record capture =
  cap_observation :: observation_id
  cap_bounds :: capture_bounds
  cap_exchanges :: "captured_exchange list"
  cap_route :: capture_route
  cap_roots :: "selected_root list"
  cap_selector :: "selector option"
  cap_fallbacks :: "resource_ref list"
  cap_discovery_only :: bool

text \<open>The sum of the body lengths, with overflow checked at each step.\<close>

definition add_body :: "nat option \<Rightarrow> captured_exchange \<Rightarrow> nat option" where
  "add_body acc e =
     (case acc of None \<Rightarrow> None | Some n \<Rightarrow> checked_add n (length (ex_body e)))"

definition total_bytes :: "captured_exchange list \<Rightarrow> nat option" where
  "total_bytes es = foldl add_body (Some 0) es"

definition from_completed ::
  "observation_id \<Rightarrow> capture_bounds \<Rightarrow> captured_exchange list \<Rightarrow> capture_error + capture" where
  "from_completed observation bounds exchanges =
     (if cb_requests bounds \<noteq> length exchanges
       \<or> total_bytes exchanges \<noteq> Some (cb_bytes bounds)
      then Inl AccountingMismatch
      else Inr \<lparr>cap_observation = observation, cap_bounds = bounds, cap_exchanges = exchanges,
        cap_route = CallerAssembled, cap_roots = [], cap_selector = None, cap_fallbacks = [],
        cap_discovery_only = False\<rparr>)"

definition with_explicit_socket :: "capture \<Rightarrow> capture" where
  "with_explicit_socket c = c\<lparr>cap_route := ExplicitUnixSocket\<rparr>"

definition with_selected_roots :: "selected_root list \<Rightarrow> capture \<Rightarrow> capture" where
  "with_selected_roots roots c = c\<lparr>cap_roots := roots\<rparr>"

definition with_selector :: "selector \<Rightarrow> capture \<Rightarrow> capture" where
  "with_selector s c = c\<lparr>cap_selector := Some s\<rparr>"

definition with_network_name_fallbacks :: "resource_ref list \<Rightarrow> capture \<Rightarrow> capture" where
  "with_network_name_fallbacks rs c = c\<lparr>cap_fallbacks := rs\<rparr>"

definition with_discovery_only :: "capture \<Rightarrow> capture" where
  "with_discovery_only c = c\<lparr>cap_discovery_only := True\<rparr>"

section \<open>Accounting\<close>

lemma total_bytes_snoc: "total_bytes (es @ [e]) = add_body (total_bytes es) e"
  by (simp add: total_bytes_def)

lemma total_bytes_Nil [simp]: "total_bytes [] = Some 0"
  by (simp add: total_bytes_def)

lemma checked_add_Some: "checked_add m n = Some k \<longleftrightarrow> k = m + n \<and> m + n \<le> usize_max"
  by (auto simp: checked_add_def)

text \<open>Without an overflow the total is the sum.\<close>

lemma total_bytes_sum:
  "total_bytes es =
   (let s = sum_list (map (\<lambda>e. length (ex_body e)) es) in if s \<le> usize_max then Some s else None)"
proof (induction es rule: rev_induct)
  case (snoc e es)
  then show ?case
    by (auto simp: total_bytes_snoc add_body_def checked_add_def Let_def)
qed simp

lemma from_completed_Inr:
  "from_completed i b es = Inr c \<longleftrightarrow>
   cb_requests b = length es \<and> total_bytes es = Some (cb_bytes b)
   \<and> c = \<lparr>cap_observation = i, cap_bounds = b, cap_exchanges = es, cap_route = CallerAssembled,
        cap_roots = [], cap_selector = None, cap_fallbacks = [], cap_discovery_only = False\<rparr>"
  by (auto simp: from_completed_def)

lemma limits_validate_Inr:
  "limits_validate l = Inr l' \<longleftrightarrow> l' = l \<and> 0 < max_requests l \<and> 0 < max_selected_resources l
   \<and> 0 < max_expansions l \<and> 0 < max_response_bytes l \<and> max_response_bytes l \<noteq> usize_max
   \<and> max_response_bytes l \<le> max_total_bytes l \<and> 0 < max_elapsed l"
  by (auto simp: limits_validate_def)

end
