(* ===== verification/Inventory.thy ===== *)
theory Inventory
  imports Acquisition_Data
begin

text \<open>
  The types of \<^verbatim>\<open>src/decoder.rs\<close>: what a decoded inventory holds. Every native field is observed
  with its availability and origin; nothing in it is a claim about authorship. A name that is
  taken by an authored value of another theory starts with \<open>Native\<close> or \<open>native\<close>.
\<close>

datatype decode_error =
  ResponseTooLarge | InvalidJson | InvalidShape field_path | InvalidValue field_path
| UnexpectedStatus | MissingApiVersion | ApiVersionOutOfRange | ConflictingFacts
| DuplicateResource | IncompleteInventory | CollectionTooLarge

section \<open>Parts of resources\<close>

record label_observation =
  lo_key :: protected_value
  lo_value :: "protected_value observed"

record map_entry_observation =
  me_key :: protected_value
  me_value :: "protected_value observed"

record native_assignment =
  na_name :: protected_value
  na_value :: "protected_value option"

datatype transport_protocol = NativeTcp | NativeUdp | NativeSctp

record native_port_key =
  pk_container :: u16
  pk_protocol :: transport_protocol

record native_host_binding =
  hb_ip :: "protected_value observed"
  hb_port :: "u16 observed"

record port_observation =
  po_key :: native_port_key
  po_bindings :: "native_host_binding list observed"

datatype mount_kind = MountBind | MountVolume | MountTmpfs | MountOther

datatype mount_access = ReadOnlyAccess | ReadWriteAccess

datatype mount_mode_interpretation =
  SupportedMode (mode_access: "mount_access option") (mode_relabel: "bind_relabel option")
| UnsupportedMode

record mount_observation =
  mo_kind :: mount_kind
  mo_source :: "protected_value observed"
  mo_destination :: "protected_value observed"
  mo_name :: "protected_value observed"
  mo_read_write :: "bool observed"
  mo_mode :: "protected_value observed"
  mo_interpretation :: "mount_mode_interpretation observed"
  mo_propagation :: "protected_value observed"

record native_attachment =
  nt_name :: protected_value
  nt_network_id :: "protected_value observed"
  nt_ip :: "protected_value observed"
  nt_ipv6 :: "protected_value observed"
  nt_requested_ipv4 :: "protected_value observed"
  nt_requested_ipv6 :: "protected_value observed"
  nt_aliases :: "protected_value list observed"

datatype network_mode_kind =
  DefaultMode | BridgeMode | HostMode | NoneMode | ContainerMode | NamedMode

record network_mode_observation =
  nm_kind :: network_mode_kind
  nm_value :: protected_value

datatype command_value = ExecCommand "protected_value list" | ShellCommand protected_value

datatype native_test =
  TestCmd "protected_value list" | TestCmdShell protected_value | TestNone
| TestOther "protected_value list"

record native_healthcheck =
  nh_test :: "native_test observed"
  nh_interval :: "u64 observed"
  nh_timeout :: "u64 observed"
  nh_start_period :: "u64 observed"
  nh_start_interval :: "u64 observed"
  nh_retries :: "u32 observed"

record native_restart_policy =
  rp_name :: "protected_value observed"
  rp_maximum :: "u32 observed"

record ulimit_observation =
  uo_name :: "protected_value observed"
  uo_soft :: "int observed"
  uo_hard :: "int observed"

record logging_observation =
  lg_driver :: "protected_value observed"
  lg_options :: "map_entry_observation list observed"

record device_observation =
  do_host :: "protected_value observed"
  do_container :: "protected_value observed"
  do_permissions :: "protected_value observed"

record configured_mount_observation =
  cm_kind :: "protected_value observed"
  cm_source :: "protected_value observed"
  cm_target :: "protected_value observed"
  cm_read_only :: "bool observed"
  cm_propagation :: "protected_value observed"
  cm_no_copy :: "bool observed"
  cm_size :: "int observed"

record runtime_observation =
  rt_read_only_rootfs :: "bool observed"
  rt_memory :: "int observed"
  rt_pids :: "int observed"
  rt_shm :: "int observed"
  rt_ulimits :: "ulimit_observation list observed"
  rt_cap_add :: "protected_value list observed"
  rt_cap_drop :: "protected_value list observed"
  rt_security :: "protected_value list observed"
  rt_userns :: "protected_value observed"
  rt_groups :: "protected_value list observed"
  rt_sysctls :: "map_entry_observation list observed"
  rt_dns_servers :: "protected_value list observed"
  rt_dns_options :: "protected_value list observed"
  rt_dns_search :: "protected_value list observed"
  rt_extra_hosts :: "protected_value list observed"
  rt_init :: "bool observed"
  rt_stop_signal :: "protected_value observed"
  rt_stop_timeout :: "int observed"
  rt_logging :: "logging_observation observed"
  rt_tmpfs :: "map_entry_observation list observed"
  rt_binds :: "protected_value list observed"
  rt_mounts :: "configured_mount_observation list observed"
  rt_volumes_from :: "protected_value list observed"
  rt_devices :: "device_observation list observed"

section \<open>Resources\<close>

record container_summary =
  cs_id :: protected_value
  cs_names :: "protected_value list observed"
  cs_labels :: "label_observation list observed"
  cs_image :: "protected_value observed"

record container_observation =
  co_reference :: resource_ref
  co_id :: "protected_value observed"
  co_name :: "protected_value observed"
  co_image :: "protected_value observed"
  co_image_id :: "protected_value observed"
  co_labels :: "label_observation list observed"
  co_user :: "protected_value observed"
  co_working_directory :: "protected_value observed"
  co_hostname :: "protected_value observed"
  co_environment :: "native_assignment list observed"
  co_exposed_ports :: "native_port_key list observed"
  co_configured_ports :: "port_observation list observed"
  co_runtime_ports :: "port_observation list observed"
  co_mounts :: "mount_observation list observed"
  co_networks :: "native_attachment list observed"
  co_network_mode :: "network_mode_observation observed"
  co_command :: "command_value observed"
  co_entrypoint :: "command_value observed"
  co_healthcheck :: "native_healthcheck observed"
  co_restart :: "native_restart_policy observed"
  co_runtime :: runtime_observation

record endpoint_details =
  ed_name :: "protected_value observed"

record active_endpoint =
  ae_container :: "protected_value observed"
  ae_endpoint :: "endpoint_details observed"

record ipam_config_observation =
  ip_subnet :: "protected_value observed"
  ip_gateway :: "protected_value observed"
  ip_range :: "protected_value observed"
  ip_auxiliary :: "map_entry_observation list observed"

record network_observation =
  no_reference :: resource_ref
  no_id :: "protected_value observed"
  no_endpoints :: "active_endpoint list observed"
  no_name :: "protected_value observed"
  no_driver :: "protected_value observed"
  no_internal :: "bool observed"
  no_ipv6 :: "bool observed"
  no_ipam_driver :: "protected_value observed"
  no_ipam_configs :: "ipam_config_observation list observed"
  no_options :: "map_entry_observation list observed"
  no_labels :: "label_observation list observed"

record volume_observation =
  vo_reference :: resource_ref
  vo_name :: "protected_value observed"
  vo_driver :: "protected_value observed"
  vo_mountpoint :: "protected_value observed"
  vo_options :: "map_entry_observation list observed"
  vo_labels :: "label_observation list observed"

section \<open>The inventory\<close>

record decoded_version =
  dv_daemon :: daemon_facts
  dv_support :: resource_support_observation
  dv_client :: "protected_value option"
  dv_package :: "protected_value option"
  dv_requested :: "api_version list"

record decoded_inventory =
  di_observation :: observation_id
  di_version :: decoded_version
  di_containers :: "container_observation list"
  di_discovered :: "container_summary list"
  di_roots :: "selected_root list"
  di_networks :: "network_observation list"
  di_volumes :: "volume_observation list"
  di_findings :: "finding list"

end
