(* ===== verification/Prerequisites.thy ===== *)
theory Prerequisites
  imports Rendering Inventory
begin

text \<open>
  \<^verbatim>\<open>src/target_modules/prerequisite.rs\<close>: the assessment of a rendered network prerequisite against
  one explicitly selected network of a decoded inventory, with its bounds and its order of
  failures, and the declarative conditions it decides.
\<close>

definition max_collection_items :: nat where
  "max_collection_items = 4096"

datatype prerequisite_error =
  ScopeOfOtherObservation | InvalidSelectedNetworkId | TooManyItems | NetworkNotFound
| AmbiguousNetwork | AmbiguousResourceReference | SelectedRootNotFound | DuplicateSelectedRoot
| InvalidSelectedRoot | InvalidNetworkIdEvidence | InvalidNetworkNameEvidence | NetworkNameMismatch
| InvalidNetworkDriverEvidence | NetworkDriverMismatch | InvalidNetworkInternalEvidence
| NetworkInternalMismatch

definition usable :: "'a observed \<Rightarrow> origin \<Rightarrow> bool" where
  "usable x orig \<longleftrightarrow> obs_availability x = Present \<and> obs_origin x = orig \<and> obs_value x \<noteq> None"

definition selected_network ::
  "decoded_inventory \<Rightarrow> bytes \<Rightarrow> prerequisite_error + network_observation" where
  "selected_network inventory i =
     (if list_ex (\<lambda>n. n > max_collection_items) [length (di_networks inventory), length (di_roots inventory),
          length (di_containers inventory), length (di_volumes inventory)]
      then Inl TooManyItems
      else
        (case filter (\<lambda>n. obs_value (no_id n) = Some i) (di_networks inventory) of
           [] \<Rightarrow> Inl NetworkNotFound
         | n # others \<Rightarrow>
           if others \<noteq> [] then Inl AmbiguousNetwork
           else if length (filter (\<lambda>x. no_reference x = no_reference n) (di_networks inventory)) \<noteq> 1
             \<or> list_ex (\<lambda>x. co_reference x = no_reference n) (di_containers inventory)
             \<or> list_ex (\<lambda>x. vo_reference x = no_reference n) (di_volumes inventory)
           then Inl AmbiguousResourceReference
           else if \<not> all_inserted [] (map root_resource (di_roots inventory)) then Inl DuplicateSelectedRoot
           else
             (case List.find (\<lambda>root. root_resource root = no_reference n) (di_roots inventory) of
                None \<Rightarrow> Inl SelectedRootNotFound
              | Some root \<Rightarrow>
                if root_kind root \<noteq> RootNetwork \<or> root_reason root \<noteq> ExactNetworkId
                then Inl InvalidSelectedRoot else Inr n)))"

definition assess_network ::
  "network_prerequisite \<Rightarrow> network_observation \<Rightarrow> prerequisite_error + unit" where
  "assess_network p n = checks [
     reject_if (\<not> usable (no_id n) RuntimeAssigned) InvalidNetworkIdEvidence,
     reject_if (\<not> usable (no_name n) Effective) InvalidNetworkNameEvidence,
     reject_if (obs_value (no_name n) \<noteq> Some (np_identity p)) NetworkNameMismatch,
     reject_if (\<not> usable (no_driver n) Effective) InvalidNetworkDriverEvidence,
     reject_if (obs_value (no_driver n) \<noteq> Some (network_driver_name (np_driver p))) NetworkDriverMismatch,
     reject_if (np_internal p \<noteq> None \<and> \<not> usable (no_internal n) Effective) InvalidNetworkInternalEvidence,
     reject_if (np_internal p \<noteq> None \<and> obs_value (no_internal n) \<noteq> np_internal p) NetworkInternalMismatch]"

definition assess ::
  "network_prerequisite \<Rightarrow> decoded_inventory \<Rightarrow> observation_id \<Rightarrow> native_id \<Rightarrow> prerequisite_error + unit"
where
  "assess p inventory expected selected =
     (if di_observation inventory \<noteq> expected \<or> df_observation (dv_daemon (di_version inventory)) \<noteq> expected
      then Inl ScopeOfOtherObservation
      else
        (let i = id_text selected in
         if length i \<noteq> 64 \<or> \<not> list_all is_hexdigit i then Inl InvalidSelectedNetworkId
         else bind_res (selected_network inventory i) (assess_network p)))"

section \<open>What the assessment decides\<close>

lemma singleton_filter:
  "filter P xs = [x] \<longleftrightarrow> length (filter P xs) = 1 \<and> x \<in> set xs \<and> P x"
proof -
  have "x \<in> set (filter P xs) \<longleftrightarrow> x \<in> set xs \<and> P x" by simp
  then show ?thesis by (cases "filter P xs") auto
qed

definition bounded_inventory :: "decoded_inventory \<Rightarrow> bool" where
  "bounded_inventory inventory \<longleftrightarrow> length (di_networks inventory) \<le> 4096 \<and> length (di_roots inventory) \<le> 4096
     \<and> length (di_containers inventory) \<le> 4096 \<and> length (di_volumes inventory) \<le> 4096"

text \<open>The network is the only one with the identifier, no other resource has its reference, and it
  was selected by its exact identifier, once.\<close>

definition uniquely_selected :: "decoded_inventory \<Rightarrow> bytes \<Rightarrow> network_observation \<Rightarrow> bool" where
  "uniquely_selected inventory i n \<longleftrightarrow>
     filter (\<lambda>x. obs_value (no_id x) = Some i) (di_networks inventory) = [n]
   \<and> filter (\<lambda>x. no_reference x = no_reference n) (di_networks inventory) = [n]
   \<and> no_reference n \<notin> co_reference ` set (di_containers inventory)
   \<and> no_reference n \<notin> vo_reference ` set (di_volumes inventory)
   \<and> distinct (map root_resource (di_roots inventory))
   \<and> \<lparr>root_resource = no_reference n, root_kind = RootNetwork, root_reason = ExactNetworkId\<rparr>
       \<in> set (di_roots inventory)"

lemma taken_iff: "list_ex (\<lambda>x. f x = r) xs \<longleftrightarrow> r \<in> f ` set xs"
  by (auto simp: list_ex_iff)

lemma root_find:
  assumes "distinct (map root_resource roots)"
  shows "(\<exists>root. List.find (\<lambda>root. root_resource root = r) roots = Some root \<and> root_kind root = k
      \<and> root_reason root = why)
    \<longleftrightarrow> \<lparr>root_resource = r, root_kind = k, root_reason = why\<rparr> \<in> set roots"
  using assms
proof (induction roots)
  case (Cons x xs)
  have "x = \<lparr>root_resource = r, root_kind = k, root_reason = why\<rparr> \<longleftrightarrow>
      root_resource x = r \<and> root_kind x = k \<and> root_reason x = why" by (cases x) auto
  moreover have "root_resource x \<noteq> r" if "\<lparr>root_resource = r, root_kind = k, root_reason = why\<rparr> \<in> set xs"
  proof -
    have "r \<in> root_resource ` set xs" using that by force
    then show ?thesis using Cons.prems by auto
  qed
  ultimately show ?case using Cons by auto
qed simp

lemma bounded_iff:
  "list_ex (\<lambda>n. n > max_collection_items) [length (di_networks inventory), length (di_roots inventory),
     length (di_containers inventory), length (di_volumes inventory)] \<longleftrightarrow> \<not> bounded_inventory inventory"
  by (auto simp: bounded_inventory_def max_collection_items_def)

lemma selected_network_cases:
  "selected_network inventory i = Inr n \<longleftrightarrow> bounded_inventory inventory
   \<and> filter (\<lambda>x. obs_value (no_id x) = Some i) (di_networks inventory) = [n]
   \<and> length (filter (\<lambda>x. no_reference x = no_reference n) (di_networks inventory)) = 1
   \<and> no_reference n \<notin> co_reference ` set (di_containers inventory)
   \<and> no_reference n \<notin> vo_reference ` set (di_volumes inventory)
   \<and> distinct (map root_resource (di_roots inventory))
   \<and> (\<exists>root. List.find (\<lambda>root. root_resource root = no_reference n) (di_roots inventory) = Some root
       \<and> root_kind root = RootNetwork \<and> root_reason root = ExactNetworkId)"
proof (cases "filter (\<lambda>x. obs_value (no_id x) = Some i) (di_networks inventory)")
  case (Cons x xs)
  then show ?thesis
    unfolding selected_network_def bounded_iff all_inserted_Nil taken_iff
    by (auto split: option.splits if_splits)
qed (simp add: selected_network_def)

lemma selected_network_Inr:
  "selected_network inventory i = Inr n \<longleftrightarrow> bounded_inventory inventory \<and> uniquely_selected inventory i n"
proof (cases "filter (\<lambda>x. obs_value (no_id x) = Some i) (di_networks inventory) = [n]
    \<and> distinct (map root_resource (di_roots inventory))")
  case True
  then have "n \<in> set (di_networks inventory)"
    using singleton_filter [of "\<lambda>x. obs_value (no_id x) = Some i"] by blast
  then have "length (filter (\<lambda>x. no_reference x = no_reference n) (di_networks inventory)) = 1
      \<longleftrightarrow> filter (\<lambda>x. no_reference x = no_reference n) (di_networks inventory) = [n]"
    unfolding singleton_filter [of "\<lambda>x. no_reference x = no_reference n"] by simp
  moreover note root_find [OF conjunct2 [OF True], of "no_reference n" RootNetwork ExactNetworkId]
  ultimately show ?thesis
    unfolding uniquely_selected_def selected_network_cases by (simp only: True)
next
  case False
  then show ?thesis unfolding uniquely_selected_def selected_network_cases by blast
qed

text \<open>A field observed as present, with its origin and value.\<close>

definition observed_as :: "'a observed \<Rightarrow> origin \<Rightarrow> 'a \<Rightarrow> bool" where
  "observed_as x orig v \<longleftrightarrow> x = present v Present orig"

lemma usable_value: "usable x orig \<and> obs_value x = Some v \<longleftrightarrow> observed_as x orig v"
  by (cases x) (auto simp: usable_def observed_as_def present_def)

lemma usable_ex: "usable x orig \<longleftrightarrow> (\<exists>v. observed_as x orig v)"
  using usable_value [of x orig] by (auto simp: usable_def)

lemma assess_network_Inr:
  "assess_network p n = Inr u \<longleftrightarrow>
   (\<exists>v. observed_as (no_id n) RuntimeAssigned v)
   \<and> observed_as (no_name n) Effective (np_identity p)
   \<and> observed_as (no_driver n) Effective (network_driver_name (np_driver p))
   \<and> (\<forall>b. np_internal p = Some b \<longrightarrow> observed_as (no_internal n) Effective b)"
proof -
  have "(np_internal p \<noteq> None \<longrightarrow> usable (no_internal n) Effective)
      \<and> (np_internal p \<noteq> None \<longrightarrow> obs_value (no_internal n) = np_internal p)
    \<longleftrightarrow> (\<forall>b. np_internal p = Some b \<longrightarrow> observed_as (no_internal n) Effective b)"
    using usable_value [of "no_internal n" Effective] by (cases "np_internal p") auto
  moreover have "assess_network p n = Inr u \<longleftrightarrow> usable (no_id n) RuntimeAssigned
      \<and> (usable (no_name n) Effective \<and> obs_value (no_name n) = Some (np_identity p))
      \<and> (usable (no_driver n) Effective \<and> obs_value (no_driver n) = Some (network_driver_name (np_driver p)))
      \<and> (np_internal p \<noteq> None \<longrightarrow> usable (no_internal n) Effective)
      \<and> (np_internal p \<noteq> None \<longrightarrow> obs_value (no_internal n) = np_internal p)"
    unfolding assess_network_def by (simp only: check_simps) blast
  ultimately show ?thesis unfolding usable_value usable_ex [of "no_id n"] by (simp only:)
qed

section \<open>Properties\<close>

text \<open>C35: a network prerequisite is met exactly when inventory and daemon facts are of the expected
  observation, the selected identifier is a full one, the collections are bounded, and the one
  network with that identifier, which alone has its reference and was selected once by exactly
  that identifier, is present with the expected name and driver, and with the expected internal
  flag where one is expected.\<close>

theorem prerequisite_met_iff:
  "assess p inventory expected selected = Inr () \<longleftrightarrow>
   di_observation inventory = expected \<and> df_observation (dv_daemon (di_version inventory)) = expected
   \<and> length (id_text selected) = 64 \<and> list_all is_hexdigit (id_text selected)
   \<and> bounded_inventory inventory
   \<and> (\<exists>n. uniquely_selected inventory (id_text selected) n
        \<and> observed_as (no_id n) RuntimeAssigned (id_text selected)
        \<and> observed_as (no_name n) Effective (np_identity p)
        \<and> observed_as (no_driver n) Effective (network_driver_name (np_driver p))
        \<and> (case np_internal p of None \<Rightarrow> True | Some b \<Rightarrow> observed_as (no_internal n) Effective b))"
proof -
  have the_id: "observed_as (no_id n) RuntimeAssigned v \<longleftrightarrow> observed_as (no_id n) RuntimeAssigned v \<and> v = i"
    if "uniquely_selected inventory i n" for n v i
  proof -
    have "obs_value (no_id n) = Some i"
      using that singleton_filter [of "\<lambda>x. obs_value (no_id x) = Some i"]
      unfolding uniquely_selected_def by blast
    then show ?thesis by (auto simp: observed_as_def)
  qed
  show ?thesis
    unfolding assess_def Let_def
    by (auto simp: bind_res_Inr_iff selected_network_Inr assess_network_Inr dest: the_id [THEN iffD1]
        split: option.splits)
qed

end
