(* ===== verification/Budgets.thy ===== *)
theory Budgets
  imports Acquisition_Data
begin

text \<open>
  \<^verbatim>\<open>Budget\<close> of \<^verbatim>\<open>src/acquisition.rs\<close>: the counters of one acquisition as a state machine. Every
  operation takes a reading of the clock, the time since the budget was made, for each place
  where the code reads it, and returns its result with the next state. The two hash maps are
  partial functions. \<open>None\<close> of \<open>read_response\<close> is a panic.
\<close>

section \<open>The state\<close>

datatype resource_class = ClassContainer | ClassNetwork | ClassVolume

record pending_request =
  pr_request :: read_request
  pr_resource :: "resource_ref option"
  pr_api :: "api_version option"

record budget =
  b_observation :: observation_id
  b_limits :: limits
  b_requests :: nat
  b_selected :: nat
  b_expansions :: nat
  b_bytes :: nat
  b_pending :: "pending_request option"
  b_exchanges :: "captured_exchange list"
  b_ids :: "resource_ref \<Rightarrow> (resource_class \<times> native_id) option"
  b_refs :: "resource_class \<times> native_id \<Rightarrow> resource_ref option"
  b_failed :: bool

text \<open>The observation counter of the process is the second argument and result.\<close>

definition budget_new :: "limits \<Rightarrow> u64 \<Rightarrow> (limit_error + budget) \<times> u64" where
  "budget_new l next =
     (case limits_validate l of
        Inl e \<Rightarrow> (Inl e, next)
      | Inr l' \<Rightarrow>
        (case fresh next of
           (Inl _, next') \<Rightarrow> (Inl ObservationIdExhausted, next')
         | (Inr i, next') \<Rightarrow>
             (Inr \<lparr>b_observation = i, b_limits = l', b_requests = 0, b_selected = 0, b_expansions = 0,
                b_bytes = 0, b_pending = None, b_exchanges = [], b_ids = Map.empty, b_refs = Map.empty,
                b_failed = False\<rparr>, next')))"

section \<open>The operations\<close>

text \<open>An operation returns its result and the next state, or panics.\<close>

type_synonym 'a budgeted = "budget \<Rightarrow> ((limit_error + 'a) \<times> budget) option"

definition ok :: "'a \<Rightarrow> 'a budgeted" where
  "ok x b = Some (Inr x, b)"

definition err :: "limit_error \<Rightarrow> 'a budgeted" where
  "err e b = Some (Inl e, b)"

definition fail_with :: "limit_error \<Rightarrow> 'a budgeted" where
  "fail_with e b = Some (Inl e, b\<lparr>b_failed := True\<rparr>)"

definition and_then :: "'a budgeted \<Rightarrow> ('a \<Rightarrow> 'b budgeted) \<Rightarrow> 'b budgeted" where
  "and_then m f b =
     (case m b of
        None \<Rightarrow> None
      | Some (Inl e, b') \<Rightarrow> Some (Inl e, b')
      | Some (Inr x, b') \<Rightarrow> f x b')"

definition check_time :: "duration \<Rightarrow> unit budgeted" where
  "check_time now b =
     (if b_failed b then err BudgetExhausted b
      else if now > max_elapsed (b_limits b) then fail_with Elapsed b
      else ok () b)"

text \<open>The class and identifier an inspect request names.\<close>

fun inspected :: "read_request \<Rightarrow> (resource_class \<times> native_id) option" where
  "inspected (InspectContainer i) = Some (ClassContainer, i)"
| "inspected (InspectNetwork i) = Some (ClassNetwork, i)"
| "inspected (InspectVolume i) = Some (ClassVolume, i)"
| "inspected _ = None"

text \<open>The registration of an inspected resource: one expansion, and the two maps.\<close>

definition register :: "resource_ref \<Rightarrow> resource_class \<times> native_id \<Rightarrow> unit budgeted" where
  "register r ki b =
     (if (case b_ids b r of Some registered \<Rightarrow> registered \<noteq> ki | None \<Rightarrow> False)
      then err ResourceConflict b
      else if (case b_refs b ki of Some registered \<Rightarrow> registered \<noteq> r | None \<Rightarrow> False)
      then err ResourceConflict b
      else
        (case checked_add (b_expansions b) 1 of
           None \<Rightarrow> fail_with TooManyExpansions b
         | Some n \<Rightarrow>
           if n > max_expansions (b_limits b) then fail_with TooManyExpansions b
           else ok () (b\<lparr>b_expansions := n,
             b_ids := (case b_ids b r of None \<Rightarrow> (b_ids b)(r \<mapsto> ki) | Some _ \<Rightarrow> b_ids b),
             b_refs := (case b_refs b ki of None \<Rightarrow> (b_refs b)(ki \<mapsto> r) | Some _ \<Rightarrow> b_refs b)\<rparr>)))"

definition count_request :: "pending_request \<Rightarrow> unit budgeted" where
  "count_request p b =
     (case checked_add (b_requests b) 1 of
        None \<Rightarrow> fail_with TooManyRequests b
      | Some n \<Rightarrow>
        if n > max_requests (b_limits b) then fail_with TooManyRequests (b\<lparr>b_requests := n\<rparr>)
        else ok () (b\<lparr>b_requests := n, b_pending := Some p\<rparr>))"

definition record_request ::
  "duration \<Rightarrow> read_request \<Rightarrow> resource_ref option \<Rightarrow> api_version option \<Rightarrow> unit budgeted" where
  "record_request now request resource api =
     and_then (check_time now) (\<lambda>_ b.
       if b_pending b \<noteq> None then err PendingResponse b
       else if (inspected request \<noteq> None) \<noteq> (resource \<noteq> None) then err InvalidResourceRef b
       else if request \<noteq> DaemonVersion \<and> api = None then err MissingRequestApiVersion b
       else and_then
         (case (resource, inspected request) of (Some r, Some ki) \<Rightarrow> register r ki | _ \<Rightarrow> ok ())
         (\<lambda>_. count_request \<lparr>pr_request = request, pr_resource = resource, pr_api = api\<rparr>) b)"

definition record_selection :: "duration \<Rightarrow> nat \<Rightarrow> unit budgeted" where
  "record_selection now count =
     and_then (check_time now) (\<lambda>_ b.
       case checked_add (b_selected b) count of
         None \<Rightarrow> fail_with TooManySelectedResources b
       | Some n \<Rightarrow>
         if n > max_selected_resources (b_limits b)
         then fail_with TooManySelectedResources (b\<lparr>b_selected := n\<rparr>)
         else ok () (b\<lparr>b_selected := n\<rparr>))"

definition record_expansion :: "duration \<Rightarrow> nat \<Rightarrow> unit budgeted" where
  "record_expansion now count =
     and_then (check_time now) (\<lambda>_ b.
       case checked_add (b_expansions b) count of
         None \<Rightarrow> fail_with TooManyExpansions b
       | Some n \<Rightarrow>
         if n > max_expansions (b_limits b)
         then fail_with TooManyExpansions (b\<lparr>b_expansions := n\<rparr>)
         else ok () (b\<lparr>b_expansions := n\<rparr>))"

text \<open>A reader: the bytes it yields, and whether it fails after them or just ends.\<close>

record reader =
  rd_bytes :: bytes
  rd_fails :: bool

text \<open>\<^verbatim>\<open>take(n)\<close> and \<^verbatim>\<open>read_to_end\<close>: at most \<open>n\<close> bytes; the failure is met only when fewer come.\<close>

definition read_up_to :: "nat \<Rightarrow> reader \<Rightarrow> bytes \<times> bool" where
  "read_up_to n r = (take n (rd_bytes r), length (rd_bytes r) < n \<and> rd_fails r)"

text \<open>\<^verbatim>\<open>max_total_bytes - bytes_read\<close> panics below zero.\<close>

definition allowance :: "budget \<Rightarrow> nat option" where
  "allowance b =
     map_option (min (max_response_bytes (b_limits b)))
       (checked_sub (max_total_bytes (b_limits b)) (b_bytes b))"

text \<open>The end of \<open>read_response\<close>: the taken request becomes an exchange.\<close>

definition store_exchange :: "http_status \<Rightarrow> bytes \<Rightarrow> protected_value budgeted" where
  "store_exchange status bytes b =
     (case b_pending b of
        None \<Rightarrow> None
      | Some p \<Rightarrow> ok bytes (b\<lparr>b_pending := None,
          b_exchanges := b_exchanges b @ [
            \<lparr>ex_request = pr_request p, ex_resource = pr_resource p, ex_api = pr_api p,
             ex_status = status, ex_body = bytes\<rparr>]\<rparr>))"

text \<open>The clock is read twice: before the response is read and after it.\<close>

definition read_response ::
  "duration \<Rightarrow> duration \<Rightarrow> http_status \<Rightarrow> reader \<Rightarrow> protected_value budgeted" where
  "read_response now later status r =
     and_then (check_time now) (\<lambda>_ b.
       if b_pending b = None then err ResponseWithoutRequest b
       else
         (case allowance b of
            None \<Rightarrow> None
          | Some n \<Rightarrow>
            (let (bytes, failed) = read_up_to (saturating_add n 1) r;
                 b' = b\<lparr>b_bytes := saturating_add (b_bytes b) (length bytes)\<rparr> in
             if failed then fail_with InputError b'
             else and_then (check_time later)
               (\<lambda>_. if length bytes > n then fail_with TooManyBytes else store_exchange status bytes) b')))"

definition counts :: "budget \<Rightarrow> capture_bounds" where
  "counts b =
     \<lparr>cb_requests = b_requests b, cb_selected = b_selected b, cb_expansions = b_expansions b,
      cb_bytes = b_bytes b\<rparr>"

definition into_capture :: "duration \<Rightarrow> budget \<Rightarrow> limit_error + capture" where
  "into_capture now b =
     (if b_failed b then Inl BudgetExhausted
      else if now > max_elapsed (b_limits b) then Inl Elapsed
      else if b_pending b \<noteq> None \<or> b_requests b = 0 then Inl Incomplete
      else (case from_completed (b_observation b) (counts b) (b_exchanges b) of
              Inl _ \<Rightarrow> Inl CaptureAccounting
            | Inr c \<Rightarrow> Inr c))"

section \<open>The invariant\<close>

text \<open>The limits are \<^verbatim>\<open>usize\<close> values that \<open>validate\<close> accepted.\<close>

definition limits_ok :: "limits \<Rightarrow> bool" where
  "limits_ok l \<longleftrightarrow> limits_validate l = Inr l \<and> max_requests l \<le> usize_max
     \<and> max_selected_resources l \<le> usize_max \<and> max_expansions l \<le> usize_max
     \<and> max_total_bytes l \<le> usize_max"

definition within_limits :: "budget \<Rightarrow> bool" where
  "within_limits b \<longleftrightarrow> b_requests b \<le> max_requests (b_limits b)
     \<and> b_selected b \<le> max_selected_resources (b_limits b)
     \<and> b_expansions b \<le> max_expansions (b_limits b)
     \<and> b_bytes b \<le> max_total_bytes (b_limits b)"

definition accounted :: "budget \<Rightarrow> bool" where
  "accounted b \<longleftrightarrow>
     b_requests b = length (b_exchanges b) + (if b_pending b = None then 0 else 1)
     \<and> total_bytes (b_exchanges b) = Some (b_bytes b)
     \<and> list_all (\<lambda>e. length (ex_body e) \<le> max_response_bytes (b_limits b)) (b_exchanges b)"

text \<open>An inspect request names exactly the resource registered under its reference.\<close>

definition registered ::
  "(resource_ref \<Rightarrow> (resource_class \<times> native_id) option) \<Rightarrow> read_request \<Rightarrow> resource_ref option \<Rightarrow> bool"
where
  "registered ids request resource \<longleftrightarrow>
     (case (resource, inspected request) of
        (None, None) \<Rightarrow> True
      | (Some r, Some ki) \<Rightarrow> ids r = Some ki
      | _ \<Rightarrow> False)"

definition references_ok :: "budget \<Rightarrow> bool" where
  "references_ok b \<longleftrightarrow> (\<forall>r ki. b_ids b r = Some ki \<longleftrightarrow> b_refs b ki = Some r)
     \<and> pred_option (\<lambda>p. registered (b_ids b) (pr_request p) (pr_resource p)) (b_pending b)
     \<and> list_all (\<lambda>e. registered (b_ids b) (ex_request e) (ex_resource e)) (b_exchanges b)"

definition budget_ok :: "budget \<Rightarrow> bool" where
  "budget_ok b \<longleftrightarrow> limits_ok (b_limits b) \<and> references_ok b
     \<and> (\<not> b_failed b \<longrightarrow> within_limits b \<and> accounted b)"

text \<open>What one operation promises: it does not panic, it keeps the invariant, the limits and the
  identity, and forgets no exchange.\<close>

definition extends :: "budget \<Rightarrow> budget \<Rightarrow> bool" where
  "extends b b' \<longleftrightarrow> b_limits b' = b_limits b \<and> b_observation b' = b_observation b
     \<and> (b_failed b \<longrightarrow> b_failed b')
     \<and> (\<exists>es. b_exchanges b' = b_exchanges b @ es)"

lemma extends_refl [simp]: "extends b b"
  by (simp add: extends_def)

lemma extends_trans: "extends a b \<Longrightarrow> extends b c \<Longrightarrow> extends a c"
  by (auto simp: extends_def)

definition keeps :: "(budget \<Rightarrow> bool) \<Rightarrow> 'a budgeted \<Rightarrow> ('a \<Rightarrow> budget \<Rightarrow> bool) \<Rightarrow> bool" where
  "keeps P m Q \<longleftrightarrow> (\<forall>b. P b \<longrightarrow> (\<exists>x b'. m b = Some (x, b') \<and> extends b b'
     \<and> (case x of Inl _ \<Rightarrow> budget_ok b' | Inr y \<Rightarrow> Q y b')))"

lemma keepsI:
  "(\<And>b. P b \<Longrightarrow> \<exists>x b'. m b = Some (x, b') \<and> extends b b'
     \<and> (case x of Inl _ \<Rightarrow> budget_ok b' | Inr y \<Rightarrow> Q y b')) \<Longrightarrow> keeps P m Q"
  by (simp add: keeps_def)

lemma keeps_and_then:
  assumes "keeps P m Q" and "\<And>x. keeps (Q x) (f x) R"
  shows "keeps P (and_then m f) R"
proof (rule keepsI)
  fix b
  assume "P b"
  with assms(1) obtain x b1 where m: "m b = Some (x, b1)" "extends b b1"
    "case x of Inl _ \<Rightarrow> budget_ok b1 | Inr y \<Rightarrow> Q y b1" unfolding keeps_def by blast
  show "\<exists>x b'. and_then m f b = Some (x, b') \<and> extends b b'
      \<and> (case x of Inl _ \<Rightarrow> budget_ok b' | Inr y \<Rightarrow> R y b')"
  proof (cases x)
    case (Inl e)
    with m show ?thesis by (simp add: and_then_def)
  next
    case (Inr y)
    with m have "Q y b1" by simp
    with assms(2) [of y] obtain z b2 where "f y b1 = Some (z, b2)" "extends b1 b2"
      "case z of Inl _ \<Rightarrow> budget_ok b2 | Inr y \<Rightarrow> R y b2" unfolding keeps_def by blast
    with m Inr extends_trans show ?thesis by (auto simp: and_then_def)
  qed
qed

text \<open>Alive: the invariant holds and nothing has failed.\<close>

definition alive :: "budget \<Rightarrow> bool" where
  "alive b \<longleftrightarrow> budget_ok b \<and> \<not> b_failed b"

lemma alive_iff: "alive b \<longleftrightarrow> limits_ok (b_limits b) \<and> references_ok b \<and> \<not> b_failed b
    \<and> within_limits b \<and> accounted b"
  by (auto simp: alive_def budget_ok_def)

lemma references_frame [simp]:
  "references_ok (b\<lparr>b_failed := f\<rparr>) = references_ok b"
  "references_ok (b\<lparr>b_requests := n\<rparr>) = references_ok b"
  "references_ok (b\<lparr>b_selected := n\<rparr>) = references_ok b"
  "references_ok (b\<lparr>b_expansions := n\<rparr>) = references_ok b"
  "references_ok (b\<lparr>b_bytes := n\<rparr>) = references_ok b"
  by (simp_all add: references_ok_def)

lemma failed_ok [simp]: "b_failed b \<Longrightarrow> budget_ok b = (limits_ok (b_limits b) \<and> references_ok b)"
  by (simp add: budget_ok_def)

lemmas operation_defs = err_def fail_with_def ok_def extends_def

section \<open>Every operation keeps it\<close>

lemma keeps_check_time: "keeps budget_ok (check_time now) (\<lambda>_. alive)"
  by (rule keepsI) (auto simp: check_time_def operation_defs alive_iff budget_ok_def)

lemma keeps_err: "(\<And>b. P b \<Longrightarrow> budget_ok b) \<Longrightarrow> keeps P (err e) Q"
  by (rule keepsI) (simp add: operation_defs)

text \<open>Alive, and the pending request is still free.\<close>

definition free :: "budget \<Rightarrow> bool" where
  "free b \<longleftrightarrow> alive b \<and> b_pending b = None"

lemma alive_ok: "alive b \<Longrightarrow> budget_ok b"
  by (simp add: alive_def)

lemma free_ok: "free b \<Longrightarrow> budget_ok b"
  by (simp add: free_def alive_def)

lemma counter_bound: "n \<le> m \<Longrightarrow> m \<le> usize_max \<Longrightarrow> checked_add n 1 = None \<Longrightarrow> n = m"
  by (auto simp: checked_add_def split: if_splits)

lemma keeps_register:
  "keeps free (register r ki) (\<lambda>_ b. free b \<and> b_ids b r = Some ki)"
proof (rule keepsI)
  fix b
  assume "free b"
  then have b: "limits_ok (b_limits b)" "references_ok b" "\<not> b_failed b" "within_limits b"
    "accounted b" "b_pending b = None" by (simp_all add: free_def alive_iff)
  have inverse: "\<And>r ki. b_ids b r = Some ki \<longleftrightarrow> b_refs b ki = Some r"
    and exchanges: "list_all (\<lambda>e. registered (b_ids b) (ex_request e) (ex_resource e)) (b_exchanges b)"
    using b(2) unfolding references_ok_def by blast+
  let ?Q = "\<lambda>x b'. case x of Inl _ \<Rightarrow> budget_ok b' | Inr y \<Rightarrow> free b' \<and> b_ids b' r = Some ki"
  have ok: "budget_ok b" using b by (simp add: budget_ok_def)
  have fail: "budget_ok (b\<lparr>b_failed := True\<rparr>)" using b by simp
  show "\<exists>x b'. register r ki b = Some (x, b') \<and> extends b b' \<and> ?Q x b'"
  proof (cases "b_ids b r")
    case (Some k)
    then have refs: "b_refs b k = Some r" using inverse by simp
    show ?thesis
    proof (cases "k = ki")
      case True
      with b Some refs ok fail show ?thesis
        by (auto simp: register_def operation_defs checked_add_def free_def alive_iff within_limits_def
            accounted_def references_ok_def)
    qed (use Some ok in \<open>simp add: register_def operation_defs\<close>)
  next
    case None
    show ?thesis
    proof (cases "b_refs b ki")
      case (Some r')
      then have "b_ids b r' = Some ki" using inverse by blast
      then have "r' \<noteq> r" using None by auto
      with None Some ok show ?thesis by (simp add: register_def operation_defs)
    next
      case none: None
      have "references_ok (b\<lparr>b_expansions := n, b_ids := (b_ids b)(r \<mapsto> ki), b_refs := (b_refs b)(ki \<mapsto> r)\<rparr>)" for n
      proof -
        have "registered ((b_ids b)(r \<mapsto> ki)) q x" if "registered (b_ids b) q x" for q x
          using that None by (auto simp: registered_def split: option.splits)
        moreover have "b_refs b k \<noteq> Some r" "b_ids b q \<noteq> Some ki" for k q
          using None none inverse [of r k] inverse [of q ki] by simp_all
        ultimately show ?thesis
          using inverse exchanges b(6) by (auto simp: references_ok_def list_all_iff)
      qed
      with None none b fail show ?thesis
        by (auto simp: register_def operation_defs checked_add_def free_def alive_iff within_limits_def
            accounted_def)
    qed
  qed
qed

lemma keeps_count_request:
  "keeps (\<lambda>b. free b \<and> registered (b_ids b) (pr_request p) (pr_resource p)) (count_request p) (\<lambda>_. alive)"
proof (rule keepsI)
  fix b
  assume "free b \<and> registered (b_ids b) (pr_request p) (pr_resource p)"
  then show "\<exists>x b'. count_request p b = Some (x, b') \<and> extends b b'
      \<and> (case x of Inl _ \<Rightarrow> budget_ok b' | Inr y \<Rightarrow> alive b')"
    by (auto simp: count_request_def operation_defs checked_add_def free_def alive_iff
        within_limits_def accounted_def references_ok_def)
qed

lemma keeps_conseq:
  assumes "keeps P m Q" and "\<And>b. P' b \<Longrightarrow> P b" and "\<And>x b. Q x b \<Longrightarrow> Q' x b"
  shows "keeps P' m Q'"
proof (rule keepsI)
  fix b
  assume "P' b"
  with assms(1,2) obtain x b' where "m b = Some (x, b')" "extends b b'"
    "case x of Inl _ \<Rightarrow> budget_ok b' | Inr y \<Rightarrow> Q y b'" unfolding keeps_def by blast
  with assms(3) show "\<exists>x b'. m b = Some (x, b') \<and> extends b b'
      \<and> (case x of Inl _ \<Rightarrow> budget_ok b' | Inr y \<Rightarrow> Q' y b')"
    by (cases x) auto
qed

lemma keeps_record_request: "keeps budget_ok (record_request now request resource api) (\<lambda>_. alive)"
  unfolding record_request_def
proof (rule keeps_and_then [OF keeps_check_time])
  let ?reg = "case (resource, inspected request) of (Some r, Some ki) \<Rightarrow> register r ki | _ \<Rightarrow> ok ()"
  let ?p = "\<lparr>pr_request = request, pr_resource = resource, pr_api = api\<rparr>"
  have "keeps (\<lambda>b. free b \<and> (inspected request \<noteq> None) = (resource \<noteq> None)) ?reg
      (\<lambda>_ b. free b \<and> registered (b_ids b) (pr_request ?p) (pr_resource ?p))"
  proof (cases resource; cases "inspected request")
    fix r ki
    assume "resource = Some r" "inspected request = Some ki"
    then show ?thesis
      by (auto intro: keeps_conseq [OF keeps_register [of r ki]] simp: registered_def)
  qed (auto simp: keeps_def operation_defs registered_def)
  from keeps_and_then [OF this keeps_count_request]
  have go: "keeps (\<lambda>b. free b \<and> (inspected request \<noteq> None) = (resource \<noteq> None))
      (and_then ?reg (\<lambda>_. count_request ?p)) (\<lambda>_. alive)" .
  show "keeps alive (\<lambda>b.
      if b_pending b \<noteq> None then err PendingResponse b
      else if (inspected request \<noteq> None) \<noteq> (resource \<noteq> None) then err InvalidResourceRef b
      else if request \<noteq> DaemonVersion \<and> api = None then err MissingRequestApiVersion b
      else and_then ?reg (\<lambda>_. count_request ?p) b) (\<lambda>_. alive)"
  proof (rule keepsI)
    fix b
    assume b: "alive b"
    let ?run = "if b_pending b \<noteq> None then err PendingResponse b
      else if (inspected request \<noteq> None) \<noteq> (resource \<noteq> None) then err InvalidResourceRef b
      else if request \<noteq> DaemonVersion \<and> api = None then err MissingRequestApiVersion b
      else and_then ?reg (\<lambda>_. count_request ?p) b"
    show "\<exists>x b'. ?run = Some (x, b') \<and> extends b b'
        \<and> (case x of Inl _ \<Rightarrow> budget_ok b' | Inr y \<Rightarrow> alive b')"
    proof (cases "b_pending b \<noteq> None \<or> (inspected request \<noteq> None) \<noteq> (resource \<noteq> None)
        \<or> request \<noteq> DaemonVersion \<and> api = None")
      case True
      then show ?thesis using alive_ok [OF b] by (auto simp: err_def)
    next
      case False
      then have "?run = and_then ?reg (\<lambda>_. count_request ?p) b" by auto
      moreover have "free b" "(inspected request \<noteq> None) = (resource \<noteq> None)"
        using b False by (auto simp: free_def)
      ultimately show ?thesis using go unfolding keeps_def by presburger
    qed
  qed
qed

lemma keeps_record_selection: "keeps budget_ok (record_selection now n) (\<lambda>_. alive)"
  unfolding record_selection_def
  by (rule keeps_and_then [OF keeps_check_time], rule keepsI)
    (auto simp: operation_defs checked_add_def alive_iff within_limits_def accounted_def split: option.split)

lemma keeps_record_expansion: "keeps budget_ok (record_expansion now n) (\<lambda>_. alive)"
  unfolding record_expansion_def
  by (rule keeps_and_then [OF keeps_check_time], rule keepsI)
    (auto simp: operation_defs checked_add_def alive_iff within_limits_def accounted_def split: option.split)

text \<open>A response is stored only within the allowance, so the totals stay within the limits.\<close>

lemma allowance_Some:
  assumes "alive b"
  shows "\<exists>n. allowance b = Some n \<and> n \<le> max_response_bytes (b_limits b)
    \<and> n + b_bytes b \<le> max_total_bytes (b_limits b) \<and> n < usize_max"
  using assms
  by (auto simp: allowance_def checked_sub_def alive_iff within_limits_def limits_ok_def limits_validate_Inr)

lemma keeps_store_exchange:
  assumes "length bytes \<le> max_response_bytes l" and "length bytes + n \<le> max_total_bytes l"
  shows "keeps (\<lambda>b. b_limits b = l \<and> limits_ok l \<and> references_ok b \<and> \<not> b_failed b \<and> b_pending b \<noteq> None
      \<and> within_limits (b\<lparr>b_bytes := n\<rparr>) \<and> accounted (b\<lparr>b_bytes := n\<rparr>) \<and> b_bytes b = n + length bytes)
    (store_exchange status bytes) (\<lambda>_. alive)"
proof (rule keepsI, elim conjE exE)
  fix b
  assume b: "b_limits b = l" "limits_ok l" "references_ok b" "\<not> b_failed b" "b_pending b \<noteq> None"
    "within_limits (b\<lparr>b_bytes := n\<rparr>)" "accounted (b\<lparr>b_bytes := n\<rparr>)" "b_bytes b = n + length bytes"
  then obtain p where p: "b_pending b = Some p" by blast
  let ?e = "\<lparr>ex_request = pr_request p, ex_resource = pr_resource p, ex_api = pr_api p,
      ex_status = status, ex_body = bytes\<rparr>"
  let ?b = "b\<lparr>b_pending := None, b_exchanges := b_exchanges b @ [?e]\<rparr>"
  have "total_bytes (b_exchanges b @ [?e]) = Some (n + length bytes)"
    using b assms by (simp add: total_bytes_snoc add_body_def accounted_def checked_add_def limits_ok_def)
  then have "accounted ?b" using b assms p by (simp add: accounted_def)
  moreover have "references_ok ?b" using b(3) p by (simp add: references_ok_def)
  moreover have "within_limits ?b" using b assms by (simp add: within_limits_def)
  ultimately have "alive ?b" using b by (simp add: alive_iff)
  then show "\<exists>x b'. store_exchange status bytes b = Some (x, b') \<and> extends b b'
      \<and> (case x of Inl _ \<Rightarrow> budget_ok b' | Inr y \<Rightarrow> alive b')"
    using p by (simp add: store_exchange_def operation_defs)
qed

lemma keeps_read_response: "keeps budget_ok (read_response now later status r) (\<lambda>_. alive)"
  unfolding read_response_def
proof (rule keeps_and_then [OF keeps_check_time], rule keepsI)
  fix b
  assume b: "alive b"
  let ?Q = "\<lambda>x b'. case x of Inl _ \<Rightarrow> budget_ok b' | Inr y \<Rightarrow> alive b'"
  obtain n where n: "allowance b = Some n" "n \<le> max_response_bytes (b_limits b)"
    "n + b_bytes b \<le> max_total_bytes (b_limits b)" "n < usize_max"
    using allowance_Some [OF b] by blast
  obtain bytes failed where read: "read_up_to (saturating_add n 1) r = (bytes, failed)" by force
  let ?b = "b\<lparr>b_bytes := saturating_add (b_bytes b) (length bytes)\<rparr>"
  have base: "limits_ok (b_limits b)" "references_ok b" "\<not> b_failed b" "within_limits b" "accounted b"
    using b by (simp_all add: alive_iff)
  have "?b\<lparr>b_bytes := b_bytes b\<rparr> = b" by simp
  have store: "\<exists>x b'. store_exchange status bytes ?b = Some (x, b') \<and> extends ?b b' \<and> ?Q x b'"
    if len: "length bytes \<le> n" and pending: "b_pending b \<noteq> None"
  proof -
    have "saturating_add (b_bytes b) (length bytes) = b_bytes b + length bytes"
      using len n(3) base(1) by (simp add: saturating_add_def limits_ok_def)
    with keeps_store_exchange [of bytes "b_limits b" "b_bytes b" status] len n base pending show ?thesis
      unfolding keeps_def by (force simp: add.commute)
  qed
  have frame: "extends b ?b" by (simp add: extends_def)
  show "\<exists>x b'. (if b_pending b = None then err ResponseWithoutRequest b
        else case allowance b of None \<Rightarrow> None
        | Some n \<Rightarrow>
            let (bytes, failed) = read_up_to (saturating_add n 1) r;
                b' = b\<lparr>b_bytes := saturating_add (b_bytes b) (length bytes)\<rparr>
            in if failed then fail_with InputError b'
               else and_then (check_time later)
                 (\<lambda>_. if length bytes > n then fail_with TooManyBytes else store_exchange status bytes) b')
      = Some (x, b') \<and> extends b b' \<and> ?Q x b'"
  proof (cases "b_pending b = None")
    case True
    then show ?thesis using alive_ok [OF b] by (simp add: err_def)
  next
    case False
    have fail: "budget_ok (?b\<lparr>b_failed := True\<rparr>)" "extends b (?b\<lparr>b_failed := True\<rparr>)"
      using base by (simp_all add: extends_def)
    consider "failed" | "\<not> failed" "max_elapsed (b_limits b) < later"
      | "\<not> failed" "\<not> max_elapsed (b_limits b) < later" "n < length bytes"
      | "\<not> failed" "\<not> max_elapsed (b_limits b) < later" "length bytes \<le> n" by linarith
    then show ?thesis
    proof cases
      case 4
      from store [OF 4(3) False] extends_trans [OF frame] show ?thesis
        using False base(3) 4 read n(1) by (auto simp: and_then_def check_time_def ok_def)
    qed (use False base(3) read n(1) fail in
      \<open>auto simp: and_then_def check_time_def fail_with_def ok_def\<close>)
  qed
qed

section \<open>Runs of a budget\<close>

text \<open>A caller makes the calls in any order, at any times, with any readers.\<close>

inductive budget_step :: "budget \<Rightarrow> budget \<Rightarrow> bool" where
  request: "record_request now q r api b = Some (x, b') \<Longrightarrow> budget_step b b'"
| selection: "record_selection now n b = Some (y, b') \<Longrightarrow> budget_step b b'"
| expansion: "record_expansion now n b = Some (y, b') \<Longrightarrow> budget_step b b'"
| response: "read_response now later status rd b = Some (z, b') \<Longrightarrow> budget_step b b'"

inductive reachable :: "limits \<Rightarrow> budget \<Rightarrow> bool" where
  start: "budget_new l n = (Inr b, n') \<Longrightarrow> reachable l b"
| step: "reachable l b \<Longrightarrow> budget_step b b' \<Longrightarrow> reachable l b'"

inductive_cases reachable_startE: "reachable l b"

text \<open>The locale of the operations: what a caller of any one of them relies on.\<close>

locale budget_operation =
  fixes oper :: "'a budgeted"
  assumes keeps_ok: "keeps budget_ok oper (\<lambda>_. alive)"
    and exhausted: "b_failed b \<Longrightarrow> oper b = Some (Inl BudgetExhausted, b)"
begin

lemma never_panics: "budget_ok b \<Longrightarrow> oper b \<noteq> None"
  using keeps_ok unfolding keeps_def by fastforce

lemma preserves: "budget_ok b \<Longrightarrow> oper b = Some (x, b') \<Longrightarrow> budget_ok b' \<and> extends b b'"
  using keeps_ok unfolding keeps_def alive_def by (fastforce split: sum.splits)

lemma success_alive: "budget_ok b \<Longrightarrow> oper b = Some (Inr y, b') \<Longrightarrow> alive b'"
  using keeps_ok unfolding keeps_def by fastforce

lemma success_was_alive: "oper b = Some (Inr y, b') \<Longrightarrow> \<not> b_failed b"
  using exhausted by auto

end

lemma check_time_exhausted: "b_failed b \<Longrightarrow> check_time now b = Some (Inl BudgetExhausted, b)"
  by (simp add: check_time_def err_def)

interpretation rq: budget_operation "record_request now q r api" for now q r api
  by unfold_locales (rule keeps_record_request, simp add: record_request_def and_then_def check_time_exhausted)

interpretation sel: budget_operation "record_selection now n" for now n
  by unfold_locales (rule keeps_record_selection, simp add: record_selection_def and_then_def check_time_exhausted)

interpretation expa: budget_operation "record_expansion now n" for now n
  by unfold_locales (rule keeps_record_expansion, simp add: record_expansion_def and_then_def check_time_exhausted)

interpretation rsp: budget_operation "read_response now later status rd" for now later status rd
  by unfold_locales (rule keeps_read_response, simp add: read_response_def and_then_def check_time_exhausted)

lemma budget_step_ok: "budget_step b b' \<Longrightarrow> budget_ok b \<Longrightarrow> budget_ok b' \<and> extends b b'"
  by (induction rule: budget_step.induct)
    (auto dest: rq.preserves sel.preserves expa.preserves rsp.preserves)

definition limits_sized :: "limits \<Rightarrow> bool" where
  "limits_sized l \<longleftrightarrow> max_requests l \<le> usize_max \<and> max_selected_resources l \<le> usize_max
     \<and> max_expansions l \<le> usize_max \<and> max_total_bytes l \<le> usize_max"

lemma budget_new_alive:
  assumes "budget_new l n = (Inr b, n')" and "limits_sized l"
  shows "alive b \<and> b_limits b = l"
proof -
  have l: "limits_validate l = Inr l"
    using assms(1) by (auto simp: budget_new_def limits_validate_def split: if_splits)
  with assms obtain i where b: "b = \<lparr>b_observation = i, b_limits = l, b_requests = 0, b_selected = 0,
      b_expansions = 0, b_bytes = 0, b_pending = None, b_exchanges = [], b_ids = Map.empty,
      b_refs = Map.empty, b_failed = False\<rparr>"
    by (auto simp: budget_new_def split: sum.splits prod.splits)
  show ?thesis
    using l assms(2)
    by (simp add: b alive_iff limits_ok_def limits_sized_def references_ok_def within_limits_def accounted_def)
qed

lemma reachable_ok:
  assumes "reachable l b" and "limits_sized l"
  shows "budget_ok b \<and> b_limits b = l"
  using assms
proof (induction rule: reachable.induct)
  case (start l n b n')
  then show ?case using budget_new_alive alive_ok by blast
next
  case (step l b b')
  then show ?case using budget_step_ok [OF step.hyps(2)] by (auto simp: extends_def)
qed

lemma into_capture_ok:
  assumes "budget_ok b"
  shows "into_capture now b \<noteq> Inl CaptureAccounting"
  using assms
  by (auto simp: into_capture_def budget_ok_def accounted_def from_completed_def counts_def
      split: sum.splits)

lemma into_capture_Inr:
  "into_capture now b = Inr c \<Longrightarrow> \<not> b_failed b \<and> cap_exchanges c = b_exchanges b
     \<and> cap_bounds c = counts b \<and> cap_observation c = b_observation b"
  by (auto simp: into_capture_def from_completed_Inr split: if_splits sum.splits)

lemma registered_inj:
  assumes "\<forall>r ki. ids r = Some ki \<longleftrightarrow> refs ki = Some r"
    and "registered ids q (Some r)" and "registered ids q' (Some r')"
  shows "r = r' \<longleftrightarrow> inspected q = inspected q'"
proof -
  obtain ki ki' where k: "inspected q = Some ki" "ids r = Some ki" "inspected q' = Some ki'" "ids r' = Some ki'"
    using assms(2,3) by (auto simp: registered_def split: option.splits)
  then have "refs ki = Some r" "refs ki' = Some r'" using assms(1) by blast+
  with k show ?thesis by auto
qed

section \<open>Properties\<close>

text \<open>C22: however a budget was used, a capture made of it stayed within its limits: the numbers of
  requests, selected resources and expansions, each body and all bodies together; and its
  accounting is exact: every counted request has one exchange, every counted byte is in a body.\<close>

theorem captures_within_limits:
  assumes "reachable l b" and "limits_sized l" and "into_capture now b = Inr c"
  shows "length (cap_exchanges c) = cb_requests (cap_bounds c)
    \<and> sum_list (map (\<lambda>e. length (ex_body e)) (cap_exchanges c)) = cb_bytes (cap_bounds c)
    \<and> (\<forall>e \<in> set (cap_exchanges c). length (ex_body e) \<le> max_response_bytes l)
    \<and> 0 < cb_requests (cap_bounds c) \<and> cb_requests (cap_bounds c) \<le> max_requests l
    \<and> cb_selected (cap_bounds c) \<le> max_selected_resources l
    \<and> cb_expansions (cap_bounds c) \<le> max_expansions l
    \<and> cb_bytes (cap_bounds c) \<le> max_total_bytes l \<and> now \<le> max_elapsed l"
proof -
  have b: "budget_ok b" "b_limits b = l" using reachable_ok [OF assms(1,2)] by simp_all
  note c = into_capture_Inr [OF assms(3)]
  have settled: "b_pending b = None" "b_requests b \<noteq> 0" "now \<le> max_elapsed l"
    using assms(3) b(2) by (auto simp: into_capture_def split: if_splits)
  have "within_limits b" "accounted b" using b(1) c by (simp_all add: budget_ok_def)
  with b(2) c settled show ?thesis
    by (auto simp: within_limits_def accounted_def counts_def list_all_iff total_bytes_sum Let_def split: if_splits)
qed

text \<open>C23: no call on a budget panics, in any reachable state: the subtraction of the allowance never
  goes below zero and the pending request is there when it is taken; finishing never reports an
  accounting mismatch; and once a budget has failed every call but finishing changes nothing.\<close>

theorem budgets_never_panic:
  assumes "reachable l b" and "limits_sized l"
  shows "record_request now q r api b \<noteq> None \<and> record_selection now n b \<noteq> None
    \<and> record_expansion now n b \<noteq> None \<and> read_response now later status rd b \<noteq> None
    \<and> into_capture now b \<noteq> Inl CaptureAccounting
    \<and> (b_failed b \<longrightarrow> (\<forall>b'. budget_step b b' \<longrightarrow> b' = b))"
proof -
  have b: "budget_ok b" using reachable_ok [OF assms] by simp
  moreover have "b' = b" if "b_failed b" "budget_step b b'" for b'
    using that(2,1)
    by (cases rule: budget_step.cases) (simp_all add: rq.exhausted sel.exhausted expa.exhausted rsp.exhausted)
  ultimately show ?thesis
    using rq.never_panics sel.never_panics expa.never_panics rsp.never_panics into_capture_ok by blast
qed

text \<open>C24: in every capture the local references and the inspected objects correspond one to one: two
  exchanges carry the same reference exactly when they inspect the same object, and exactly the
  inspect requests carry one.\<close>

theorem capture_references_one_to_one:
  assumes "reachable l b" and "limits_sized l" and "into_capture now b = Inr c"
    and "e \<in> set (cap_exchanges c)" and "e' \<in> set (cap_exchanges c)"
  shows "(ex_resource e = None \<longleftrightarrow> inspected (ex_request e) = None)
    \<and> (ex_resource e \<noteq> None \<and> ex_resource e' \<noteq> None \<longrightarrow>
        (ex_resource e = ex_resource e' \<longleftrightarrow> inspected (ex_request e) = inspected (ex_request e')))"
proof -
  have "references_ok b" using reachable_ok [OF assms(1,2)] by (simp add: budget_ok_def)
  then have inverse: "\<forall>r ki. b_ids b r = Some ki \<longleftrightarrow> b_refs b ki = Some r"
    and reg: "registered (b_ids b) (ex_request e) (ex_resource e)"
      "registered (b_ids b) (ex_request e') (ex_resource e')"
    using assms(4,5) into_capture_Inr [OF assms(3)] by (simp_all add: references_ok_def list_all_iff)
  from reg(1) have "ex_resource e = None \<longleftrightarrow> inspected (ex_request e) = None"
    by (auto simp: registered_def split: option.splits)
  moreover have "ex_resource e = ex_resource e' \<longleftrightarrow> inspected (ex_request e) = inspected (ex_request e')"
    if "ex_resource e = Some r" "ex_resource e' = Some r'" for r r'
    using registered_inj [OF inverse, of "ex_request e" r "ex_request e'" r'] reg that by simp
  ultimately show ?thesis by auto
qed

section \<open>A sample run\<close>

definition sample_limits :: limits where
  "sample_limits = \<lparr>max_requests = 2, max_selected_resources = 1, max_expansions = 1,
     max_response_bytes = 4, max_total_bytes = 8, max_elapsed = 100\<rparr>"

definition sample_budget :: budget where
  "sample_budget = \<lparr>b_observation = ObservationId 1, b_limits = sample_limits, b_requests = 0,
     b_selected = 0, b_expansions = 0, b_bytes = 0, b_pending = None, b_exchanges = [],
     b_ids = Map.empty, b_refs = Map.empty, b_failed = False\<rparr>"

definition sample_exchange :: captured_exchange where
  "sample_exchange = \<lparr>ex_request = InspectVolume (NativeId ''v''), ex_resource = Some (ResourceRef 7),
     ex_api = Some (ApiVersion 1 41), ex_status = HttpStatus 200, ex_body = ''{}''\<rparr>"

definition sample_asked :: budget where
  "sample_asked = sample_budget\<lparr>b_requests := 1, b_expansions := 1,
     b_pending := Some \<lparr>pr_request = InspectVolume (NativeId ''v''), pr_resource = Some (ResourceRef 7),
       pr_api = Some (ApiVersion 1 41)\<rparr>,
     b_ids := [ResourceRef 7 \<mapsto> (ClassVolume, NativeId ''v'')],
     b_refs := [(ClassVolume, NativeId ''v'') \<mapsto> ResourceRef 7]\<rparr>"

definition sample_answered :: budget where
  "sample_answered = sample_asked\<lparr>b_pending := None, b_bytes := 2, b_exchanges := [sample_exchange]\<rparr>"

lemma sample_sized: "limits_sized sample_limits"
  by (simp add: limits_sized_def sample_limits_def usize_max_def)

lemma sample_reachable: "reachable sample_limits sample_answered"
proof -
  have "budget_new sample_limits 1 = (Inr sample_budget, 2)"
    by (simp add: budget_new_def limits_validate_def sample_limits_def usize_max_def fresh_def
        checked_add_one_def sample_budget_def)
  then have "reachable sample_limits sample_budget" by (rule reachable.start)
  moreover have "record_request 1 (InspectVolume (NativeId ''v'')) (Some (ResourceRef 7))
      (Some (ApiVersion 1 41)) sample_budget = Some (Inr (), sample_asked)"
    by (simp add: record_request_def and_then_def check_time_def ok_def register_def count_request_def
        checked_add_def usize_max_def sample_budget_def sample_limits_def sample_asked_def)
  ultimately have "reachable sample_limits sample_asked" by (blast intro: reachable.step budget_step.request)
  moreover have "read_response 2 3 (HttpStatus 200) \<lparr>rd_bytes = ''{}'', rd_fails = False\<rparr> sample_asked
      = Some (Inr ''{}'', sample_answered)"
    by (simp add: read_response_def and_then_def check_time_def ok_def allowance_def checked_sub_def
        read_up_to_def saturating_add_def usize_max_def store_exchange_def sample_budget_def
        sample_limits_def sample_asked_def sample_answered_def sample_exchange_def)
  ultimately show ?thesis by (blast intro: reachable.step budget_step.response)
qed

lemma sample_captured:
  "\<exists>c. into_capture 4 sample_answered = Inr c \<and> cap_exchanges c = [sample_exchange]"
  by (simp add: into_capture_def from_completed_def counts_def sample_answered_def sample_asked_def
      sample_budget_def sample_limits_def total_bytes_sum sample_exchange_def usize_max_def)

theorem captures_within_limits_witness:
  "\<exists>c. into_capture 4 sample_answered = Inr c \<and> cb_bytes (cap_bounds c) \<le> 8"
proof -
  obtain c where c: "into_capture 4 sample_answered = Inr c" using sample_captured by blast
  from captures_within_limits [OF sample_reachable sample_sized c] c show ?thesis
    by (auto simp: sample_limits_def)
qed

theorem budgets_never_panic_witness:
  "read_response 5 6 (HttpStatus 200) \<lparr>rd_bytes = [], rd_fails = True\<rparr> sample_answered \<noteq> None"
  using budgets_never_panic [OF sample_reachable sample_sized] by blast

theorem capture_references_one_to_one_witness:
  "ex_resource sample_exchange \<noteq> None"
proof -
  obtain c where c: "into_capture 4 sample_answered = Inr c" "cap_exchanges c = [sample_exchange]"
    using sample_captured by blast
  then have e: "sample_exchange \<in> set (cap_exchanges c)" by simp
  from capture_references_one_to_one [OF sample_reachable sample_sized c(1) e e] show ?thesis
    by (simp add: sample_exchange_def)
qed

end
