(* ===== verification/Native_Json.thy ===== *)
theory Native_Json
  imports Rust_Text
begin

text \<open>
  What the crate uses of \<^verbatim>\<open>serde_json::Value\<close>: the parsed values with the accessors the decoder
  and the acquisition call. The parser itself, \<^verbatim>\<open>serde_json::from_slice\<close>, is a parameter of the
  definitions that use it, a function from bytes to an optional value. The entries of an object
  are in the order its map is iterated in. An integer is an \<^typ>\<open>int\<close>; a number that is not one
  is \<open>VFloat\<close>, whose value the crate never reads.
\<close>

datatype json_value =
  VNull | VBool bool | VInt int | VFloat
| VString bytes | VArray "json_value list" | VObject "(bytes \<times> json_value) list"

type_synonym json_parser = "bytes \<Rightarrow> json_value option"

fun as_str :: "json_value \<Rightarrow> bytes option" where
  "as_str (VString s) = Some s"
| "as_str _ = None"

fun as_bool :: "json_value \<Rightarrow> bool option" where
  "as_bool (VBool b) = Some b"
| "as_bool _ = None"

fun as_u64 :: "json_value \<Rightarrow> u64 option" where
  "as_u64 (VInt i) = (if 0 \<le> i \<and> i < 2 ^ 64 then Some (word_of_int i) else None)"
| "as_u64 _ = None"

text \<open>A signed 64-bit value, read as the integer it is.\<close>

fun as_i64 :: "json_value \<Rightarrow> int option" where
  "as_i64 (VInt i) = (if - (2 ^ 63) \<le> i \<and> i < 2 ^ 63 then Some i else None)"
| "as_i64 _ = None"

fun as_array :: "json_value \<Rightarrow> json_value list option" where
  "as_array (VArray vs) = Some vs"
| "as_array _ = None"

fun as_object :: "json_value \<Rightarrow> (bytes \<times> json_value) list option" where
  "as_object (VObject kvs) = Some kvs"
| "as_object _ = None"

text \<open>\<^verbatim>\<open>Value::get\<close> with a key: nothing when the value is not an object.\<close>

definition json_get :: "bytes \<Rightarrow> json_value \<Rightarrow> json_value option" where
  "json_get k v = (case as_object v of None \<Rightarrow> None | Some kvs \<Rightarrow> map_of kvs k)"

definition get_str :: "bytes \<Rightarrow> json_value \<Rightarrow> bytes option" where
  "get_str k v = (case json_get k v of None \<Rightarrow> None | Some x \<Rightarrow> as_str x)"

lemma as_str_Some: "as_str v = Some s \<longleftrightarrow> v = VString s"
  by (cases v) auto

lemma as_array_Some: "as_array v = Some vs \<longleftrightarrow> v = VArray vs"
  by (cases v) auto

lemma as_object_Some: "as_object v = Some kvs \<longleftrightarrow> v = VObject kvs"
  by (cases v) auto

lemma as_bool_Some: "as_bool v = Some b \<longleftrightarrow> v = VBool b"
  by (cases v) auto

lemmas json_access = as_str_Some as_array_Some as_object_Some as_bool_Some

lemma json_get_object [simp]: "json_get k (VObject kvs) = map_of kvs k"
  by (simp add: json_get_def)

lemma get_str_Some: "get_str k v = Some s \<longleftrightarrow> (\<exists>kvs. v = VObject kvs \<and> map_of kvs k = Some (VString s))"
  by (auto simp: get_str_def json_get_def json_access split: option.splits)

end
