(* ===== verification/Acquisition_Selection.thy ===== *)
theory Acquisition_Selection
  imports Budgets Native_Json Render_Text
begin

text \<open>
  The pure parts of \<^verbatim>\<open>src/acquisition.rs\<close>: request paths, version negotiation, the validation of
  selectors, and what is read from list and inspect responses. The JSON parser is the first
  argument of the definitions that parse a body.
\<close>

definition max_items :: nat where
  "max_items = 4096"

section \<open>Request paths\<close>

definition encode_segment :: "native_id \<Rightarrow> acquisition_error + bytes" where
  "encode_segment i =
     (if length (id_text i) > 1024 then Inl ShapeError
      else Inr (concat (map (\<lambda>c. if is_alnum c \<or> c \<in> {CHR ''-'', CHR ''.'', CHR ''_'', CHR ''~''}
        then [c] else ''%'' @ upper_hex2 c) (id_text i))))"

definition request_path :: "read_request \<Rightarrow> api_version option \<Rightarrow> acquisition_error + bytes" where
  "request_path request api =
     (if request = DaemonVersion then Inr ''/version''
      else bind_res (ok_or api VersionError) (\<lambda>v.
        bind_res
          (case request of
             DaemonInfo \<Rightarrow> Inr ''/info''
           | ListContainers \<Rightarrow> Inr ''/containers/json?all=1''
           | InspectContainer i \<Rightarrow> bind_res (encode_segment i) (\<lambda>s. Inr (''/containers/'' @ s @ ''/json''))
           | ListNetworks \<Rightarrow> Inr ''/networks''
           | InspectNetwork i \<Rightarrow> bind_res (encode_segment i) (\<lambda>s. Inr (''/networks/'' @ s))
           | ListVolumes \<Rightarrow> Inr ''/volumes''
           | InspectVolume i \<Rightarrow> bind_res (encode_segment i) (\<lambda>s. Inr (''/volumes/'' @ s))
           | DaemonVersion \<Rightarrow> Inr ''/version'')
          (\<lambda>path. Inr (''/v'' @ dec (unat (api_major v)) @ ''.'' @ dec (unat (api_minor v)) @ path))))"

section \<open>Version negotiation\<close>

definition max_known_minor :: u16 where
  "max_known_minor = 49"

definition all_digits :: "bytes \<Rightarrow> bool" where
  "all_digits s \<longleftrightarrow> s \<noteq> [] \<and> list_all is_digit s"

definition parse_api :: "bytes \<Rightarrow> api_version option" where
  "parse_api text =
     (case split_once CHR ''.'' text of
        None \<Rightarrow> None
      | Some (major, minor) \<Rightarrow>
        if \<not> all_digits major \<or> \<not> all_digits minor then None
        else
          (case (parse_uint 65535 major, parse_uint 65535 minor) of
             (Some m, Some n) \<Rightarrow> if m = 0 then None else Some (ApiVersion (of_nat m) (of_nat n))
           | _ \<Rightarrow> None))"

definition negotiated_api :: "json_parser \<Rightarrow> bytes \<Rightarrow> acquisition_error + api_version" where
  "negotiated_api parse body =
     bind_res (ok_or (parse body) VersionError) (\<lambda>version.
     bind_res (ok_or (Option.bind (get_str ''ApiVersion'' version) parse_api) VersionError) (\<lambda>maximum.
     bind_res
       (case json_get ''MinAPIVersion'' version of
          None \<Rightarrow> Inr None
        | Some v \<Rightarrow> bind_res (ok_or (Option.bind (as_str v) parse_api) VersionError) (\<lambda>m. Inr (Some m)))
       (\<lambda>minimum.
          if api_major maximum \<noteq> 1 then Inl VersionError
          else
            (let selected = min maximum (ApiVersion 1 max_known_minor) in
             if api_minor selected < 41 \<or> (case minimum of None \<Rightarrow> False | Some m \<Rightarrow> m > selected)
             then Inl VersionError else Inr selected))))"

section \<open>Names and selectors\<close>

definition strip_slash :: "bytes \<Rightarrow> bytes" where
  "strip_slash s = (case s of c # r \<Rightarrow> if c = CHR ''/'' then r else s | [] \<Rightarrow> [])"

definition trim_slashes :: "bytes \<Rightarrow> bytes" where
  "trim_slashes s = dropWhile (\<lambda>c. c = CHR ''/'') s"

definition starts_with :: "bytes \<Rightarrow> bytes \<Rightarrow> bool" where
  "starts_with s p \<longleftrightarrow> take (length p) s = p"

definition valid_exact_container_id :: "native_id \<Rightarrow> bool" where
  "valid_exact_container_id i \<longleftrightarrow> length (id_text i) = 64 \<and> list_all is_hexdigit (id_text i)"

definition valid_literal_name :: "bytes \<Rightarrow> bool" where
  "valid_literal_name raw \<longleftrightarrow>
     (let name = strip_slash raw in
      name \<noteq> [] \<and> length name \<le> 255 \<and> is_alnum (hd name)
      \<and> list_all (\<lambda>c. is_alnum c \<or> c \<in> {CHR ''_'', CHR ''-'', CHR ''.''}) name)"

definition valid_volume_name :: "bytes \<Rightarrow> bool" where
  "valid_volume_name name \<longleftrightarrow> \<not> starts_with name ''/'' \<and> valid_literal_name name"

definition over_limit :: "limits \<Rightarrow> native_id list \<Rightarrow> bool" where
  "over_limit l ids \<longleftrightarrow> length ids > max_selected_resources l \<or> length ids > max_items"

definition selection_limit :: "acquisition_error" where
  "selection_limit = BudgetError TooManySelectedResources"

definition validate_names ::
  "(bytes \<Rightarrow> bool) \<Rightarrow> limits \<Rightarrow> native_id list \<Rightarrow> acquisition_error + unit" where
  "validate_names valid l names = checks [
     reject_if (names = [] \<or> list_ex (\<lambda>n. \<not> valid (id_text n)) names) SelectionError,
     reject_if (over_limit l names) selection_limit]"

definition bad_label_text :: "bytes \<Rightarrow> bool" where
  "bad_label_text b \<longleftrightarrow> length b > max_items \<or> NUL \<in> set b"

definition validate_selector :: "selector \<Rightarrow> limits \<Rightarrow> acquisition_error + unit" where
  "validate_selector s l =
     (case s of
        ContainerIds ids \<Rightarrow> checks [reject_if (over_limit l ids) selection_limit,
          reject_if (list_ex (\<lambda>i. \<not> valid_exact_container_id i) ids) SelectionError]
      | NetworkIds ids \<Rightarrow> checks [reject_if (over_limit l ids) selection_limit,
          reject_if (list_ex (\<lambda>i. \<not> valid_exact_container_id i) ids) SelectionError]
      | VolumeNames names \<Rightarrow> validate_names valid_volume_name l names
      | ContainerNames names \<Rightarrow> validate_names valid_literal_name l names
      | NamePrefix p \<Rightarrow> reject_if (\<not> valid_literal_name (id_text p)) SelectionError
      | LabelSelector k v \<Rightarrow> reject_if (k = [] \<or> bad_label_text k
          \<or> (case v of None \<Rightarrow> False | Some x \<Rightarrow> bad_label_text x)) SelectionError
      | Discovery \<Rightarrow> Inr ()
      | AllContainers \<Rightarrow> Inr ())"

section \<open>Selection from a list response\<close>

text \<open>The inner loop over the requested names; the state is \<open>matches\<close> and \<open>matched_names\<close>.\<close>

definition requested_step ::
  "bytes \<Rightarrow> bool \<times> bytes list \<Rightarrow> native_id \<Rightarrow> acquisition_error + bool \<times> bytes list" where
  "requested_step native st name =
     (if native = trim_slashes (id_text name) then
        if id_text name \<in> set (snd st) then Inl SelectionError
        else Inr (True, id_text name # snd st)
      else Inr st)"

definition native_name_step ::
  "selector \<Rightarrow> bool \<times> bytes list \<Rightarrow> json_value \<Rightarrow> acquisition_error + bool \<times> bytes list" where
  "native_name_step s st v =
     bind_res (ok_or (as_str v) ShapeError) (\<lambda>raw.
       case s of
         ContainerNames names \<Rightarrow> try_fold (requested_step (strip_slash raw)) st names
       | NamePrefix p \<Rightarrow>
           Inr (fst st \<or> starts_with (strip_slash raw) (trim_slashes (id_text p)), snd st)
       | _ \<Rightarrow> Inr st)"

definition match_native_names ::
  "selector \<Rightarrow> (bytes \<times> json_value) list \<Rightarrow> bytes list \<Rightarrow> acquisition_error + bool \<times> bytes list" where
  "match_native_names s entry matched =
     bind_res (ok_or (Option.bind (map_of entry ''Names'') as_array) ShapeError) (\<lambda>names.
       if length names > max_items then Inl ShapeError
       else try_fold (native_name_step s) (False, matched) names)"

definition match_label ::
  "bytes \<Rightarrow> bytes option \<Rightarrow> (bytes \<times> json_value) list \<Rightarrow> acquisition_error + bool" where
  "match_label k expected entry =
     bind_res (ok_or (Option.bind (map_of entry ''Labels'') as_object) ShapeError) (\<lambda>labels.
       if length labels > max_items then Inl ShapeError
       else if \<not> valid_utf8 k then Inl SelectionError
       else
         (case map_of labels k of
            None \<Rightarrow> Inr False
          | Some found \<Rightarrow> bind_res (ok_or (as_str found) ShapeError) (\<lambda>f.
              Inr (case expected of None \<Rightarrow> True | Some e \<Rightarrow> f = e))))"

definition entry_matches ::
  "selector \<Rightarrow> (bytes \<times> json_value) list \<Rightarrow> bytes list \<Rightarrow> acquisition_error + bool \<times> bytes list" where
  "entry_matches s entry matched =
     (case s of
        AllContainers \<Rightarrow> Inr (True, matched)
      | Discovery \<Rightarrow> Inr (False, matched)
      | ContainerNames _ \<Rightarrow> match_native_names s entry matched
      | NamePrefix _ \<Rightarrow> match_native_names s entry matched
      | LabelSelector k v \<Rightarrow> bind_res (match_label k v entry) (\<lambda>m. Inr (m, matched))
      | _ \<Rightarrow> Inl SelectionError)"

text \<open>The loop over the entries: the selected identifiers, the matched names and the identifiers
  seen.\<close>

record selection_state =
  ss_selected :: "native_id list"
  ss_matched :: "bytes list"
  ss_seen :: "native_id list"

definition entry_step ::
  "selector \<Rightarrow> selection_state \<Rightarrow> json_value \<Rightarrow> acquisition_error + selection_state" where
  "entry_step s st v =
     bind_res (ok_or (as_object v) ShapeError) (\<lambda>entry.
     bind_res (ok_or (Option.bind (Option.bind (map_of entry ''Id'') as_str) native_id_new) ShapeError) (\<lambda>i.
       if \<not> valid_exact_container_id i then Inl ShapeError
       else if i \<in> set (ss_seen st) then Inl ShapeError
       else bind_res (entry_matches s entry (ss_matched st)) (\<lambda>(matches, matched).
         Inr (st\<lparr>ss_seen := i # ss_seen st, ss_matched := matched,
            ss_selected := ss_selected st @ (if matches then [i] else [])\<rparr>))))"

definition selector_rejected :: "selector \<Rightarrow> bool" where
  "selector_rejected s =
     (case s of
        ContainerNames names \<Rightarrow> names = [] \<or> list_ex (\<lambda>n. \<not> valid_literal_name (id_text n)) names
      | NamePrefix p \<Rightarrow> \<not> valid_literal_name (id_text p)
      | LabelSelector k v \<Rightarrow> k = [] \<or> NUL \<in> set k \<or> (case v of None \<Rightarrow> False | Some x \<Rightarrow> NUL \<in> set x)
      | _ \<Rightarrow> False)"

text \<open>A selection that found too little.\<close>

definition selection_missed :: "selector \<Rightarrow> selection_state \<Rightarrow> bool" where
  "selection_missed s st =
     (case s of
        ContainerNames names \<Rightarrow> length (ss_matched st) \<noteq> length names
      | NamePrefix _ \<Rightarrow> ss_selected st = []
      | LabelSelector _ _ \<Rightarrow> ss_selected st = []
      | _ \<Rightarrow> False)"

definition selected_ids :: "json_parser \<Rightarrow> bytes \<Rightarrow> selector \<Rightarrow> acquisition_error + native_id list" where
  "selected_ids parse body s =
     bind_res (ok_or (parse body) ShapeError) (\<lambda>v.
     bind_res (ok_or (as_array v) ShapeError) (\<lambda>entries.
       if length entries > max_items then Inl ShapeError
       else if selector_rejected s then Inl SelectionError
       else bind_res (try_fold (entry_step s) \<lparr>ss_selected = [], ss_matched = [], ss_seen = []\<rparr> entries)
         (\<lambda>st. if selection_missed s st then Inl SelectionError else Inr (ss_selected st))))"

section \<open>Related resources and identities\<close>

definition related_network ::
  "bytes \<times> json_value \<Rightarrow> acquisition_error + native_id \<times> bool" where
  "related_network ne =
     (let network_id = (case get_str ''NetworkID'' (snd ne) of
            Some s \<Rightarrow> if s = [] then None else Some s | None \<Rightarrow> None) in
      bind_res (ok_or (native_id_new (case network_id of Some s \<Rightarrow> s | None \<Rightarrow> fst ne)) ShapeError)
        (\<lambda>i. Inr (i, network_id = None)))"

definition not_null :: "json_value option \<Rightarrow> json_value option" where
  "not_null x = (case x of Some VNull \<Rightarrow> None | _ \<Rightarrow> x)"

definition related_networks ::
  "(bytes \<times> json_value) list \<Rightarrow> acquisition_error + (native_id \<times> bool) list" where
  "related_networks entry =
     (case not_null (Option.bind (map_of entry ''NetworkSettings'') (json_get ''Networks'')) of
        None \<Rightarrow> Inr []
      | Some endpoints \<Rightarrow> bind_res (ok_or (as_object endpoints) ShapeError) (\<lambda>entries.
          if length entries > max_items then Inl ShapeError else map_res related_network entries))"

definition related_volume :: "json_value \<Rightarrow> acquisition_error + native_id list" where
  "related_volume mount =
     (if get_str ''Type'' mount = Some ''volume'' then
        bind_res (ok_or (Option.bind (get_str ''Name'' mount) native_id_new) ShapeError) (\<lambda>i. Inr [i])
      else Inr [])"

definition related_volumes :: "(bytes \<times> json_value) list \<Rightarrow> acquisition_error + native_id list" where
  "related_volumes entry =
     (case not_null (map_of entry ''Mounts'') of
        None \<Rightarrow> Inr []
      | Some mounts \<Rightarrow> bind_res (ok_or (as_array mounts) ShapeError) (\<lambda>entries.
          if length entries > max_items then Inl ShapeError
          else bind_res (map_res related_volume entries) (\<lambda>vs. Inr (concat vs))))"

definition related_ids ::
  "json_parser \<Rightarrow> bytes \<Rightarrow> acquisition_error + (native_id \<times> bool) list \<times> native_id list" where
  "related_ids parse body =
     bind_res (ok_or (parse body) ShapeError) (\<lambda>v.
     bind_res (ok_or (as_object v) ShapeError) (\<lambda>entry.
     bind_res (related_networks entry) (\<lambda>networks.
     bind_res (related_volumes entry) (\<lambda>volumes. Inr (networks, volumes)))))"

definition inspect_identity :: "json_parser \<Rightarrow> bytes \<Rightarrow> bytes \<Rightarrow> native_id \<Rightarrow> acquisition_error + unit" where
  "inspect_identity parse body k expected =
     bind_res (ok_or (parse body) ShapeError) (\<lambda>v.
       if get_str k v = Some (id_text expected) then Inr () else Inl ShapeError)"

definition inspected_network_id :: "json_parser \<Rightarrow> bytes \<Rightarrow> acquisition_error + native_id" where
  "inspected_network_id parse body =
     bind_res (ok_or (parse body) ShapeError) (\<lambda>v.
       ok_or (Option.bind (get_str ''Id'' v) native_id_new) ShapeError)"

end
