(* ===== verification/Http_Wire.thy ===== *)
theory Http_Wire
  imports Acquisition_Selection
begin

text \<open>
  The HTTP client of \<^verbatim>\<open>src/acquisition.rs\<close>: \<^verbatim>\<open>Wire\<close> and \<^verbatim>\<open>http_get\<close>. A wire is what the open
  connection still delivers: its bytes, and how it ends after them, closed by the peer or with
  the error of the read that meets the cancellation, the deadline or an I/O failure. The polls
  of one read are not visible, and an error leaves no wire, since the code drops it.
\<close>

section \<open>The wire\<close>

record wire =
  w_bytes :: bytes
  w_end :: "acquisition_error option"

type_synonym 'a wired = "wire \<Rightarrow> acquisition_error + 'a \<times> wire"

definition CR :: char where
  "CR = CHR 0x0D"

definition LF :: char where
  "LF = CHR 0x0A"

definition CRLF :: bytes where
  "CRLF = [CR, LF]"

definition max_header_bytes :: nat where
  "max_header_bytes = 16 * 1024"

text \<open>The time left: a cancellation is seen first, and no time left is an error.\<close>

definition remaining :: "duration \<Rightarrow> duration \<Rightarrow> bool \<Rightarrow> acquisition_error + duration" where
  "remaining elapsed limit cancelled =
     (if cancelled then Inl Cancelled
      else (case checked_sub limit elapsed of
              None \<Rightarrow> Inl Deadline
            | Some left \<Rightarrow> if left = 0 then Inl Deadline else Inr left))"

text \<open>A read past the bytes: the error, or zero bytes, which every caller reports as \<open>ProtocolError\<close>.\<close>

definition wire_ended :: "wire \<Rightarrow> acquisition_error" where
  "wire_ended w = (case w_end w of None \<Rightarrow> ProtocolError | Some e \<Rightarrow> e)"

definition wire_byte :: "char wired" where
  "wire_byte w =
     (case w_bytes w of [] \<Rightarrow> Inl (wire_ended w) | c # r \<Rightarrow> Inr (c, w\<lparr>w_bytes := r\<rparr>))"

definition wire_exact :: "nat \<Rightarrow> bytes wired" where
  "wire_exact n w =
     (if length (w_bytes w) < n then Inl (wire_ended w)
      else Inr (take n (w_bytes w), w\<lparr>w_bytes := drop n (w_bytes w)\<rparr>))"

definition ends_with :: "bytes \<Rightarrow> bytes \<Rightarrow> bool" where
  "ends_with s t \<longleftrightarrow> length t \<le> length s \<and> drop (length s - length t) s = t"

text \<open>Byte by byte up to a terminator, at most \<open>cap\<close> bytes with it.\<close>

function read_until :: "bytes \<Rightarrow> nat \<Rightarrow> bytes \<Rightarrow> bytes wired" where
  "read_until term cap acc w =
     (if length acc < cap then
        bind_res (wire_byte w) (\<lambda>(c, w').
          if ends_with (acc @ [c]) term then Inr (acc @ [c], w') else read_until term cap (acc @ [c]) w')
      else Inl ProtocolError)"
  by pat_completeness auto
termination by (relation "measure (\<lambda>(_, cap, acc, _). cap - length acc)") auto

declare read_until.simps [simp del]

definition wire_line :: "nat \<Rightarrow> bytes wired" where
  "wire_line cap w =
     bind_res (read_until CRLF cap [] w) (\<lambda>(l, w'). Inr (take (length l - 2) l, w'))"

text \<open>A reader that uses up part of the wire and leaves its end as it is.\<close>

definition shortens :: "'a wired \<Rightarrow> bool" where
  "shortens p \<longleftrightarrow> (\<forall>w x w'. p w = Inr (x, w') \<longrightarrow>
     length (w_bytes w') < length (w_bytes w) \<and> w_end w' = w_end w)"

lemma shortensI [intro]:
  "(\<And>w x w'. p w = Inr (x, w') \<Longrightarrow> length (w_bytes w') < length (w_bytes w) \<and> w_end w' = w_end w)
     \<Longrightarrow> shortens p"
  by (simp add: shortens_def)

lemma shortensD: "shortens p \<Longrightarrow> p w = Inr (x, w') \<Longrightarrow> length (w_bytes w') < length (w_bytes w)"
  by (simp add: shortens_def)

lemma shortens_byte: "shortens wire_byte"
  by (rule shortensI) (auto simp: wire_byte_def split: list.splits)

lemma wire_byte_Inr:
  "wire_byte w = Inr (c, w') \<longleftrightarrow> w_bytes w = c # w_bytes w' \<and> w' = w\<lparr>w_bytes := w_bytes w'\<rparr>"
  by (cases w) (auto simp: wire_byte_def split: list.splits)

lemma read_until_shortens:
  "read_until t cap acc w = Inr (x, w') \<Longrightarrow>
     length (w_bytes w') < length (w_bytes w) \<and> w_end w' = w_end w"
proof (induction t cap acc w rule: read_until.induct)
  case (1 t cap acc w)
  then obtain c v where v: "length acc < cap" "wire_byte w = Inr (c, v)"
    "(if ends_with (acc @ [c]) t then Inr (acc @ [c], v) else read_until t cap (acc @ [c]) v) = Inr (x, w')"
    by (subst (asm) (2) read_until.simps) (auto simp: bind_res_Inr_iff split: if_splits)
  have "length (w_bytes v) < length (w_bytes w)" "w_end v = w_end w"
    using v(2) shortens_byte unfolding shortens_def by blast+
  with v(3) 1(1) [OF v(1,2) refl] show ?case by (force split: if_splits)
qed

lemma shortens_line: "shortens (wire_line cap)"
  by (rule shortensI) (auto simp: wire_line_def bind_res_Inr_iff dest: read_until_shortens)

lemma wire_exact_Inr:
  "wire_exact n w = Inr (d, w') \<longleftrightarrow>
     n \<le> length (w_bytes w) \<and> d = take n (w_bytes w) \<and> w' = w\<lparr>w_bytes := drop n (w_bytes w)\<rparr>"
  by (auto simp: wire_exact_def)

section \<open>The response head\<close>

definition ascii_lower :: "bytes \<Rightarrow> bytes" where
  "ascii_lower s = map (\<lambda>c. if is_upper c then char_of (byte_val c + 32) else c) s"

definition eq_ignore_case :: "bytes \<Rightarrow> bytes \<Rightarrow> bool" where
  "eq_ignore_case s t \<longleftrightarrow> ascii_lower s = ascii_lower t"

text \<open>\<^verbatim>\<open>str::trim\<close>, by code points.\<close>

definition trim_text :: "bytes \<Rightarrow> bytes" where
  "trim_text s =
     (case utf8_chars s of
        None \<Rightarrow> s
      | Some cs \<Rightarrow>
          (let ws = (\<lambda>c. is_unicode_ws (codepoint c)) in
           concat (rev (dropWhile ws (rev (dropWhile ws cs))))))"

text \<open>\<^verbatim>\<open>split("\r\n")\<close>.\<close>

fun split_crlf :: "bytes \<Rightarrow> bytes list" where
  "split_crlf [] = [[]]"
| "split_crlf [c] = [[c]]"
| "split_crlf (c # d # s) =
     (if c = CR \<and> d = LF then [] # split_crlf s
      else (case split_crlf (d # s) of [] \<Rightarrow> [[c]] | l # ls \<Rightarrow> (c # l) # ls))"

text \<open>\<^verbatim>\<open>split_ascii_whitespace\<close>: the next word and the rest.\<close>

definition next_word :: "bytes \<Rightarrow> (bytes \<times> bytes) option" where
  "next_word s =
     (let t = dropWhile is_ascii_ws s in
      if t = [] then None
      else Some (takeWhile (\<lambda>c. \<not> is_ascii_ws c) t, dropWhile (\<lambda>c. \<not> is_ascii_ws c) t))"

definition parse_status :: "bytes \<Rightarrow> acquisition_error + http_status" where
  "parse_status line =
     (case next_word line of
        None \<Rightarrow> Inl ProtocolError
      | Some (version, rest) \<Rightarrow>
        if version \<noteq> ''HTTP/1.1'' \<and> version \<noteq> ''HTTP/1.0'' then Inl ProtocolError
        else
          (case Option.bind (next_word rest) (\<lambda>(code, _). parse_uint 65535 code) of
             None \<Rightarrow> Inl ProtocolError
           | Some code \<Rightarrow>
             (case http_status_new (of_nat code) of Inl _ \<Rightarrow> Inl ProtocolError | Inr st \<Rightarrow> Inr st)))"

record framing =
  fr_length :: "nat option"
  fr_chunked :: bool

definition header_step :: "framing \<Rightarrow> bytes \<Rightarrow> acquisition_error + framing" where
  "header_step fr line =
     (if line = [] then Inr fr
      else
        bind_res (ok_or (split_once CHR '':'' line) ProtocolError) (\<lambda>(name, v).
          let val = trim_text v in
          if eq_ignore_case name ''content-length'' then
            (if fr_length fr \<noteq> None then Inl ProtocolError
             else bind_res (ok_or (parse_uint usize_max val) ProtocolError)
               (\<lambda>n. Inr (fr\<lparr>fr_length := Some n\<rparr>)))
          else if eq_ignore_case name ''transfer-encoding'' then
            (if fr_chunked fr \<or> \<not> eq_ignore_case val ''chunked'' then Inl ProtocolError
             else Inr (fr\<lparr>fr_chunked := True\<rparr>))
          else if eq_ignore_case name ''content-encoding'' \<and> \<not> eq_ignore_case val ''identity''
          then Inl ProtocolError
          else Inr fr))"

definition parse_head :: "bytes \<Rightarrow> acquisition_error + http_status \<times> framing" where
  "parse_head head =
     (if \<not> valid_utf8 head then Inl ProtocolError
      else
        (case split_crlf head of
           [] \<Rightarrow> Inl ProtocolError
         | status_line # header_lines \<Rightarrow>
             bind_res (parse_status status_line) (\<lambda>st.
             bind_res (try_fold header_step \<lparr>fr_length = None, fr_chunked = False\<rparr> header_lines) (\<lambda>fr.
               if fr_chunked fr = (fr_length fr \<noteq> None) then Inl ProtocolError else Inr (st, fr)))))"

section \<open>The body\<close>

text \<open>\<^verbatim>\<open>usize::from_str_radix(_, 16)\<close>.\<close>

definition hex_value :: "bytes \<Rightarrow> nat" where
  "hex_value s = foldl (\<lambda>n c. n * 16 + (case hex_val c of None \<Rightarrow> 0 | Some d \<Rightarrow> d)) 0 s"

definition parse_hex :: "nat \<Rightarrow> bytes \<Rightarrow> nat option" where
  "parse_hex maximum s =
     (let ds = (case s of c # r \<Rightarrow> if c = CHR ''+'' then r else s | [] \<Rightarrow> []) in
      if ds = [] \<or> \<not> list_all (\<lambda>c. hex_val c \<noteq> None) ds \<or> hex_value ds > maximum then None
      else Some (hex_value ds))"

definition chunk_size :: "bytes \<Rightarrow> acquisition_error + nat" where
  "chunk_size line =
     (let digits = hd (split_on CHR '';'' line) in
      if \<not> valid_utf8 digits then Inl ProtocolError else ok_or (parse_hex usize_max digits) ProtocolError)"

text \<open>The line end after a chunk; the second byte is read only after a good first one.\<close>

definition chunk_end :: "wire \<Rightarrow> acquisition_error + wire" where
  "chunk_end w =
     bind_res (wire_byte w) (\<lambda>(c, w1).
       if c \<noteq> CR then Inl ProtocolError
       else bind_res (wire_byte w1) (\<lambda>(d, w2). if d \<noteq> LF then Inl ProtocolError else Inr w2))"

lemma chunk_end_Inr:
  "chunk_end w = Inr w' \<longleftrightarrow> w_bytes w = CRLF @ w_bytes w' \<and> w' = w\<lparr>w_bytes := w_bytes w'\<rparr>"
  by (cases w; cases w')
    (auto simp: chunk_end_def CRLF_def bind_res_Inr_iff wire_byte_def split: list.splits if_splits)

function read_chunks :: "nat \<Rightarrow> bytes \<Rightarrow> wire \<Rightarrow> acquisition_error + bytes" where
  "read_chunks allow body w =
     bind_res (wire_line 64 w) (\<lambda>(line, w1).
     bind_res (chunk_size line) (\<lambda>size.
       if size = 0 then
         bind_res (wire_line max_header_bytes w1) (\<lambda>(trailer, _).
           if trailer \<noteq> [] then Inl ProtocolError else Inr body)
       else if size > allow - length body then Inl (BudgetError TooManyBytes)
       else
         bind_res (wire_exact size w1) (\<lambda>(data, w2).
         bind_res (chunk_end w2) (\<lambda>w3. read_chunks allow (body @ data) w3))))"
  by pat_completeness auto
termination
proof (relation "measure (\<lambda>(_, _, w). length (w_bytes w))", goal_cases)
  case (2 allow body w lw line w1 size dw data w2 w3)
  then have "wire_line 64 w = Inr (line, w1)" by simp
  then have "length (w_bytes w1) < length (w_bytes w)" by (rule shortensD [OF shortens_line])
  moreover have "length (w_bytes w2) \<le> length (w_bytes w1)" using 2 by (auto simp: wire_exact_Inr)
  moreover have "length (w_bytes w3) \<le> length (w_bytes w2)" using 2 by (auto simp: chunk_end_Inr)
  ultimately show ?case by simp
qed simp

declare read_chunks.simps [simp del]

definition read_body :: "nat \<Rightarrow> framing \<Rightarrow> wire \<Rightarrow> acquisition_error + bytes" where
  "read_body allow fr w =
     (if fr_chunked fr then read_chunks allow [] w
      else
        (case fr_length fr of
           None \<Rightarrow> Inr []
         | Some n \<Rightarrow>
             if n > allow then Inl (BudgetError TooManyBytes)
             else bind_res (wire_exact n w) (\<lambda>(data, _). Inr data)))"

section \<open>One exchange\<close>

definition http_request :: "bytes \<Rightarrow> bytes" where
  "http_request path =
     ''GET '' @ path @ '' HTTP/1.1'' @ CRLF @ ''Host: docker'' @ CRLF
     @ ''Accept: application/json'' @ CRLF @ ''Connection: close'' @ CRLF @ CRLF"

text \<open>Reading the response, once the request is written.\<close>

definition http_response :: "nat \<Rightarrow> wire \<Rightarrow> acquisition_error + http_status \<times> bytes" where
  "http_response allow w =
     bind_res (read_until (CRLF @ CRLF) max_header_bytes [] w) (\<lambda>(head, w').
     bind_res (parse_head head) (\<lambda>(st, fr).
     bind_res (read_body allow fr w') (\<lambda>body. Inr (st, body))))"


section \<open>Bodies stay within the allowance\<close>

lemma read_chunks_bound:
  "read_chunks allow body w = Inr b \<Longrightarrow> length body \<le> allow \<Longrightarrow> length b \<le> allow"
proof (induction allow body w rule: read_chunks.induct)
  case (1 allow body w)
  then obtain line w1 size where l: "wire_line 64 w = Inr (line, w1)" "chunk_size line = Inr size"
    by (subst (asm) (2) read_chunks.simps) (auto simp: bind_res_Inr_iff)
  show ?case
  proof (cases "size = 0")
    case True
    then show ?thesis using 1(2,3) l
      by (subst (asm) read_chunks.simps) (auto simp: bind_res_Inr_iff split: if_splits)
  next
    case False
    then obtain data w2 w3 where d: "\<not> size > allow - length body" "wire_exact size w1 = Inr (data, w2)"
      "chunk_end w2 = Inr w3" "read_chunks allow (body @ data) w3 = Inr b"
      using 1(2) l by (subst (asm) read_chunks.simps) (auto simp: bind_res_Inr_iff split: if_splits)
    then have "length (body @ data) \<le> allow" using 1(3) by (auto simp: wire_exact_Inr)
    with 1(1) [OF l(1) refl l(2) False d(1,2) refl d(3)] d(4) show ?thesis by blast
  qed
qed

lemma read_body_bound: "read_body allow fr w = Inr b \<Longrightarrow> length b \<le> allow"
  by (auto simp: read_body_def bind_res_Inr_iff wire_exact_Inr
      split: if_splits option.splits dest: read_chunks_bound)

lemma parse_status_range: "parse_status l = Inr st \<Longrightarrow> 100 \<le> unat (status_code st) \<and> unat (status_code st) \<le> 599"
  by (auto simp: parse_status_def http_status_new_def split: option.splits prod.splits if_splits sum.splits)

section \<open>Exactly one framing header\<close>

definition framing_header :: "bytes \<Rightarrow> bool" where
  "framing_header line \<longleftrightarrow>
     (case split_once CHR '':'' line of
        None \<Rightarrow> False
      | Some (name, _) \<Rightarrow>
          eq_ignore_case name ''content-length'' \<or> eq_ignore_case name ''transfer-encoding'')"

definition framings :: "framing \<Rightarrow> nat" where
  "framings fr = (if fr_length fr = None then 0 else 1) + (if fr_chunked fr then 1 else 0)"

lemma framing_names_differ:
  "eq_ignore_case n ''content-length'' \<Longrightarrow> \<not> eq_ignore_case n ''transfer-encoding''"
  by (auto simp: eq_ignore_case_def ascii_lower_def char_class_defs)

lemma header_step_counts:
  "header_step fr line = Inr fr' \<Longrightarrow> framings fr' = framings fr + (if framing_header line then 1 else 0)"
  using framing_names_differ
  by (cases fr; cases fr') (auto simp: header_step_def framing_header_def framings_def bind_res_Inr_iff ok_or_Inr_iff Let_def
      split: if_splits)

lemma header_fold_counts:
  "try_fold header_step fr ls = Inr fr' \<Longrightarrow> framings fr' = framings fr + length (filter framing_header ls)"
  by (induction ls arbitrary: fr) (auto simp: bind_res_Inr_iff dest!: header_step_counts)

text \<open>A response head that is accepted declares how its body ends exactly once: among its header
  lines, in any mixture of cases, there is one content length or one chunked transfer encoding,
  and never both, two, or none.\<close>

theorem accepted_head_one_framing:
  assumes "parse_head head = Inr (st, fr)"
  shows "length (filter framing_header (tl (split_crlf head))) = 1
    \<and> fr_chunked fr = (fr_length fr = None) \<and> 100 \<le> unat (status_code st) \<and> unat (status_code st) \<le> 599"
proof -
  obtain l ls where s: "split_crlf head = l # ls" "parse_status l = Inr st"
    "try_fold header_step \<lparr>fr_length = None, fr_chunked = False\<rparr> ls = Inr fr"
    "fr_chunked fr \<noteq> (fr_length fr \<noteq> None)"
    using assms by (auto simp: parse_head_def bind_res_Inr_iff split: if_splits list.splits)
  with header_fold_counts [OF s(3)] parse_status_range [OF s(2)] show ?thesis
    by (auto simp: framings_def split: if_splits)
qed

text \<open>A body handed over by the client never exceeds the allowance of the exchange, however the
  peer frames it, and its status code is in range.\<close>

theorem http_body_within_allowance:
  assumes "http_response allow w = Inr (st, body)"
  shows "length body \<le> allow \<and> 100 \<le> unat (status_code st) \<and> unat (status_code st) \<le> 599"
proof -
  obtain head fr w' where "parse_head head = Inr (st, fr)" "read_body allow fr w' = Inr body"
    using assms by (auto simp: http_response_def bind_res_Inr_iff)
  then show ?thesis
    by (auto simp: parse_head_def bind_res_Inr_iff dest: read_body_bound parse_status_range
        split: if_splits list.splits)
qed

end
