(* ===== verification/Http_Messages.thy ===== *)
theory Http_Messages
  imports Http_Wire
begin

text \<open>
  The readers of \<open>Http_Wire\<close> on what a server writes: scanning for a terminator, lines and heads,
  words and numbers, chunks, and two plain messages the samples use. \<open>Http_Responses\<close> has the
  general responses and the round trip.
\<close>

section \<open>Scanning for a terminator\<close>

lemma ends_with_snoc: "ends_with (s @ [c]) (t @ [d]) \<longleftrightarrow> c = d \<and> ends_with s t"
  by (auto simp: ends_with_def)

lemma ends_with_Nil [simp]: "ends_with s []"
  by (simp add: ends_with_def)

lemma ends_with_self [simp]: "ends_with (s @ t) t"
  by (simp add: ends_with_def)

lemma ends_with_empty [simp]: "ends_with [] t \<longleftrightarrow> t = []"
  by (auto simp: ends_with_def)

definition scans :: "bytes \<Rightarrow> bytes \<Rightarrow> bytes \<Rightarrow> bool" where
  "scans t acc s \<longleftrightarrow> (\<forall>k. 0 < k \<and> k \<le> length s \<longrightarrow> \<not> ends_with (acc @ take k s) t)"

lemma scans_Nil [simp]: "scans t acc []"
  by (simp add: scans_def)

lemma scans_Cons: "scans t acc (c # s) \<longleftrightarrow> \<not> ends_with (acc @ [c]) t \<and> scans t (acc @ [c]) s"
proof
  assume s: "scans t acc (c # s)"
  from s have "\<not> ends_with (acc @ take 1 (c # s)) t" unfolding scans_def by force
  moreover have "\<not> ends_with ((acc @ [c]) @ take k s) t" if "0 < k" "k \<le> length s" for k
    using s that unfolding scans_def by (auto dest: spec [of _ "Suc k"])
  ultimately show "\<not> ends_with (acc @ [c]) t \<and> scans t (acc @ [c]) s" by (simp add: scans_def)
next
  assume s: "\<not> ends_with (acc @ [c]) t \<and> scans t (acc @ [c]) s"
  have "\<not> ends_with (acc @ take k (c # s)) t" if "0 < k" "k \<le> length (c # s)" for k
    using s that by (cases k; cases "k = 1") (auto simp: scans_def)
  then show "scans t acc (c # s)" by (simp add: scans_def)
qed

lemma scans_append: "scans t acc (r @ s) \<longleftrightarrow> scans t acc r \<and> scans t (acc @ r) s"
  by (induction r arbitrary: acc) (auto simp: scans_Cons)

text \<open>A stretch without the terminator is skipped.\<close>

lemma read_until_skip:
  "scans t acc s \<Longrightarrow> length acc + length s \<le> cap \<Longrightarrow>
     read_until t cap acc \<lparr>w_bytes = s @ r, w_end = e\<rparr>
       = read_until t cap (acc @ s) \<lparr>w_bytes = r, w_end = e\<rparr>"
proof (induction s arbitrary: acc)
  case (Cons c s)
  then have "read_until t cap acc \<lparr>w_bytes = (c # s) @ r, w_end = e\<rparr>
      = read_until t cap (acc @ [c]) \<lparr>w_bytes = s @ r, w_end = e\<rparr>"
    by (subst read_until.simps) (simp add: wire_byte_def scans_Cons)
  with Cons show ?case by (simp add: scans_Cons)
qed simp

lemma read_until_hit:
  "ends_with (acc @ [c]) t \<Longrightarrow> length acc < cap \<Longrightarrow>
     read_until t cap acc \<lparr>w_bytes = c # r, w_end = e\<rparr> = Inr (acc @ [c], \<lparr>w_bytes = r, w_end = e\<rparr>)"
  by (subst read_until.simps) (simp add: wire_byte_def)

lemma CRLF_snoc: "CRLF = [CR] @ [LF]" "CRLF @ CRLF = (CRLF @ [CR]) @ [LF]" "[CR] = [] @ [CR]"
  by (simp_all add: CRLF_def)

lemma CR_LF [simp]: "CR \<noteq> LF" "LF \<noteq> CR"
  by (simp_all add: CR_def LF_def)

text \<open>A terminator that ends in a line feed is not met inside text without one.\<close>

lemma scans_no_LF: "LF \<notin> set s \<Longrightarrow> scans (t @ [LF]) acc s"
  by (induction s arbitrary: acc) (auto simp: scans_Cons ends_with_snoc)

definition line_text :: "bytes \<Rightarrow> bool" where
  "line_text l \<longleftrightarrow> CR \<notin> set l \<and> LF \<notin> set l"

lemma wire_line_reads:
  assumes "line_text l" and "length l + 2 \<le> cap"
  shows "wire_line cap \<lparr>w_bytes = l @ CRLF @ r, w_end = e\<rparr> = Inr (l, \<lparr>w_bytes = r, w_end = e\<rparr>)"
proof -
  have "scans CRLF [] (l @ [CR])"
    using assms(1) unfolding CRLF_snoc(1) by (intro scans_no_LF) (auto simp: line_text_def)
  from read_until_skip [OF this, of cap "LF # r" e] assms(2)
  have "read_until CRLF cap [] \<lparr>w_bytes = l @ CRLF @ r, w_end = e\<rparr>
      = read_until CRLF cap (l @ [CR]) \<lparr>w_bytes = LF # r, w_end = e\<rparr>"
    by (simp add: CRLF_def)
  also have "\<dots> = Inr ((l @ [CR]) @ [LF], \<lparr>w_bytes = r, w_end = e\<rparr>)"
    using assms(2) ends_with_self [of l CRLF] by (intro read_until_hit) (simp_all add: CRLF_def)
  finally show ?thesis by (simp add: wire_line_def)
qed

section \<open>Heads\<close>

definition head_text :: "bytes list \<Rightarrow> bytes" where
  "head_text ls = concat (map (\<lambda>l. l @ CRLF) ls) @ CRLF"

lemma scans_head_line:
  assumes "line_text l" and "l \<noteq> []"
  shows "scans (CRLF @ CRLF) acc (l @ CRLF)"
proof -
  obtain l' c where l: "l = l' @ [c]" "c \<noteq> LF" "c \<noteq> CR"
    using assms by (cases l rule: rev_cases) (auto simp: line_text_def)
  have "scans (CRLF @ CRLF) acc (l @ [CR])"
    using assms(1) unfolding CRLF_snoc(2) by (intro scans_no_LF) (auto simp: line_text_def)
  moreover have "\<not> ends_with ((acc @ l @ [CR]) @ [LF]) (((CRLF @ [CR])) @ [LF])"
  proof
    assume "ends_with ((acc @ l @ [CR]) @ [LF]) (((CRLF @ [CR])) @ [LF])"
    then have "ends_with ((acc @ l) @ [CR]) (CRLF @ [CR])"
      using ends_with_snoc [of "acc @ l @ [CR]" LF "CRLF @ [CR]" LF] by simp
    then have "ends_with ((acc @ l') @ [c]) ([CR] @ [LF])"
      using ends_with_snoc [of "acc @ l" CR CRLF CR] by (simp add: l(1) CRLF_def)
    with l(2) show False using ends_with_snoc [of "acc @ l'" c "[CR]" LF] by simp
  qed
  ultimately show ?thesis
    using scans_append [of "CRLF @ CRLF" acc "l @ [CR]" "[LF]"]
    by (simp add: CRLF_def scans_Cons)
qed

lemma scans_head_lines:
  "list_all (\<lambda>l. line_text l \<and> l \<noteq> []) ls \<Longrightarrow> scans (CRLF @ CRLF) acc (concat (map (\<lambda>l. l @ CRLF) ls))"
proof (induction ls arbitrary: acc)
  case (Cons l ls)
  then have "scans (CRLF @ CRLF) acc ((l @ CRLF) @ concat (map (\<lambda>l. l @ CRLF) ls))"
    using scans_head_line [of l acc] scans_append [of "CRLF @ CRLF" acc "l @ CRLF"] by simp
  then show ?case by simp
qed simp

lemma read_head:
  assumes "list_all (\<lambda>l. line_text l \<and> l \<noteq> []) ls" and "ls \<noteq> []"
    and "length (head_text ls) \<le> cap"
  shows "read_until (CRLF @ CRLF) cap [] \<lparr>w_bytes = head_text ls @ r, w_end = e\<rparr>
    = Inr (head_text ls, \<lparr>w_bytes = r, w_end = e\<rparr>)"
proof -
  let ?s = "concat (map (\<lambda>l. l @ CRLF) ls)"
  obtain ls' l where ls: "ls = ls' @ [l]" using assms(2) by (cases ls rule: rev_cases) auto
  have cr: "scans (CRLF @ CRLF) ?s [CR]"
    unfolding CRLF_snoc(2) by (rule scans_no_LF) simp
  have "scans (CRLF @ CRLF) [] (?s @ [CR])"
    unfolding scans_append using scans_head_lines [OF assms(1), of "[]"] cr by simp
  from read_until_skip [OF this, of cap "LF # r" e] assms(3)
  have "read_until (CRLF @ CRLF) cap [] \<lparr>w_bytes = head_text ls @ r, w_end = e\<rparr>
      = read_until (CRLF @ CRLF) cap (?s @ [CR]) \<lparr>w_bytes = LF # r, w_end = e\<rparr>"
    by (simp add: head_text_def CRLF_def)
  also have "\<dots> = Inr ((?s @ [CR]) @ [LF], \<lparr>w_bytes = r, w_end = e\<rparr>)"
    using assms(3)
    by (intro read_until_hit) (auto simp: head_text_def CRLF_def ls ends_with_def)
  finally show ?thesis by (simp add: head_text_def CRLF_def)
qed

lemma split_crlf_line: "CR \<notin> set l \<Longrightarrow> split_crlf (l @ CRLF @ s) = l # split_crlf s"
proof (induction l)
  case (Cons c l)
  then show ?case by (cases l) (auto simp: CRLF_def)
qed (simp add: CRLF_def)

lemma split_head:
  "list_all (\<lambda>l. line_text l \<and> l \<noteq> []) ls \<Longrightarrow> split_crlf (head_text ls) = ls @ [[], []]"
proof (induction ls)
  case (Cons l ls)
  then have "split_crlf (l @ CRLF @ head_text ls) = l # split_crlf (head_text ls)"
    by (intro split_crlf_line) (simp add: line_text_def)
  then show ?case using Cons by (simp add: head_text_def)
qed (simp add: head_text_def CRLF_def)

lemma header_fold_blank: "try_fold header_step fr (ls @ [[], []]) = try_fold header_step fr ls"
  by (induction ls arbitrary: fr) (simp_all add: header_step_def)

section \<open>Words and numbers\<close>

lemma next_word_digits: "list_all is_digit d \<Longrightarrow> d \<noteq> [] \<Longrightarrow> next_word (CHR '' '' # d) = Some (d, [])"
proof -
  assume d: "list_all is_digit d" "d \<noteq> []"
  then have "\<forall>c \<in> set d. \<not> is_ascii_ws c" by (auto simp: list_all_iff char_class_defs)
  then have "dropWhile is_ascii_ws d = d" "takeWhile (\<lambda>c. \<not> is_ascii_ws c) d = d"
    "dropWhile (\<lambda>c. \<not> is_ascii_ws c) d = []"
    using d(2) by (cases d; simp)+
  with d(2) show ?thesis by (simp add: next_word_def is_ascii_ws_def)
qed

definition status_line :: "nat \<Rightarrow> bytes" where
  "status_line code = ''HTTP/1.1 '' @ dec code"

lemma dec_all_digits: "list_all is_digit (dec n)"
  by (auto simp: list_all_iff dec_digits)

lemma parse_status_line:
  assumes "100 \<le> code" and "code \<le> 599"
  shows "parse_status (status_line code) = Inr (HttpStatus (of_nat code))"
proof -
  have "next_word (status_line code) = Some (''HTTP/1.1'', CHR '' '' # dec code)"
    by (simp add: next_word_def status_line_def is_ascii_ws_def)
  moreover have "unat (of_nat code :: u16) = code" using assms(2) by (simp add: unat_of_nat)
  ultimately show ?thesis
    using assms
    by (simp add: parse_status_def next_word_digits [OF dec_all_digits] parse_uint_dec http_status_new_def)
qed

text \<open>Printable ASCII without spaces: what \<open>trim_text\<close> leaves alone.\<close>

definition visible :: "char \<Rightarrow> bool" where
  "visible c \<longleftrightarrow> 32 < byte_val c \<and> byte_val c < 127"

lemma visible_not_ws: "visible c \<Longrightarrow> \<not> is_unicode_ws (codepoint [c])"
  by (auto simp: visible_def is_unicode_ws_def)

lemma dropWhile_visible:
  "list_all visible s \<Longrightarrow> dropWhile (\<lambda>c. is_unicode_ws (codepoint c)) (map (\<lambda>c. [c]) s) = map (\<lambda>c. [c]) s"
  using visible_not_ws by (cases s) auto

lemma trim_space:
  assumes "list_all visible s"
  shows "trim_text (CHR '' '' # s) = s"
proof -
  have "\<forall>c \<in> set (CHR '' '' # s). is_ascii c"
    using assms by (auto simp: list_all_iff visible_def is_ascii_def)
  note chars = utf8_chars_ascii [OF this]
  have "list_all visible (rev s)" using assms by simp
  from dropWhile_visible [OF assms] dropWhile_visible [OF this] show ?thesis
    by (simp add: trim_text_def chars Let_def is_unicode_ws_def rev_map)
qed

lemma digits_visible: "list_all visible (dec n)"
  using dec_all_digits [of n] by (auto simp: list_all_iff visible_def is_digit_def)

lemma hex_chars: "c \<in> set (hex n) \<Longrightarrow> \<exists>k < 16. c = digit_char k"
proof (induction n rule: hex.induct)
  case (1 n)
  have "\<exists>k < 16. digit_char (n mod 16) = digit_char k" by (rule exI [of _ "n mod 16"]) simp
  with 1 show ?case by (subst (asm) (2) hex.simps) (auto split: if_splits)
qed

lemma hex_digit_text: "k < 16 \<Longrightarrow> is_digit (digit_char k) \<or> is_lower (digit_char k)"
  by (drule less_16_cases, elim disjE, drule less_10_cases)
     (auto simp: char_class_defs digit_char_def)

lemma hex_text: "c \<in> set (hex n) \<Longrightarrow> is_digit c \<or> is_lower c"
  using hex_chars hex_digit_text by blast

lemma hex_nonempty [simp]: "hex n \<noteq> []"
  by (subst hex.simps) simp

lemma hex_value_snoc: "hex_val c = Some d \<Longrightarrow> hex_value (s @ [c]) = hex_value s * 16 + d"
  by (simp add: hex_value_def)

lemma hex_value_hex: "hex_value (hex n) = n"
proof (induction n rule: hex.induct)
  case (1 n)
  show ?case
  proof (cases "n < 16")
    case True
    then show ?thesis by (subst hex.simps) (simp add: hex_value_def hex_val_digit_char)
  next
    case False
    with 1 show ?thesis
      by (subst hex.simps) (simp add: hex_value_snoc [OF hex_val_digit_char])
  qed
qed

lemma parse_hex_hex: "n \<le> m \<Longrightarrow> parse_hex m (hex n) = Some n"
proof -
  have "list_all (\<lambda>c. hex_val c \<noteq> None) (hex n)"
    using hex_chars hex_val_digit_char unfolding list_all_iff by fastforce
  moreover have "(case hex n of c # r \<Rightarrow> if c = CHR ''+'' then r else hex n | [] \<Rightarrow> []) = hex n"
    using hex_text [of "CHR ''+''" n] by (auto simp: char_class_defs split: list.split)
  ultimately show "parse_hex m (hex n) = Some n" if "n \<le> m"
    using that by (auto simp: parse_hex_def hex_value_hex)
qed

lemma hex_length: "n < 16 ^ k \<Longrightarrow> 0 < k \<Longrightarrow> length (hex n) \<le> k"
proof (induction k arbitrary: n)
  case (Suc k)
  show ?case
  proof (cases "n < 16")
    case True
    then show ?thesis by (subst hex.simps) simp
  next
    case False
    with Suc.prems have "0 < k" "n div 16 < 16 ^ k" by (auto intro: gr0I)
    with Suc.IH [of "n div 16"] False show ?thesis by (subst hex.simps) simp
  qed
qed simp

lemma split_on_none: "d \<notin> set s \<Longrightarrow> split_on d s = [s]"
  by (induction s) auto

lemma chunk_size_hex: "n \<le> usize_max \<Longrightarrow> chunk_size (hex n) = Inr n"
proof -
  have "CHR '';'' \<notin> set (hex n)" using hex_text [of "CHR '';''" n] by (auto simp: char_class_defs)
  moreover have "valid_utf8 (hex n)"
    using hex_text by (intro valid_utf8_ascii) (force simp: char_class_defs)
  ultimately show "chunk_size (hex n) = Inr n" if "n \<le> usize_max"
    using that by (simp add: chunk_size_def split_on_none parse_hex_hex)
qed

section \<open>Messages\<close>

definition length_header :: "nat \<Rightarrow> bytes" where
  "length_header n = ''Content-Length: '' @ dec n"

definition plain_message :: "nat \<Rightarrow> bytes \<Rightarrow> bytes" where
  "plain_message code body = head_text [status_line code, length_header (length body)] @ body"

definition chunk_text :: "bytes \<Rightarrow> bytes" where
  "chunk_text c = hex (length c) @ CRLF @ c @ CRLF"

definition chunked_message :: "nat \<Rightarrow> bytes list \<Rightarrow> bytes" where
  "chunked_message code cs =
     head_text [status_line code, ''transfer-encoding: Chunked''] @ concat (map chunk_text cs)
     @ ''0'' @ CRLF @ CRLF"

section \<open>Reading the two messages\<close>

lemma visible_line: "list_all (\<lambda>c. visible c \<or> c = CHR '' '') l \<Longrightarrow> line_text l \<and> (\<forall>c \<in> set l. is_ascii c)"
  by (auto simp: line_text_def list_all_iff visible_def CR_def LF_def is_ascii_def)

lemma digits_or_space: "list_all (\<lambda>c. visible c \<or> c = CHR '' '') (dec n)"
  using digits_visible [of n] by (simp add: list_all_iff)

lemma status_line_text: "list_all (\<lambda>c. visible c \<or> c = CHR '' '') (status_line code)"
  using digits_or_space by (simp add: status_line_def visible_def)

lemma length_header_text: "list_all (\<lambda>c. visible c \<or> c = CHR '' '') (length_header n)"
  using digits_or_space by (simp add: length_header_def visible_def)

lemma status_line_length: "code \<le> 599 \<Longrightarrow> length (status_line code) \<le> 12"
  using dec_length [of code 3] by (simp add: status_line_def)

lemma length_header_length: "n \<le> usize_max \<Longrightarrow> length (length_header n) \<le> 36"
  using dec_length [of n 20] by (simp add: length_header_def usize_max_def)

text \<open>A two-line head is read and parsed line by line.\<close>

lemma read_two_lines:
  assumes "list_all (\<lambda>c. visible c \<or> c = CHR '' '') h" and "h \<noteq> []" and "length h \<le> 40"
    and "100 \<le> code" and "code \<le> 599"
    and "header_step \<lparr>fr_length = None, fr_chunked = False\<rparr> h = Inr fr"
    and "fr_chunked fr \<noteq> (fr_length fr \<noteq> None)"
  shows "http_response allow \<lparr>w_bytes = head_text [status_line code, h] @ r, w_end = e\<rparr>
    = bind_res (read_body allow fr \<lparr>w_bytes = r, w_end = e\<rparr>)
        (\<lambda>body. Inr (HttpStatus (of_nat code), body))"
proof -
  let ?ls = "[status_line code, h]"
  have lines: "list_all (\<lambda>l. line_text l \<and> l \<noteq> []) ?ls"
    using visible_line [OF status_line_text] visible_line [OF assms(1)] assms(2)
    by (simp add: status_line_def)
  have "length (head_text ?ls) \<le> max_header_bytes"
    using assms(3) status_line_length [OF assms(5)]
    by (simp add: head_text_def CRLF_def max_header_bytes_def)
  from read_head [OF lines _ this] have read: "read_until (CRLF @ CRLF) max_header_bytes []
      \<lparr>w_bytes = head_text ?ls @ r, w_end = e\<rparr> = Inr (head_text ?ls, \<lparr>w_bytes = r, w_end = e\<rparr>)" by simp
  have "valid_utf8 (head_text ?ls)"
    using visible_line [OF status_line_text, of code] visible_line [OF assms(1)]
    by (intro valid_utf8_ascii) (auto simp: head_text_def CRLF_def CR_def LF_def is_ascii_def)
  moreover have "try_fold header_step \<lparr>fr_length = None, fr_chunked = False\<rparr> ([h] @ [[], []]) = Inr fr"
    unfolding header_fold_blank using assms(6) by simp
  ultimately have "parse_head (head_text ?ls) = Inr (HttpStatus (of_nat code), fr)"
    using split_head [OF lines] parse_status_line [OF assms(4,5)] assms(7) by (simp add: parse_head_def)
  with read show ?thesis by (simp add: http_response_def)
qed

lemma header_length_step:
  "n \<le> usize_max \<Longrightarrow> header_step \<lparr>fr_length = None, fr_chunked = False\<rparr> (length_header n)
     = Inr \<lparr>fr_length = Some n, fr_chunked = False\<rparr>"
proof -
  have "split_once CHR '':'' (length_header n) = Some (''Content-Length'', CHR '' '' # dec n)"
    by (simp add: length_header_def)
  moreover have "eq_ignore_case ''Content-Length'' ''content-length''"
    by (simp add: eq_ignore_case_def ascii_lower_def is_upper_def char_of_def bit_0)
  ultimately show "header_step \<lparr>fr_length = None, fr_chunked = False\<rparr> (length_header n)
     = Inr \<lparr>fr_length = Some n, fr_chunked = False\<rparr>" if "n \<le> usize_max"
    using that by (simp add: header_step_def trim_space [OF digits_visible] parse_uint_dec length_header_def)
qed

lemma header_chunked_step:
  "header_step \<lparr>fr_length = None, fr_chunked = False\<rparr> ''transfer-encoding: Chunked''
     = Inr \<lparr>fr_length = None, fr_chunked = True\<rparr>"
proof -
  have "trim_text '' Chunked'' = ''Chunked''" by (rule trim_space) (simp add: visible_def)
  moreover have "eq_ignore_case ''Chunked'' ''chunked''"
    "\<not> eq_ignore_case ''transfer-encoding'' ''content-length''"
    "eq_ignore_case ''transfer-encoding'' ''transfer-encoding''"
    by (simp_all add: eq_ignore_case_def ascii_lower_def is_upper_def char_of_def bit_0)
  ultimately show ?thesis by (simp add: header_step_def)
qed

lemma hex_line_text: "line_text (hex n)"
  using hex_text by (force simp: line_text_def CR_def LF_def char_class_defs)

lemma hex_zero: "hex 0 = ''0''"
  by (subst hex.simps) (simp add: digit_char_def)

lemma read_chunks_message:
  "list_all (\<lambda>c. c \<noteq> [] \<and> length c \<le> usize_max) cs \<Longrightarrow> length body + length (concat cs) \<le> allow \<Longrightarrow>
   read_chunks allow body \<lparr>w_bytes = concat (map chunk_text cs) @ ''0'' @ CRLF @ CRLF @ r, w_end = e\<rparr>
     = Inr (body @ concat cs)"
proof (induction cs arbitrary: body)
  case Nil
  have "wire_line 64 \<lparr>w_bytes = ''0'' @ CRLF @ CRLF @ r, w_end = e\<rparr>
      = Inr (''0'', \<lparr>w_bytes = CRLF @ r, w_end = e\<rparr>)"
    using hex_line_text [of 0] by (intro wire_line_reads) (simp_all add: hex_zero)
  moreover have "wire_line max_header_bytes \<lparr>w_bytes = [] @ CRLF @ r, w_end = e\<rparr>
      = Inr ([], \<lparr>w_bytes = r, w_end = e\<rparr>)"
    by (rule wire_line_reads) (simp_all add: line_text_def max_header_bytes_def)
  ultimately show ?case
    using chunk_size_hex [of 0] by (subst read_chunks.simps) (simp add: hex_zero)
next
  case (Cons c cs)
  let ?rest = "concat (map chunk_text cs) @ ''0'' @ CRLF @ CRLF @ r"
  have len: "length c \<le> usize_max" "length c \<noteq> 0" using Cons.prems(1) by simp_all
  have "length (hex (length c)) \<le> 16"
    using len(1) by (intro hex_length) (simp_all add: usize_max_def)
  with hex_line_text have line: "wire_line 64 \<lparr>w_bytes = hex (length c) @ CRLF @ c @ CRLF @ ?rest, w_end = e\<rparr>
      = Inr (hex (length c), \<lparr>w_bytes = c @ CRLF @ ?rest, w_end = e\<rparr>)"
    by (intro wire_line_reads) simp_all
  have ends: "chunk_end \<lparr>w_bytes = CRLF @ ?rest, w_end = e\<rparr> = Inr \<lparr>w_bytes = ?rest, w_end = e\<rparr>"
    by (simp add: chunk_end_Inr)
  have fits: "\<not> allow - length body < length c" using Cons.prems(2) by simp
  have "read_chunks allow body \<lparr>w_bytes = hex (length c) @ CRLF @ c @ CRLF @ ?rest, w_end = e\<rparr>
      = read_chunks allow (body @ c) \<lparr>w_bytes = ?rest, w_end = e\<rparr>"
    using fits line ends len
    by (subst read_chunks.simps) (simp add: chunk_size_hex wire_exact_def)
  also have "\<dots> = Inr ((body @ c) @ concat cs)" using Cons by simp
  finally show ?case by (simp add: chunk_text_def [of c])
qed

lemma http_reads_plain:
  assumes "100 \<le> code" and "code \<le> 599" and "length body \<le> usize_max"
  shows "http_response allow \<lparr>w_bytes = plain_message code body @ r, w_end = e\<rparr>
    = (if length body \<le> allow then Inr (HttpStatus (of_nat code), body) else Inl (BudgetError TooManyBytes))"
proof -
  let ?h = "length_header (length body)"
  have "?h \<noteq> []" by (simp add: length_header_def)
  from read_two_lines [OF length_header_text this _ assms(1,2) header_length_step [OF assms(3)]]
    length_header_length [OF assms(3)]
  show ?thesis by (simp add: plain_message_def read_body_def wire_exact_def)
qed

lemma http_reads_chunked:
  assumes "100 \<le> code" and "code \<le> 599" and "length (concat cs) \<le> usize_max"
    and "[] \<notin> set cs" and "length (concat cs) \<le> allow"
  shows "http_response allow \<lparr>w_bytes = chunked_message code cs @ r, w_end = e\<rparr>
    = Inr (HttpStatus (of_nat code), concat cs)"
proof -
  have small: "length c \<le> length (concat cs)" if "c \<in> set cs" for c
    using split_list [OF that] by auto
  have cs: "list_all (\<lambda>c. c \<noteq> [] \<and> length c \<le> usize_max) cs"
    using assms(3,4) small unfolding list_all_iff by (metis order_trans)
  have h: "list_all (\<lambda>c. visible c \<or> c = CHR '' '') ''transfer-encoding: Chunked''" by (simp add: visible_def)
  from read_two_lines [OF h _ _ assms(1,2) header_chunked_step] read_chunks_message [OF cs, of "[]" allow] assms(5)
  show ?thesis by (simp add: chunked_message_def read_body_def)
qed

theorem accepted_head_one_framing_witness:
  "length (filter framing_header (tl (split_crlf (head_text [status_line 200, length_header 2])))) = 1"
proof -
  have lines: "list_all (\<lambda>l. line_text l \<and> l \<noteq> []) [status_line 200, length_header 2]"
    using visible_line [OF status_line_text] visible_line [OF length_header_text]
    by (simp add: status_line_def length_header_def)
  have "valid_utf8 (head_text [status_line 200, length_header 2])"
    using visible_line [OF status_line_text, of 200] visible_line [OF length_header_text, of 2]
    by (intro valid_utf8_ascii) (auto simp: head_text_def CRLF_def CR_def LF_def is_ascii_def)
  then have "parse_head (head_text [status_line 200, length_header 2])
      = Inr (HttpStatus 200, \<lparr>fr_length = Some 2, fr_chunked = False\<rparr>)"
    using parse_status_line [of 200] header_length_step [of 2]
    by (simp add: parse_head_def split_head [OF lines] header_step_def [of _ "[]"] usize_max_def)
  from accepted_head_one_framing [OF this] show ?thesis by simp
qed

theorem http_body_within_allowance_witness:
  "length (snd (projr (http_response 8 \<lparr>w_bytes = plain_message 404 ''{}'', w_end = None\<rparr>))) \<le> 8"
proof -
  have "http_response 8 \<lparr>w_bytes = plain_message 404 ''{}'', w_end = None\<rparr> = Inr (HttpStatus 404, ''{}'')"
    using http_reads_plain [of 404 "''{}''" 8 "[]" None] by (simp add: usize_max_def)
  with http_body_within_allowance [OF this] show ?thesis by simp
qed

end
