(* ===== verification/Request_Paths.thy ===== *)
theory Request_Paths
  imports Http_Messages
begin

text \<open>
  What the client writes: the request lines of the closed list of reads. A path names its request
  exactly, and no identifier can add a line, a header or a second request.
\<close>

section \<open>Encoded segments\<close>

lemma encode_segment_Inr:
  "encode_segment i = Inr s \<longleftrightarrow> length (id_text i) \<le> 1024 \<and> s = percent_encode (id_text i)"
  by (auto simp: encode_segment_def percent_encode_def unreserved_def insert_commute cong: map_cong)

lemma percent_encode_inject: "percent_encode a = percent_encode b \<longleftrightarrow> a = b"
  by (metis option.inject percent_decode_encode)

definition path_char :: "char \<Rightarrow> bool" where
  "path_char c \<longleftrightarrow> visible c \<and> c \<noteq> CHR ''/''"

lemma upper_digit_path: "k < 16 \<Longrightarrow> path_char (upper_digit_char k)"
  by (drule less_16_cases, elim disjE, drule less_10_cases)
     (auto simp: path_char_def visible_def upper_digit_char_def)

lemma percent_encode_path: "list_all path_char (percent_encode b)"
proof (induction b)
  case (Cons c b)
  have "byte_val c div 16 < 16" "byte_val c mod 16 < 16" using byte_val_less [of c] by linarith+
  then have "list_all path_char (upper_hex2 c)" by (simp add: upper_hex2_def upper_digit_path)
  moreover have "path_char c" if "unreserved c"
    using that by (auto simp: unreserved_def path_char_def visible_def char_class_defs)
  moreover have "path_char (CHR ''%'')" by (simp add: path_char_def visible_def)
  ultimately show ?case using Cons by (simp add: percent_encode_def)
qed (simp add: percent_encode_def)

section \<open>Paths\<close>

definition version_path :: "api_version \<Rightarrow> bytes" where
  "version_path v = ''/v'' @ dec (unat (api_major v)) @ ''.'' @ dec (unat (api_minor v))"

text \<open>The part after the version.\<close>

fun resource_path :: "read_request \<Rightarrow> bytes" where
  "resource_path DaemonVersion = ''/version''"
| "resource_path DaemonInfo = ''/info''"
| "resource_path ListContainers = ''/containers/json?all=1''"
| "resource_path (InspectContainer i) = ''/containers/'' @ percent_encode (id_text i) @ ''/json''"
| "resource_path ListNetworks = ''/networks''"
| "resource_path (InspectNetwork i) = ''/networks/'' @ percent_encode (id_text i)"
| "resource_path ListVolumes = ''/volumes''"
| "resource_path (InspectVolume i) = ''/volumes/'' @ percent_encode (id_text i)"

lemma request_path_Inr:
  "request_path q api = Inr p \<Longrightarrow>
     (q = DaemonVersion \<and> p = resource_path q)
     \<or> (\<exists>v. q \<noteq> DaemonVersion \<and> api = Some v \<and> p = version_path v @ resource_path q)"
  by (cases q) (auto simp: request_path_def version_path_def bind_res_Inr_iff ok_or_Inr_iff encode_segment_Inr)

lemma dec_visible: "c \<in> set (dec n) \<Longrightarrow> visible c"
  using digits_visible [of n] by (simp add: list_all_iff)

lemma resource_path_visible: "list_all visible (resource_path q)"
  using percent_encode_path by (cases q) (auto simp: list_all_iff path_char_def visible_def)

lemma request_path_visible:
  assumes "request_path q api = Inr p"
  shows "list_all visible p"
proof -
  have "list_all visible (version_path v)" for v
    using dec_visible by (auto simp: version_path_def list_all_iff visible_def)
  with request_path_Inr [OF assms] resource_path_visible [of q] show ?thesis by auto
qed

text \<open>The listing path is not the inspection of any container.\<close>

lemma listing_differs: "''json?all=1'' \<noteq> s @ ''/json''"
proof
  assume "''json?all=1'' = s @ ''/json''"
  then have "last ''json?all=1'' = last (s @ ''/json'')" by simp
  then show False by simp
qed

lemma resource_path_inject: "resource_path q = resource_path q' \<Longrightarrow> q = q'"
  using listing_differs
  by (cases q; cases q') (auto simp: percent_encode_inject native_id.expand dest: sym)

lemma versioned_path_differs: "''/version'' \<noteq> version_path v @ s"
proof -
  obtain c r where "dec (unat (api_major v)) = c # r" by (cases "dec (unat (api_major v))") simp_all
  moreover have "is_digit c" using calculation dec_digits [of c "unat (api_major v)"] by simp
  ultimately show ?thesis by (auto simp: version_path_def is_digit_def)
qed

section \<open>Properties\<close>

text \<open>The path of a request names it: two requests of one connection to a daemon, under the same
  API version, are sent with the same path only if they are the same request.\<close>

theorem request_path_injective:
  assumes "request_path q api = Inr p" and "request_path q' api = Inr p"
  shows "q = q'"
  using request_path_Inr [OF assms(1)] request_path_Inr [OF assms(2)]
    versioned_path_differs versioned_path_differs [symmetric]
  by (auto dest: resource_path_inject)

theorem request_path_injective_witness:
  "request_path (InspectVolume (NativeId ''a/b'')) (Some (ApiVersion 1 41))
   \<noteq> request_path (InspectVolume (NativeId ''a%2Fb'')) (Some (ApiVersion 1 41))"
proof
  assume same: "request_path (InspectVolume (NativeId ''a/b'')) (Some (ApiVersion 1 41))
    = request_path (InspectVolume (NativeId ''a%2Fb'')) (Some (ApiVersion 1 41))"
  have "encode_segment (NativeId ''a/b'') = Inr (percent_encode ''a/b'')" by (simp add: encode_segment_Inr)
  then have "\<exists>p. request_path (InspectVolume (NativeId ''a/b'')) (Some (ApiVersion 1 41)) = Inr p"
    by (simp add: request_path_def)
  then obtain p where "request_path (InspectVolume (NativeId ''a/b'')) (Some (ApiVersion 1 41)) = Inr p" ..
  moreover from this same have "request_path (InspectVolume (NativeId ''a%2Fb'')) (Some (ApiVersion 1 41)) = Inr p"
    by metis
  ultimately have "InspectVolume (NativeId ''a/b'') = InspectVolume (NativeId ''a%2Fb'')"
    by (rule request_path_injective)
  then show False by simp
qed

text \<open>C26: every request the client writes is one HTTP message, a GET of its path without a body:
  split at its line ends it is the request line, the three fixed headers and the blank line, and
  the path has no blank, control or non-ASCII byte, whatever bytes the identifiers hold.\<close>

theorem request_is_one_get:
  assumes "request_path q api = Inr p"
  shows "split_crlf (http_request p) =
      [''GET '' @ p @ '' HTTP/1.1'', ''Host: docker'', ''Accept: application/json'',
       ''Connection: close'', [], []]
    \<and> list_all visible p \<and> hd p = CHR ''/''"
proof -
  let ?ls = "[''GET '' @ p @ '' HTTP/1.1'', ''Host: docker'', ''Accept: application/json'', ''Connection: close'']"
  have p: "list_all visible p" using request_path_visible [OF assms] .
  then have "list_all (\<lambda>l. list_all (\<lambda>c. visible c \<or> c = CHR '' '') l \<and> l \<noteq> []) ?ls"
    by (simp add: visible_def list_all_iff)
  then have "list_all (\<lambda>l. line_text l \<and> l \<noteq> []) ?ls"
    using visible_line unfolding list_all_iff by blast
  moreover have "http_request p = head_text ?ls" by (simp add: http_request_def head_text_def)
  ultimately have "split_crlf (http_request p) = ?ls @ [[], []]" by (simp only: split_head)
  moreover have "hd p = CHR ''/''"
    using request_path_Inr [OF assms] by (cases q) (auto simp: version_path_def)
  ultimately show ?thesis using p by simp
qed

theorem request_is_one_get_witness:
  "length (split_crlf (http_request ''/v1.41/volumes/%0D%0A'')) = 6"
proof -
  have "unat (41::u16) = 41" "unat (1::u16) = 1" by simp_all
  then have "request_path (InspectVolume (NativeId [CR, LF])) (Some (ApiVersion 1 41))
      = Inr ''/v1.41/volumes/%0D%0A''"
    by (simp add: request_path_def encode_segment_def dec.simps digit_char_def upper_hex2_def
        upper_digit_char_def char_class_defs CR_def LF_def)
  from request_is_one_get [OF this] show ?thesis by simp
qed

end
