(* ===== verification/Acquisition.thy ===== *)
theory Acquisition
  imports Request_Paths "HOL-Library.Char_ord" "HOL-Library.List_Lexorder"
begin

text \<open>
  \<^verbatim>\<open>exchange\<close> and \<^verbatim>\<open>acquire\<close> of \<^verbatim>\<open>src/acquisition.rs\<close>: the bounded read of one inventory from a
  local socket. The daemon, the clock and the cancellation flag are an environment: for the k-th
  request and its path, what the connection delivers, and the readings of the clock. The state
  is the budget and the log of all bytes written. Strings are ordered by their bytes.
\<close>

definition max_json_bytes :: nat where
  "max_json_bytes = 8 * 1024 * 1024"

section \<open>The environment and the state\<close>

text \<open>\<open>rp_wire\<close> is the outcome of connecting and writing, with the wire that is then open.\<close>

record reply =
  rp_asked :: duration
  rp_wire :: "acquisition_error + wire"
  rp_received :: duration
  rp_stored :: duration

record environment =
  env_reply :: "nat \<Rightarrow> bytes \<Rightarrow> reply"
  env_selected :: duration
  env_finished :: duration
  env_cancelled :: bool
  env_captured :: duration

record world =
  wd_budget :: budget
  wd_sent :: "bytes list"

text \<open>An action of the client; \<open>None\<close> is a panic.\<close>

type_synonym 'a action = "world \<Rightarrow> ((acquisition_error + 'a) \<times> world) option"

definition pure_act :: "acquisition_error + 'a \<Rightarrow> 'a action" where
  "pure_act x w = Some (x, w)"

definition act_bind :: "'a action \<Rightarrow> ('a \<Rightarrow> 'b action) \<Rightarrow> 'b action" where
  "act_bind m f w =
     (case m w of
        None \<Rightarrow> None
      | Some (Inl e, w') \<Rightarrow> Some (Inl e, w')
      | Some (Inr x, w') \<Rightarrow> f x w')"

fun act_fold :: "('s \<Rightarrow> 'x \<Rightarrow> 's action) \<Rightarrow> 's \<Rightarrow> 'x list \<Rightarrow> 's action" where
  "act_fold f st [] = pure_act (Inr st)"
| "act_fold f st (x # xs) = act_bind (f st x) (\<lambda>st'. act_fold f st' xs)"

definition budget_error :: "limit_error + 'a \<Rightarrow> acquisition_error + 'a" where
  "budget_error x = (case x of Inl e \<Rightarrow> Inl (BudgetError e) | Inr y \<Rightarrow> Inr y)"

definition act_budget :: "'a budgeted \<Rightarrow> 'a action" where
  "act_budget m w =
     (case m (wd_budget w) of
        None \<Rightarrow> None
      | Some (x, b) \<Rightarrow> Some (budget_error x, w\<lparr>wd_budget := b\<rparr>))"

section \<open>One exchange\<close>

text \<open>
  \<^verbatim>\<open>http_get\<close>: an absolute endpoint path, a connection, the request, the response. The reply of the
  environment is an error where connecting or writing fails; the log then keeps no trace of the
  part of the request a failing write has sent. \<open>Socket_Polling\<close> has the loops byte by byte, and
  \<open>socket_get_refines\<close> there says that such a part is a proper prefix of the request.
\<close>

definition http_get :: "bytes \<Rightarrow> reply \<Rightarrow> bytes \<Rightarrow> nat \<Rightarrow> (http_status \<times> bytes) action" where
  "http_get endpoint r path allow w =
     (if \<not> starts_with endpoint ''/'' then Some (Inl EndpointError, w)
      else
        (case rp_wire r of
           Inl e \<Rightarrow> Some (Inl e, w)
         | Inr wire \<Rightarrow> Some (http_response allow wire, w\<lparr>wd_sent := wd_sent w @ [http_request path]\<rparr>)))"

definition exchange ::
  "environment \<Rightarrow> bytes \<Rightarrow> read_request \<Rightarrow> resource_ref option \<Rightarrow> api_version option \<Rightarrow> bytes action" where
  "exchange env endpoint request resource api =
     act_bind (pure_act (request_path request api)) (\<lambda>path w.
       let r = env_reply env (b_requests (wd_budget w)) path in
       act_bind (act_budget (record_request (rp_asked r) request resource api)) (\<lambda>_ w'.
         case allowance (wd_budget w') of
           None \<Rightarrow> None
         | Some n \<Rightarrow>
           act_bind (http_get endpoint r path (min n max_json_bytes)) (\<lambda>(status, body).
           act_bind (act_budget (read_response (rp_received r) (rp_stored r) status
                \<lparr>rd_bytes = body, rd_fails = False\<rparr>)) (\<lambda>captured.
             pure_act (if status_code status \<noteq> 200 then Inl StatusError else Inr captured))) w') w)"

section \<open>The acquisition\<close>

fun root_reason_of :: "selector \<Rightarrow> selection_reason" where
  "root_reason_of (ContainerIds _) = ExactId"
| "root_reason_of (NetworkIds _) = ExactId"
| "root_reason_of (VolumeNames _) = ExactId"
| "root_reason_of (ContainerNames _) = ExactName"
| "root_reason_of (NamePrefix _) = ByNamePrefix"
| "root_reason_of (LabelSelector _ _) = ByLabel"
| "root_reason_of Discovery = ExplicitAll"
| "root_reason_of AllContainers = ExplicitAll"

definition selected_containers ::
  "environment \<Rightarrow> bytes \<Rightarrow> json_parser \<Rightarrow> api_version \<Rightarrow> selector \<Rightarrow> native_id list action" where
  "selected_containers env endpoint parse api s =
     (case s of
        ContainerIds ids \<Rightarrow> pure_act (Inr ids)
      | NetworkIds _ \<Rightarrow> pure_act (Inr [])
      | VolumeNames _ \<Rightarrow> pure_act (Inr [])
      | _ \<Rightarrow> act_bind (exchange env endpoint ListContainers None (Some api)) (\<lambda>body.
               pure_act (selected_ids parse body s)))"

text \<open>The first occurrence of each identifier is kept.\<close>

fun keep_new :: "native_id list \<Rightarrow> native_id list \<Rightarrow> native_id list" where
  "keep_new seen [] = []"
| "keep_new seen (i # is) = (if i \<in> set seen then keep_new seen is else i # keep_new (i # seen) is)"

text \<open>The hash map of networks: each identifier once, with whether it is only known by its name.\<close>

type_synonym network_map = "(native_id \<times> bool) list"

definition merge_flag :: "native_id \<Rightarrow> bool \<Rightarrow> network_map \<Rightarrow> network_map" where
  "merge_flag i by_name m = map (\<lambda>(k, f). if k = i then (k, f \<and> by_name) else (k, f)) m"

definition merge_network ::
  "network_map \<times> network_map \<Rightarrow> native_id \<times> bool \<Rightarrow> network_map \<times> network_map" where
  "merge_network ms nb =
     (let (old, new) = ms; (i, by_name) = nb in
      if i \<in> set (map fst old) then (merge_flag i by_name old, new)
      else if i \<in> set (map fst new) then (old, merge_flag i by_name new)
      else (old, new @ [(i, by_name)]))"

record run =
  rn_next :: u64
  rn_roots :: "selected_root list"
  rn_networks :: network_map
  rn_volumes :: "native_id list"
  rn_fallbacks :: "resource_ref list"
  rn_seen :: "native_id list"

text \<open>The part of each loop body that takes the next reference and, for a root, records it.\<close>

definition take_reference :: "root_kind \<Rightarrow> selection_reason option \<Rightarrow> run \<Rightarrow> acquisition_error + run" where
  "take_reference kind reason st =
     (let st' = st\<lparr>rn_roots := rn_roots st @ (case reason of
            None \<Rightarrow> []
          | Some why \<Rightarrow> [\<lparr>root_resource = ResourceRef (rn_next st), root_kind = kind, root_reason = why\<rparr>])\<rparr> in
      bind_res (ok_or (checked_add_one (rn_next st)) ShapeError) (\<lambda>n. Inr (st'\<lparr>rn_next := n\<rparr>)))"

text \<open>Adding the related networks and volumes, within the expansion limit.\<close>

definition expand_related ::
  "budget \<Rightarrow> (native_id \<times> bool) list \<times> native_id list \<Rightarrow> run \<Rightarrow> acquisition_error + run" where
  "expand_related b related st =
     (let (old, new) = foldl merge_network (rn_networks st, []) (fst related);
          volumes = keep_new (rn_volumes st) (snd related) in
      bind_res (ok_or (checked_add (length new) (length volumes)) (BudgetError TooManyExpansions)) (\<lambda>additional.
      bind_res (ok_or (checked_add (b_expansions b) additional) (BudgetError TooManyExpansions)) (\<lambda>projected.
        if projected > max_expansions (b_limits b) then Inl (BudgetError TooManyExpansions)
        else Inr (st\<lparr>rn_networks := old @ new, rn_volumes := rn_volumes st @ volumes\<rparr>))))"

definition visit_container ::
  "environment \<Rightarrow> bytes \<Rightarrow> json_parser \<Rightarrow> api_version \<Rightarrow> selector \<Rightarrow> run \<Rightarrow> native_id \<Rightarrow> run action" where
  "visit_container env endpoint parse api s st i =
     act_bind (pure_act (take_reference RootContainer (Some (root_reason_of s)) st)) (\<lambda>st'.
     act_bind (exchange env endpoint (InspectContainer i) (Some (ResourceRef (rn_next st))) (Some api)) (\<lambda>body.
     act_bind (pure_act (inspect_identity parse body ''Id'' i)) (\<lambda>_.
     act_bind (pure_act (related_ids parse body)) (\<lambda>related w.
       pure_act (expand_related (wd_budget w) related st') w))))"

definition visit_network ::
  "environment \<Rightarrow> bytes \<Rightarrow> json_parser \<Rightarrow> api_version \<Rightarrow> selector \<Rightarrow> run \<Rightarrow> native_id \<times> bool \<Rightarrow> run action" where
  "visit_network env endpoint parse api s st nb =
     (let (i, by_name) = nb; reference = ResourceRef (rn_next st);
          reason = (case s of NetworkIds _ \<Rightarrow> Some ExactNetworkId | _ \<Rightarrow> None);
          st0 = st\<lparr>rn_fallbacks := (if by_name then rn_fallbacks st @ [reference] else rn_fallbacks st)\<rparr> in
      act_bind (pure_act (take_reference RootNetwork reason st0)) (\<lambda>st'.
      act_bind (exchange env endpoint (InspectNetwork i) (Some reference) (Some api)) (\<lambda>body.
      act_bind (pure_act (inspect_identity parse body (if by_name then ''Name'' else ''Id'') i)) (\<lambda>_.
      act_bind (pure_act (inspected_network_id parse body)) (\<lambda>inspected.
        pure_act (if inspected \<in> set (rn_seen st') then Inl ShapeError
          else Inr (st'\<lparr>rn_seen := inspected # rn_seen st'\<rparr>)))))))"

definition visit_volume ::
  "environment \<Rightarrow> bytes \<Rightarrow> json_parser \<Rightarrow> api_version \<Rightarrow> selector \<Rightarrow> run \<Rightarrow> native_id \<Rightarrow> run action" where
  "visit_volume env endpoint parse api s st i =
     (let reason = (case s of VolumeNames _ \<Rightarrow> Some ExactVolumeName | _ \<Rightarrow> None) in
      act_bind (pure_act (take_reference RootVolume reason st)) (\<lambda>st'.
      act_bind (exchange env endpoint (InspectVolume i) (Some (ResourceRef (rn_next st))) (Some api)) (\<lambda>body.
      act_bind (pure_act (inspect_identity parse body ''Name'' i)) (\<lambda>_. pure_act (Inr st')))))"

definition initial_run :: "selector \<Rightarrow> run" where
  "initial_run s =
     \<lparr>rn_next = 1, rn_roots = [],
      rn_networks = (case s of NetworkIds ids \<Rightarrow> map (\<lambda>i. (i, False)) (keep_new [] ids) | _ \<Rightarrow> []),
      rn_volumes = (case s of VolumeNames names \<Rightarrow> keep_new [] names | _ \<Rightarrow> []),
      rn_fallbacks = [], rn_seen = []\<rparr>"

definition visit_all ::
  "environment \<Rightarrow> bytes \<Rightarrow> json_parser \<Rightarrow> api_version \<Rightarrow> selector \<Rightarrow> native_id list \<Rightarrow> run action" where
  "visit_all env endpoint parse api s containers =
     (let st = initial_run s in
      act_bind (act_budget (record_selection (env_selected env)
          (length containers + length (rn_networks st) + length (rn_volumes st)))) (\<lambda>_.
      act_bind (act_fold (visit_container env endpoint parse api s) st containers) (\<lambda>st1.
      act_bind (act_fold (visit_network env endpoint parse api s) st1
          (sort_key (\<lambda>nb. id_text (fst nb)) (rn_networks st1))) (\<lambda>st2.
        act_fold (visit_volume env endpoint parse api s) st2
          (sort_key id_text (rn_volumes st1))))))"

definition finish :: "environment \<Rightarrow> selector \<Rightarrow> run \<Rightarrow> world \<Rightarrow> acquisition_error + capture" where
  "finish env s st w =
     bind_res (remaining (env_finished env) (max_elapsed (b_limits (wd_budget w))) (env_cancelled env)) (\<lambda>_.
     bind_res (budget_error (into_capture (env_captured env) (wd_budget w))) (\<lambda>c.
       let c' = with_explicit_socket (with_network_name_fallbacks (rn_fallbacks st)
            (with_selector s (with_selected_roots (rn_roots st) c))) in
       Inr (case s of Discovery \<Rightarrow> with_discovery_only c' | _ \<Rightarrow> c')))"

definition acquire_from :: "environment \<Rightarrow> bytes \<Rightarrow> json_parser \<Rightarrow> selector \<Rightarrow> capture action" where
  "acquire_from env endpoint parse s =
     act_bind (exchange env endpoint DaemonVersion None None) (\<lambda>body.
     act_bind (pure_act (negotiated_api parse body)) (\<lambda>api.
     act_bind (exchange env endpoint DaemonInfo None (Some api)) (\<lambda>_.
     act_bind (selected_containers env endpoint parse api s) (\<lambda>ids.
     act_bind (visit_all env endpoint parse api s (keep_new [] ids)) (\<lambda>st w.
       pure_act (finish env s st w) w)))))"

text \<open>The result, and the bytes written to the daemon; the observation counter is the last argument.\<close>

definition acquire ::
  "environment \<Rightarrow> bytes \<Rightarrow> json_parser \<Rightarrow> selector \<Rightarrow> limits \<Rightarrow> u64
   \<Rightarrow> ((acquisition_error + capture) \<times> bytes list) option" where
  "acquire env endpoint parse s l next =
     (case validate_selector s l of
        Inl e \<Rightarrow> Some (Inl e, [])
      | Inr _ \<Rightarrow>
        (case fst (budget_new l next) of
           Inl e \<Rightarrow> Some (Inl (BudgetError e), [])
         | Inr b \<Rightarrow>
             map_option (\<lambda>(x, w). (x, wd_sent w)) (acquire_from env endpoint parse s \<lparr>wd_budget = b, wd_sent = []\<rparr>)))"

end
