(* ===== verification/Acquisition_Runs.thy ===== *)
theory Acquisition_Runs
  imports Acquisition
begin

text \<open>
  The steps of \<^verbatim>\<open>acquire\<close>: triples for the actions of the client, one exchange, the selection and
  the three loops of inspections, each with the exchanges it adds.
\<close>

section \<open>What the budget's operations do when they succeed\<close>

lemma and_then_Some_Inr:
  "and_then m f b = Some (Inr y, b') \<longleftrightarrow> (\<exists>x b1. m b = Some (Inr x, b1) \<and> f x b1 = Some (Inr y, b'))"
  by (auto simp: and_then_def split: option.splits sum.splits)

lemma check_time_Inr: "check_time now b = Some (Inr u, b') \<Longrightarrow> b' = b"
  by (auto simp: check_time_def ok_def err_def fail_with_def split: if_splits)

lemma register_Inr:
  "register r ki b = Some (Inr u, b') \<Longrightarrow> b_exchanges b' = b_exchanges b \<and> b_pending b' = b_pending b"
  by (auto simp: register_def ok_def err_def fail_with_def split: if_splits option.splits)

lemma count_request_Inr:
  "count_request p b = Some (Inr u, b') \<Longrightarrow> b_exchanges b' = b_exchanges b \<and> b_pending b' = Some p"
  by (auto simp: count_request_def ok_def fail_with_def split: if_splits option.splits)

lemma record_request_Inr:
  assumes "record_request now q r api b = Some (Inr u, b')"
  shows "b_exchanges b' = b_exchanges b
    \<and> b_pending b' = Some \<lparr>pr_request = q, pr_resource = r, pr_api = api\<rparr>"
proof -
  let ?reg = "case (r, inspected q) of (Some r, Some ki) \<Rightarrow> register r ki | _ \<Rightarrow> ok ()"
  obtain b1 where "?reg b = Some (Inr (), b1)"
    "count_request \<lparr>pr_request = q, pr_resource = r, pr_api = api\<rparr> b1 = Some (Inr u, b')"
    using assms unfolding record_request_def and_then_Some_Inr
    by (auto dest!: check_time_Inr simp: err_def and_then_Some_Inr split: if_splits)
  moreover have "b_exchanges b1 = b_exchanges b" if "?reg b = Some (Inr (), b1)"
    using that register_Inr by (auto simp: ok_def split: option.splits)
  ultimately show ?thesis using count_request_Inr by fastforce
qed

lemma record_selection_Inr:
  "record_selection now n b = Some (Inr u, b') \<Longrightarrow> b_exchanges b' = b_exchanges b \<and> b_pending b' = b_pending b"
  unfolding record_selection_def and_then_Some_Inr
  by (auto dest!: check_time_Inr simp: ok_def fail_with_def split: if_splits option.splits)

lemma read_response_Inr:
  assumes "read_response now later status rd b = Some (Inr y, b')"
  shows "\<exists>p. b_pending b = Some p \<and> b_pending b' = None \<and> b_exchanges b' = b_exchanges b @
    [\<lparr>ex_request = pr_request p, ex_resource = pr_resource p, ex_api = pr_api p, ex_status = status, ex_body = y\<rparr>]"
  using assms unfolding read_response_def and_then_Some_Inr
  by (auto dest!: check_time_Inr simp: err_def fail_with_def Let_def and_then_Some_Inr store_exchange_def ok_def
      split: if_splits option.splits prod.splits)

section \<open>Triples\<close>

text \<open>The bytes written so far are all read requests.\<close>

definition is_read :: "bytes \<Rightarrow> bool" where
  "is_read m \<longleftrightarrow> (\<exists>q api p. request_path q api = Inr p \<and> m = http_request p)"

definition only_reads :: "world \<Rightarrow> bool" where
  "only_reads w \<longleftrightarrow> (\<forall>m \<in> set (wd_sent w). is_read m)"

text \<open>From a state of \<open>P\<close> the action does not panic; a failure has only read; a result is in \<open>Q\<close>.\<close>

definition act_spec :: "(world \<Rightarrow> bool) \<Rightarrow> 'a action \<Rightarrow> ('a \<Rightarrow> world \<Rightarrow> bool) \<Rightarrow> bool" where
  "act_spec P m Q \<longleftrightarrow> (\<forall>w. P w \<longrightarrow> (\<exists>x w'. m w = Some (x, w')
     \<and> (case x of Inl _ \<Rightarrow> only_reads w' | Inr y \<Rightarrow> Q y w')))"

lemma act_specI:
  "(\<And>w. P w \<Longrightarrow> \<exists>x w'. m w = Some (x, w') \<and> (case x of Inl _ \<Rightarrow> only_reads w' | Inr y \<Rightarrow> Q y w'))
     \<Longrightarrow> act_spec P m Q"
  by (simp add: act_spec_def)

lemma act_spec_bind:
  assumes "act_spec P m Q" and "\<And>x. act_spec (Q x) (f x) R"
  shows "act_spec P (act_bind m f) R"
proof (rule act_specI)
  fix w
  assume "P w"
  with assms(1) obtain x w1 where m: "m w = Some (x, w1)"
    "case x of Inl _ \<Rightarrow> only_reads w1 | Inr y \<Rightarrow> Q y w1" unfolding act_spec_def by blast
  show "\<exists>x w'. act_bind m f w = Some (x, w') \<and> (case x of Inl _ \<Rightarrow> only_reads w' | Inr y \<Rightarrow> R y w')"
  proof (cases x)
    case (Inl e)
    with m show ?thesis by (simp add: act_bind_def)
  next
    case (Inr y)
    with m have "Q y w1" by simp
    with assms(2) [of y] m(1) Inr show ?thesis unfolding act_spec_def by (simp add: act_bind_def)
  qed
qed

lemma act_bind_pure [simp]: "act_bind (pure_act (Inr x)) f = f x"
  by (rule ext) (simp add: act_bind_def pure_act_def)

lemma act_spec_pure:
  assumes "\<And>w. P w \<Longrightarrow> only_reads w" and "\<And>w y. P w \<Longrightarrow> x = Inr y \<Longrightarrow> Q y w"
  shows "act_spec P (pure_act x) Q"
  using assms by (auto simp: act_spec_def pure_act_def split: sum.split)

lemma act_spec_conseq:
  assumes "act_spec P m Q" and "\<And>w. P' w \<Longrightarrow> P w" and "\<And>y w. Q y w \<Longrightarrow> Q' y w"
  shows "act_spec P' m Q'"
proof (rule act_specI)
  fix w
  assume "P' w"
  with assms(1,2) obtain x w' where "m w = Some (x, w')"
    "case x of Inl _ \<Rightarrow> only_reads w' | Inr y \<Rightarrow> Q y w'" unfolding act_spec_def by blast
  with assms(3) show "\<exists>x w'. m w = Some (x, w') \<and> (case x of Inl _ \<Rightarrow> only_reads w' | Inr y \<Rightarrow> Q' y w')"
    by (cases x) auto
qed

text \<open>A precondition that holds facts which do not depend on the state.\<close>

lemma act_spec_fact: "(A \<Longrightarrow> act_spec P m Q) \<Longrightarrow> act_spec (\<lambda>w. A \<and> P w) m Q"
  by (auto simp: act_spec_def)

lemma act_spec_ex: "(\<And>z. act_spec (P z) m Q) \<Longrightarrow> act_spec (\<lambda>w. \<exists>z. P z w) m Q"
  by (auto simp: act_spec_def)

text \<open>An action that first looks at the state.\<close>

lemma act_spec_read: "(\<And>z. act_spec P (f z) Q) \<Longrightarrow> act_spec P (\<lambda>w. f (g w) w) Q"
  by (auto simp: act_spec_def)

lemma act_spec_some:
  "(\<And>w. P w \<Longrightarrow> g w \<noteq> None) \<Longrightarrow> (\<And>n. act_spec P (f n) Q) \<Longrightarrow>
     act_spec P (\<lambda>w. case g w of None \<Rightarrow> None | Some n \<Rightarrow> f n w) Q"
  by (fastforce simp: act_spec_def)

lemma act_fold_spec:
  assumes "\<And>st x xs. act_spec (I st (x # xs)) (f st x) (\<lambda>st'. I st' xs)"
    and "\<And>st xs w. I st xs w \<Longrightarrow> only_reads w"
  shows "act_spec (I st xs) (act_fold f st xs) (\<lambda>st'. I st' [])"
proof (induction xs arbitrary: st)
  case Nil
  show ?case by (auto intro!: act_spec_pure assms(2))
next
  case (Cons x xs)
  show ?case using assms(1) [of st x xs] Cons by (auto intro: act_spec_bind)
qed

section \<open>One exchange\<close>

text \<open>Between exchanges: a reachable budget without a pending request, whose exchanges were all
  answered with status 200, and each written request is the one its exchange was made for.\<close>

definition sent_for :: "captured_exchange \<Rightarrow> bytes option" where
  "sent_for e = (case request_path (ex_request e) (ex_api e) of Inl _ \<Rightarrow> None | Inr p \<Rightarrow> Some (http_request p))"

definition settled :: "limits \<Rightarrow> captured_exchange list \<Rightarrow> world \<Rightarrow> bool" where
  "settled l es w \<longleftrightarrow> reachable l (wd_budget w) \<and> b_pending (wd_budget w) = None
     \<and> b_exchanges (wd_budget w) = es \<and> map Some (wd_sent w) = map sent_for es
     \<and> list_all (\<lambda>e. status_code (ex_status e) = 200) es"

lemma settled_only_reads: "settled l es w \<Longrightarrow> only_reads w"
proof -
  assume "settled l es w"
  then have sent: "map Some (wd_sent w) = map sent_for es" by (simp add: settled_def)
  have "is_read m" if "m \<in> set (wd_sent w)" for m
  proof -
    from that have "Some m \<in> set (map Some (wd_sent w))" by simp
    then obtain e where "sent_for e = Some m" unfolding sent by auto
    then show ?thesis unfolding is_read_def sent_for_def by (auto split: sum.splits)
  qed
  then show "only_reads w" by (simp add: only_reads_def)
qed

lemma act_budget_reachable:
  assumes "reachable l (wd_budget w)" and "\<And>x b. m (wd_budget w) = Some (x, b) \<Longrightarrow> budget_step (wd_budget w) b"
    and "m (wd_budget w) \<noteq> None"
  shows "\<exists>x b. act_budget m w = Some (budget_error x, w\<lparr>wd_budget := b\<rparr>)
    \<and> m (wd_budget w) = Some (x, b) \<and> reachable l b"
  using assms by (auto simp: act_budget_def intro: reachable.step)

lemma only_reads_frame [simp]: "only_reads (w\<lparr>wd_budget := b\<rparr>) = only_reads w"
  by (simp add: only_reads_def)

definition asked :: "limits \<Rightarrow> captured_exchange list \<Rightarrow> pending_request \<Rightarrow> world \<Rightarrow> bool" where
  "asked l es p w \<longleftrightarrow> reachable l (wd_budget w) \<and> alive (wd_budget w) \<and> b_pending (wd_budget w) = Some p
     \<and> b_exchanges (wd_budget w) = es \<and> list_all (\<lambda>e. status_code (ex_status e) = 200) es"

lemma record_request_spec:
  assumes "limits_sized l"
  shows "act_spec (settled l es) (act_budget (record_request now q r api))
    (\<lambda>_ w. asked l es \<lparr>pr_request = q, pr_resource = r, pr_api = api\<rparr> w
       \<and> map Some (wd_sent w) = map sent_for es \<and> only_reads w)"
proof (rule act_specI)
  fix w
  assume w: "settled l es w"
  then have reach: "reachable l (wd_budget w)" by (simp add: settled_def)
  have "record_request now q r api (wd_budget w) \<noteq> None"
    using reachable_ok [OF reach assms] rq.never_panics by blast
  then obtain x b where x: "act_budget (record_request now q r api) w = Some (budget_error x, w\<lparr>wd_budget := b\<rparr>)"
    "record_request now q r api (wd_budget w) = Some (x, b)" "reachable l b"
    using act_budget_reachable [OF reach] budget_step.request by blast
  show "\<exists>x w'. act_budget (record_request now q r api) w = Some (x, w')
      \<and> (case x of Inl _ \<Rightarrow> only_reads w' | Inr y \<Rightarrow>
          asked l es \<lparr>pr_request = q, pr_resource = r, pr_api = api\<rparr> w'
            \<and> map Some (wd_sent w') = map sent_for es \<and> only_reads w')"
  proof (cases x)
    case (Inl e)
    with x settled_only_reads [OF w] show ?thesis by (simp add: budget_error_def)
  next
    case (Inr u)
    with record_request_Inr x(2) have "b_exchanges b = b_exchanges (wd_budget w)
        \<and> b_pending b = Some \<lparr>pr_request = q, pr_resource = r, pr_api = api\<rparr>" by blast
    moreover have "alive b" using rq.success_alive reachable_ok [OF reach assms] x(2) Inr by blast
    ultimately show ?thesis using x Inr w settled_only_reads [OF w]
      by (simp add: budget_error_def asked_def settled_def)
  qed
qed

text \<open>After the request is written and before its response is recorded.\<close>

definition written :: "limits \<Rightarrow> captured_exchange list \<Rightarrow> pending_request \<Rightarrow> bytes \<Rightarrow> world \<Rightarrow> bool" where
  "written l es p path w \<longleftrightarrow> asked l es p w \<and> only_reads w
     \<and> map Some (wd_sent w) = map sent_for es @ [Some (http_request path)]"

lemma http_get_spec:
  assumes "request_path q api = Inr path"
  shows "act_spec (\<lambda>w. asked l es p w \<and> map Some (wd_sent w) = map sent_for es \<and> only_reads w)
    (http_get endpoint r path n) (\<lambda>_. written l es p path)"
proof -
  have "is_read (http_request path)" using assms by (auto simp: is_read_def)
  then show ?thesis
    by (auto simp: act_spec_def http_get_def written_def asked_def only_reads_def split: sum.splits)
qed

lemma read_response_spec:
  fixes r :: "resource_ref option"
  assumes "limits_sized l" and "request_path q api = Inr path"
  defines "p \<equiv> \<lparr>pr_request = q, pr_resource = r, pr_api = api\<rparr>"
  shows "act_spec (written l es p path) (act_bind (act_budget (read_response now later status rd)) (\<lambda>captured.
      pure_act (if status_code status \<noteq> 200 then Inl StatusError else Inr captured)))
    (\<lambda>body. settled l (es @ [\<lparr>ex_request = q, ex_resource = r, ex_api = api, ex_status = status, ex_body = body\<rparr>]))"
proof (rule act_specI)
  fix w
  assume w: "written l es p path w"
  then have reach: "reachable l (wd_budget w)" and reads: "only_reads w"
    by (simp_all add: written_def asked_def)
  have "read_response now later status rd (wd_budget w) \<noteq> None"
    using reachable_ok [OF reach assms(1)] rsp.never_panics by blast
  then obtain x b where x: "act_budget (read_response now later status rd) w = Some (budget_error x, w\<lparr>wd_budget := b\<rparr>)"
    "read_response now later status rd (wd_budget w) = Some (x, b)" "reachable l b"
    using act_budget_reachable [OF reach] budget_step.response by blast
  show "\<exists>x w'. act_bind (act_budget (read_response now later status rd)) (\<lambda>captured.
        pure_act (if status_code status \<noteq> 200 then Inl StatusError else Inr captured)) w = Some (x, w')
      \<and> (case x of Inl _ \<Rightarrow> only_reads w' | Inr body \<Rightarrow>
        settled l (es @ [\<lparr>ex_request = q, ex_resource = r, ex_api = api, ex_status = status, ex_body = body\<rparr>]) w')"
  proof (cases x)
    case (Inl e)
    with x reads show ?thesis by (simp add: budget_error_def act_bind_def)
  next
    case (Inr body)
    with read_response_Inr x(2) obtain p' where "b_pending (wd_budget w) = Some p'" "b_pending b = None"
      "b_exchanges b = b_exchanges (wd_budget w) @ [\<lparr>ex_request = pr_request p', ex_resource = pr_resource p',
         ex_api = pr_api p', ex_status = status, ex_body = body\<rparr>]" by blast
    with w have b: "b_pending b = None" "b_exchanges b = es @ [\<lparr>ex_request = q, ex_resource = r, ex_api = api,
        ex_status = status, ex_body = body\<rparr>]" by (auto simp: written_def asked_def p_def)
    with x Inr w reads show ?thesis
      by (simp add: budget_error_def act_bind_def pure_act_def settled_def written_def asked_def sent_for_def assms(2))
  qed
qed

text \<open>The exchange a successful call records.\<close>

definition made :: "read_request \<Rightarrow> resource_ref option \<Rightarrow> api_version option \<Rightarrow> bytes \<Rightarrow> captured_exchange" where
  "made q r api body =
     \<lparr>ex_request = q, ex_resource = r, ex_api = api, ex_status = HttpStatus 200, ex_body = body\<rparr>"

lemma exchange_spec:
  assumes "limits_sized l"
  shows "act_spec (settled l es) (exchange env endpoint q r api) (\<lambda>body. settled l (es @ [made q r api body]))"
proof (cases "request_path q api")
  case (Inl e)
  then show ?thesis
    using settled_only_reads by (auto simp: act_spec_def exchange_def act_bind_def pure_act_def)
next
  case (Inr path)
  let ?p = "\<lparr>pr_request = q, pr_resource = r, pr_api = api\<rparr>"
  let ?A = "\<lambda>w. asked l es ?p w \<and> map Some (wd_sent w) = map sent_for es \<and> only_reads w"
  have allow: "allowance (wd_budget w) \<noteq> None" if "?A w" for w
    using that allowance_Some [of "wd_budget w"] by (auto simp: asked_def)
  have rest: "act_spec ?A (act_bind (http_get endpoint rp path (min n max_json_bytes)) (\<lambda>(status, body).
      act_bind (act_budget (read_response (rp_received rp) (rp_stored rp) status
          \<lparr>rd_bytes = body, rd_fails = False\<rparr>)) (\<lambda>captured.
        pure_act (if status_code status \<noteq> 200 then Inl StatusError else Inr captured))))
      (\<lambda>body. settled l (es @ [made q r api body]))" (is "act_spec _ (act_bind _ ?respond) _") for rp n
  proof (rule act_spec_bind [OF http_get_spec [OF Inr]])
    fix x :: "http_status \<times> bytes"
    obtain status body where x: "x = (status, body)" by force
    show "act_spec (written l es ?p path) (?respond x) (\<lambda>body. settled l (es @ [made q r api body]))"
      unfolding x prod.case
      by (rule act_spec_conseq [OF read_response_spec [OF assms Inr]])
        (auto simp: settled_def made_def sent_for_def http_status.expand)
  qed
  have "act_spec ?A (\<lambda>w'. case allowance (wd_budget w') of
        None \<Rightarrow> None
      | Some n \<Rightarrow>
        act_bind (http_get endpoint rp path (min n max_json_bytes)) (\<lambda>(status, body).
          act_bind (act_budget (read_response (rp_received rp) (rp_stored rp) status
              \<lparr>rd_bytes = body, rd_fails = False\<rparr>)) (\<lambda>captured.
            pure_act (if status_code status \<noteq> 200 then Inl StatusError else Inr captured))) w')
      (\<lambda>body. settled l (es @ [made q r api body]))" for rp
    by (rule act_spec_some [OF allow rest])
  note step = act_spec_bind [OF record_request_spec [OF assms] this]
  show ?thesis
    unfolding exchange_def Inr Let_def act_bind_pure by (rule act_spec_read [OF step])
qed

section \<open>Visits\<close>

type_synonym identity = "read_request \<times> resource_ref option \<times> api_version option"

definition ident :: "captured_exchange \<Rightarrow> identity" where
  "ident e = (ex_request e, ex_resource e, ex_api e)"

text \<open>The inspections of a run are numbered by consecutive references.\<close>

fun numbered :: "api_version \<Rightarrow> u64 \<Rightarrow> read_request list \<Rightarrow> identity list" where
  "numbered api n [] = []"
| "numbered api n (q # qs) = (q, Some (ResourceRef n), Some api) # numbered api (n + 1) qs"

lemma numbered_snoc:
  "numbered api n (qs @ [q]) = numbered api n qs @ [(q, Some (ResourceRef (n + of_nat (length qs))), Some api)]"
  by (induction qs arbitrary: n) (simp_all add: add.assoc)

text \<open>Which inspections a selector makes roots, and what a root says of its exchange.\<close>

definition is_root :: "selector \<Rightarrow> read_request \<Rightarrow> bool" where
  "is_root s q \<longleftrightarrow>
     (case q of
        InspectContainer _ \<Rightarrow> True
      | InspectNetwork _ \<Rightarrow> (case s of NetworkIds _ \<Rightarrow> True | _ \<Rightarrow> False)
      | InspectVolume _ \<Rightarrow> (case s of VolumeNames _ \<Rightarrow> True | _ \<Rightarrow> False)
      | _ \<Rightarrow> False)"

fun kind_class :: "root_kind \<Rightarrow> resource_class" where
  "kind_class RootContainer = ClassContainer"
| "kind_class RootNetwork = ClassNetwork"
| "kind_class RootVolume = ClassVolume"

definition roots_match :: "selector \<Rightarrow> selected_root list \<Rightarrow> captured_exchange list \<Rightarrow> bool" where
  "roots_match s rs es \<longleftrightarrow>
     map (\<lambda>r. (Some (root_resource r), Some (kind_class (root_kind r)))) rs
     = map (\<lambda>e. (ex_resource e, map_option fst (inspected (ex_request e))))
         (filter (\<lambda>e. is_root s (ex_request e)) es)"

definition stage ::
  "limits \<Rightarrow> selector \<Rightarrow> api_version \<Rightarrow> captured_exchange list \<Rightarrow> read_request list
   \<Rightarrow> captured_exchange list \<Rightarrow> run \<Rightarrow> world \<Rightarrow> bool" where
  "stage l s api pre qs es st w \<longleftrightarrow> settled l (pre @ es) w \<and> map ident es = numbered api 1 qs
     \<and> rn_next st = 1 + of_nat (length qs) \<and> roots_match s (rn_roots st) es"

lemma stage_only_reads: "stage l s api pre qs es st w \<Longrightarrow> only_reads w"
  by (auto simp: stage_def dest: settled_only_reads)

lemma take_reference_Inr:
  "take_reference kind reason st = Inr st' \<Longrightarrow>
     rn_next st' = rn_next st + 1 \<and> rn_networks st' = rn_networks st \<and> rn_volumes st' = rn_volumes st
     \<and> rn_fallbacks st' = rn_fallbacks st \<and> rn_seen st' = rn_seen st
     \<and> (\<exists>rs. rn_roots st' = rn_roots st @ rs \<and>
          map (\<lambda>r. (Some (root_resource r), Some (kind_class (root_kind r)))) rs
          = (if reason = None then [] else [(Some (ResourceRef (rn_next st)), Some (kind_class kind))]))"
  by (auto simp: take_reference_def bind_res_Inr_iff ok_or_Inr_iff checked_add_one_def Let_def
      split: if_splits option.splits)

text \<open>One visit: the next reference is taken and the inspection is made under it.\<close>

lemma visit_spec:
  assumes "limits_sized l" and "(reason \<noteq> None) = is_root s q"
    and "map_option fst (inspected q) = Some (kind_class kind)"
    and "\<And>st' body. take_reference kind reason st = Inr st' \<Longrightarrow>
      act_spec (stage l s api pre (qs @ [q]) (es @ [made q (Some (ResourceRef (rn_next st))) (Some api) body]) st')
        (f st' body) Q"
  shows "act_spec (stage l s api pre qs es st)
    (act_bind (pure_act (take_reference kind reason st)) (\<lambda>st'.
      act_bind (exchange env endpoint q (Some (ResourceRef (rn_next st))) (Some api)) (\<lambda>body. f st' body))) Q"
proof (rule act_spec_bind [where Q = "\<lambda>st' w. take_reference kind reason st = Inr st' \<and> stage l s api pre qs es st w"])
  show "act_spec (stage l s api pre qs es st) (pure_act (take_reference kind reason st))
      (\<lambda>st' w. take_reference kind reason st = Inr st' \<and> stage l s api pre qs es st w)"
    by (rule act_spec_pure) (auto dest: stage_only_reads)
next
  fix st'
  let ?e = "made q (Some (ResourceRef (rn_next st))) (Some api)"
  show "act_spec (\<lambda>w. take_reference kind reason st = Inr st' \<and> stage l s api pre qs es st w)
      (act_bind (exchange env endpoint q (Some (ResourceRef (rn_next st))) (Some api)) (\<lambda>body. f st' body)) Q"
  proof (rule act_spec_fact)
    assume t: "take_reference kind reason st = Inr st'"
    note st' = take_reference_Inr [OF t]
    have "act_spec (\<lambda>w. (map ident es = numbered api 1 qs \<and> rn_next st = 1 + of_nat (length qs)
          \<and> roots_match s (rn_roots st) es) \<and> settled l (pre @ es) w)
        (exchange env endpoint q (Some (ResourceRef (rn_next st))) (Some api))
        (\<lambda>body. stage l s api pre (qs @ [q]) (es @ [?e body]) st')"
    proof (rule act_spec_fact, rule act_spec_conseq [OF exchange_spec [OF assms(1), of "pre @ es"]])
      fix body w
      assume h: "map ident es = numbered api 1 qs \<and> rn_next st = 1 + of_nat (length qs)
          \<and> roots_match s (rn_roots st) es"
        and w: "settled l ((pre @ es) @ [?e body]) w"
      have "map ident (es @ [?e body]) = numbered api 1 (qs @ [q])"
        using h by (simp add: numbered_snoc ident_def made_def)
      moreover have "roots_match s (rn_roots st') (es @ [?e body])"
        using h st' assms(2,3) by (auto simp: roots_match_def made_def split: if_splits)
      ultimately show "stage l s api pre (qs @ [q]) (es @ [?e body]) st' w"
        using h st' w by (simp add: stage_def algebra_simps)
    qed simp_all
    then have "act_spec (stage l s api pre qs es st) (exchange env endpoint q (Some (ResourceRef (rn_next st))) (Some api))
        (\<lambda>body. stage l s api pre (qs @ [q]) (es @ [?e body]) st')"
      by (rule act_spec_conseq) (simp_all add: stage_def)
    then show "act_spec (stage l s api pre qs es st)
        (act_bind (exchange env endpoint q (Some (ResourceRef (rn_next st))) (Some api)) (\<lambda>body. f st' body)) Q"
      by (rule act_spec_bind) (rule assms(4) [OF t])
  qed
qed

lemma visit_spec_at:
  assumes "limits_sized l" and "n = rn_next st" and "(reason \<noteq> None) = is_root s q"
    and "map_option fst (inspected q) = Some (kind_class kind)"
    and "\<And>st' body. take_reference kind reason st = Inr st' \<Longrightarrow>
      act_spec (stage l s api pre (qs @ [q]) (es @ [made q (Some (ResourceRef n)) (Some api) body]) st')
        (f st' body) Q"
  shows "act_spec (stage l s api pre qs es st)
    (act_bind (pure_act (take_reference kind reason st)) (\<lambda>st'.
      act_bind (exchange env endpoint q (Some (ResourceRef n)) (Some api)) (\<lambda>body. f st' body))) Q"
  unfolding assms(2) by (rule visit_spec [OF assms(1,3,4)]) (rule assms(5) [unfolded assms(2)])

section \<open>The related resources\<close>

lemma keep_new_set: "set (keep_new seen xs) = set xs - set seen"
  by (induction xs arbitrary: seen) auto

lemma keep_new_distinct: "distinct (keep_new seen xs)"
  by (induction xs arbitrary: seen) (auto simp: keep_new_set)

lemma merge_flag_keys [simp]: "map fst (merge_flag i b m) = map fst m"
  by (induction m) (auto simp: merge_flag_def)

lemma merge_network_keys:
  assumes "merge_network (old, new) r = (old', new')"
  shows "map fst old' = map fst old \<and> set (map fst new') = set (map fst new) \<union> ({fst r} - set (map fst old))
    \<and> (distinct (map fst (old @ new)) \<longrightarrow> distinct (map fst (old' @ new')))"
proof -
  obtain i b where r: "r = (i, b)" by force
  obtain ko kn where keys: "map fst old = ko" "map fst new = kn" by blast
  consider "i \<in> set ko" "map fst old' = ko" "map fst new' = kn"
    | "i \<notin> set ko" "i \<in> set kn" "map fst old' = ko" "map fst new' = kn"
    | "i \<notin> set ko" "i \<notin> set kn" "map fst old' = ko" "map fst new' = kn @ [i]"
    using assms keys by (cases "i \<in> set ko"; cases "i \<in> set kn")
      (force simp: merge_network_def r simp del: list.set_map)+
  then show ?thesis
    unfolding map_append keys r by cases (auto simp del: list.set_map)
qed

lemma merge_networks_keys:
  "foldl merge_network (old, new) rs = (old', new') \<Longrightarrow> distinct (map fst (old @ new)) \<Longrightarrow>
     distinct (map fst (old' @ new'))
     \<and> set (map fst (old' @ new')) = set (map fst (old @ new)) \<union> fst ` set rs"
proof (induction rs arbitrary: old new)
  case (Cons r rs)
  obtain o1 n1 where m: "merge_network (old, new) r = (o1, n1)" by force
  note k = merge_network_keys [OF m]
  with Cons.prems(2) have d: "distinct (map fst (o1 @ n1))" by blast
  have "foldl merge_network (o1, n1) rs = (old', new')" using Cons.prems(1) m by simp
  from Cons.IH [OF this d] k show ?case by auto
qed simp

lemma expand_related_Inr:
  assumes "expand_related b related st = Inr st'"
    and "distinct (map fst (rn_networks st))" and "distinct (rn_volumes st)"
  shows "distinct (map fst (rn_networks st')) \<and> distinct (rn_volumes st')
    \<and> set (map fst (rn_networks st')) = set (map fst (rn_networks st)) \<union> fst ` set (fst related)
    \<and> set (rn_volumes st') = set (rn_volumes st) \<union> set (snd related)
    \<and> rn_next st' = rn_next st \<and> rn_roots st' = rn_roots st"
proof -
  obtain old new where m: "foldl merge_network (rn_networks st, []) (fst related) = (old, new)" by force
  with assms(1) have "st' = st\<lparr>rn_networks := old @ new,
      rn_volumes := rn_volumes st @ keep_new (rn_volumes st) (snd related)\<rparr>"
    by (auto simp: expand_related_def bind_res_Inr_iff Let_def split: if_splits)
  with merge_networks_keys [OF m] assms(2,3) show ?thesis
    by (auto simp del: set_map map_append simp: keep_new_set keep_new_distinct)
qed

definition body_networks :: "json_parser \<Rightarrow> bytes \<Rightarrow> native_id set" where
  "body_networks parse body = (case related_ids parse body of Inl _ \<Rightarrow> {} | Inr (ns, _) \<Rightarrow> fst ` set ns)"

definition body_volumes :: "json_parser \<Rightarrow> bytes \<Rightarrow> native_id set" where
  "body_volumes parse body = (case related_ids parse body of Inl _ \<Rightarrow> {} | Inr (_, vs) \<Rightarrow> set vs)"

text \<open>What the inspected containers of a list of exchanges are related to.\<close>

definition container_bodies :: "captured_exchange list \<Rightarrow> bytes set" where
  "container_bodies es =
     ex_body ` set (filter (\<lambda>e. case ex_request e of InspectContainer _ \<Rightarrow> True | _ \<Rightarrow> False) es)"

definition selected_networks :: "selector \<Rightarrow> native_id set" where
  "selected_networks s = (case s of NetworkIds ids \<Rightarrow> set ids | _ \<Rightarrow> {})"

definition selected_volumes :: "selector \<Rightarrow> native_id set" where
  "selected_volumes s = (case s of VolumeNames names \<Rightarrow> set names | _ \<Rightarrow> {})"

lemma container_bodies_snoc:
  "container_bodies (es @ [made q r api body])
     = container_bodies es \<union> (case q of InspectContainer _ \<Rightarrow> {body} | _ \<Rightarrow> {})"
  by (cases q) (simp_all add: container_bodies_def made_def)

section \<open>The three loops\<close>

definition expanded ::
  "limits \<Rightarrow> selector \<Rightarrow> json_parser \<Rightarrow> api_version \<Rightarrow> captured_exchange list \<Rightarrow> native_id list
   \<Rightarrow> captured_exchange list \<Rightarrow> run \<Rightarrow> world \<Rightarrow> bool" where
  "expanded l s parse api pre ys es st w \<longleftrightarrow> stage l s api pre (map InspectContainer ys) es st w
     \<and> distinct (map fst (rn_networks st)) \<and> distinct (rn_volumes st)
     \<and> set (map fst (rn_networks st)) = selected_networks s \<union> (\<Union>b \<in> container_bodies es. body_networks parse b)
     \<and> set (rn_volumes st) = selected_volumes s \<union> (\<Union>b \<in> container_bodies es. body_volumes parse b)"

lemma visit_container_spec:
  assumes "limits_sized l"
  shows "act_spec (expanded l s parse api pre ys es st) (visit_container env endpoint parse api s st i)
    (\<lambda>st' w. \<exists>es'. expanded l s parse api pre (ys @ [i]) es' st' w)"
proof -
  let ?C = "distinct (map fst (rn_networks st)) \<and> distinct (rn_volumes st)
     \<and> set (map fst (rn_networks st)) = selected_networks s \<union> (\<Union>b \<in> container_bodies es. body_networks parse b)
     \<and> set (rn_volumes st) = selected_volumes s \<union> (\<Union>b \<in> container_bodies es. body_volumes parse b)"
  let ?Q = "\<lambda>st' w. \<exists>es'. expanded l s parse api pre (ys @ [i]) es' st' w"
  have "act_spec (\<lambda>w. ?C \<and> stage l s api pre (map InspectContainer ys) es st w)
      (visit_container env endpoint parse api s st i) ?Q"
  proof (rule act_spec_fact)
    assume C: ?C
    show "act_spec (stage l s api pre (map InspectContainer ys) es st)
        (visit_container env endpoint parse api s st i) ?Q"
      unfolding visit_container_def
    proof (rule visit_spec [OF assms])
      fix st' body
      assume t: "take_reference RootContainer (Some (root_reason_of s)) st = Inr st'"
      let ?es = "es @ [made (InspectContainer i) (Some (ResourceRef (rn_next st))) (Some api) body]"
      let ?P = "stage l s api pre (map InspectContainer ys @ [InspectContainer i]) ?es st'"
      have fin: "act_spec ?P (\<lambda>w. pure_act (expand_related (wd_budget w) related st') w) ?Q"
        if r: "related_ids parse body = Inr related" for related
      proof (rule act_spec_read [where g = wd_budget and f = "\<lambda>b. pure_act (expand_related b related st')"],
          rule act_spec_pure)
        fix b w st''
        assume w: "?P w" and x: "expand_related b related st' = Inr st''"
        have "body_networks parse body = fst ` set (fst related)" "body_volumes parse body = set (snd related)"
          using r by (simp_all add: body_networks_def body_volumes_def split: prod.split)
        with expand_related_Inr [OF x] take_reference_Inr [OF t] C w
        have "expanded l s parse api pre (ys @ [i]) ?es st'' w"
          by (auto simp: expanded_def stage_def container_bodies_snoc)
        then show "?Q st'' w" by blast
      qed (rule stage_only_reads)
      have "act_spec ?P (act_bind (pure_act (related_ids parse body))
          (\<lambda>related w. pure_act (expand_related (wd_budget w) related st') w)) ?Q"
        by (rule act_spec_bind [where Q = "\<lambda>related w. related_ids parse body = Inr related \<and> ?P w"])
          (auto intro!: act_spec_pure act_spec_fact fin dest: stage_only_reads)
      then show "act_spec ?P (act_bind (pure_act (inspect_identity parse body ''Id'' i)) (\<lambda>_.
          act_bind (pure_act (related_ids parse body))
            (\<lambda>related w. pure_act (expand_related (wd_budget w) related st') w))) ?Q"
        by (rule act_spec_bind [rotated]) (auto intro!: act_spec_pure dest: stage_only_reads)
    qed (simp_all add: is_root_def)
  qed
  then show ?thesis by (rule act_spec_conseq) (simp_all add: expanded_def)
qed

lemma bind_only_pure:
  assumes "\<And>w. P w \<Longrightarrow> only_reads w" and "\<And>y. x = Inr y \<Longrightarrow> act_spec P (f y) Q"
  shows "act_spec P (act_bind (pure_act x) f) Q"
proof (cases x)
  case (Inl e)
  then show ?thesis using assms(1) by (auto simp: act_spec_def act_bind_def pure_act_def)
qed (simp add: assms(2))

text \<open>The later loops leave the inspected containers as they are.\<close>

definition later ::
  "limits \<Rightarrow> selector \<Rightarrow> api_version \<Rightarrow> captured_exchange list \<Rightarrow> bytes set \<Rightarrow> read_request list
   \<Rightarrow> run \<Rightarrow> world \<Rightarrow> bool" where
  "later l s api pre bodies qs st w \<longleftrightarrow> (\<exists>es. container_bodies es = bodies \<and> stage l s api pre qs es st w)"

lemma later_only_reads: "later l s api pre bodies qs st w \<Longrightarrow> only_reads w"
  by (auto simp: later_def dest: stage_only_reads)

lemma visit_network_spec:
  assumes "limits_sized l"
  shows "act_spec (later l s api pre bodies qs st) (visit_network env endpoint parse api s st nb)
    (later l s api pre bodies (qs @ [InspectNetwork (fst nb)]))"
  unfolding later_def
proof (rule act_spec_ex, rule act_spec_fact)
  fix es
  assume es: "container_bodies es = bodies"
  obtain i by_name where nb: "nb = (i, by_name)" by force
  let ?st = "st\<lparr>rn_fallbacks := (if by_name then rn_fallbacks st @ [ResourceRef (rn_next st)] else rn_fallbacks st)\<rparr>"
  let ?Q = "\<lambda>st' w. \<exists>es. container_bodies es = bodies \<and> stage l s api pre (qs @ [InspectNetwork i]) es st' w"
  have "act_spec (stage l s api pre qs es ?st) (visit_network env endpoint parse api s st nb) ?Q"
    unfolding visit_network_def nb Let_def prod.case
  proof (rule visit_spec_at [OF assms])
    fix st' body
    let ?es = "es @ [made (InspectNetwork i) (Some (ResourceRef (rn_next st))) (Some api) body]"
    let ?P = "stage l s api pre (qs @ [InspectNetwork i]) ?es st'"
    have "container_bodies ?es = bodies" using es by (simp add: container_bodies_snoc)
    then have fin: "?Q (st'\<lparr>rn_seen := v\<rparr>) w" if "?P w" for v w
      using that by (auto simp: stage_def)
    show "act_spec ?P (act_bind (pure_act (inspect_identity parse body (if by_name then ''Name'' else ''Id'') i)) (\<lambda>_.
        act_bind (pure_act (inspected_network_id parse body)) (\<lambda>inspected.
          pure_act (if inspected \<in> set (rn_seen st') then Inl ShapeError
            else Inr (st'\<lparr>rn_seen := inspected # rn_seen st'\<rparr>))))) ?Q"
      by (intro bind_only_pure act_spec_pure) (auto dest: stage_only_reads fin split: if_splits)
  qed (auto simp: is_root_def split: selector.split)
  then show "act_spec (stage l s api pre qs es st) (visit_network env endpoint parse api s st nb)
      (\<lambda>st' w. \<exists>es. container_bodies es = bodies \<and> stage l s api pre (qs @ [InspectNetwork (fst nb)]) es st' w)"
    by (rule act_spec_conseq) (simp_all add: stage_def nb)
qed

lemma visit_volume_spec:
  assumes "limits_sized l"
  shows "act_spec (later l s api pre bodies qs st) (visit_volume env endpoint parse api s st i)
    (later l s api pre bodies (qs @ [InspectVolume i]))"
  unfolding later_def
proof (rule act_spec_ex, rule act_spec_fact)
  fix es
  assume es: "container_bodies es = bodies"
  show "act_spec (stage l s api pre qs es st) (visit_volume env endpoint parse api s st i)
      (\<lambda>st' w. \<exists>es. container_bodies es = bodies \<and> stage l s api pre (qs @ [InspectVolume i]) es st' w)"
    unfolding visit_volume_def Let_def
  proof (rule visit_spec [OF assms])
    fix st' body
    let ?es = "es @ [made (InspectVolume i) (Some (ResourceRef (rn_next st))) (Some api) body]"
    have "container_bodies ?es = bodies" using es by (simp add: container_bodies_snoc)
    then show "act_spec (stage l s api pre (qs @ [InspectVolume i]) ?es st')
        (act_bind (pure_act (inspect_identity parse body ''Name'' i)) (\<lambda>_. pure_act (Inr st')))
        (\<lambda>st' w. \<exists>es. container_bodies es = bodies \<and> stage l s api pre (qs @ [InspectVolume i]) es st' w)"
      by (intro bind_only_pure act_spec_pure) (auto dest: stage_only_reads)
  qed (auto simp: is_root_def split: selector.split)
qed

text \<open>A loop of visits makes the requests of its list, in order.\<close>

lemma visits_spec:
  assumes "\<And>qs st x. act_spec (J qs st) (f st x) (J (qs @ [g x]))"
    and "\<And>qs st w. J qs st w \<Longrightarrow> only_reads w"
  shows "act_spec (J qs st) (act_fold f st xs) (J (qs @ map g xs))"
proof (rule act_spec_conseq)
  let ?I = "\<lambda>st ys w. \<exists>zs. xs = zs @ ys \<and> J (qs @ map g zs) st w"
  show "act_spec (?I st xs) (act_fold f st xs) (\<lambda>st'. ?I st' [])"
  proof (rule act_fold_spec)
    fix st y ys
    show "act_spec (?I st (y # ys)) (f st y) (\<lambda>st'. ?I st' ys)"
    proof (rule act_spec_ex, rule act_spec_fact)
      fix zs
      assume zs: "xs = zs @ y # ys"
      show "act_spec (J (qs @ map g zs) st) (f st y) (\<lambda>st'. ?I st' ys)"
        by (rule act_spec_conseq [OF assms(1)]) (auto simp: zs intro!: exI [of _ "zs @ [y]"])
    qed
  qed (auto dest: assms(2))
qed auto

end
