(* ===== verification/Acquisition_Properties.thy ===== *)
theory Acquisition_Properties
  imports Acquisition_Runs
begin

text \<open>
  What \<^verbatim>\<open>acquire\<close> promises: no panic, only reads, captures within the limits, and exactly the
  requests the selection and the inspected containers call for.
\<close>

section \<open>The whole run\<close>

definition listed ::
  "json_parser \<Rightarrow> api_version \<Rightarrow> selector \<Rightarrow> captured_exchange list \<Rightarrow> native_id list \<Rightarrow> bool" where
  "listed parse api s ls ids \<longleftrightarrow>
     (case s of
        ContainerIds cs \<Rightarrow> ls = [] \<and> ids = cs
      | NetworkIds _ \<Rightarrow> ls = [] \<and> ids = []
      | VolumeNames _ \<Rightarrow> ls = [] \<and> ids = []
      | _ \<Rightarrow> (\<exists>body. ls = [made ListContainers None (Some api) body] \<and> selected_ids parse body s = Inr ids))"

lemma selected_containers_spec:
  assumes "limits_sized l"
  shows "act_spec (settled l es) (selected_containers env endpoint parse api s)
    (\<lambda>ids w. \<exists>ls. settled l (es @ ls) w \<and> listed parse api s ls ids)"
proof -
  have list: "act_spec (settled l es) (act_bind (exchange env endpoint ListContainers None (Some api)) (\<lambda>body.
      pure_act (selected_ids parse body s)))
      (\<lambda>ids w. \<exists>body. settled l (es @ [made ListContainers None (Some api) body]) w
        \<and> selected_ids parse body s = Inr ids)"
    by (rule act_spec_bind [OF exchange_spec [OF assms]]) (auto intro!: act_spec_pure dest: settled_only_reads)
  have "act_spec (settled l es) (act_bind (exchange env endpoint ListContainers None (Some api)) (\<lambda>body.
      pure_act (selected_ids parse body s)))
      (\<lambda>ids w. \<exists>ls. settled l (es @ ls) w
        \<and> (\<exists>body. ls = [made ListContainers None (Some api) body] \<and> selected_ids parse body s = Inr ids))"
    by (rule act_spec_conseq [OF list]) auto
  then show ?thesis
    by (cases s) (auto simp: selected_containers_def listed_def intro!: act_spec_pure dest: settled_only_reads)
qed

lemma record_selection_spec:
  assumes "limits_sized l"
  shows "act_spec (settled l es) (act_budget (record_selection now n)) (\<lambda>_. settled l es)"
proof (rule act_specI)
  fix w
  assume w: "settled l es w"
  then have reach: "reachable l (wd_budget w)" by (simp add: settled_def)
  have "record_selection now n (wd_budget w) \<noteq> None"
    using reachable_ok [OF reach assms] sel.never_panics by blast
  then obtain x b where x: "act_budget (record_selection now n) w = Some (budget_error x, w\<lparr>wd_budget := b\<rparr>)"
    "record_selection now n (wd_budget w) = Some (x, b)" "reachable l b"
    using act_budget_reachable [OF reach] budget_step.selection by blast
  show "\<exists>x w'. act_budget (record_selection now n) w = Some (x, w')
      \<and> (case x of Inl _ \<Rightarrow> only_reads w' | Inr y \<Rightarrow> settled l es w')"
  proof (cases x)
    case (Inl e)
    with x settled_only_reads [OF w] show ?thesis by (simp add: budget_error_def)
  next
    case (Inr u)
    with record_selection_Inr x(2) have "b_exchanges b = b_exchanges (wd_budget w)
        \<and> b_pending b = b_pending (wd_budget w)" by blast
    with x Inr w show ?thesis by (simp add: budget_error_def settled_def)
  qed
qed

text \<open>What the three loops have inspected when they end.\<close>

definition inspected_all ::
  "limits \<Rightarrow> selector \<Rightarrow> json_parser \<Rightarrow> api_version \<Rightarrow> captured_exchange list \<Rightarrow> native_id list
   \<Rightarrow> run \<Rightarrow> world \<Rightarrow> bool" where
  "inspected_all l s parse api pre cs st w \<longleftrightarrow> (\<exists>es ns vs.
     stage l s api pre (map InspectContainer cs @ map InspectNetwork ns @ map InspectVolume vs) es st w
     \<and> sorted (map id_text ns) \<and> distinct ns \<and> sorted (map id_text vs) \<and> distinct vs
     \<and> set ns = selected_networks s \<union> (\<Union>b \<in> container_bodies es. body_networks parse b)
     \<and> set vs = selected_volumes s \<union> (\<Union>b \<in> container_bodies es. body_volumes parse b))"

lemma expanded_fold_spec:
  assumes "limits_sized l"
  shows "act_spec (expanded l s parse api pre [] [] st) (act_fold (visit_container env endpoint parse api s) st cs)
    (\<lambda>st' w. \<exists>es. expanded l s parse api pre cs es st' w)"
proof -
  have "act_spec (\<lambda>w. \<exists>es. expanded l s parse api pre [] es st w)
      (act_fold (visit_container env endpoint parse api s) st cs)
      (\<lambda>st' w. \<exists>es. expanded l s parse api pre ([] @ map (\<lambda>i. i) cs) es st' w)"
  proof (rule visits_spec)
    fix qs st x
    show "act_spec (\<lambda>w. \<exists>es. expanded l s parse api pre qs es st w) (visit_container env endpoint parse api s st x)
        (\<lambda>st' w. \<exists>es. expanded l s parse api pre (qs @ [x]) es st' w)"
      by (rule act_spec_ex) (rule visit_container_spec [OF assms])
  qed (auto simp: expanded_def dest: stage_only_reads)
  then show ?thesis by (rule act_spec_conseq) auto
qed

lemma settled_expanded: "settled l pre w \<Longrightarrow> expanded l s parse api pre [] [] (initial_run s) w"
  by (auto simp: expanded_def stage_def roots_match_def initial_run_def selected_networks_def
      selected_volumes_def container_bodies_def keep_new_set keep_new_distinct comp_def image_image split: selector.split)

lemma sort_keys:
  assumes "distinct (map fst m)"
  shows "sorted (map id_text (map fst (sort_key (\<lambda>nb. id_text (fst nb)) m)))
    \<and> distinct (map fst (sort_key (\<lambda>nb. id_text (fst nb)) m))"
proof -
  have "distinct (map fst (sort_key (\<lambda>nb. id_text (fst nb)) m))"
    using assms by (simp add: distinct_map)
  moreover have "sorted (map id_text (map fst (sort_key (\<lambda>nb. id_text (fst nb)) m)))"
    using sorted_sort_key [of "\<lambda>nb. id_text (fst nb)" m] by (simp add: comp_def)
  ultimately show ?thesis by blast
qed

lemma visit_all_spec:
  assumes "limits_sized l"
  shows "act_spec (settled l pre) (visit_all env endpoint parse api s cs) (inspected_all l s parse api pre cs)"
  unfolding visit_all_def Let_def
proof (rule act_spec_bind [OF record_selection_spec [OF assms]])
  let ?nets = "\<lambda>st. sort_key (\<lambda>nb. id_text (fst nb)) (rn_networks st)"
  let ?vols = "\<lambda>st. sort_key id_text (rn_volumes st)"
  let ?rest = "\<lambda>st1. act_bind (act_fold (visit_network env endpoint parse api s) st1 (?nets st1)) (\<lambda>st2.
      act_fold (visit_volume env endpoint parse api s) st2 (?vols st1))"
  have start: "act_spec (settled l pre) (act_fold (visit_container env endpoint parse api s) (initial_run s) cs)
      (\<lambda>st' w. \<exists>es. expanded l s parse api pre cs es st' w)"
    by (rule act_spec_conseq [OF expanded_fold_spec [OF assms]]) (auto intro: settled_expanded)
  have rest: "act_spec (expanded l s parse api pre cs es st1) (?rest st1) (inspected_all l s parse api pre cs)" for es st1
  proof -
    let ?B = "container_bodies es" and ?qs = "map InspectContainer cs"
    let ?ns = "map fst (?nets st1)" and ?vs = "?vols st1"
    have loops: "act_spec (later l s api pre ?B ?qs st1) (?rest st1)
        (later l s api pre ?B ((?qs @ map (\<lambda>nb. InspectNetwork (fst nb)) (?nets st1)) @ map InspectVolume ?vs))"
      by (rule act_spec_bind [OF visits_spec visits_spec])
        (auto intro: visit_network_spec [OF assms] visit_volume_spec [OF assms] later_only_reads)
    have "act_spec (\<lambda>w. (distinct (map fst (rn_networks st1)) \<and> distinct (rn_volumes st1)
          \<and> set (map fst (rn_networks st1)) = selected_networks s \<union> (\<Union>b \<in> ?B. body_networks parse b)
          \<and> set (rn_volumes st1) = selected_volumes s \<union> (\<Union>b \<in> ?B. body_volumes parse b))
        \<and> later l s api pre ?B ?qs st1 w) (?rest st1) (inspected_all l s parse api pre cs)"
    proof (rule act_spec_fact, rule act_spec_conseq [OF loops])
      fix st w
      assume facts: "distinct (map fst (rn_networks st1)) \<and> distinct (rn_volumes st1)
          \<and> set (map fst (rn_networks st1)) = selected_networks s \<union> (\<Union>b \<in> ?B. body_networks parse b)
          \<and> set (rn_volumes st1) = selected_volumes s \<union> (\<Union>b \<in> ?B. body_volumes parse b)"
        and "later l s api pre ?B ((?qs @ map (\<lambda>nb. InspectNetwork (fst nb)) (?nets st1)) @ map InspectVolume ?vs) st w"
      then obtain es' where es': "container_bodies es' = ?B"
        "stage l s api pre (?qs @ map InspectNetwork ?ns @ map InspectVolume ?vs) es' st w"
        by (auto simp: later_def comp_def)
      have ns: "set ?ns = selected_networks s \<union> (\<Union>b \<in> container_bodies es'. body_networks parse b)"
        and vs: "set ?vs = selected_volumes s \<union> (\<Union>b \<in> container_bodies es'. body_volumes parse b)"
        using facts es'(1) by simp_all
      have sv: "sorted (map id_text ?vs)" "distinct ?vs" using facts by simp_all
      have sn: "sorted (map id_text ?ns)" "distinct ?ns" using sort_keys facts by blast+
      show "inspected_all l s parse api pre cs st w"
        unfolding inspected_all_def
        by (rule exI [of _ es'], rule exI [of _ ?ns], rule exI [of _ ?vs]) (intro conjI es' ns vs sv sn)
    qed simp
    then show ?thesis by (rule act_spec_conseq) (auto simp: expanded_def later_def)
  qed
  show "act_spec (settled l pre) (act_bind (act_fold (visit_container env endpoint parse api s) (initial_run s) cs) ?rest)
      (inspected_all l s parse api pre cs)"
    by (rule act_spec_bind [OF start], rule act_spec_ex, rule rest)
qed

text \<open>All of a run: the version, the information, the listing where the selector needs one, and the
  inspections.\<close>

definition run_spec ::
  "limits \<Rightarrow> selector \<Rightarrow> json_parser \<Rightarrow> run \<Rightarrow> world \<Rightarrow> bool" where
  "run_spec l s parse st w \<longleftrightarrow> (\<exists>v api i ls ids.
     negotiated_api parse v = Inr api \<and> listed parse api s ls ids
     \<and> inspected_all l s parse api
        ([made DaemonVersion None None v, made DaemonInfo None (Some api) i] @ ls) (keep_new [] ids) st w)"

lemma inspected_all_only_reads: "inspected_all l s parse api pre cs st w \<Longrightarrow> only_reads w"
  by (auto simp: inspected_all_def dest: stage_only_reads)

text \<open>Reading the outcome of the client off its last state.\<close>

lemma act_spec_finish:
  assumes "act_spec P m Q" and "\<And>y w. Q y w \<Longrightarrow> only_reads w"
  shows "act_spec P (act_bind m (\<lambda>y w. pure_act (g y w) w)) (\<lambda>c w. \<exists>y. Q y w \<and> g y w = Inr c)"
  by (rule act_spec_bind [OF assms(1)])
    (auto simp: act_spec_def pure_act_def dest: assms(2) split: sum.split)

lemma acquire_from_spec:
  assumes "limits_sized l"
  shows "act_spec (settled l []) (acquire_from env endpoint parse s)
    (\<lambda>c w. \<exists>st. run_spec l s parse st w \<and> finish env s st w = Inr c)"
  unfolding acquire_from_def
proof (rule act_spec_bind [OF exchange_spec [OF assms]])
  fix v
  let ?Q = "\<lambda>c w. \<exists>st. run_spec l s parse st w \<and> finish env s st w = Inr c"
  let ?v = "made DaemonVersion None None v"
  show "act_spec (settled l ([] @ [?v])) (act_bind (pure_act (negotiated_api parse v)) (\<lambda>api.
      act_bind (exchange env endpoint DaemonInfo None (Some api)) (\<lambda>_.
      act_bind (selected_containers env endpoint parse api s) (\<lambda>ids.
      act_bind (visit_all env endpoint parse api s (keep_new [] ids)) (\<lambda>st w.
        pure_act (finish env s st w) w))))) ?Q"
  proof (rule bind_only_pure)
    fix api
    assume api: "negotiated_api parse v = Inr api"
    show "act_spec (settled l ([] @ [?v])) (act_bind (exchange env endpoint DaemonInfo None (Some api)) (\<lambda>_.
        act_bind (selected_containers env endpoint parse api s) (\<lambda>ids.
        act_bind (visit_all env endpoint parse api s (keep_new [] ids)) (\<lambda>st w.
          pure_act (finish env s st w) w)))) ?Q"
    proof (rule act_spec_bind [OF exchange_spec [OF assms]],
        rule act_spec_bind [OF selected_containers_spec [OF assms]], rule act_spec_ex)
      fix i ids ls
      let ?pre = "([] @ [?v]) @ [made DaemonInfo None (Some api) i]"
      have "act_spec (settled l (?pre @ ls)) (act_bind (visit_all env endpoint parse api s (keep_new [] ids))
          (\<lambda>st w. pure_act (finish env s st w) w))
          (\<lambda>c w. \<exists>st. inspected_all l s parse api (?pre @ ls) (keep_new [] ids) st w \<and> finish env s st w = Inr c)"
        by (rule act_spec_finish [OF visit_all_spec [OF assms]]) (rule inspected_all_only_reads)
      then have "act_spec (settled l (?pre @ ls)) (act_bind (visit_all env endpoint parse api s (keep_new [] ids))
          (\<lambda>st w. pure_act (finish env s st w) w)) ?Q" if "listed parse api s ls ids"
        by (rule act_spec_conseq) (use that api in \<open>fastforce simp: run_spec_def\<close>)+
      then show "act_spec (\<lambda>w. settled l (?pre @ ls) w \<and> listed parse api s ls ids)
          (act_bind (visit_all env endpoint parse api s (keep_new [] ids))
            (\<lambda>st w. pure_act (finish env s st w) w)) ?Q"
        unfolding conj_commute [of "settled l _ _"] by (rule act_spec_fact)
    qed
  qed (rule settled_only_reads)
qed

lemma finish_Inr:
  assumes "finish env s st w = Inr c"
  shows "cap_exchanges c = b_exchanges (wd_budget w) \<and> cap_bounds c = counts (wd_budget w)
    \<and> cap_roots c = rn_roots st \<and> cap_selector c = Some s \<and> cap_route c = ExplicitUnixSocket
    \<and> cap_discovery_only c = (s = Discovery)
    \<and> (\<exists>c'. into_capture (env_captured env) (wd_budget w) = Inr c')
    \<and> \<not> env_cancelled env \<and> env_finished env < max_elapsed (b_limits (wd_budget w))"
proof -
  obtain left c' where c': "remaining (env_finished env) (max_elapsed (b_limits (wd_budget w))) (env_cancelled env) = Inr left"
    "into_capture (env_captured env) (wd_budget w) = Inr c'"
    using assms by (auto simp: finish_def bind_res_Inr_iff budget_error_def split: sum.splits)
  have "c = (let c'' = with_explicit_socket (with_network_name_fallbacks (rn_fallbacks st)
      (with_selector s (with_selected_roots (rn_roots st) c'))) in
      case s of Discovery \<Rightarrow> with_discovery_only c'' | _ \<Rightarrow> c'')"
    using assms c' by (simp add: finish_def budget_error_def Let_def)
  moreover have "cap_discovery_only c' = False"
    using c'(2) by (auto simp: into_capture_def from_completed_Inr split: if_splits sum.splits)
  ultimately show ?thesis
    using into_capture_Inr [OF c'(2)] c'
    by (auto simp: Let_def with_explicit_socket_def with_network_name_fallbacks_def with_selector_def
        with_selected_roots_def with_discovery_only_def remaining_def checked_sub_def
        split: selector.splits if_splits)
qed

lemma budget_new_settled:
  assumes "fst (budget_new l n) = Inr b"
  shows "settled l [] \<lparr>wd_budget = b, wd_sent = []\<rparr>"
proof -
  have new: "budget_new l n = (Inr b, snd (budget_new l n))" using assms by (metis prod.collapse)
  then have "reachable l b" by (rule reachable.start)
  moreover have "b_pending b = None \<and> b_exchanges b = []"
    using assms by (auto simp: budget_new_def split: sum.splits prod.splits)
  ultimately show ?thesis by (simp add: settled_def)
qed

text \<open>Every call of \<open>acquire\<close> ends, has only read, and what it returns meets the specification.\<close>

lemma acquire_cases:
  assumes "limits_sized l"
  shows "\<exists>x sent. acquire env endpoint parse s l n = Some (x, sent) \<and> (\<forall>m \<in> set sent. is_read m)
    \<and> (\<forall>c. x = Inr c \<longrightarrow> (\<exists>st w. run_spec l s parse st w \<and> finish env s st w = Inr c \<and> sent = wd_sent w))"
proof (cases "validate_selector s l")
  case (Inr u)
  show ?thesis
  proof (cases "fst (budget_new l n)")
    case b: (Inr b)
    from acquire_from_spec [OF assms] budget_new_settled [OF b]
    obtain x w where "acquire_from env endpoint parse s \<lparr>wd_budget = b, wd_sent = []\<rparr> = Some (x, w)"
      "case x of Inl _ \<Rightarrow> only_reads w | Inr c \<Rightarrow> \<exists>st. run_spec l s parse st w \<and> finish env s st w = Inr c"
      unfolding act_spec_def by blast
    moreover have "only_reads w" if "run_spec l s parse st w" for st
      using that by (auto simp: run_spec_def dest: inspected_all_only_reads)
    ultimately show ?thesis
      using Inr b by (auto simp: acquire_def only_reads_def split: sum.splits)
  qed (simp add: acquire_def Inr)
qed (simp add: acquire_def)

text \<open>The exchanges of a capture, by the stages of the run.\<close>

lemma acquire_stages:
  assumes "limits_sized l" and "acquire env endpoint parse s l n = Some (Inr c, sent)"
  shows "\<exists>v api i ls ids es ns vs. negotiated_api parse v = Inr api \<and> listed parse api s ls ids
    \<and> cap_exchanges c = [made DaemonVersion None None v, made DaemonInfo None (Some api) i] @ ls @ es
    \<and> map ident es = numbered api 1 (map InspectContainer (keep_new [] ids)
        @ map InspectNetwork ns @ map InspectVolume vs)
    \<and> sorted (map id_text ns) \<and> distinct ns \<and> sorted (map id_text vs) \<and> distinct vs
    \<and> set ns = selected_networks s \<union> (\<Union>b \<in> container_bodies es. body_networks parse b)
    \<and> set vs = selected_volumes s \<union> (\<Union>b \<in> container_bodies es. body_volumes parse b)
    \<and> roots_match s (cap_roots c) es \<and> cap_selector c = Some s \<and> cap_discovery_only c = (s = Discovery)
    \<and> (\<forall>e \<in> set (cap_exchanges c). status_code (ex_status e) = 200)"
proof -
  from acquire_cases [OF assms(1), of env endpoint parse s n] assms(2)
  obtain st w where w: "run_spec l s parse st w" "finish env s st w = Inr c" by auto
  note f = finish_Inr [OF w(2)]
  obtain v api i ls ids es ns vs where run: "negotiated_api parse v = Inr api" "listed parse api s ls ids"
    "stage l s api ([made DaemonVersion None None v, made DaemonInfo None (Some api) i] @ ls)
      (map InspectContainer (keep_new [] ids) @ map InspectNetwork ns @ map InspectVolume vs) es st w"
    and sets: "sorted (map id_text ns)" "distinct ns" "sorted (map id_text vs)" "distinct vs"
      "set ns = selected_networks s \<union> (\<Union>b \<in> container_bodies es. body_networks parse b)"
      "set vs = selected_volumes s \<union> (\<Union>b \<in> container_bodies es. body_volumes parse b)"
    using w(1) unfolding run_spec_def inspected_all_def by (elim exE conjE) (rule that)
  have es: "cap_exchanges c = [made DaemonVersion None None v, made DaemonInfo None (Some api) i] @ ls @ es"
    "map ident es = numbered api 1 (map InspectContainer (keep_new [] ids) @ map InspectNetwork ns @ map InspectVolume vs)"
    "roots_match s (cap_roots c) es" "\<forall>e \<in> set (cap_exchanges c). status_code (ex_status e) = 200"
    using run(3) f by (auto simp: stage_def settled_def list_all_iff)
  show ?thesis
    by (rule exI [of _ v], rule exI [of _ api], rule exI [of _ i], rule exI [of _ ls], rule exI [of _ ids],
        rule exI [of _ es], rule exI [of _ ns], rule exI [of _ vs]) (use f in \<open>intro conjI run(1,2) es sets; simp\<close>)
qed

section \<open>Properties\<close>

text \<open>C30: whatever the daemon sends and whenever the clock and the cancellation strike, \<open>acquire\<close>
  does not panic, and everything it has written by then, whether it succeeds or fails, is a list of GET
  requests of the closed list of reads: it never asks the daemon to change anything.\<close>

theorem acquire_only_reads:
  assumes "limits_sized l"
  shows "\<exists>x sent. acquire env endpoint parse s l n = Some (x, sent)
    \<and> (\<forall>m \<in> set sent. \<exists>q api p. request_path q api = Inr p \<and> m = http_request p)"
  using acquire_cases [OF assms, of env endpoint parse s n] unfolding is_read_def by blast

text \<open>C31: a capture of \<open>acquire\<close> is accounted for: the requests written to the daemon are those of its
  exchanges, one by one and in order, each was answered with status 200, all counters and bodies
  are within the limits, and it carries its selector and route.\<close>

theorem acquire_accounts_for_requests:
  assumes "limits_sized l" and "acquire env endpoint parse s l n = Some (Inr c, sent)"
  shows "map Some sent = map sent_for (cap_exchanges c)
    \<and> (\<forall>e \<in> set (cap_exchanges c). status_code (ex_status e) = 200
        \<and> length (ex_body e) \<le> max_response_bytes l)
    \<and> length sent = cb_requests (cap_bounds c) \<and> length sent \<le> max_requests l
    \<and> sum_list (map (\<lambda>e. length (ex_body e)) (cap_exchanges c)) \<le> max_total_bytes l
    \<and> cap_selector c = Some s \<and> cap_route c = ExplicitUnixSocket
    \<and> cap_discovery_only c = (s = Discovery)"
proof -
  from acquire_cases [OF assms(1), of env endpoint parse s n] assms(2)
  obtain st w where w: "run_spec l s parse st w" "finish env s st w = Inr c" "sent = wd_sent w" by auto
  note f = finish_Inr [OF w(2)]
  obtain es where es: "settled l es w"
    using w(1) by (auto simp: run_spec_def inspected_all_def stage_def)
  then have sent: "map Some sent = map sent_for (cap_exchanges c)" using f w(3) by (simp add: settled_def)
  then have len: "length sent = length (cap_exchanges c)" by (metis length_map)
  obtain c' where "into_capture (env_captured env) (wd_budget w) = Inr c'" using f by blast
  then have alive: "\<not> b_failed (wd_budget w)" using into_capture_Inr by blast
  have "budget_ok (wd_budget w)" "b_limits (wd_budget w) = l"
    using reachable_ok [OF _ assms(1)] es by (simp_all add: settled_def)
  with alive have lim: "within_limits (wd_budget w)" "accounted (wd_budget w)" "b_limits (wd_budget w) = l"
    by (simp_all add: budget_ok_def)
  have ex: "b_exchanges (wd_budget w) = es" "b_pending (wd_budget w) = None" "cap_exchanges c = es"
    "list_all (\<lambda>e. status_code (ex_status e) = 200) es" using es f by (simp_all add: settled_def)
  have "total_bytes es = Some (b_bytes (wd_budget w))" using lim(2) ex by (simp add: accounted_def)
  then have total: "sum_list (map (\<lambda>e. length (ex_body e)) es) = b_bytes (wd_budget w)"
    by (simp add: total_bytes_sum Let_def split: if_splits)
  have each: "\<forall>e \<in> set es. status_code (ex_status e) = 200 \<and> length (ex_body e) \<le> max_response_bytes l"
    using ex lim by (simp add: accounted_def list_all_iff)
  have n: "length sent = cb_requests (cap_bounds c)" "length sent \<le> max_requests l"
    using lim ex len f by (simp_all add: accounted_def within_limits_def counts_def)
  have bytes: "sum_list (map (\<lambda>e. length (ex_body e)) es) \<le> max_total_bytes l"
    using lim total by (simp add: within_limits_def)
  have marks: "cap_selector c = Some s" "cap_route c = ExplicitUnixSocket"
    "cap_discovery_only c = (s = Discovery)" using f by blast+
  show ?thesis unfolding ex(3) by (intro conjI sent [unfolded ex(3)] each n bytes marks)
qed

text \<open>C32: \<open>acquire\<close> asks for what the selection calls for and nothing else. Its exchanges are the
  version, the information, the container listing when the selector needs it, and one inspection
  per object under consecutive references: the selected containers in order, then, sorted and
  without repetition, exactly the networks and volumes that the selector names or that an
  inspected container is related to; and its roots are exactly the inspections the selector chose.\<close>

theorem acquire_inspects_exactly:
  assumes "limits_sized l" and "acquire env endpoint parse s l n = Some (Inr c, sent)"
  shows "\<exists>v api i ls ids es ns vs. negotiated_api parse v = Inr api \<and> listed parse api s ls ids
    \<and> cap_exchanges c = [made DaemonVersion None None v, made DaemonInfo None (Some api) i] @ ls @ es
    \<and> map ident es = numbered api 1 (map InspectContainer (keep_new [] ids)
        @ map InspectNetwork ns @ map InspectVolume vs)
    \<and> sorted (map id_text ns) \<and> distinct ns \<and> sorted (map id_text vs) \<and> distinct vs
    \<and> set ns = selected_networks s \<union> (\<Union>b \<in> container_bodies es. body_networks parse b)
    \<and> set vs = selected_volumes s \<union> (\<Union>b \<in> container_bodies es. body_volumes parse b)
    \<and> roots_match s (cap_roots c) es"
  using acquire_stages [OF assms] by (elim exE conjE) (intro exI conjI, assumption+)

section \<open>A sample acquisition\<close>

text \<open>One volume is asked for by its name: the version, the information and one inspection.\<close>

definition sample_parse :: json_parser where
  "sample_parse body =
     (if body = ''V'' then Some (VObject [(''ApiVersion'', VString ''1.44'')])
      else if body = ''I'' then Some (VObject [])
      else if body = ''D'' then Some (VObject [(''Name'', VString ''v'')])
      else None)"

definition sample_reply :: "bytes \<Rightarrow> reply" where
  "sample_reply body =
     \<lparr>rp_asked = 1, rp_wire = Inr \<lparr>w_bytes = plain_message 200 body @ [], w_end = None\<rparr>,
      rp_received = 1, rp_stored = 1\<rparr>"

definition sample_env :: environment where
  "sample_env =
     \<lparr>env_reply = (\<lambda>k _. sample_reply (if k = 0 then ''V'' else if k = 1 then ''I'' else ''D'')),
      env_selected = 1, env_finished = 2, env_cancelled = False, env_captured = 2\<rparr>"

definition run_limits :: limits where
  "run_limits = \<lparr>max_requests = 3, max_selected_resources = 1, max_expansions = 1,
     max_response_bytes = 4, max_total_bytes = 8, max_elapsed = 100\<rparr>"

definition sample_volume :: native_id where
  "sample_volume = NativeId ''v''"

definition sample_api :: api_version where
  "sample_api = ApiVersion 1 44"

text \<open>The budget after some exchanges; with the inspection of the volume when they are three.\<close>

definition run_budget :: "nat \<Rightarrow> captured_exchange list \<Rightarrow> budget" where
  "run_budget selected es =
     \<lparr>b_observation = ObservationId 1, b_limits = run_limits, b_requests = length es,
      b_selected = selected, b_expansions = (if length es = 3 then 1 else 0), b_bytes = length es,
      b_pending = None, b_exchanges = es,
      b_ids = (if length es = 3 then [ResourceRef 1 \<mapsto> (ClassVolume, sample_volume)] else Map.empty),
      b_refs = (if length es = 3 then [(ClassVolume, sample_volume) \<mapsto> ResourceRef 1] else Map.empty),
      b_failed = False\<rparr>"

lemma sample_exchange_step:
  assumes "request_path q api = Inr path"
    and "record_request 1 q r api b = Some (Inr (), u)" and "allowance u = Some k"
    and "length body \<le> k" and "length body \<le> 8"
    and "read_response 1 1 (HttpStatus 200) \<lparr>rd_bytes = body, rd_fails = False\<rparr> u = Some (Inr body, v)"
    and "env_reply env (b_requests b) path = sample_reply body"
  shows "exchange env ''/s'' q r api \<lparr>wd_budget = b, wd_sent = sent\<rparr>
    = Some (Inr body, \<lparr>wd_budget = v, wd_sent = sent @ [http_request path]\<rparr>)"
proof -
  have "http_response (min k max_json_bytes) \<lparr>w_bytes = plain_message 200 body @ [], w_end = None\<rparr>
      = Inr (HttpStatus 200, body)"
    using http_reads_plain [of 200 body "min k max_json_bytes" "[]" None] assms(4,5)
    by (simp add: usize_max_def max_json_bytes_def)
  with assms show ?thesis
    by (simp add: exchange_def act_bind_def act_budget_def pure_act_def Let_def budget_error_def
        http_get_def starts_with_def sample_reply_def)
qed

lemmas budget_run_defs = record_request_def record_selection_def read_response_def and_then_def
  check_time_def ok_def register_def count_request_def checked_add_def usize_max_def allowance_def
  checked_sub_def read_up_to_def saturating_add_def store_exchange_def Let_def

definition sample_exchanges :: "captured_exchange list" where
  "sample_exchanges = [made DaemonVersion None None ''V'', made DaemonInfo None (Some sample_api) ''I'',
     made (InspectVolume sample_volume) (Some (ResourceRef 1)) (Some sample_api) ''D'']"

lemma sample_paths:
  "request_path DaemonVersion None = Inr ''/version''"
  "request_path DaemonInfo (Some sample_api) = Inr (version_path sample_api @ ''/info'')"
  "request_path (InspectVolume sample_volume) (Some sample_api) = Inr (version_path sample_api @ ''/volumes/v'')"
proof -
  have "encode_segment sample_volume = Inr ''v''"
    by (simp add: encode_segment_def sample_volume_def char_class_defs)
  then show "request_path (InspectVolume sample_volume) (Some sample_api) = Inr (version_path sample_api @ ''/volumes/v'')"
    by (simp add: request_path_def version_path_def)
qed (simp_all add: request_path_def version_path_def)

lemma sample_step_version:
  "exchange sample_env ''/s'' DaemonVersion None None \<lparr>wd_budget = run_budget 0 [], wd_sent = sent\<rparr>
   = Some (Inr ''V'', \<lparr>wd_budget = run_budget 0 (take 1 sample_exchanges), wd_sent = sent @ [http_request ''/version'']\<rparr>)"
  by (rule sample_exchange_step [where k = 4 and
      u = "(run_budget 0 [])\<lparr>b_requests := 1, b_pending := Some
        \<lparr>pr_request = DaemonVersion, pr_resource = None, pr_api = None\<rparr>\<rparr>", OF sample_paths(1)])
    (simp_all add: budget_run_defs run_budget_def run_limits_def sample_exchanges_def made_def sample_env_def)

lemma sample_step_info:
  "exchange sample_env ''/s'' DaemonInfo None (Some sample_api)
      \<lparr>wd_budget = run_budget 0 (take 1 sample_exchanges), wd_sent = sent\<rparr>
   = Some (Inr ''I'', \<lparr>wd_budget = run_budget 0 (take 2 sample_exchanges),
        wd_sent = sent @ [http_request (version_path sample_api @ ''/info'')]\<rparr>)"
  by (rule sample_exchange_step [where k = 4 and
      u = "(run_budget 0 (take 1 sample_exchanges))\<lparr>b_requests := 2, b_pending := Some
        \<lparr>pr_request = DaemonInfo, pr_resource = None, pr_api = Some sample_api\<rparr>\<rparr>", OF sample_paths(2)])
    (simp_all add: budget_run_defs run_budget_def run_limits_def sample_exchanges_def made_def sample_env_def)

lemma sample_step_volume:
  "exchange sample_env ''/s'' (InspectVolume sample_volume) (Some (ResourceRef 1)) (Some sample_api)
      \<lparr>wd_budget = run_budget 1 (take 2 sample_exchanges), wd_sent = sent\<rparr>
   = Some (Inr ''D'', \<lparr>wd_budget = run_budget 1 sample_exchanges,
        wd_sent = sent @ [http_request (version_path sample_api @ ''/volumes/v'')]\<rparr>)"
  by (rule sample_exchange_step [where k = 4 and
      u = "(run_budget 1 (take 2 sample_exchanges))\<lparr>b_requests := 3, b_expansions := 1, b_pending := Some
        \<lparr>pr_request = InspectVolume sample_volume, pr_resource = Some (ResourceRef 1), pr_api = Some sample_api\<rparr>,
        b_ids := [ResourceRef 1 \<mapsto> (ClassVolume, sample_volume)],
        b_refs := [(ClassVolume, sample_volume) \<mapsto> ResourceRef 1]\<rparr>", OF sample_paths(3)])
    (simp_all add: budget_run_defs run_budget_def run_limits_def sample_exchanges_def made_def sample_env_def)

lemma sample_negotiated: "negotiated_api sample_parse ''V'' = Inr sample_api"
proof -
  have "parse_api ''1.44'' = Some sample_api"
    by (simp add: parse_api_def all_digits_def is_digit_def parse_uint_def dec_value_def digit_val_def sample_api_def)
  moreover have "min sample_api (ApiVersion 1 max_known_minor) = sample_api"
    by (simp add: sample_api_def max_known_minor_def min_def less_eq_api_version_def)
  ultimately show ?thesis
    by (simp add: negotiated_api_def sample_parse_def get_str_def json_get_def sample_api_def)
qed

definition sample_sent :: "bytes list" where
  "sample_sent = map http_request
     [''/version'', version_path sample_api @ ''/info'', version_path sample_api @ ''/volumes/v'']"

definition sample_run :: run where
  "sample_run = \<lparr>rn_next = 2,
     rn_roots = [\<lparr>root_resource = ResourceRef 1, root_kind = RootVolume, root_reason = ExactVolumeName\<rparr>],
     rn_networks = [], rn_volumes = [sample_volume], rn_fallbacks = [], rn_seen = []\<rparr>"

lemma sample_selection:
  "record_selection 1 1 (run_budget 0 (take 2 sample_exchanges))
     = Some (Inr (), run_budget 1 (take 2 sample_exchanges))"
  by (simp add: budget_run_defs run_budget_def run_limits_def sample_exchanges_def)

lemma sample_visit:
  "visit_all sample_env ''/s'' sample_parse sample_api (VolumeNames [sample_volume]) []
      \<lparr>wd_budget = run_budget 0 (take 2 sample_exchanges), wd_sent = sent\<rparr>
   = Some (Inr sample_run, \<lparr>wd_budget = run_budget 1 sample_exchanges,
        wd_sent = sent @ [http_request (version_path sample_api @ ''/volumes/v'')]\<rparr>)"
proof -
  have "inspect_identity sample_parse ''D'' ''Name'' sample_volume = Inr ()"
    by (simp add: inspect_identity_def sample_parse_def get_str_def json_get_def sample_volume_def)
  moreover have "env_selected sample_env = 1" by (simp add: sample_env_def)
  ultimately show ?thesis
    by (simp add: visit_all_def act_bind_def act_budget_def sample_selection [simplified] budget_error_def initial_run_def
        pure_act_def visit_volume_def Let_def take_reference_def checked_add_one_def sample_step_volume [simplified]
        sample_run_def)
qed

lemma sample_finish:
  "\<exists>c. finish sample_env (VolumeNames [sample_volume]) sample_run
      \<lparr>wd_budget = run_budget 1 sample_exchanges, wd_sent = sent\<rparr> = Inr c \<and> cap_exchanges c = sample_exchanges"
  by (simp add: finish_def remaining_def checked_sub_def into_capture_def from_completed_def counts_def
      run_budget_def run_limits_def sample_env_def budget_error_def total_bytes_sum sample_exchanges_def
      made_def usize_max_def with_explicit_socket_def with_network_name_fallbacks_def with_selector_def
      with_selected_roots_def Let_def)

lemma sample_acquired:
  "\<exists>c. acquire sample_env ''/s'' sample_parse (VolumeNames [sample_volume]) run_limits 1 = Some (Inr c, sample_sent)
    \<and> cap_exchanges c = sample_exchanges"
proof -
  obtain c where c: "finish sample_env (VolumeNames [sample_volume]) sample_run
      \<lparr>wd_budget = run_budget 1 sample_exchanges, wd_sent = sample_sent\<rparr> = Inr c"
    "cap_exchanges c = sample_exchanges" using sample_finish by blast
  have "validate_selector (VolumeNames [sample_volume]) run_limits = Inr ()"
    by (simp add: validate_selector_def validate_names_def sample_volume_def valid_volume_name_def
        starts_with_def valid_literal_name_def strip_slash_def char_class_defs over_limit_def run_limits_def
        max_items_def)
  moreover have "fst (budget_new run_limits 1) = Inr (run_budget 0 [])"
    by (simp add: budget_new_def limits_validate_def run_limits_def usize_max_def fresh_def
        checked_add_one_def run_budget_def)
  moreover have "acquire_from sample_env ''/s'' sample_parse (VolumeNames [sample_volume])
      \<lparr>wd_budget = run_budget 0 [], wd_sent = []\<rparr>
    = Some (Inr c, \<lparr>wd_budget = run_budget 1 sample_exchanges, wd_sent = sample_sent\<rparr>)"
    using c(1)
    by (simp add: acquire_from_def act_bind_def pure_act_def sample_step_version sample_negotiated
        sample_step_info [unfolded One_nat_def] selected_containers_def sample_visit sample_sent_def)
  ultimately show ?thesis using c(2) by (simp add: acquire_def)
qed

lemma run_limits_sized: "limits_sized run_limits"
  by (simp add: limits_sized_def run_limits_def usize_max_def)

theorem acquire_only_reads_witness:
  "list_all (\<lambda>m. \<exists>q api p. request_path q api = Inr p \<and> m = http_request p) sample_sent"
proof -
  obtain c where "acquire sample_env ''/s'' sample_parse (VolumeNames [sample_volume]) run_limits 1
      = Some (Inr c, sample_sent)" using sample_acquired by blast
  with acquire_only_reads [OF run_limits_sized, of sample_env "''/s''" sample_parse "VolumeNames [sample_volume]" 1]
  show ?thesis by (simp add: list_all_iff)
qed

theorem acquire_accounts_for_requests_witness:
  "map Some sample_sent = map sent_for sample_exchanges"
proof -
  obtain c where c: "acquire sample_env ''/s'' sample_parse (VolumeNames [sample_volume]) run_limits 1
      = Some (Inr c, sample_sent)" "cap_exchanges c = sample_exchanges" using sample_acquired by blast
  from acquire_accounts_for_requests [OF run_limits_sized c(1)] c(2) show ?thesis by simp
qed

theorem acquire_inspects_exactly_witness:
  "\<exists>ls es. sample_exchanges = take 2 sample_exchanges @ ls @ es \<and> length (ls @ es) = 1"
proof -
  obtain c where c: "acquire sample_env ''/s'' sample_parse (VolumeNames [sample_volume]) run_limits 1
      = Some (Inr c, sample_sent)" "cap_exchanges c = sample_exchanges" using sample_acquired by blast
  from acquire_inspects_exactly [OF run_limits_sized c(1)] c(2)
  obtain v api i ls es where x: "sample_exchanges = [made DaemonVersion None None v, made DaemonInfo None (Some api) i] @ ls @ es"
    by auto
  have t: "take 2 sample_exchanges = [made DaemonVersion None None v, made DaemonInfo None (Some api) i]"
    by (subst x) (simp add: numeral_2_eq_2)
  have "length sample_exchanges = 3" by (simp add: sample_exchanges_def)
  then have "length (ls @ es) = 1" using arg_cong [OF x, of length] by simp
  moreover have "sample_exchanges = take 2 sample_exchanges @ ls @ es" unfolding t by (rule x)
  ultimately show ?thesis by blast
qed

end
