(* ===== verification/Mount_Modes.thy ===== *)
theory Mount_Modes
  imports Inventory Rust_Text
begin

text \<open>
  \<^verbatim>\<open>src/decoder_mount_mode.rs\<close>: the bounded interpretation of a native mount mode, and its
  conflict with the independently observed access. The loop over the comma-separated tokens is
  a fold over the mutable flags of the code.
\<close>

definition max_mode_bytes :: nat where
  "max_mode_bytes = 256"

definition max_mode_tokens :: nat where
  "max_mode_tokens = 16"

record mode_flags =
  mf_access :: "mount_access option"
  mf_relabel :: "bind_relabel option"
  mf_propagation :: bool
  mf_consistency :: bool
  mf_copy :: bool
  mf_unsupported :: bool

definition no_flags :: mode_flags where
  "no_flags = \<lparr>mf_access = None, mf_relabel = None, mf_propagation = False, mf_consistency = False,
     mf_copy = False, mf_unsupported = False\<rparr>"

definition propagation_tokens :: "bytes list" where
  "propagation_tokens = [''private'', ''rprivate'', ''shared'', ''rshared'', ''slave'', ''rslave'']"

definition consistency_tokens :: "bytes list" where
  "consistency_tokens = [''consistent'', ''cached'', ''delegated'']"

text \<open>The match on one token.\<close>

definition mode_token :: "field_path \<Rightarrow> mode_flags \<Rightarrow> bytes \<Rightarrow> decode_error + mode_flags" where
  "mode_token field st token =
     (if token = ''ro'' \<or> token = ''rw'' then
        if mf_access st \<noteq> None then Inl (InvalidValue field)
        else Inr (st\<lparr>mf_access := Some (if token = ''ro'' then ReadOnlyAccess else ReadWriteAccess)\<rparr>)
      else if token = ''z'' \<or> token = ''Z'' then
        if mf_relabel st \<noteq> None then Inl (InvalidValue field)
        else Inr (st\<lparr>mf_relabel := Some (if token = ''z'' then SharedRelabel else PrivateRelabel)\<rparr>)
      else if token \<in> set propagation_tokens then
        if mf_propagation st then Inl (InvalidValue field)
        else Inr (st\<lparr>mf_propagation := True, mf_unsupported := True\<rparr>)
      else if token \<in> set consistency_tokens then
        if mf_consistency st then Inl (InvalidValue field)
        else Inr (st\<lparr>mf_consistency := True, mf_unsupported := True\<rparr>)
      else if token = ''nocopy'' then
        if mf_copy st then Inl (InvalidValue field)
        else Inr (st\<lparr>mf_copy := True, mf_unsupported := True\<rparr>)
      else Inr (st\<lparr>mf_unsupported := True\<rparr>))"

definition mode_step ::
  "field_path \<Rightarrow> mode_flags \<Rightarrow> nat \<times> bytes \<Rightarrow> decode_error + mode_flags" where
  "mode_step field st it =
     (let (index, token) = it in
      if index \<ge> max_mode_tokens \<or> token = [] then Inl (InvalidValue field)
      else mode_token field st token)"

definition mode_parse :: "bytes \<Rightarrow> field_path \<Rightarrow> decode_error + mount_mode_interpretation" where
  "mode_parse raw field =
     (if length raw > max_mode_bytes then Inl (InvalidValue field)
      else
        bind_res
          (if raw = [] then Inr no_flags
           else (let tokens = split_on CHR '','' raw in
                 try_fold (mode_step field) no_flags (zip [0..<length tokens] tokens)))
          (\<lambda>st. Inr (if mf_unsupported st then UnsupportedMode
             else SupportedMode (mf_access st) (mf_relabel st))))"

definition mode_interpret ::
  "protected_value observed \<Rightarrow> field_path \<Rightarrow> decode_error + mount_mode_interpretation observed" where
  "mode_interpret mode field =
     (case obs_value mode of
        None \<Rightarrow> Inr (unavailable (obs_availability mode) (obs_origin mode))
      | Some raw \<Rightarrow> bind_res (mode_parse raw field) (\<lambda>m.
          Inr (present m (obs_availability mode) (obs_origin mode))))"

definition access_conflicts :: "mount_mode_interpretation observed \<Rightarrow> bool observed \<Rightarrow> bool" where
  "access_conflicts mode read_write =
     (case (obs_value mode, obs_value read_write) of
        (Some (SupportedMode (Some ReadOnlyAccess) _), Some True) \<Rightarrow> True
      | (Some (SupportedMode (Some ReadWriteAccess) _), Some False) \<Rightarrow> True
      | _ \<Rightarrow> False)"

section \<open>The meaning of a mode\<close>

text \<open>Five kinds of known token, of each of which a mode has at most one.\<close>

datatype mode_class = AccessToken | RelabelToken | PropagationToken | ConsistencyToken | CopyToken

definition token_class :: "bytes \<Rightarrow> mode_class option" where
  "token_class t =
     (if t \<in> {''ro'', ''rw''} then Some AccessToken
      else if t \<in> {''z'', ''Z''} then Some RelabelToken
      else if t \<in> set propagation_tokens then Some PropagationToken
      else if t \<in> set consistency_tokens then Some ConsistencyToken
      else if t = ''nocopy'' then Some CopyToken else None)"

definition known_classes :: "bytes list \<Rightarrow> mode_class list" where
  "known_classes ts = List.map_filter token_class ts"

definition mode_tokens :: "bytes \<Rightarrow> bytes list" where
  "mode_tokens raw = (if raw = [] then [] else split_on CHR '','' raw)"

definition tokens_ok :: "bytes list \<Rightarrow> bool" where
  "tokens_ok ts \<longleftrightarrow> length ts \<le> max_mode_tokens \<and> [] \<notin> set ts \<and> distinct (known_classes ts)"

definition access_of :: "bytes list \<Rightarrow> mount_access option" where
  "access_of ts = (if ''ro'' \<in> set ts then Some ReadOnlyAccess
     else if ''rw'' \<in> set ts then Some ReadWriteAccess else None)"

definition relabel_of :: "bytes list \<Rightarrow> bind_relabel option" where
  "relabel_of ts = (if ''z'' \<in> set ts then Some SharedRelabel
     else if ''Z'' \<in> set ts then Some PrivateRelabel else None)"

definition supported_tokens :: "bytes list \<Rightarrow> bool" where
  "supported_tokens ts \<longleftrightarrow> list_all (\<lambda>t. t \<in> {''ro'', ''rw'', ''z'', ''Z''}) ts"

definition flags_of :: "bytes list \<Rightarrow> mode_flags" where
  "flags_of ts = \<lparr>mf_access = access_of ts, mf_relabel = relabel_of ts,
     mf_propagation = (PropagationToken \<in> set (known_classes ts)),
     mf_consistency = (ConsistencyToken \<in> set (known_classes ts)),
     mf_copy = (CopyToken \<in> set (known_classes ts)),
     mf_unsupported = (\<not> supported_tokens ts)\<rparr>"

lemma known_classes_simps [simp]:
  "known_classes [] = []"
  "known_classes (ts @ us) = known_classes ts @ known_classes us"
  "known_classes [t] = option_list (token_class t)"
  by (simp_all add: known_classes_def map_filter_def option_list_def split: option.split)

lemma mem_known_classes: "c \<in> set (known_classes ts) \<longleftrightarrow> (\<exists>t \<in> set ts. token_class t = Some c)"
  by (force simp: known_classes_def map_filter_def)

lemma access_class: "token_class t = Some AccessToken \<longleftrightarrow> t = ''ro'' \<or> t = ''rw''"
  by (simp add: token_class_def)

lemma relabel_class: "token_class t = Some RelabelToken \<longleftrightarrow> t = ''z'' \<or> t = ''Z''"
proof -
  have "t = ''z'' \<or> t = ''Z'' \<Longrightarrow> \<not> (t = ''ro'' \<or> t = ''rw'')" by force
  then show ?thesis by (simp add: token_class_def)
qed

lemma access_seen: "access_of ts = None \<longleftrightarrow> AccessToken \<notin> set (known_classes ts)"
  unfolding access_of_def mem_known_classes access_class by auto

lemma relabel_seen: "relabel_of ts = None \<longleftrightarrow> RelabelToken \<notin> set (known_classes ts)"
  unfolding relabel_of_def mem_known_classes relabel_class by auto

lemma token_cases:
  obtains "t = ''ro''" | "t = ''rw''" | "t = ''z''" | "t = ''Z''"
    | "t \<in> set propagation_tokens" "token_class t = Some PropagationToken"
    | "t \<in> set consistency_tokens" "token_class t = Some ConsistencyToken"
    | "t = ''nocopy''"
    | "token_class t = None" "\<not> (t = ''ro'' \<or> t = ''rw'')" "\<not> (t = ''z'' \<or> t = ''Z'')" "t \<noteq> ''nocopy''"
      "t \<notin> set propagation_tokens" "t \<notin> set consistency_tokens"
proof -
  consider "t = ''ro'' \<or> t = ''rw''" | "t = ''z'' \<or> t = ''Z''"
    | "\<not> (t = ''ro'' \<or> t = ''rw'')" "\<not> (t = ''z'' \<or> t = ''Z'')" by blast
  then show thesis
  proof cases
    case 3
    show thesis
    proof (cases "t \<in> set propagation_tokens"; cases "t \<in> set consistency_tokens"; cases "t = ''nocopy''")
    qed (use 3 that(5-8) in \<open>simp_all add: token_class_def\<close>)
  qed (use that(1-4) in blast)+
qed

lemma mode_token_next:
  "mode_token field (flags_of ts) t = Inr st \<longleftrightarrow>
   set (known_classes ts) \<inter> set_option (token_class t) = {} \<and> st = flags_of (ts @ [t])"
proof (cases t rule: token_cases)
  case 5
  then have "t \<notin> {''ro'', ''rw'', ''z'', ''Z''}" by (auto simp: propagation_tokens_def)
  with 5 show ?thesis
    by (auto simp: mode_token_def flags_of_def access_of_def relabel_of_def supported_tokens_def)
next
  case 6
  then have "t \<notin> {''ro'', ''rw'', ''z'', ''Z''}" "t \<notin> set propagation_tokens"
    by (auto simp: propagation_tokens_def consistency_tokens_def)
  with 6 show ?thesis
    by (auto simp: mode_token_def flags_of_def access_of_def relabel_of_def supported_tokens_def)
next
  case 8
  then show ?thesis
    by (auto simp: mode_token_def flags_of_def access_of_def relabel_of_def supported_tokens_def)
next
  case 7
  then have "t \<notin> set propagation_tokens" "t \<notin> set consistency_tokens" "token_class t = Some CopyToken"
    by (simp_all add: propagation_tokens_def consistency_tokens_def token_class_def)
  with 7 show ?thesis
    by (auto simp: mode_token_def flags_of_def access_of_def relabel_of_def supported_tokens_def)
next
  case 1
  then have "token_class t = Some AccessToken" by (simp add: token_class_def)
  with 1 access_seen [of ts] show ?thesis
    by (auto simp: mode_token_def flags_of_def access_of_def relabel_of_def supported_tokens_def)
next
  case 2
  then have "token_class t = Some AccessToken" by (simp add: token_class_def)
  with 2 access_seen [of ts] show ?thesis
    by (auto simp: mode_token_def flags_of_def access_of_def relabel_of_def supported_tokens_def)
next
  case 3
  then have "token_class t = Some RelabelToken" by (simp add: token_class_def)
  with 3 relabel_seen [of ts] show ?thesis
    by (auto simp: mode_token_def flags_of_def access_of_def relabel_of_def supported_tokens_def)
next
  case 4
  then have "token_class t = Some RelabelToken" by (simp add: token_class_def)
  with 4 relabel_seen [of ts] show ?thesis
    by (auto simp: mode_token_def flags_of_def access_of_def relabel_of_def supported_tokens_def)
qed

lemma flags_of_Nil: "no_flags = flags_of []"
  by (simp add: no_flags_def flags_of_def access_of_def relabel_of_def supported_tokens_def)

lemma mode_steps:
  "try_fold (mode_step field) no_flags (zip [0..<length ts] ts) = Inr st \<longleftrightarrow>
   tokens_ok ts \<and> st = flags_of ts"
proof (induction ts arbitrary: st rule: rev_induct)
  case Nil
  show ?case by (auto simp: tokens_ok_def flags_of_Nil)
next
  case (snoc t ts)
  have "zip [0..<length (ts @ [t])] (ts @ [t]) = zip [0..<length ts] ts @ [(length ts, t)]"
    by simp
  then show ?case
    by (simp only: try_fold_append bind_res_Inr_iff snoc try_fold.simps)
      (auto simp: mode_step_def mode_token_next tokens_ok_def option_list_def split: option.splits)
qed

lemma mode_parse_Inr:
  "mode_parse raw field = Inr m \<longleftrightarrow>
   length raw \<le> max_mode_bytes \<and> tokens_ok (mode_tokens raw)
   \<and> m = (if supported_tokens (mode_tokens raw)
          then SupportedMode (access_of (mode_tokens raw)) (relabel_of (mode_tokens raw))
          else UnsupportedMode)"
proof (cases "raw = []")
  case True
  then show ?thesis
    by (auto simp: mode_parse_def mode_tokens_def flags_of_Nil flags_of_def tokens_ok_def)
next
  case False
  have "mode_parse raw field = Inr m \<longleftrightarrow> length raw \<le> max_mode_bytes
      \<and> (\<exists>st. try_fold (mode_step field) no_flags (zip [0..<length (mode_tokens raw)] (mode_tokens raw)) = Inr st
        \<and> m = (if mf_unsupported st then UnsupportedMode else SupportedMode (mf_access st) (mf_relabel st)))"
    using False by (auto simp: mode_parse_def mode_tokens_def Let_def bind_res_Inr_iff)
  then show ?thesis unfolding mode_steps by (auto simp: flags_of_def)
qed

section \<open>Properties\<close>

text \<open>C34: a mount mode is interpreted exactly when it is short and has at most one token of each known
  kind, no empty one and at most sixteen in all, in any order; an unknown token makes it
  unsupported, but never hides a contradiction among the known ones. A supported mode carries the
  access and the relabelling its tokens say.\<close>

theorem mount_mode_meaning:
  "mode_parse raw field = Inr m \<longleftrightarrow>
   length raw \<le> 256 \<and> length (mode_tokens raw) \<le> 16 \<and> [] \<notin> set (mode_tokens raw)
   \<and> distinct (known_classes (mode_tokens raw))
   \<and> m = (if supported_tokens (mode_tokens raw)
          then SupportedMode (access_of (mode_tokens raw)) (relabel_of (mode_tokens raw))
          else UnsupportedMode)"
  by (auto simp: mode_parse_Inr tokens_ok_def max_mode_bytes_def max_mode_tokens_def)

end
