(* ===== verification/Decoder_Fields.thy ===== *)
theory Decoder_Fields
  imports Inventory Native_Json Capabilities Mount_Modes
begin

text \<open>
  The field readers of \<^verbatim>\<open>src/decoder.rs\<close>: a value is looked up by its path and observed with its
  availability, so that what is missing, null or redacted stays apart from what is empty. The
  functions are named after what they read; \<open>json_list\<close> and \<open>json_entries\<close> are \<^verbatim>\<open>array\<close> and
  \<^verbatim>\<open>object\<close>, \<open>observe_field\<close> is \<^verbatim>\<open>observed\<close>.
\<close>

definition decoder_max_items :: nat where
  "decoder_max_items = 4096"

definition is_redacted :: "json_value \<Rightarrow> bool" where
  "is_redacted v =
     (case as_object v of
        None \<Rightarrow> False
      | Some kvs \<Rightarrow> length kvs = 1 \<and> map_of kvs ''__docker_lens_redacted__'' = Some (VBool True))"

fun field_value :: "json_value \<Rightarrow> bytes list \<Rightarrow> field_path \<Rightarrow> decode_error + json_value option" where
  "field_value v [] field = Inr (Some v)"
| "field_value v (c # cs) field =
     (if v = VNull \<or> is_redacted v then Inr (Some v)
      else
        (case as_object v of
           None \<Rightarrow> Inl (InvalidShape field)
         | Some kvs \<Rightarrow>
             (case map_of kvs c of None \<Rightarrow> Inr None | Some w \<Rightarrow> field_value w cs field)))"

definition value_availability :: "json_value \<Rightarrow> availability" where
  "value_availability v =
     (if v = VString [] \<or> v = VArray [] \<or> v = VObject [] then EmptyValue else Present)"

definition observe_value ::
  "json_value option \<Rightarrow> origin \<Rightarrow> (json_value \<Rightarrow> decode_error + 'a) \<Rightarrow> decode_error + 'a observed" where
  "observe_value found orig parse =
     (case found of
        None \<Rightarrow> Inr (unavailable Missing orig)
      | Some v \<Rightarrow>
        if v = VNull then Inr (unavailable Null orig)
        else if is_redacted v then Inr (unavailable Redacted orig)
        else bind_res (parse v) (\<lambda>x. Inr (present x (value_availability v) orig)))"

definition observe_field ::
  "json_value \<Rightarrow> bytes list \<Rightarrow> field_path \<Rightarrow> origin \<Rightarrow> (json_value \<Rightarrow> decode_error + 'a)
   \<Rightarrow> decode_error + 'a observed" where
  "observe_field root path field orig parse =
     bind_res (field_value root path field) (\<lambda>found. observe_value found orig parse)"

section \<open>Scalars and bounded collections\<close>

definition string_value :: "json_value \<Rightarrow> field_path \<Rightarrow> decode_error + protected_value" where
  "string_value v field = ok_or (as_str v) (InvalidShape field)"

definition string_field ::
  "json_value \<Rightarrow> bytes list \<Rightarrow> field_path \<Rightarrow> origin \<Rightarrow> decode_error + protected_value observed" where
  "string_field root path field orig = observe_field root path field orig (\<lambda>v. string_value v field)"

definition boolean_field ::
  "json_value \<Rightarrow> bytes list \<Rightarrow> field_path \<Rightarrow> origin \<Rightarrow> decode_error + bool observed" where
  "boolean_field root path field orig =
     observe_field root path field orig (\<lambda>v. ok_or (as_bool v) (InvalidShape field))"

definition unsigned_field ::
  "json_value \<Rightarrow> bytes list \<Rightarrow> field_path \<Rightarrow> origin \<Rightarrow> decode_error + u64 observed" where
  "unsigned_field root path field orig =
     observe_field root path field orig (\<lambda>v. ok_or (as_u64 v) (InvalidShape field))"

definition signed_field ::
  "json_value \<Rightarrow> bytes list \<Rightarrow> field_path \<Rightarrow> origin \<Rightarrow> decode_error + int observed" where
  "signed_field root path field orig =
     observe_field root path field orig (\<lambda>v. ok_or (as_i64 v) (InvalidShape field))"

definition json_list :: "json_value \<Rightarrow> field_path \<Rightarrow> decode_error + json_value list" where
  "json_list v field =
     bind_res (ok_or (as_array v) (InvalidShape field)) (\<lambda>vs.
       if length vs > decoder_max_items then Inl CollectionTooLarge else Inr vs)"

definition json_entries :: "json_value \<Rightarrow> field_path \<Rightarrow> decode_error + (bytes \<times> json_value) list" where
  "json_entries v field =
     bind_res (ok_or (as_object v) (InvalidShape field)) (\<lambda>kvs.
       if length kvs > decoder_max_items then Inl CollectionTooLarge else Inr kvs)"

definition parse_reported_api :: "bytes \<Rightarrow> api_version option" where
  "parse_reported_api text =
     (case split_once CHR ''.'' text of
        None \<Rightarrow> None
      | Some (major, minor) \<Rightarrow>
        if CHR ''.'' \<in> set minor \<or> major = [] \<or> minor = []
          \<or> \<not> list_all is_digit major \<or> \<not> list_all is_digit minor then None
        else
          (case (parse_uint 65535 major, parse_uint 65535 minor) of
             (Some m, Some n) \<Rightarrow> if m = 0 then None else Some (ApiVersion (of_nat m) (of_nat n))
           | _ \<Rightarrow> None))"

text \<open>\<^verbatim>\<open>u32::try_from\<close> on an unsigned value.\<close>

definition u32_value :: "json_value \<Rightarrow> field_path \<Rightarrow> decode_error + u32" where
  "u32_value v field =
     bind_res (ok_or (as_u64 v) (InvalidShape field)) (\<lambda>n.
       if unat n < 2 ^ 32 then Inr (ucast n) else Inl (InvalidValue field))"

section \<open>Ports\<close>

definition port_digits :: "bytes \<Rightarrow> decode_error + u16" where
  "port_digits s =
     (if s = [] \<or> \<not> list_all is_digit s then Inl (InvalidValue (FPort 0))
      else bind_res (ok_or (parse_uint 65535 s) (InvalidValue (FPort 0))) (\<lambda>n. Inr (of_nat n)))"

definition protocol_of :: "bytes \<Rightarrow> transport_protocol option" where
  "protocol_of s =
     (if s = ''tcp'' then Some NativeTcp
      else if s = ''udp'' then Some NativeUdp
      else if s = ''sctp'' then Some NativeSctp else None)"

definition parse_port_key :: "bytes \<Rightarrow> decode_error + native_port_key" where
  "parse_port_key text =
     bind_res (ok_or (split_once CHR ''/'' text) (InvalidValue (FPort 0))) (\<lambda>(port, protocol).
       if port = [] \<or> \<not> list_all is_digit port then Inl (InvalidValue (FPort 0))
       else bind_res (ok_or (protocol_of protocol) (InvalidValue (FPort 0))) (\<lambda>p.
         bind_res (port_digits port) (\<lambda>n.
           if n = 0 then Inl (InvalidValue (FPort 0))
           else Inr \<lparr>pk_container = n, pk_protocol = p\<rparr>)))"

definition parse_host_port :: "json_value \<Rightarrow> decode_error + u16" where
  "parse_host_port v = bind_res (ok_or (as_str v) (InvalidShape (FPort 0))) port_digits"

definition host_port_field :: "json_value \<Rightarrow> field_path \<Rightarrow> origin \<Rightarrow> decode_error + u16 observed" where
  "host_port_field root field orig =
     bind_res (field_value root [''HostPort''] field) (\<lambda>found.
       case found of
         None \<Rightarrow> Inr (unavailable Missing orig)
       | Some v \<Rightarrow>
         if v = VNull then Inr (unavailable Null orig)
         else if is_redacted v then Inr (unavailable Redacted orig)
         else if v = VString [] then Inr (unavailable EmptyValue orig)
         else bind_res (parse_host_port v) (\<lambda>n. Inr (present n Present orig)))"

definition host_binding_of :: "nat \<Rightarrow> origin \<Rightarrow> json_value \<Rightarrow> decode_error + native_host_binding" where
  "host_binding_of index orig binding =
     bind_res (json_entries binding (FPort index)) (\<lambda>_.
     bind_res (string_field binding [''HostIp''] (FPort index) orig) (\<lambda>ip.
     bind_res (host_port_field binding (FPort index) orig) (\<lambda>port.
       Inr \<lparr>hb_ip = ip, hb_port = port\<rparr>)))"

definition port_observation_of ::
  "origin \<Rightarrow> nat \<times> bytes \<times> json_value \<Rightarrow> decode_error + port_observation" where
  "port_observation_of orig it =
     (let (index, port, bindings) = it in
      bind_res (parse_port_key port) (\<lambda>k.
      bind_res
        (if bindings = VNull then Inr (unavailable Null orig)
         else if is_redacted bindings then Inr (unavailable Redacted orig)
         else
           bind_res (json_list bindings (FPort index)) (\<lambda>vs.
           bind_res (map_res (host_binding_of index orig) vs) (\<lambda>bs.
             Inr (present bs (if vs = [] then EmptyValue else Present) orig))))
        (\<lambda>bs. Inr \<lparr>po_key = k, po_bindings = bs\<rparr>)))"

definition port_bindings_of :: "json_value \<Rightarrow> origin \<Rightarrow> decode_error + port_observation list" where
  "port_bindings_of v orig =
     bind_res (json_entries v (FPort 0)) (\<lambda>kvs. map_res (port_observation_of orig) (enumerate 0 kvs))"

definition exposed_ports_of :: "json_value \<Rightarrow> decode_error + native_port_key list" where
  "exposed_ports_of v =
     bind_res (json_entries v (FPort 0)) (\<lambda>kvs. map_res (\<lambda>kv. parse_port_key (fst kv)) kvs)"

section \<open>Lists, environment, labels and maps\<close>

definition string_list :: "json_value \<Rightarrow> field_path \<Rightarrow> decode_error + protected_value list" where
  "string_list v field =
     bind_res (json_list v field) (\<lambda>vs. map_res (\<lambda>x. string_value x field) vs)"

definition string_array ::
  "json_value \<Rightarrow> bytes list \<Rightarrow> field_path \<Rightarrow> decode_error + protected_value list observed" where
  "string_array root path field = observe_field root path field Effective (\<lambda>v. string_list v field)"

definition command_of :: "json_value \<Rightarrow> field_path \<Rightarrow> decode_error + command_value" where
  "command_of v field =
     (case as_str v of
        Some _ \<Rightarrow> bind_res (string_value v field) (\<lambda>s. Inr (ShellCommand s))
      | None \<Rightarrow> bind_res (string_list v field) (\<lambda>ss. Inr (ExecCommand ss)))"

definition assignment_of :: "nat \<times> json_value \<Rightarrow> decode_error + native_assignment" where
  "assignment_of it =
     (let (index, item) = it in
      bind_res (ok_or (as_str item) (InvalidShape (FEnvironment index))) (\<lambda>raw.
        let (name, v) = (case split_once CHR ''='' raw of Some (n, v) \<Rightarrow> (n, Some v) | None \<Rightarrow> (raw, None)) in
        if name = [] then Inl (InvalidValue (FEnvironment index))
        else Inr \<lparr>na_name = name, na_value = v\<rparr>))"

definition environment_of :: "json_value \<Rightarrow> decode_error + native_assignment list" where
  "environment_of v =
     bind_res (json_list v (FEnvironment 0)) (\<lambda>vs. map_res assignment_of (enumerate 0 vs))"

definition label_of :: "nat \<times> bytes \<times> json_value \<Rightarrow> decode_error + label_observation" where
  "label_of it =
     (let (index, k, v) = it in
      bind_res
        (if v = VNull then Inr (unavailable Null Effective)
         else if is_redacted v then Inr (unavailable Redacted Effective)
         else bind_res (string_value v (FLabel index)) (\<lambda>s.
           Inr (present s (if s = [] then EmptyValue else Present) Effective)))
        (\<lambda>ob. Inr \<lparr>lo_key = k, lo_value = ob\<rparr>))"

definition labels_of :: "json_value \<Rightarrow> decode_error + label_observation list" where
  "labels_of v = bind_res (json_entries v (FLabel 0)) (\<lambda>kvs. map_res label_of (enumerate 0 kvs))"

definition map_entry_of :: "field_path \<Rightarrow> bytes \<times> json_value \<Rightarrow> decode_error + map_entry_observation" where
  "map_entry_of field kv =
     bind_res (observe_field (snd kv) [] field Effective (\<lambda>v. string_value v field)) (\<lambda>ob.
       Inr \<lparr>me_key = fst kv, me_value = ob\<rparr>)"

definition map_entries :: "json_value \<Rightarrow> field_path \<Rightarrow> decode_error + map_entry_observation list" where
  "map_entries v field = bind_res (json_entries v field) (\<lambda>kvs. map_res (map_entry_of field) kvs)"

section \<open>Identifiers and versions\<close>

definition version_field :: "json_value \<Rightarrow> bytes \<Rightarrow> decode_error + api_version option" where
  "version_field root name =
     bind_res (field_value root [name] FApiVersion) (\<lambda>found.
       case found of
         None \<Rightarrow> Inr None
       | Some v \<Rightarrow>
         if v = VNull \<or> is_redacted v then Inr None
         else bind_res (ok_or (Option.bind (as_str v) parse_reported_api) (InvalidValue FApiVersion))
           (\<lambda>x. Inr (Some x)))"

definition release_field :: "json_value \<Rightarrow> bytes \<Rightarrow> decode_error + engine_release option" where
  "release_field root name =
     bind_res (field_value root [name] FEngineRelease) (\<lambda>found.
       case found of
         None \<Rightarrow> Inr None
       | Some v \<Rightarrow>
         if v = VNull \<or> is_redacted v then Inr None
         else bind_res (ok_or (as_str v) (InvalidShape FEngineRelease)) (\<lambda>s. Inr (engine_release_new s)))"

definition listed_id :: "json_value \<Rightarrow> field_path \<Rightarrow> bytes \<Rightarrow> decode_error + bytes" where
  "listed_id item field k =
     bind_res (json_entries item field) (\<lambda>kvs.
     bind_res (ok_or (Option.bind (map_of kvs k) as_str) (InvalidShape field)) (\<lambda>i.
       if i = [] then Inl (InvalidValue field) else Inr i))"

end
