(* ===== verification/Decoder_Resources.thy ===== *)
theory Decoder_Resources
  imports Decoder_Fields
begin

text \<open>
  The resource readers of \<^verbatim>\<open>src/decoder.rs\<close>: containers, networks and volumes from their inspect
  responses, and the summaries of a container listing. Fields are read in the order of the code,
  so that the first error is the error of the code.
\<close>

section \<open>Parts of a container\<close>

definition ulimit_of :: "json_value \<Rightarrow> decode_error + ulimit_observation" where
  "ulimit_of item =
     bind_res (json_entries item FResourceLimit) (\<lambda>_.
     bind_res (string_field item [''Name''] FResourceLimit Effective) (\<lambda>x_uo_name.
     bind_res (signed_field item [''Soft''] FResourceLimit Effective) (\<lambda>x_uo_soft.
     bind_res (signed_field item [''Hard''] FResourceLimit Effective) (\<lambda>x_uo_hard.
       Inr \<lparr>uo_name = x_uo_name, uo_soft = x_uo_soft, uo_hard = x_uo_hard\<rparr>))))"

definition ulimits_of :: "json_value \<Rightarrow> decode_error + ulimit_observation list" where
  "ulimits_of v = bind_res (json_list v FResourceLimit) (\<lambda>vs. map_res ulimit_of vs)"

definition device_of :: "json_value \<Rightarrow> decode_error + device_observation" where
  "device_of item =
     bind_res (json_entries item FDevice) (\<lambda>_.
     bind_res (string_field item [''PathOnHost''] FDevice Effective) (\<lambda>x_do_host.
     bind_res (string_field item [''PathInContainer''] FDevice Effective) (\<lambda>x_do_container.
     bind_res (string_field item [''CgroupPermissions''] FDevice Effective) (\<lambda>x_do_permissions.
       Inr \<lparr>do_host = x_do_host, do_container = x_do_container,
         do_permissions = x_do_permissions\<rparr>))))"

definition devices_of :: "json_value \<Rightarrow> decode_error + device_observation list" where
  "devices_of v = bind_res (json_list v FDevice) (\<lambda>vs. map_res device_of vs)"

definition configured_mount_of :: "json_value \<Rightarrow> decode_error + configured_mount_observation" where
  "configured_mount_of item =
     bind_res (json_entries item FRuntimeMount) (\<lambda>_.
     bind_res (string_field item [''Type''] FRuntimeMount Effective) (\<lambda>x_cm_kind.
     bind_res (string_field item [''Source''] FRuntimeMount Effective) (\<lambda>x_cm_source.
     bind_res (string_field item [''Target''] FRuntimeMount Effective) (\<lambda>x_cm_target.
     bind_res (boolean_field item [''ReadOnly''] FRuntimeMount Effective) (\<lambda>x_cm_read_only.
     bind_res (string_field item [''BindOptions'', ''Propagation''] FRuntimeMount Effective) (\<lambda>x_cm_propagation.
     bind_res (boolean_field item [''VolumeOptions'', ''NoCopy''] FRuntimeMount Effective) (\<lambda>x_cm_no_copy.
     bind_res (signed_field item [''TmpfsOptions'', ''SizeBytes''] FRuntimeMount Effective) (\<lambda>x_cm_size.
       Inr \<lparr>cm_kind = x_cm_kind, cm_source = x_cm_source, cm_target = x_cm_target,
         cm_read_only = x_cm_read_only, cm_propagation = x_cm_propagation,
         cm_no_copy = x_cm_no_copy, cm_size = x_cm_size\<rparr>))))))))"

definition configured_mounts_of :: "json_value \<Rightarrow> decode_error + configured_mount_observation list" where
  "configured_mounts_of v = bind_res (json_list v FRuntimeMount) (\<lambda>vs. map_res configured_mount_of vs)"

definition logging_of :: "json_value \<Rightarrow> decode_error + logging_observation" where
  "logging_of root =
     bind_res (json_entries root FLogging) (\<lambda>_.
     bind_res (string_field root [''Type''] FLogging Effective) (\<lambda>x_lg_driver.
     bind_res (observe_field root [''Config''] FLogging Effective (\<lambda>v. map_entries v FLogging)) (\<lambda>x_lg_options.
       Inr \<lparr>lg_driver = x_lg_driver, lg_options = x_lg_options\<rparr>)))"

definition mount_kind_of :: "json_value option \<Rightarrow> mount_kind" where
  "mount_kind_of found =
     (case Option.bind found as_str of
        None \<Rightarrow> MountOther
      | Some s \<Rightarrow>
          if s = ''bind'' then MountBind
          else if s = ''volume'' then MountVolume
          else if s = ''tmpfs'' then MountTmpfs
          else MountOther)"

definition mount_of :: "nat \<times> json_value \<Rightarrow> decode_error + mount_observation" where
  "mount_of it =
     (let (index, item) = it; field = FMount index in
     bind_res (json_entries item field) (\<lambda>_.
     bind_res (field_value item [''Type''] field) (\<lambda>found.
     bind_res (string_field item [''Mode''] field Effective) (\<lambda>mode.
     bind_res (mode_interpret mode field) (\<lambda>interpretation.
     bind_res (string_field item [''Source''] field Effective) (\<lambda>source.
     bind_res (string_field item [''Destination''] field Effective) (\<lambda>destination.
     bind_res (string_field item [''Name''] field Effective) (\<lambda>name.
     bind_res (boolean_field item [''RW''] field Effective) (\<lambda>rw.
     bind_res (string_field item [''Propagation''] field Effective) (\<lambda>propagation.
       Inr \<lparr>mo_kind = mount_kind_of found, mo_source = source, mo_destination = destination,
         mo_name = name, mo_read_write = rw, mo_mode = mode, mo_interpretation = interpretation,
         mo_propagation = propagation\<rparr>))))))))))"

definition mounts_of :: "json_value \<Rightarrow> decode_error + mount_observation list" where
  "mounts_of v = bind_res (json_list v (FMount 0)) (\<lambda>vs. map_res mount_of (enumerate 0 vs))"

definition attachment_of :: "nat \<times> bytes \<times> json_value \<Rightarrow> decode_error + native_attachment" where
  "attachment_of it =
     (let (index, name, item) = it; field = FNetwork index in
     bind_res (json_entries item field) (\<lambda>_.
     bind_res (string_field item [''NetworkID''] field RuntimeAssigned) (\<lambda>x_nt_network_id.
     bind_res (string_field item [''IPAddress''] field RuntimeAssigned) (\<lambda>x_nt_ip.
     bind_res (string_field item [''GlobalIPv6Address''] field RuntimeAssigned) (\<lambda>x_nt_ipv6.
     bind_res (string_field item [''IPAMConfig'', ''IPv4Address''] field Effective) (\<lambda>x_nt_requested_ipv4.
     bind_res (string_field item [''IPAMConfig'', ''IPv6Address''] field Effective) (\<lambda>x_nt_requested_ipv6.
     bind_res (observe_field item [''Aliases''] field Effective (\<lambda>v. string_list v field)) (\<lambda>x_nt_aliases.
       Inr \<lparr>nt_name = name, nt_network_id = x_nt_network_id, nt_ip = x_nt_ip,
         nt_ipv6 = x_nt_ipv6, nt_requested_ipv4 = x_nt_requested_ipv4,
         nt_requested_ipv6 = x_nt_requested_ipv6, nt_aliases = x_nt_aliases\<rparr>))))))))"

definition networks_of :: "json_value \<Rightarrow> decode_error + native_attachment list" where
  "networks_of v =
     bind_res (json_entries v (FNetwork 0)) (\<lambda>kvs. map_res attachment_of (enumerate 0 kvs))"

definition network_mode_kind_of :: "bytes \<Rightarrow> network_mode_kind" where
  "network_mode_kind_of s =
     (if s = ''default'' then DefaultMode
      else if s = ''bridge'' then BridgeMode
      else if s = ''host'' then HostMode
      else if s = ''none'' then NoneMode
      else if take (length ''container:'') s = ''container:'' \<and> length s > length ''container:''
      then ContainerMode
      else NamedMode)"

definition network_mode_of :: "json_value \<Rightarrow> decode_error + network_mode_observation" where
  "network_mode_of v =
     bind_res (ok_or (as_str v) (InvalidShape FNetworkMode)) (\<lambda>s.
       Inr \<lparr>nm_kind = network_mode_kind_of s, nm_value = s\<rparr>)"

definition healthcheck_test_of :: "json_value \<Rightarrow> decode_error + native_test" where
  "healthcheck_test_of v =
     bind_res (string_list v FHealthcheck) (\<lambda>parts.
       case parts of
         [] \<Rightarrow> Inr (TestOther parts)
       | form # arguments \<Rightarrow>
           if form = ''CMD'' then
             (if arguments \<noteq> [] then Inr (TestCmd arguments) else Inl (InvalidValue FHealthcheck))
           else if form = ''CMD-SHELL'' then
             (case arguments of [c] \<Rightarrow> Inr (TestCmdShell c) | _ \<Rightarrow> Inl (InvalidValue FHealthcheck))
           else if form = ''NONE'' then
             (if arguments = [] then Inr TestNone else Inl (InvalidValue FHealthcheck))
           else Inr (TestOther parts))"

definition healthcheck_of :: "json_value \<Rightarrow> decode_error + native_healthcheck" where
  "healthcheck_of root =
     bind_res (json_entries root FHealthcheck) (\<lambda>_.
     bind_res (observe_field root [''Test''] FHealthcheck Effective healthcheck_test_of) (\<lambda>x_nh_test.
     bind_res (unsigned_field root [''Interval''] FHealthcheck Effective) (\<lambda>x_nh_interval.
     bind_res (unsigned_field root [''Timeout''] FHealthcheck Effective) (\<lambda>x_nh_timeout.
     bind_res (unsigned_field root [''StartPeriod''] FHealthcheck Effective) (\<lambda>x_nh_start_period.
     bind_res (unsigned_field root [''StartInterval''] FHealthcheck Effective) (\<lambda>x_nh_start_interval.
     bind_res (observe_field root [''Retries''] FHealthcheck Effective (\<lambda>v. u32_value v FHealthcheck)) (\<lambda>x_nh_retries.
       Inr \<lparr>nh_test = x_nh_test, nh_interval = x_nh_interval, nh_timeout = x_nh_timeout,
         nh_start_period = x_nh_start_period, nh_start_interval = x_nh_start_interval,
         nh_retries = x_nh_retries\<rparr>)))))))"

definition restart_policy_of :: "json_value \<Rightarrow> decode_error + native_restart_policy" where
  "restart_policy_of root =
     bind_res (json_entries root FRestartPolicy) (\<lambda>_.
     bind_res (string_field root [''Name''] FRestartPolicy Effective) (\<lambda>x_rp_name.
     bind_res (observe_field root [''MaximumRetryCount''] FRestartPolicy Effective (\<lambda>v. u32_value v FRestartPolicy)) (\<lambda>x_rp_maximum.
       Inr \<lparr>rp_name = x_rp_name, rp_maximum = x_rp_maximum\<rparr>)))"

definition runtime_of :: "json_value \<Rightarrow> decode_error + runtime_observation" where
  "runtime_of root =
     bind_res (boolean_field root [''HostConfig'', ''ReadonlyRootfs''] FRuntimeMount Effective) (\<lambda>x_rt_read_only_rootfs.
     bind_res (signed_field root [''HostConfig'', ''Memory''] FResourceLimit Effective) (\<lambda>x_rt_memory.
     bind_res (signed_field root [''HostConfig'', ''PidsLimit''] FResourceLimit Effective) (\<lambda>x_rt_pids.
     bind_res (signed_field root [''HostConfig'', ''ShmSize''] FResourceLimit Effective) (\<lambda>x_rt_shm.
     bind_res (observe_field root [''HostConfig'', ''Ulimits''] FResourceLimit Effective ulimits_of) (\<lambda>x_rt_ulimits.
     bind_res (string_array root [''HostConfig'', ''CapAdd''] FSecuritySetting) (\<lambda>x_rt_cap_add.
     bind_res (string_array root [''HostConfig'', ''CapDrop''] FSecuritySetting) (\<lambda>x_rt_cap_drop.
     bind_res (string_array root [''HostConfig'', ''SecurityOpt''] FSecuritySetting) (\<lambda>x_rt_security.
     bind_res (string_field root [''HostConfig'', ''UsernsMode''] FSecuritySetting Effective) (\<lambda>x_rt_userns.
     bind_res (string_array root [''HostConfig'', ''GroupAdd''] FSecuritySetting) (\<lambda>x_rt_groups.
     bind_res (observe_field root [''HostConfig'', ''Sysctls''] FSecuritySetting Effective (\<lambda>v. map_entries v FSecuritySetting)) (\<lambda>x_rt_sysctls.
     bind_res (string_array root [''HostConfig'', ''Dns''] FNameResolution) (\<lambda>x_rt_dns_servers.
     bind_res (string_array root [''HostConfig'', ''DnsOptions''] FNameResolution) (\<lambda>x_rt_dns_options.
     bind_res (string_array root [''HostConfig'', ''DnsSearch''] FNameResolution) (\<lambda>x_rt_dns_search.
     bind_res (string_array root [''HostConfig'', ''ExtraHosts''] FNameResolution) (\<lambda>x_rt_extra_hosts.
     bind_res (boolean_field root [''HostConfig'', ''Init''] FStopBehavior Effective) (\<lambda>x_rt_init.
     bind_res (string_field root [''Config'', ''StopSignal''] FStopBehavior Effective) (\<lambda>x_rt_stop_signal.
     bind_res (signed_field root [''Config'', ''StopTimeout''] FStopBehavior Effective) (\<lambda>x_rt_stop_timeout.
     bind_res (observe_field root [''HostConfig'', ''LogConfig''] FLogging Effective logging_of) (\<lambda>x_rt_logging.
     bind_res (observe_field root [''HostConfig'', ''Tmpfs''] FRuntimeMount Effective (\<lambda>v. map_entries v FRuntimeMount)) (\<lambda>x_rt_tmpfs.
     bind_res (string_array root [''HostConfig'', ''Binds''] FRuntimeMount) (\<lambda>x_rt_binds.
     bind_res (observe_field root [''HostConfig'', ''Mounts''] FRuntimeMount Effective configured_mounts_of) (\<lambda>x_rt_mounts.
     bind_res (string_array root [''HostConfig'', ''VolumesFrom''] FRuntimeMount) (\<lambda>x_rt_volumes_from.
     bind_res (observe_field root [''HostConfig'', ''Devices''] FDevice Effective devices_of) (\<lambda>x_rt_devices.
       Inr \<lparr>rt_read_only_rootfs = x_rt_read_only_rootfs, rt_memory = x_rt_memory,
         rt_pids = x_rt_pids, rt_shm = x_rt_shm, rt_ulimits = x_rt_ulimits,
         rt_cap_add = x_rt_cap_add, rt_cap_drop = x_rt_cap_drop,
         rt_security = x_rt_security, rt_userns = x_rt_userns, rt_groups = x_rt_groups,
         rt_sysctls = x_rt_sysctls, rt_dns_servers = x_rt_dns_servers,
         rt_dns_options = x_rt_dns_options, rt_dns_search = x_rt_dns_search,
         rt_extra_hosts = x_rt_extra_hosts, rt_init = x_rt_init,
         rt_stop_signal = x_rt_stop_signal, rt_stop_timeout = x_rt_stop_timeout,
         rt_logging = x_rt_logging, rt_tmpfs = x_rt_tmpfs, rt_binds = x_rt_binds,
         rt_mounts = x_rt_mounts, rt_volumes_from = x_rt_volumes_from,
         rt_devices = x_rt_devices\<rparr>))))))))))))))))))))))))"

section \<open>Containers\<close>

definition container_summary_of :: "json_value \<Rightarrow> decode_error + container_summary" where
  "container_summary_of root =
     bind_res (json_entries root FOther) (\<lambda>_.
     bind_res (listed_id root FOther ''Id'') (\<lambda>x_cs_id.
     bind_res (observe_field root [''Names''] FContainerName Effective (\<lambda>v. string_list v FContainerName)) (\<lambda>x_cs_names.
     bind_res (observe_field root [''Labels''] (FLabel 0) Effective labels_of) (\<lambda>x_cs_labels.
     bind_res (string_field root [''Image''] FImage Effective) (\<lambda>x_cs_image.
       Inr \<lparr>cs_id = x_cs_id, cs_names = x_cs_names, cs_labels = x_cs_labels,
         cs_image = x_cs_image\<rparr>)))))"

definition container_of :: "json_value \<Rightarrow> resource_ref \<Rightarrow> decode_error + container_observation" where
  "container_of root reference =
     bind_res (json_entries root FOther) (\<lambda>_.
     bind_res (string_field root [''Id''] FOther RuntimeAssigned) (\<lambda>x_co_id.
     bind_res (string_field root [''Name''] FContainerName Effective) (\<lambda>x_co_name.
     bind_res (string_field root [''Config'', ''Image''] FImage Effective) (\<lambda>x_co_image.
     bind_res (string_field root [''Image''] FImage RuntimeAssigned) (\<lambda>x_co_image_id.
     bind_res (observe_field root [''Config'', ''Labels''] (FLabel 0) Effective labels_of) (\<lambda>x_co_labels.
     bind_res (string_field root [''Config'', ''User''] FUser Effective) (\<lambda>x_co_user.
     bind_res (string_field root [''Config'', ''WorkingDir''] FWorkingDirectory Effective) (\<lambda>x_co_working_directory.
     bind_res (string_field root [''Config'', ''Hostname''] FHostname Effective) (\<lambda>x_co_hostname.
     bind_res (observe_field root [''Config'', ''Env''] (FEnvironment 0) Effective environment_of) (\<lambda>x_co_environment.
     bind_res (observe_field root [''Config'', ''ExposedPorts''] (FPort 0) Effective exposed_ports_of) (\<lambda>x_co_exposed_ports.
     bind_res (observe_field root [''HostConfig'', ''PortBindings''] (FPort 0) Effective (\<lambda>v. port_bindings_of v Effective)) (\<lambda>x_co_configured_ports.
     bind_res (observe_field root [''NetworkSettings'', ''Ports''] (FPort 0) RuntimeAssigned (\<lambda>v. port_bindings_of v RuntimeAssigned)) (\<lambda>x_co_runtime_ports.
     bind_res (observe_field root [''Mounts''] (FMount 0) Effective mounts_of) (\<lambda>x_co_mounts.
     bind_res (observe_field root [''NetworkSettings'', ''Networks''] (FNetwork 0) RuntimeAssigned networks_of) (\<lambda>x_co_networks.
     bind_res (observe_field root [''HostConfig'', ''NetworkMode''] FNetworkMode Effective network_mode_of) (\<lambda>x_co_network_mode.
     bind_res (observe_field root [''Config'', ''Cmd''] FCommand Effective (\<lambda>v. command_of v FCommand)) (\<lambda>x_co_command.
     bind_res (observe_field root [''Config'', ''Entrypoint''] FEntrypoint Effective (\<lambda>v. command_of v FEntrypoint)) (\<lambda>x_co_entrypoint.
     bind_res (observe_field root [''Config'', ''Healthcheck''] FHealthcheck Effective healthcheck_of) (\<lambda>x_co_healthcheck.
     bind_res (observe_field root [''HostConfig'', ''RestartPolicy''] FRestartPolicy Effective restart_policy_of) (\<lambda>x_co_restart.
     bind_res (runtime_of root) (\<lambda>x_co_runtime.
       Inr \<lparr>co_reference = reference, co_id = x_co_id, co_name = x_co_name,
         co_image = x_co_image, co_image_id = x_co_image_id, co_labels = x_co_labels,
         co_user = x_co_user, co_working_directory = x_co_working_directory,
         co_hostname = x_co_hostname, co_environment = x_co_environment,
         co_exposed_ports = x_co_exposed_ports,
         co_configured_ports = x_co_configured_ports,
         co_runtime_ports = x_co_runtime_ports, co_mounts = x_co_mounts,
         co_networks = x_co_networks, co_network_mode = x_co_network_mode,
         co_command = x_co_command, co_entrypoint = x_co_entrypoint,
         co_healthcheck = x_co_healthcheck, co_restart = x_co_restart,
         co_runtime = x_co_runtime\<rparr>)))))))))))))))))))))"

section \<open>Networks and volumes\<close>

definition ipam_config_of :: "json_value \<Rightarrow> decode_error + ipam_config_observation" where
  "ipam_config_of item =
     bind_res (json_entries item FNetworkIpam) (\<lambda>_.
     bind_res (string_field item [''Subnet''] FNetworkIpam Effective) (\<lambda>x_ip_subnet.
     bind_res (string_field item [''Gateway''] FNetworkIpam Effective) (\<lambda>x_ip_gateway.
     bind_res (string_field item [''IPRange''] FNetworkIpam Effective) (\<lambda>x_ip_range.
     bind_res (observe_field item [''AuxiliaryAddresses''] FNetworkIpam Effective (\<lambda>v. map_entries v FNetworkIpam)) (\<lambda>x_ip_auxiliary.
       Inr \<lparr>ip_subnet = x_ip_subnet, ip_gateway = x_ip_gateway, ip_range = x_ip_range,
         ip_auxiliary = x_ip_auxiliary\<rparr>)))))"

definition ipam_configs_of :: "json_value \<Rightarrow> decode_error + ipam_config_observation list" where
  "ipam_configs_of v = bind_res (json_list v FNetworkIpam) (\<lambda>vs. map_res ipam_config_of vs)"

definition endpoint_details_of :: "field_path \<Rightarrow> json_value \<Rightarrow> decode_error + endpoint_details" where
  "endpoint_details_of field details =
     bind_res (json_entries details field) (\<lambda>_.
     bind_res (string_field details [''Name''] field Effective) (\<lambda>name. Inr \<lparr>ed_name = name\<rparr>))"

definition active_endpoint_of :: "nat \<times> bytes \<times> json_value \<Rightarrow> decode_error + active_endpoint" where
  "active_endpoint_of it =
     (let (index, i, entry) = it; field = FNetwork index in
      if length i \<noteq> 64 \<or> \<not> list_all is_hexdigit i then Inl (InvalidValue field)
      else bind_res (observe_field entry [] field RuntimeAssigned (endpoint_details_of field)) (\<lambda>details.
        Inr \<lparr>ae_container = present i Present RuntimeAssigned, ae_endpoint = details\<rparr>))"

definition active_endpoints_of :: "json_value \<Rightarrow> decode_error + active_endpoint list" where
  "active_endpoints_of v =
     bind_res (json_entries v (FNetwork 0)) (\<lambda>kvs. map_res active_endpoint_of (enumerate 0 kvs))"

definition network_of :: "json_value \<Rightarrow> resource_ref \<Rightarrow> decode_error + network_observation" where
  "network_of root reference =
     bind_res (json_entries root FOther) (\<lambda>_.
     bind_res (string_field root [''Id''] (FNetwork 0) RuntimeAssigned) (\<lambda>x_no_id.
     bind_res (observe_field root [''Containers''] (FNetwork 0) RuntimeAssigned active_endpoints_of) (\<lambda>x_no_endpoints.
     bind_res (string_field root [''Name''] (FNetwork 0) Effective) (\<lambda>x_no_name.
     bind_res (string_field root [''Driver''] (FNetwork 0) Effective) (\<lambda>x_no_driver.
     bind_res (boolean_field root [''Internal''] (FNetwork 0) Effective) (\<lambda>x_no_internal.
     bind_res (boolean_field root [''EnableIPv6''] FNetworkOption Effective) (\<lambda>x_no_ipv6.
     bind_res (string_field root [''IPAM'', ''Driver''] FNetworkIpam Effective) (\<lambda>x_no_ipam_driver.
     bind_res (observe_field root [''IPAM'', ''Config''] FNetworkIpam Effective ipam_configs_of) (\<lambda>x_no_ipam_configs.
     bind_res (observe_field root [''Options''] FNetworkOption Effective (\<lambda>v. map_entries v FNetworkOption)) (\<lambda>x_no_options.
     bind_res (observe_field root [''Labels''] (FLabel 0) Effective labels_of) (\<lambda>x_no_labels.
       Inr \<lparr>no_reference = reference, no_id = x_no_id, no_endpoints = x_no_endpoints,
         no_name = x_no_name, no_driver = x_no_driver, no_internal = x_no_internal,
         no_ipv6 = x_no_ipv6, no_ipam_driver = x_no_ipam_driver,
         no_ipam_configs = x_no_ipam_configs, no_options = x_no_options,
         no_labels = x_no_labels\<rparr>)))))))))))"

definition volume_of :: "json_value \<Rightarrow> resource_ref \<Rightarrow> decode_error + volume_observation" where
  "volume_of root reference =
     bind_res (json_entries root FOther) (\<lambda>_.
     bind_res (string_field root [''Name''] (FVolume 0) Effective) (\<lambda>x_vo_name.
     bind_res (string_field root [''Driver''] (FVolume 0) Effective) (\<lambda>x_vo_driver.
     bind_res (string_field root [''Mountpoint''] (FVolume 0) RuntimeAssigned) (\<lambda>x_vo_mountpoint.
     bind_res (observe_field root [''Options''] (FVolume 0) Effective (\<lambda>v. map_entries v (FVolume 0))) (\<lambda>x_vo_options.
     bind_res (observe_field root [''Labels''] (FLabel 0) Effective labels_of) (\<lambda>x_vo_labels.
       Inr \<lparr>vo_reference = reference, vo_name = x_vo_name, vo_driver = x_vo_driver,
         vo_mountpoint = x_vo_mountpoint, vo_options = x_vo_options,
         vo_labels = x_vo_labels\<rparr>))))))"

end
