(* ===== verification/Decoder.thy ===== *)
theory Decoder
  imports Decoder_Resources Acquisition
begin

text \<open>
  \<^verbatim>\<open>decode_capture\<close> of \<^verbatim>\<open>src/decoder.rs\<close>: one pass over the exchanges of a capture, which collects
  the inventory and what was listed and inspected, and the checks of completeness and version
  range after it. The JSON parser is the first argument. The arrays indexed by the kind of a
  resource (0 container, 1 network, 2 volume) are functions; hash sets and maps are sets and maps.
\<close>

section \<open>The state of the pass\<close>

record decode_state =
  ds_result :: decoded_inventory
  ds_seen :: "(nat \<times> resource_ref) set"
  ds_listed :: "nat \<Rightarrow> bytes set"
  ds_inspected :: "nat \<Rightarrow> bytes set"
  ds_native :: "nat \<Rightarrow> bytes set"
  ds_by_ref :: "resource_ref \<rightharpoonup> bytes"
  ds_selected :: "bytes set option"
  ds_version_seen :: bool
  ds_info_seen :: bool

definition initial_inventory :: "capture \<Rightarrow> decoded_inventory" where
  "initial_inventory c =
     \<lparr>di_observation = cap_observation c,
      di_version =
        \<lparr>dv_daemon = \<lparr>df_observation = cap_observation c, df_release = None, df_api = None,
           df_minimum_api = None, df_mode = UnknownMode, df_capabilities = []\<rparr>,
         dv_support = \<lparr>rs_observation_id = cap_observation c,
           rs_memory_limit = unavailable Missing Effective, rs_swap_limit = unavailable Missing Effective\<rparr>,
         dv_client = None, dv_package = None, dv_requested = []\<rparr>,
      di_containers = [], di_discovered = [], di_roots = cap_roots c, di_networks = [],
      di_volumes = [], di_findings = []\<rparr>"

definition initial_decode :: "capture \<Rightarrow> decode_state" where
  "initial_decode c =
     \<lparr>ds_result = initial_inventory c, ds_seen = {}, ds_listed = (\<lambda>_. {}), ds_inspected = (\<lambda>_. {}),
      ds_native = (\<lambda>_. {}), ds_by_ref = (\<lambda>_. None), ds_selected = None, ds_version_seen = False,
      ds_info_seen = False\<rparr>"

definition daemon_of :: "decode_state \<Rightarrow> daemon_facts" where
  "daemon_of st = dv_daemon (di_version (ds_result st))"

definition with_daemon :: "daemon_facts \<Rightarrow> decode_state \<Rightarrow> decode_state" where
  "with_daemon f st =
     (let r = ds_result st in st\<lparr>ds_result := r\<lparr>di_version := (di_version r)\<lparr>dv_daemon := f\<rparr>\<rparr>\<rparr>)"

definition with_support :: "resource_support_observation \<Rightarrow> decode_state \<Rightarrow> decode_state" where
  "with_support s st =
     (let r = ds_result st in st\<lparr>ds_result := r\<lparr>di_version := (di_version r)\<lparr>dv_support := s\<rparr>\<rparr>\<rparr>)"

section \<open>The daemon responses\<close>

definition record_release :: "engine_release option \<Rightarrow> decode_state \<Rightarrow> decode_error + decode_state" where
  "record_release release st =
     (case release of
        None \<Rightarrow> Inr st
      | Some r \<Rightarrow>
          if (case df_release (daemon_of st) of None \<Rightarrow> False | Some known \<Rightarrow> known \<noteq> r)
          then Inl ConflictingFacts
          else Inr (with_daemon ((daemon_of st)\<lparr>df_release := Some r\<rparr>) st))"

definition decode_version :: "json_value \<Rightarrow> decode_state \<Rightarrow> decode_error + decode_state" where
  "decode_version body st0 =
     (if ds_version_seen st0 then Inl ConflictingFacts
      else
        bind_res (json_entries body FOther) (\<lambda>_.
        bind_res (release_field body ''Version'') (\<lambda>release.
        bind_res (record_release release (st0\<lparr>ds_version_seen := True\<rparr>)) (\<lambda>st.
        bind_res (version_field body ''ApiVersion'') (\<lambda>api.
        bind_res (version_field body ''MinAPIVersion'') (\<lambda>minimum.
          Inr (with_daemon ((daemon_of st)\<lparr>df_api := api, df_minimum_api := minimum\<rparr>) st)))))))"

text \<open>A value that is there, neither null nor redacted.\<close>

definition reported :: "json_value option \<Rightarrow> json_value option" where
  "reported found =
     (case found of None \<Rightarrow> None | Some v \<Rightarrow> if v = VNull \<or> is_redacted v then None else Some v)"

definition rootless_option :: "bytes \<Rightarrow> bool" where
  "rootless_option s \<longleftrightarrow> s = ''name=rootless'' \<or> starts_with s ''name=rootless,''"

definition security_rootless :: "json_value \<Rightarrow> decode_error + bool" where
  "security_rootless options =
     bind_res (json_list options FDaemonMode) (\<lambda>vs.
       try_fold (\<lambda>rootless v. bind_res (ok_or (as_str v) (InvalidShape FDaemonMode)) (\<lambda>s.
         Inr (rootless \<or> rootless_option s))) False vs)"

definition record_security :: "json_value \<Rightarrow> decode_state \<Rightarrow> decode_error + decode_state" where
  "record_security body st =
     bind_res (field_value body [''SecurityOptions''] FDaemonMode) (\<lambda>found.
       case reported found of
         None \<Rightarrow> Inr st
       | Some options \<Rightarrow> bind_res (security_rootless options) (\<lambda>rootless.
           Inr (if rootless then with_daemon ((daemon_of st)\<lparr>df_mode := Rootless\<rparr>) st else st)))"

definition record_rootless :: "json_value \<Rightarrow> decode_state \<Rightarrow> decode_error + decode_state" where
  "record_rootless body st =
     bind_res (field_value body [''Rootless''] FDaemonMode) (\<lambda>found.
       case reported found of
         None \<Rightarrow> Inr st
       | Some v \<Rightarrow> bind_res (ok_or (as_bool v) (InvalidShape FDaemonMode)) (\<lambda>rootless.
           let mode = (if rootless then Rootless else Rootful) in
           if df_mode (daemon_of st) \<noteq> UnknownMode \<and> df_mode (daemon_of st) \<noteq> mode
           then Inl ConflictingFacts
           else Inr (with_daemon ((daemon_of st)\<lparr>df_mode := mode\<rparr>) st)))"

definition decode_info :: "json_value \<Rightarrow> decode_state \<Rightarrow> decode_error + decode_state" where
  "decode_info body st0 =
     (if ds_info_seen st0 then Inl ConflictingFacts
      else
        bind_res (json_entries body FOther) (\<lambda>_.
        bind_res (boolean_field body [''MemoryLimit''] FResourceLimit Effective) (\<lambda>memory.
        bind_res (boolean_field body [''SwapLimit''] FResourceLimit Effective) (\<lambda>swap.
        bind_res (release_field body ''ServerVersion'') (\<lambda>release.
        bind_res (record_release release (with_support
            ((dv_support (di_version (ds_result st0)))\<lparr>rs_memory_limit := memory, rs_swap_limit := swap\<rparr>)
            (st0\<lparr>ds_info_seen := True\<rparr>))) (\<lambda>st.
        bind_res (record_security body st) (\<lambda>st'. record_rootless body st')))))))"

section \<open>The list responses\<close>

definition selects_from_list :: "selector \<Rightarrow> bool" where
  "selects_from_list s =
     (case s of
        ContainerNames _ \<Rightarrow> True | NamePrefix _ \<Rightarrow> True | LabelSelector _ _ \<Rightarrow> True
      | AllContainers \<Rightarrow> True | _ \<Rightarrow> False)"

definition list_id :: "nat \<Rightarrow> bytes \<Rightarrow> decode_state \<Rightarrow> decode_state" where
  "list_id kind i st = st\<lparr>ds_listed := (ds_listed st)(kind := insert i (ds_listed st kind))\<rparr>"

definition list_container_step :: "decode_state \<Rightarrow> json_value \<Rightarrow> decode_error + decode_state" where
  "list_container_step st item =
     bind_res (listed_id item FOther ''Id'') (\<lambda>i.
     bind_res (container_summary_of item) (\<lambda>summary.
       let st' = list_id 0 i st; r = ds_result st' in
       Inr (st'\<lparr>ds_result := r\<lparr>di_discovered := di_discovered r @ [summary]\<rparr>\<rparr>)))"

definition record_expected ::
  "json_parser \<Rightarrow> capture \<Rightarrow> captured_exchange \<Rightarrow> decode_state \<Rightarrow> decode_error + decode_state" where
  "record_expected parse c e st =
     (case cap_selector c of
        None \<Rightarrow> Inr st
      | Some s \<Rightarrow>
          if \<not> selects_from_list s then Inr st
          else (case selected_ids parse (ex_body e) s of
                  Inl _ \<Rightarrow> Inl IncompleteInventory
                | Inr ids \<Rightarrow> Inr (st\<lparr>ds_selected := Some (set (map id_text ids))\<rparr>)))"

definition decode_container_list ::
  "json_parser \<Rightarrow> capture \<Rightarrow> captured_exchange \<Rightarrow> json_value \<Rightarrow> decode_state
   \<Rightarrow> decode_error + decode_state" where
  "decode_container_list parse c e body st =
     (if ds_selected st \<noteq> None then Inl ConflictingFacts
      else
        bind_res (record_expected parse c e st) (\<lambda>st'.
        bind_res (json_list body FOther) (\<lambda>items. try_fold list_container_step st' items)))"

definition list_step :: "nat \<Rightarrow> field_path \<Rightarrow> bytes \<Rightarrow> decode_state \<Rightarrow> json_value \<Rightarrow> decode_error + decode_state" where
  "list_step kind field k st item =
     bind_res (listed_id item field k) (\<lambda>i. Inr (list_id kind i st))"

definition decode_network_list :: "json_value \<Rightarrow> decode_state \<Rightarrow> decode_error + decode_state" where
  "decode_network_list body st =
     bind_res (json_list body FOther) (\<lambda>items. try_fold (list_step 1 (FNetwork 0) ''Id'') st items)"

definition decode_volume_list :: "json_value \<Rightarrow> decode_state \<Rightarrow> decode_error + decode_state" where
  "decode_volume_list body st =
     bind_res (json_entries body FOther) (\<lambda>_.
     bind_res (field_value body [''Volumes''] (FVolume 0)) (\<lambda>found.
       case reported found of
         None \<Rightarrow> Inr st
       | Some volumes \<Rightarrow> bind_res (json_list volumes (FVolume 0)) (\<lambda>items.
           try_fold (list_step 2 (FVolume 0) ''Name'') st items)))"

section \<open>The inspect responses\<close>

definition resource_warning :: "finding_code \<Rightarrow> resource_ref \<Rightarrow> field_path \<Rightarrow> finding" where
  "resource_warning code reference field =
     \<lparr>finding_severity = Warning, finding_code = code, finding_resource = Some reference,
      finding_field = Some field\<rparr>"

definition mount_findings :: "resource_ref \<Rightarrow> nat \<times> mount_observation \<Rightarrow> finding list" where
  "mount_findings reference it =
     (let (index, m) = it in
      (if mo_kind m = MountOther \<or> obs_value (mo_interpretation m) = Some UnsupportedMode
       then [resource_warning UnsupportedValue reference (FMount index)] else [])
      @ (if access_conflicts (mo_interpretation m) (mo_read_write m)
         then [resource_warning NativeConflict reference (FMount index)] else []))"

definition is_test_other :: "native_test option \<Rightarrow> bool" where
  "is_test_other t = (case t of Some (TestOther _) \<Rightarrow> True | _ \<Rightarrow> False)"

definition container_findings :: "container_observation \<Rightarrow> resource_ref \<Rightarrow> finding list" where
  "container_findings c reference =
     (case obs_value (co_mounts c) of
        None \<Rightarrow> [] | Some ms \<Rightarrow> concat (map (mount_findings reference) (enumerate 0 ms)))
     @ (case obs_value (co_network_mode c) of
          None \<Rightarrow> []
        | Some mode \<Rightarrow> if nm_kind mode = DefaultMode \<or> nm_kind mode = BridgeMode then []
            else [resource_warning UnsupportedValue reference FNetworkMode])
     @ (case obs_value (co_healthcheck c) of
          None \<Rightarrow> []
        | Some health \<Rightarrow> if is_test_other (obs_value (nh_test health))
            then [resource_warning UnsupportedValue reference FHealthcheck] else [])"

text \<open>The kind and the requested identifier of an inspection.\<close>

fun inspect_target :: "read_request \<Rightarrow> (nat \<times> bytes) option" where
  "inspect_target (InspectContainer i) = Some (0, id_text i)"
| "inspect_target (InspectNetwork i) = Some (1, id_text i)"
| "inspect_target (InspectVolume i) = Some (2, id_text i)"
| "inspect_target _ = None"

definition expected_key :: "capture \<Rightarrow> nat \<Rightarrow> resource_ref \<Rightarrow> bytes" where
  "expected_key c kind reference =
     (if kind = 2 \<or> (kind = 1 \<and> reference \<in> set (cap_fallbacks c)) then ''Name'' else ''Id'')"

definition native_key :: "nat \<Rightarrow> bytes" where
  "native_key kind = (if kind = 2 then ''Name'' else ''Id'')"

text \<open>The bookkeeping of an inspection that is neither a duplicate nor of another resource.\<close>

definition note_inspected :: "nat \<Rightarrow> bytes \<Rightarrow> bytes \<Rightarrow> resource_ref \<Rightarrow> decode_state \<Rightarrow> decode_state" where
  "note_inspected kind i native_id reference st =
     st\<lparr>ds_native := (ds_native st)(kind := insert native_id (ds_native st kind)),
        ds_seen := insert (kind, reference) (ds_seen st),
        ds_inspected := (ds_inspected st)(kind := insert i (ds_inspected st kind)),
        ds_by_ref := (if kind = 0 then (ds_by_ref st)(reference \<mapsto> i) else ds_by_ref st)\<rparr>"

definition add_resource ::
  "nat \<Rightarrow> json_value \<Rightarrow> resource_ref \<Rightarrow> decoded_inventory \<Rightarrow> decode_error + decoded_inventory" where
  "add_resource kind body reference r =
     (if kind = 0 then
        bind_res (container_of body reference) (\<lambda>c.
          Inr (r\<lparr>di_findings := di_findings r @ container_findings c reference,
             di_containers := di_containers r @ [c]\<rparr>))
      else if kind = 1 then
        bind_res (network_of body reference) (\<lambda>n. Inr (r\<lparr>di_networks := di_networks r @ [n]\<rparr>))
      else
        bind_res (volume_of body reference) (\<lambda>v. Inr (r\<lparr>di_volumes := di_volumes r @ [v]\<rparr>)))"

definition decode_inspect ::
  "capture \<Rightarrow> resource_ref option \<Rightarrow> nat \<Rightarrow> bytes \<Rightarrow> json_value \<Rightarrow> decode_state
   \<Rightarrow> decode_error + decode_state" where
  "decode_inspect c resource kind i body st =
     bind_res (ok_or resource (InvalidShape FOther)) (\<lambda>reference.
       if get_str (expected_key c kind reference) body \<noteq> Some i then Inl ConflictingFacts
       else
         (case get_str (native_key kind) body of
            None \<Rightarrow> Inl (InvalidShape FOther)
          | Some native_id \<Rightarrow>
              if native_id = [] then Inl (InvalidShape FOther)
              else if native_id \<in> ds_native st kind then Inl DuplicateResource
              else if (kind, reference) \<in> ds_seen st then Inl DuplicateResource
              else
                (let st' = note_inspected kind i native_id reference st in
                 bind_res (add_resource kind body reference (ds_result st')) (\<lambda>r.
                   Inr (st'\<lparr>ds_result := r\<rparr>)))))"

section \<open>One exchange\<close>

definition record_api :: "captured_exchange \<Rightarrow> decode_state \<Rightarrow> decode_error + decode_state" where
  "record_api e st =
     (case ex_api e of
        Some api \<Rightarrow>
          (let r = ds_result st; v = di_version r in
           Inr (if api \<in> set (dv_requested v) then st
                else st\<lparr>ds_result := r\<lparr>di_version := v\<lparr>dv_requested := dv_requested v @ [api]\<rparr>\<rparr>\<rparr>))
      | None \<Rightarrow> if ex_request e = DaemonVersion then Inr st else Inl MissingApiVersion)"

definition decode_body ::
  "json_parser \<Rightarrow> capture \<Rightarrow> captured_exchange \<Rightarrow> json_value \<Rightarrow> decode_state
   \<Rightarrow> decode_error + decode_state" where
  "decode_body parse c e body st =
     (case ex_request e of
        DaemonVersion \<Rightarrow> decode_version body st
      | DaemonInfo \<Rightarrow> decode_info body st
      | ListContainers \<Rightarrow> decode_container_list parse c e body st
      | ListNetworks \<Rightarrow> decode_network_list body st
      | ListVolumes \<Rightarrow> decode_volume_list body st
      | request \<Rightarrow>
          (case inspect_target request of
             None \<Rightarrow> Inr st
           | Some (kind, i) \<Rightarrow> decode_inspect c (ex_resource e) kind i body st))"

definition decode_step ::
  "json_parser \<Rightarrow> capture \<Rightarrow> decode_state \<Rightarrow> captured_exchange \<Rightarrow> decode_error + decode_state" where
  "decode_step parse c st e =
     (if status_code (ex_status e) \<noteq> 200 then Inl UnexpectedStatus
      else if length (ex_body e) > max_json_bytes then Inl ResponseTooLarge
      else
        bind_res (ok_or (parse (ex_body e)) InvalidJson) (\<lambda>body.
        bind_res (record_api e st) (\<lambda>st'. decode_body parse c e body st')))"

section \<open>The checks after the pass\<close>

definition selected_of_roots :: "capture \<Rightarrow> decode_state \<Rightarrow> bytes set" where
  "selected_of_roots c st =
     set (concat (map (\<lambda>root. option_list (ds_by_ref st (root_resource root)))
       (filter (\<lambda>root. root_kind root = RootContainer) (cap_roots c))))"

definition selection_incomplete :: "capture \<Rightarrow> decode_state \<Rightarrow> bool" where
  "selection_incomplete c st =
     (case ds_selected st of
        Some expected \<Rightarrow> expected \<noteq> selected_of_roots c st
      | None \<Rightarrow> (case cap_selector c of None \<Rightarrow> False | Some s \<Rightarrow> selects_from_list s))"

definition root_decoded :: "decoded_inventory \<Rightarrow> selected_root \<Rightarrow> bool" where
  "root_decoded r root =
     (case root_kind root of
        RootContainer \<Rightarrow> root_resource root \<in> set (map co_reference (di_containers r))
      | RootNetwork \<Rightarrow> root_resource root \<in> set (map no_reference (di_networks r))
      | RootVolume \<Rightarrow> root_resource root \<in> set (map vo_reference (di_volumes r)))"

definition root_unlisted :: "decode_state \<Rightarrow> selected_root \<Rightarrow> bool" where
  "root_unlisted st root \<longleftrightarrow>
     root_kind root = RootContainer \<and> root_reason root \<noteq> ExactId
     \<and> (case ds_by_ref st (root_resource root) of None \<Rightarrow> True | Some i \<Rightarrow> i \<notin> ds_listed st 0)"

fun roots_incomplete :: "decode_state \<Rightarrow> resource_ref set \<Rightarrow> selected_root list \<Rightarrow> bool" where
  "roots_incomplete st seen [] = False"
| "roots_incomplete st seen (root # roots) =
     (root_resource root \<in> seen \<or> \<not> root_decoded (ds_result st) root \<or> root_unlisted st root
      \<or> roots_incomplete st (insert (root_resource root) seen) roots)"

definition listing_ignored :: "capture \<Rightarrow> decode_state \<Rightarrow> nat \<Rightarrow> bool" where
  "listing_ignored c st kind \<longleftrightarrow>
     \<not> (cap_discovery_only c \<and> kind = 0) \<and> ds_listed st kind \<noteq> {}
     \<and> ds_listed st kind \<inter> ds_inspected st kind = {}"

definition api_out_of_range :: "decode_state \<Rightarrow> bool" where
  "api_out_of_range st =
     (let minimum = df_minimum_api (daemon_of st); maximum = df_api (daemon_of st) in
      (case (minimum, maximum) of (Some m, Some n) \<Rightarrow> m > n | _ \<Rightarrow> False)
      \<or> list_ex (\<lambda>api. (case minimum of None \<Rightarrow> False | Some m \<Rightarrow> api < m)
          \<or> (case maximum of None \<Rightarrow> False | Some n \<Rightarrow> api > n))
         (dv_requested (di_version (ds_result st))))"

definition decode_checks :: "capture \<Rightarrow> decode_state \<Rightarrow> decode_error + unit" where
  "decode_checks c st = checks [
     reject_if (list_ex (\<lambda>reference. (1, reference) \<notin> ds_seen st) (cap_fallbacks c)) IncompleteInventory,
     reject_if (selection_incomplete c st) IncompleteInventory,
     reject_if (length (cap_roots c) \<noteq> cb_selected (cap_bounds c) \<and> cap_roots c \<noteq> []) IncompleteInventory,
     reject_if (roots_incomplete st {} (cap_roots c)) IncompleteInventory,
     reject_if (list_ex (listing_ignored c st) [0, 1, 2]
       \<or> (cap_roots c = [] \<and> cb_selected (cap_bounds c) > length (di_containers (ds_result st))))
       IncompleteInventory,
     reject_if (api_out_of_range st) ApiVersionOutOfRange]"

definition daemon_findings :: "daemon_facts \<Rightarrow> finding list" where
  "daemon_findings d =
     (if df_release d = None \<or> df_api d = None
      then [\<lparr>finding_severity = Warning, finding_code = MissingField, finding_resource = None,
             finding_field = Some FEngineRelease\<rparr>] else [])
     @ (if df_mode d = UnknownMode
        then [\<lparr>finding_severity = Warning, finding_code = CapabilityUnknown, finding_resource = None,
               finding_field = Some FDaemonMode\<rparr>] else [])"

definition decode_capture :: "json_parser \<Rightarrow> capture \<Rightarrow> decode_error + decoded_inventory" where
  "decode_capture parse c =
     (if length (cap_exchanges c) > decoder_max_items then Inl CollectionTooLarge
      else
        bind_res (try_fold (decode_step parse c) (initial_decode c) (cap_exchanges c)) (\<lambda>st.
        bind_res (decode_checks c st) (\<lambda>_.
          let r = ds_result st in
          Inr (r\<lparr>di_findings := di_findings r @ daemon_findings (daemon_of st)\<rparr>))))"

end
