(* ===== verification/Decoder_Steps.thy ===== *)
theory Decoder_Steps
  imports Decoder
begin

text \<open>
  What one exchange does to the state of \<open>decode_capture\<close>: the responses that are not inspections
  leave the decoded resources as they are, an inspection adds exactly one resource, and only the
  daemon's responses change what is known of the daemon.
\<close>

section \<open>Views of the state\<close>

text \<open>The part of the state an inspection adds to.\<close>

definition resource_view :: "decode_state \<Rightarrow> _" where
  "resource_view st = (ds_seen st, ds_inspected st, ds_native st, ds_by_ref st,
     di_containers (ds_result st), di_networks (ds_result st), di_volumes (ds_result st),
     di_findings (ds_result st), di_roots (ds_result st), di_observation (ds_result st))"

text \<open>What is known of the daemon, and the requested versions.\<close>

definition version_view :: "decode_state \<Rightarrow> _" where
  "version_view st = (di_version (ds_result st), ds_version_seen st, ds_info_seen st)"

named_theorems view_simps

lemma with_daemon_view [view_simps]:
  "resource_view (with_daemon f st) = resource_view st" "daemon_of (with_daemon f st) = f"
  "ds_version_seen (with_daemon f st) = ds_version_seen st" "ds_info_seen (with_daemon f st) = ds_info_seen st"
  "dv_requested (di_version (ds_result (with_daemon f st))) = dv_requested (di_version (ds_result st))"
  "dv_support (di_version (ds_result (with_daemon f st))) = dv_support (di_version (ds_result st))"
  "ds_listed (with_daemon f st) = ds_listed st" "ds_selected (with_daemon f st) = ds_selected st"
  by (simp_all add: with_daemon_def resource_view_def daemon_of_def Let_def)

lemma with_support_view [view_simps]:
  "resource_view (with_support s st) = resource_view st" "daemon_of (with_support s st) = daemon_of st"
  "ds_version_seen (with_support s st) = ds_version_seen st" "ds_info_seen (with_support s st) = ds_info_seen st"
  "dv_requested (di_version (ds_result (with_support s st))) = dv_requested (di_version (ds_result st))"
  "dv_support (di_version (ds_result (with_support s st))) = s"
  "ds_listed (with_support s st) = ds_listed st" "ds_selected (with_support s st) = ds_selected st"
  by (simp_all add: with_support_def resource_view_def daemon_of_def Let_def)

lemma list_id_view [view_simps]:
  "resource_view (list_id k i st) = resource_view st" "version_view (list_id k i st) = version_view st"
  "ds_selected (list_id k i st) = ds_selected st"
  by (simp_all add: list_id_def resource_view_def version_view_def)

lemma flag_views [view_simps]:
  "resource_view (st\<lparr>ds_version_seen := b\<rparr>) = resource_view st"
  "resource_view (st\<lparr>ds_info_seen := b\<rparr>) = resource_view st"
  "resource_view (st\<lparr>ds_selected := s\<rparr>) = resource_view st"
  "daemon_of (st\<lparr>ds_version_seen := b\<rparr>) = daemon_of st"
  "daemon_of (st\<lparr>ds_info_seen := b\<rparr>) = daemon_of st"
  by (simp_all add: resource_view_def daemon_of_def)

section \<open>Responses of the daemon\<close>

definition knows_release :: "engine_release option \<Rightarrow> engine_release option \<Rightarrow> engine_release option \<Rightarrow> bool" where
  "knows_release old new release \<longleftrightarrow> (release = None \<longrightarrow> new = old)
     \<and> (release \<noteq> None \<longrightarrow> new = release \<and> (old = None \<or> old = release))"

lemma record_release_Inr:
  "record_release release st = Inr st' \<Longrightarrow>
     resource_view st' = resource_view st \<and> ds_version_seen st' = ds_version_seen st
     \<and> ds_info_seen st' = ds_info_seen st
     \<and> dv_requested (di_version (ds_result st')) = dv_requested (di_version (ds_result st))
     \<and> dv_support (di_version (ds_result st')) = dv_support (di_version (ds_result st))
     \<and> ds_listed st' = ds_listed st \<and> ds_selected st' = ds_selected st
     \<and> knows_release (df_release (daemon_of st)) (df_release (daemon_of st')) release
     \<and> df_api (daemon_of st') = df_api (daemon_of st)
     \<and> df_minimum_api (daemon_of st') = df_minimum_api (daemon_of st)
     \<and> df_mode (daemon_of st') = df_mode (daemon_of st)
     \<and> df_observation (daemon_of st') = df_observation (daemon_of st)
     \<and> df_capabilities (daemon_of st') = df_capabilities (daemon_of st)"
  by (auto simp: record_release_def view_simps knows_release_def split: option.splits if_splits)

text \<open>What the two responses about the daemon leave alone.\<close>

definition daemon_frame :: "decode_state \<Rightarrow> decode_state \<Rightarrow> bool" where
  "daemon_frame st st' \<longleftrightarrow> resource_view st' = resource_view st
     \<and> dv_requested (di_version (ds_result st')) = dv_requested (di_version (ds_result st))
     \<and> ds_listed st' = ds_listed st \<and> ds_selected st' = ds_selected st
     \<and> df_observation (daemon_of st') = df_observation (daemon_of st)
     \<and> df_capabilities (daemon_of st') = df_capabilities (daemon_of st)"

lemma daemon_frame_trans: "daemon_frame a b \<Longrightarrow> daemon_frame b c \<Longrightarrow> daemon_frame a c"
  by (simp add: daemon_frame_def)

lemma decode_version_Inr:
  assumes "decode_version body st = Inr st'"
  shows "daemon_frame st st' \<and> \<not> ds_version_seen st \<and> ds_version_seen st' \<and> ds_info_seen st' = ds_info_seen st
    \<and> dv_support (di_version (ds_result st')) = dv_support (di_version (ds_result st))
    \<and> (\<exists>release. release_field body ''Version'' = Inr release
        \<and> knows_release (df_release (daemon_of st)) (df_release (daemon_of st')) release)
    \<and> version_field body ''ApiVersion'' = Inr (df_api (daemon_of st'))
    \<and> version_field body ''MinAPIVersion'' = Inr (df_minimum_api (daemon_of st'))"
  using assms unfolding decode_version_def
  by (auto simp: bind_res_Inr_iff view_simps daemon_frame_def dest!: record_release_Inr split: if_splits)

text \<open>A step that changes only the mode.\<close>

definition mode_frame :: "decode_state \<Rightarrow> decode_state \<Rightarrow> bool" where
  "mode_frame st st' \<longleftrightarrow> daemon_frame st st' \<and> ds_version_seen st' = ds_version_seen st
     \<and> ds_info_seen st' = ds_info_seen st
     \<and> dv_support (di_version (ds_result st')) = dv_support (di_version (ds_result st))
     \<and> df_release (daemon_of st') = df_release (daemon_of st) \<and> df_api (daemon_of st') = df_api (daemon_of st)
     \<and> df_minimum_api (daemon_of st') = df_minimum_api (daemon_of st)"

lemma mode_frame_mode: "mode_frame st (with_daemon ((daemon_of st)\<lparr>df_mode := m\<rparr>) st)" "mode_frame st st"
  by (simp_all add: mode_frame_def daemon_frame_def view_simps)

lemma record_security_Inr: "record_security body st = Inr st' \<Longrightarrow> mode_frame st st'"
  by (auto simp: record_security_def bind_res_Inr_iff mode_frame_mode split: option.splits if_splits)

lemma record_rootless_Inr: "record_rootless body st = Inr st' \<Longrightarrow> mode_frame st st'"
  by (auto simp: record_rootless_def bind_res_Inr_iff mode_frame_mode Let_def split: option.splits if_splits)

lemma decode_info_Inr:
  assumes "decode_info body st = Inr st'"
  shows "daemon_frame st st' \<and> \<not> ds_info_seen st \<and> ds_info_seen st' \<and> ds_version_seen st' = ds_version_seen st
    \<and> (\<exists>release. release_field body ''ServerVersion'' = Inr release
        \<and> knows_release (df_release (daemon_of st)) (df_release (daemon_of st')) release)
    \<and> boolean_field body [''MemoryLimit''] FResourceLimit Effective
        = Inr (rs_memory_limit (dv_support (di_version (ds_result st'))))
    \<and> boolean_field body [''SwapLimit''] FResourceLimit Effective
        = Inr (rs_swap_limit (dv_support (di_version (ds_result st'))))
    \<and> rs_observation_id (dv_support (di_version (ds_result st')))
        = rs_observation_id (dv_support (di_version (ds_result st)))
    \<and> df_api (daemon_of st') = df_api (daemon_of st)
    \<and> df_minimum_api (daemon_of st') = df_minimum_api (daemon_of st)"
proof -
  let ?st = "\<lambda>memory swap. with_support ((dv_support (di_version (ds_result st)))
      \<lparr>rs_memory_limit := memory, rs_swap_limit := swap\<rparr>) (st\<lparr>ds_info_seen := True\<rparr>)"
  obtain memory swap release st1 st2 where s: "\<not> ds_info_seen st"
    "boolean_field body [''MemoryLimit''] FResourceLimit Effective = Inr memory"
    "boolean_field body [''SwapLimit''] FResourceLimit Effective = Inr swap"
    "release_field body ''ServerVersion'' = Inr release" "record_release release (?st memory swap) = Inr st1"
    "record_security body st1 = Inr st2" "record_rootless body st2 = Inr st'"
    using assms unfolding decode_info_def bind_res_Inr_iff by (auto simp: bind_res_Inr_iff split: if_splits)
  note r = record_release_Inr [OF s(5)] record_security_Inr [OF s(6)] record_rootless_Inr [OF s(7)]
  from r s show ?thesis by (auto simp: mode_frame_def daemon_frame_def view_simps)
qed

section \<open>Lists\<close>

text \<open>What the list responses leave alone.\<close>

definition list_frame :: "decode_state \<Rightarrow> decode_state \<Rightarrow> bool" where
  "list_frame st st' \<longleftrightarrow> resource_view st' = resource_view st \<and> version_view st' = version_view st"

lemma list_frame_refl: "list_frame st st"
  by (simp add: list_frame_def)

lemma list_frame_fold:
  assumes "\<And>st x st'. f st x = Inr st' \<Longrightarrow> list_frame st st'" and "try_fold f st xs = Inr t"
  shows "list_frame st t"
  by (rule try_fold_invariant [OF _ assms(2) list_frame_refl]) (auto simp: list_frame_def dest!: assms(1))

lemma list_container_step_Inr:
  "list_container_step st item = Inr st' \<Longrightarrow> list_frame st st' \<and> ds_selected st' = ds_selected st"
  by (auto simp: list_container_step_def bind_res_Inr_iff Let_def list_frame_def resource_view_def
      version_view_def list_id_def)

lemma list_step_Inr: "list_step k field name st item = Inr st' \<Longrightarrow> list_frame st st' \<and> ds_selected st' = ds_selected st"
  by (auto simp: list_step_def bind_res_Inr_iff list_frame_def view_simps)

lemma selected_fold:
  assumes "\<And>st x st'. f st x = Inr st' \<Longrightarrow> list_frame st st' \<and> ds_selected st' = ds_selected st"
    and "try_fold f st xs = Inr t"
  shows "list_frame st t \<and> ds_selected t = ds_selected st"
  using assms list_frame_fold [OF _ assms(2)]
    try_fold_invariant [OF _ assms(2), where I = "\<lambda>t. ds_selected t = ds_selected st"] by force

lemma list_steps_Inr:
  "try_fold (list_step k field name) st xs = Inr t \<Longrightarrow> list_frame st t \<and> ds_selected t = ds_selected st"
  by (rule selected_fold [where f = "list_step k field name"]) (rule list_step_Inr)

lemma decode_network_list_Inr:
  "decode_network_list body st = Inr st' \<Longrightarrow> list_frame st st' \<and> ds_selected st' = ds_selected st"
  by (auto simp: decode_network_list_def bind_res_Inr_iff simp del: One_nat_def dest!: list_steps_Inr)

lemma decode_volume_list_Inr:
  "decode_volume_list body st = Inr st' \<Longrightarrow> list_frame st st' \<and> ds_selected st' = ds_selected st"
  by (auto simp: decode_volume_list_def bind_res_Inr_iff list_frame_refl
      simp del: field_value.simps split: option.splits
      dest!: list_steps_Inr)

definition selects :: "capture \<Rightarrow> bool" where
  "selects c \<longleftrightarrow> (case cap_selector c of None \<Rightarrow> False | Some s \<Rightarrow> selects_from_list s)"

lemma record_expected_Inr:
  "record_expected parse c e st = Inr st' \<Longrightarrow> list_frame st st' \<and>
     (if selects c then \<exists>s ids. cap_selector c = Some s \<and> selected_ids parse (ex_body e) s = Inr ids
        \<and> ds_selected st' = Some (set (map id_text ids))
      else ds_selected st' = ds_selected st)"
  by (auto simp: record_expected_def list_frame_def resource_view_def version_view_def selects_def
      split: option.splits if_splits sum.splits)

lemma decode_container_list_Inr:
  assumes "decode_container_list parse c e body st = Inr st'"
  shows "list_frame st st' \<and> ds_selected st = None \<and>
     (if selects c then \<exists>s ids. cap_selector c = Some s \<and> selected_ids parse (ex_body e) s = Inr ids
        \<and> ds_selected st' = Some (set (map id_text ids))
      else ds_selected st' = ds_selected st)"
proof -
  obtain st1 items where s: "ds_selected st = None" "record_expected parse c e st = Inr st1"
    "try_fold list_container_step st1 items = Inr st'"
    using assms by (auto simp: decode_container_list_def bind_res_Inr_iff split: if_splits)
  from record_expected_Inr [OF s(2)] selected_fold [OF list_container_step_Inr s(3)] s(1)
  show ?thesis by (auto simp: list_frame_def)
qed

section \<open>Inspections\<close>

text \<open>The resource an inspection adds.\<close>

definition adds :: "nat \<Rightarrow> json_value \<Rightarrow> resource_ref \<Rightarrow> decoded_inventory \<Rightarrow> decoded_inventory \<Rightarrow> bool" where
  "adds kind body r old new \<longleftrightarrow>
     (if kind = 0 then \<exists>x. container_of body r = Inr x \<and> new = old\<lparr>
          di_findings := di_findings old @ container_findings x r, di_containers := di_containers old @ [x]\<rparr>
      else if kind = 1 then \<exists>x. network_of body r = Inr x \<and> new = old\<lparr>di_networks := di_networks old @ [x]\<rparr>
      else \<exists>x. volume_of body r = Inr x \<and> new = old\<lparr>di_volumes := di_volumes old @ [x]\<rparr>)"

lemma add_resource_Inr: "add_resource kind body r old = Inr new \<longleftrightarrow> adds kind body r old new"
  by (auto simp: add_resource_def adds_def bind_res_Inr_iff)

text \<open>An inspection that is decoded: under a reference, of the requested resource, and new.\<close>

definition inspects ::
  "capture \<Rightarrow> resource_ref option \<Rightarrow> nat \<Rightarrow> bytes \<Rightarrow> json_value \<Rightarrow> resource_ref \<Rightarrow> bytes
   \<Rightarrow> decode_state \<Rightarrow> decode_state \<Rightarrow> bool" where
  "inspects c resource kind i body r n st st' \<longleftrightarrow>
     resource = Some r \<and> get_str (expected_key c kind r) body = Some i
     \<and> get_str (native_key kind) body = Some n \<and> n \<noteq> []
     \<and> n \<notin> ds_native st kind \<and> (kind, r) \<notin> ds_seen st
     \<and> (\<exists>new. adds kind body r (ds_result st) new
          \<and> st' = (note_inspected kind i n r st)\<lparr>ds_result := new\<rparr>)"

lemma decode_inspect_Inr:
  "decode_inspect c resource kind i body st = Inr st' \<longleftrightarrow> (\<exists>r n. inspects c resource kind i body r n st st')"
proof -
  have result: "ds_result (note_inspected kind i n r st) = ds_result st" for n r
    by (simp add: note_inspected_def)
  show ?thesis
    by (cases resource; cases "get_str (native_key kind) body")
      (auto simp: decode_inspect_def inspects_def bind_res_Inr_iff ok_or_Inr_iff add_resource_Inr result Let_def)
qed

section \<open>One exchange\<close>

lemma record_api_Inr:
  "record_api e st = Inr st' \<Longrightarrow>
     resource_view st' = resource_view st \<and> daemon_of st' = daemon_of st
     \<and> ds_version_seen st' = ds_version_seen st \<and> ds_info_seen st' = ds_info_seen st
     \<and> dv_support (di_version (ds_result st')) = dv_support (di_version (ds_result st))
     \<and> ds_listed st' = ds_listed st \<and> ds_selected st' = ds_selected st
     \<and> (ex_api e = None \<longrightarrow> ex_request e = DaemonVersion)
     \<and> dv_requested (di_version (ds_result st')) = (case ex_api e of
          Some api \<Rightarrow> if api \<in> set (dv_requested (di_version (ds_result st))) then dv_requested (di_version (ds_result st))
            else dv_requested (di_version (ds_result st)) @ [api]
        | None \<Rightarrow> dv_requested (di_version (ds_result st)))"
  by (auto simp: record_api_def Let_def resource_view_def daemon_of_def split: option.splits if_splits)

lemma decode_step_Inr:
  "decode_step parse c st e = Inr st' \<longleftrightarrow>
     status_code (ex_status e) = 200 \<and> length (ex_body e) \<le> max_json_bytes
     \<and> (\<exists>body st1. parse (ex_body e) = Some body \<and> record_api e st = Inr st1
        \<and> decode_body parse c e body st1 = Inr st')"
  by (auto simp: decode_step_def bind_res_Inr_iff ok_or_Inr_iff)

lemma decode_capture_Inr:
  "decode_capture parse c = Inr r \<longleftrightarrow> length (cap_exchanges c) \<le> decoder_max_items
     \<and> (\<exists>st. try_fold (decode_step parse c) (initial_decode c) (cap_exchanges c) = Inr st
        \<and> decode_checks c st = Inr ()
        \<and> r = (ds_result st)\<lparr>di_findings := di_findings (ds_result st) @ daemon_findings (daemon_of st)\<rparr>)"
  by (auto simp: decode_capture_def bind_res_Inr_iff Let_def)

text \<open>The body of an exchange that is not an inspection.\<close>

lemma decode_body_quiet:
  assumes "decode_body parse c e body st = Inr st'" and "inspect_target (ex_request e) = None"
  shows "resource_view st' = resource_view st
    \<and> dv_requested (di_version (ds_result st')) = dv_requested (di_version (ds_result st))"
  using assms by (cases "ex_request e")
    (auto simp: decode_body_def daemon_frame_def list_frame_def version_view_def dest!: decode_version_Inr decode_info_Inr
      decode_container_list_Inr decode_network_list_Inr decode_volume_list_Inr)

lemma decode_body_inspect:
  assumes "inspect_target (ex_request e) = Some (kind, i)"
  shows "decode_body parse c e body st = decode_inspect c (ex_resource e) kind i body st"
  using assms by (cases "ex_request e") (simp_all add: decode_body_def)

text \<open>The effect of an exchange on the resources.\<close>

lemma step_resources:
  assumes "decode_step parse c st e = Inr st'"
  shows "\<exists>body. parse (ex_body e) = Some body \<and>
    (case inspect_target (ex_request e) of
       None \<Rightarrow> resource_view st' = resource_view st
     | Some (kind, i) \<Rightarrow> \<exists>r n st1. resource_view st1 = resource_view st
         \<and> inspects c (ex_resource e) kind i body r n st1 st')"
proof -
  obtain body st1 where s: "parse (ex_body e) = Some body" "record_api e st = Inr st1"
    "decode_body parse c e body st1 = Inr st'" using assms by (auto simp: decode_step_Inr)
  note v = record_api_Inr [OF s(2)]
  show ?thesis
  proof (cases "inspect_target (ex_request e)")
    case None
    with decode_body_quiet [OF s(3)] v s(1) show ?thesis by simp
  next
    case (Some t)
    obtain kind i where t: "t = (kind, i)" by force
    then have "decode_inspect c (ex_resource e) kind i body st1 = Inr st'"
      using s(3) Some decode_body_inspect by simp
    then obtain r n where "inspects c (ex_resource e) kind i body r n st1 st'"
      by (auto simp: decode_inspect_Inr)
    with v s(1) Some t show ?thesis by auto
  qed
qed

end
