(* ===== verification/Decoder_Facts.thy ===== *)
theory Decoder_Facts
  imports Decoder_Properties
begin

text \<open>
  What a decoded inventory says of the daemon: the facts are those of its one version response and
  its one info response, they never disagree, every request was made in the range the daemon
  supports, and they are usable for the assessment of capabilities when nothing is reported missing.
\<close>

section \<open>The invariants\<close>

lemma versions_from_step:
  assumes "versions_from es st" and "decode_step parse c st e = Inr st'"
  shows "versions_from (es @ [e]) st'"
proof -
  obtain body st1 where s: "status_code (ex_status e) = 200" "length (ex_body e) \<le> max_json_bytes"
    "record_api e st = Inr st1" "decode_body parse c e body st1 = Inr st'"
    using assms(2) by (auto simp: decode_step_Inr)
  note a = record_api_Inr [OF s(3)]
  have "dv_requested (di_version (ds_result st')) = dv_requested (di_version (ds_result st1))"
  proof (cases "inspect_target (ex_request e)")
    case None
    then show ?thesis using decode_body_quiet [OF s(4)] by simp
  next
    case (Some t)
    then have "ex_request e \<noteq> DaemonVersion \<and> ex_request e \<noteq> DaemonInfo" by auto
    then show ?thesis using decode_body_other [OF s(4)] by (simp add: version_view_def)
  qed
  with a s(1,2) assms(1) show ?thesis by (auto simp: versions_from_def split: option.splits if_splits)
qed

lemma facts_from_step:
  assumes "facts_from parse c es st" and "decode_step parse c st e = Inr st'"
  shows "facts_from parse c (es @ [e]) st'"
proof -
  obtain body st1 where s: "parse (ex_body e) = Some body" "record_api e st = Inr st1"
    "decode_body parse c e body st1 = Inr st'"
    using assms(2) by (auto simp: decode_step_Inr)
  note a = record_api_Inr [OF s(2)]
  have same: "support_of st1 = support_of st" "daemon_of st1 = daemon_of st" using a by (simp_all add: support_of_def)
  have f1: "facts_from parse c es st1" using assms(1) a same by (simp add: facts_from_def)
  consider "ex_request e = DaemonVersion" | "ex_request e = DaemonInfo"
    | "ex_request e \<noteq> DaemonVersion" "ex_request e \<noteq> DaemonInfo" by blast
  then show ?thesis
  proof cases
    case 1
    with s(3) have d: "decode_version body st1 = Inr st'" by (simp add: decode_body_def)
    note v = decode_version_Inr [OF d]
    have "\<forall>e \<in> set es. ex_request e \<noteq> DaemonVersion"
      using f1 v by (auto simp: facts_from_def filter_empty_conv)
    moreover have "info_reported parse e' (daemon_of st') (support_of st')"
      if "info_reported parse e' (daemon_of st1) (support_of st1)" for e'
      using that v by (auto simp: info_reported_def support_of_def knows_release_def)
    moreover have "version_reported parse e (daemon_of st')"
      using v s(1) by (auto simp: version_reported_def knows_release_def)
    ultimately show ?thesis using f1 v 1 by (auto simp: facts_from_def daemon_frame_def support_of_def)
  next
    case 2
    with s(3) have d: "decode_info body st1 = Inr st'" by (simp add: decode_body_def)
    note v = decode_info_Inr [OF d]
    have "\<forall>e \<in> set es. ex_request e \<noteq> DaemonInfo"
      using f1 v by (auto simp: facts_from_def filter_empty_conv)
    moreover have "version_reported parse e' (daemon_of st')"
      if "version_reported parse e' (daemon_of st1)" for e'
      using that v by (auto simp: version_reported_def knows_release_def)
    moreover have "info_reported parse e (daemon_of st') (support_of st')"
      using v s(1) by (auto simp: info_reported_def support_of_def knows_release_def)
    ultimately show ?thesis using f1 v 2 by (auto simp: facts_from_def daemon_frame_def support_of_def)
  next
    case 3
    with decode_body_other [OF s(3)] f1 show ?thesis
      by (auto simp: facts_from_def version_view_def daemon_of_def support_of_def)
  qed
qed

lemma pass_facts:
  assumes "try_fold (decode_step parse c) (initial_decode c) es = Inr st"
  shows "versions_from es st \<and> facts_from parse c es st"
proof (rule try_fold_visited [OF _ _ assms])
  show "versions_from [] (initial_decode c) \<and> facts_from parse c [] (initial_decode c)"
    by (simp add: versions_from_def facts_from_def initial_decode_def initial_inventory_def daemon_of_def support_of_def)
qed (blast intro: versions_from_step facts_from_step)

lemma capture_facts:
  assumes "decode_capture parse c = Inr r"
  obtains st where "decode_checks c st = Inr ()" and "versions_from (cap_exchanges c) st"
    and "facts_from parse c (cap_exchanges c) st"
    and "r = (ds_result st)\<lparr>di_findings := di_findings (ds_result st) @ daemon_findings (daemon_of st)\<rparr>"
  using assms pass_facts unfolding decode_capture_Inr by blast

section \<open>Findings\<close>

definition findings_of :: "container_observation list \<Rightarrow> finding list" where
  "findings_of xs = concat (map (\<lambda>x. container_findings x (co_reference x)) xs)"

lemma pass_findings:
  assumes "try_fold (decode_step parse c) (initial_decode c) es = Inr st"
  shows "di_findings (ds_result st) = findings_of (di_containers (ds_result st))"
proof (rule try_fold_invariant [OF _ assms])
  show "di_findings (ds_result (initial_decode c)) = findings_of (di_containers (ds_result (initial_decode c)))"
    by (simp add: findings_of_def initial_decode_def initial_inventory_def)
next
  fix st e st'
  assume old: "di_findings (ds_result st) = findings_of (di_containers (ds_result st))"
    and step: "decode_step parse c st e = Inr st'"
  obtain body where eff: "case inspect_target (ex_request e) of
       None \<Rightarrow> resource_view st' = resource_view st
     | Some (kind, i) \<Rightarrow> \<exists>r n st1. resource_view st1 = resource_view st
         \<and> inspects c (ex_resource e) kind i body r n st1 st'" using step_resources [OF step] by blast
  show "di_findings (ds_result st') = findings_of (di_containers (ds_result st'))"
  proof (cases "inspect_target (ex_request e)")
    case None
    with eff old show ?thesis by (simp add: resource_view_def)
  next
    case (Some t)
    obtain kind i where t: "t = (kind, i)" by force
    with eff Some obtain r st1 where "resource_view st1 = resource_view st"
      "adds kind body r (ds_result st1) (ds_result st')" by (auto simp: inspects_def)
    with old container_of_fields show ?thesis
      by (fastforce simp: resource_view_def adds_def findings_of_def split: if_splits)
  qed
qed

lemma capture_findings:
  assumes "decode_capture parse c = Inr r"
  shows "di_findings r = findings_of (di_containers r) @ daemon_findings (dv_daemon (di_version r))"
  using assms by (rule capture_pass) (simp add: pass_findings daemon_of_def)

lemma in_enumerated:
  "f \<in> set (concat (map g (enumerate 0 ms))) \<longleftrightarrow> (\<exists>k < length ms. f \<in> set (g (k, ms ! k)))"
proof -
  have "(\<exists>p. p \<in> set (enumerate 0 ms) \<and> f \<in> set (g p)) \<longleftrightarrow> (\<exists>k < length ms. f \<in> set (g (k, ms ! k)))"
    by (auto simp: in_set_enumerate_eq)
  then show ?thesis by (simp only: set_concat set_map) blast
qed

lemma in_container_findings:
  "f \<in> set (container_findings x r) \<longleftrightarrow>
     (\<exists>ms k. obs_value (co_mounts x) = Some ms \<and> k < length ms \<and> f \<in> set (mount_findings r (k, ms ! k)))
     \<or> (\<exists>m. obs_value (co_network_mode x) = Some m \<and> nm_kind m \<notin> {DefaultMode, BridgeMode}
          \<and> f = resource_warning UnsupportedValue r FNetworkMode)
     \<or> (\<exists>h. obs_value (co_healthcheck x) = Some h \<and> f = resource_warning UnsupportedValue r FHealthcheck
          \<and> is_test_other (obs_value (nh_test h)))"
  by (cases "obs_value (co_mounts x)"; cases "obs_value (co_network_mode x)"; cases "obs_value (co_healthcheck x)")
    (simp_all add: container_findings_def in_enumerated del: set_concat)

lemma findings_of_resource: "f \<in> set (findings_of xs) \<Longrightarrow> finding_resource f \<noteq> None"
  by (auto simp: findings_of_def in_container_findings mount_findings_def resource_warning_def split: if_splits)

section \<open>Theorems\<close>

text \<open>Every exchange of a decoded capture was answered with status 200 within the size limit, and
  was made with an API version, except the first question for the version; each of these versions
  lies between the minimum and the maximum that the daemon reports.\<close>

theorem requests_in_api_range:
  assumes "decode_capture parse c = Inr r" and "e \<in> set (cap_exchanges c)"
  shows "status_code (ex_status e) = 200 \<and> length (ex_body e) \<le> max_json_bytes
    \<and> (ex_api e = None \<longrightarrow> ex_request e = DaemonVersion)
    \<and> (\<forall>api m. ex_api e = Some api \<and> df_minimum_api (dv_daemon (di_version r)) = Some m \<longrightarrow> m \<le> api)
    \<and> (\<forall>api m. ex_api e = Some api \<and> df_api (dv_daemon (di_version r)) = Some m \<longrightarrow> api \<le> m)"
proof -
  from assms(1) obtain st where st: "decode_checks c st = Inr ()" "versions_from (cap_exchanges c) st"
    "dv_daemon (di_version r) = daemon_of st" by (rule capture_facts) (simp add: daemon_of_def)
  from st(1) have "\<not> api_out_of_range st" by (simp add: decode_checks_def check_simps)
  moreover have "api \<in> set (dv_requested (di_version (ds_result st)))" if "ex_api e = Some api" for api
    using st(2) assms(2) that by (auto simp: versions_from_def)
  ultimately show ?thesis using st(2,3) assms(2)
    by (fastforce simp: versions_from_def api_out_of_range_def Let_def list_ex_iff not_less)
qed

text \<open>A decoded capture asked the daemon for its version and for its information at most once
  each, and the inventory holds exactly what they reported; the two reported releases agree. All of
  it is scoped to the observation of the capture.\<close>

theorem daemon_facts_reported:
  assumes "decode_capture parse c = Inr r"
  shows "length (filter (\<lambda>e. ex_request e = DaemonVersion) (cap_exchanges c)) \<le> 1
    \<and> length (filter (\<lambda>e. ex_request e = DaemonInfo) (cap_exchanges c)) \<le> 1
    \<and> (\<forall>e \<in> set (cap_exchanges c).
        (ex_request e = DaemonVersion \<longrightarrow> version_reported parse e (dv_daemon (di_version r)))
        \<and> (ex_request e = DaemonInfo
             \<longrightarrow> info_reported parse e (dv_daemon (di_version r)) (dv_support (di_version r))))
    \<and> df_observation (dv_daemon (di_version r)) = di_observation r
    \<and> rs_observation_id (dv_support (di_version r)) = di_observation r"
proof -
  from assms obtain st where st: "facts_from parse c (cap_exchanges c) st"
    "dv_daemon (di_version r) = daemon_of st" "dv_support (di_version r) = support_of st"
    by (rule capture_facts) (simp add: daemon_of_def support_of_def)
  moreover have "di_observation r = cap_observation c"
    using assms by (rule capture_pass) (simp add: requests_from_def)
  ultimately show ?thesis by (auto simp: facts_from_def)
qed

lemma api_range_valid:
  assumes "decode_checks c st = Inr ()" and "df_minimum_api (daemon_of st) = Some m" and "df_api (daemon_of st) = Some n"
  shows "\<not> n < m"
  using assms by (auto simp: decode_checks_def check_simps api_out_of_range_def)

text \<open>C39: the decoder and the validation of daemon facts agree: the decoded facts are valid exactly
  when the decoder has no finding about the daemon itself, that is when the release, the API version
  and the mode are all known.\<close>

theorem decoded_facts_validate:
  assumes "decode_capture parse c = Inr r"
  shows "(\<exists>v. validated_capabilities_new (dv_daemon (di_version r)) = Inr v)
    \<longleftrightarrow> (\<forall>f \<in> set (di_findings r). finding_resource f \<noteq> None)"
proof -
  from assms obtain st where st: "decode_checks c st = Inr ()" "facts_from parse c (cap_exchanges c) st"
    "r = (ds_result st)\<lparr>di_findings := di_findings (ds_result st) @ daemon_findings (daemon_of st)\<rparr>"
    by (rule capture_facts)
  have d: "dv_daemon (di_version r) = daemon_of st" using st(3) by (simp add: daemon_of_def)
  let ?d = "daemon_of st"
  have "(\<exists>v. validated_capabilities_new ?d = Inr v) \<longleftrightarrow>
      df_release ?d \<noteq> None \<and> df_api ?d \<noteq> None \<and> df_mode ?d \<noteq> UnknownMode"
    using api_range_valid [OF st(1)] st(2)
    by (cases "df_release ?d"; cases "df_api ?d"; cases "df_minimum_api ?d")
      (simp_all add: validated_capabilities_new_def facts_from_def)
  also have "\<dots> \<longleftrightarrow> daemon_findings ?d = []"
    by (auto simp: daemon_findings_def)
  also have "\<dots> \<longleftrightarrow> (\<forall>f \<in> set (di_findings r). finding_resource f \<noteq> None)"
    using findings_of_resource unfolding capture_findings [OF assms] d
    by (auto simp: daemon_findings_def)
  finally show ?thesis by (simp add: d)
qed

text \<open>A native conflict is reported for a mount exactly when its interpreted mode contradicts
  the daemon's read-write flag.\<close>

theorem native_conflicts_reported:
  assumes "decode_capture parse c = Inr r"
  shows "resource_warning NativeConflict reference (FMount k) \<in> set (di_findings r)
    \<longleftrightarrow> (\<exists>x \<in> set (di_containers r). \<exists>ms. co_reference x = reference \<and> obs_value (co_mounts x) = Some ms
        \<and> k < length ms \<and> access_conflicts (mo_interpretation (ms ! k)) (mo_read_write (ms ! k)))"
proof -
  let ?f = "resource_warning NativeConflict reference (FMount k)"
  have "?f \<notin> set (daemon_findings d)" for d
    by (auto simp: daemon_findings_def resource_warning_def)
  moreover have "?f \<in> set (container_findings x r') \<longleftrightarrow> r' = reference \<and> (\<exists>ms. obs_value (co_mounts x) = Some ms
      \<and> k < length ms \<and> access_conflicts (mo_interpretation (ms ! k)) (mo_read_write (ms ! k)))" for x r'
    by (auto simp: in_container_findings mount_findings_def resource_warning_def)
  ultimately show ?thesis unfolding capture_findings [OF assms] findings_of_def by auto
qed

end
