(* ===== verification/Decoder_Values.thy ===== *)
theory Decoder_Values
  imports Decoder_Facts
begin

text \<open>
  What the field readers promise: a field is observed by the path that leads to it, a redacted or
  null value on the path makes it unavailable, and what is read from a port key or an environment
  entry is what was written there.
\<close>

section \<open>Fields by their path\<close>

text \<open>The value a path of keys leads to.\<close>

fun json_path :: "json_value \<Rightarrow> bytes list \<Rightarrow> json_value option" where
  "json_path v [] = Some v"
| "json_path v (k # ks) = Option.bind (json_get k v) (\<lambda>w. json_path w ks)"

text \<open>Nothing on the way to the value is null or redacted.\<close>

definition hidden :: "json_value \<Rightarrow> bool" where
  "hidden v \<longleftrightarrow> v = VNull \<or> is_redacted v"

definition hidden_on_path :: "json_value \<Rightarrow> bytes list \<Rightarrow> nat \<Rightarrow> json_value \<Rightarrow> bool" where
  "hidden_on_path root path k v \<longleftrightarrow> k \<le> length path \<and> json_path root (take k path) = Some v \<and> hidden v"

lemma redacted_entries: "is_redacted v \<Longrightarrow> json_get k v = Some w \<Longrightarrow> w = VBool True"
  by (auto simp: is_redacted_def json_get_def length_Suc_conv split: option.splits if_splits)

lemma json_path_null [simp]: "json_path VNull (k # ks) = None"
  by (simp add: json_get_def)

lemma field_value_hidden:
  assumes "hidden_on_path root path k v"
  shows "field_value root path field = Inr (Some v)"
  using assms unfolding hidden_on_path_def
proof (induction path arbitrary: root k)
  case (Cons key path)
  show ?case
  proof (cases k)
    case 0
    with Cons.prems show ?thesis by (simp add: hidden_def)
  next
    case (Suc j)
    with Cons.prems obtain w where w: "json_get key root = Some w" "json_path w (take j path) = Some v"
      by (auto simp: bind_eq_Some_conv)
    have "\<not> is_redacted root"
    proof
      assume r: "is_redacted root"
      then have "w = VBool True" using redacted_entries w(1) by blast
      with w(2) have "v = VBool True" by (cases "take j path") (simp_all add: json_get_def)
      with Cons.prems show False by (simp add: hidden_def is_redacted_def)
    qed
    moreover have "root \<noteq> VNull" using w(1) by (auto simp: json_get_def)
    ultimately show ?thesis
      using w Cons.IH [of j w] Cons.prems Suc
      by (auto simp: json_get_def split: option.splits)
  qed
qed simp

lemma field_value_visible:
  assumes "json_path root path = Some v" and "\<And>k w. k < length path \<Longrightarrow> \<not> hidden_on_path root path k w"
  shows "field_value root path field = Inr (Some v)"
  using assms
proof (induction path arbitrary: root)
  case (Cons key path)
  from Cons.prems(1) obtain w where w: "json_get key root = Some w" "json_path w path = Some v"
    by (auto simp: bind_eq_Some_conv)
  have root: "\<not> hidden root" using Cons.prems(2) [of 0 root] by (simp add: hidden_on_path_def)
  have "field_value w path field = Inr (Some v)"
  proof (rule Cons.IH [OF w(2)])
    fix k x
    assume "k < length path"
    then show "\<not> hidden_on_path w path k x"
      using Cons.prems(2) [of "Suc k" x] w(1) by (simp add: hidden_on_path_def)
  qed
  with root w(1) show ?case by (auto simp: hidden_def json_get_def split: option.splits)
qed simp

text \<open>C40: a redacted or null value on the path to a field makes the field unavailable as such, whatever
  lies below it and whatever its reader would do; otherwise the value the path leads to is read, and
  the field is present or empty as that value is.\<close>

theorem observed_by_path:
  "(hidden_on_path root path k v \<longrightarrow> observe_field root path field orig reader
      = Inr (unavailable (if v = VNull then Null else Redacted) orig))
   \<and> (json_path root path = Some v \<and> (\<forall>k w. \<not> hidden_on_path root path k w) \<longrightarrow>
      observe_field root path field orig reader
      = bind_res (reader v) (\<lambda>x. Inr (present x (value_availability v) orig)))"
proof (intro conjI impI)
  assume h: "hidden_on_path root path k v"
  then have "hidden v" by (simp add: hidden_on_path_def)
  with field_value_hidden [OF h] show "observe_field root path field orig reader
      = Inr (unavailable (if v = VNull then Null else Redacted) orig)"
    by (auto simp: observe_field_def observe_value_def hidden_def)
next
  assume "json_path root path = Some v \<and> (\<forall>k w. \<not> hidden_on_path root path k w)"
  then have v: "json_path root path = Some v" and h: "\<And>k w. \<not> hidden_on_path root path k w" by blast+
  then have "\<not> hidden v" using h [of "length path" v] by (simp add: hidden_on_path_def)
  with field_value_visible [OF v h] show "observe_field root path field orig reader
      = bind_res (reader v) (\<lambda>x. Inr (present x (value_availability v) orig))"
    by (auto simp: observe_field_def observe_value_def hidden_def)
qed

text \<open>A label below a redacted configuration is redacted; beside it, it is read.\<close>

theorem observed_by_path_witness:
  "string_field (VObject [(''Config'', VObject [(''__docker_lens_redacted__'', VBool True)])])
     [''Config'', ''Image''] FImage Effective = Inr (unavailable Redacted Effective)
   \<and> string_field (VObject [(''Config'', VObject [(''Image'', VString ''i'')])])
     [''Config'', ''Image''] FImage Effective = Inr (present ''i'' Present Effective)"
proof -
  let ?r = "VObject [(''__docker_lens_redacted__'', VBool True)]" and ?o = "VObject [(''Image'', VString ''i'')]"
  have "hidden_on_path (VObject [(''Config'', ?r)]) [''Config'', ''Image''] 1 ?r"
    by (simp add: hidden_on_path_def hidden_def is_redacted_def)
  moreover have "json_path (VObject [(''Config'', ?o)]) [''Config'', ''Image''] = Some (VString ''i'')" by simp
  moreover have "\<not> hidden_on_path (VObject [(''Config'', ?o)]) [''Config'', ''Image''] k w" for k w
  proof -
    consider "k = 0" | "k = 1" | "k = 2" | "2 < k" by linarith
    then show ?thesis
      by cases (auto simp: hidden_on_path_def hidden_def is_redacted_def numeral_2_eq_2)
  qed
  ultimately show ?thesis
    using observed_by_path [of "VObject [(''Config'', ?r)]" "[''Config'', ''Image'']" 1 ?r FImage Effective
        "\<lambda>v. string_value v FImage"]
      observed_by_path [of "VObject [(''Config'', ?o)]" "[''Config'', ''Image'']" 0 "VString ''i''" FImage Effective
        "\<lambda>v. string_value v FImage"]
    by (simp add: string_field_def string_value_def value_availability_def)
qed

section \<open>Versions, ports and assignments\<close>

text \<open>The decoder and the acquisition read versions alike.\<close>

theorem reported_api_agrees: "parse_reported_api text = parse_api text"
proof (cases "split_once CHR ''.'' text")
  case (Some p)
  obtain major minor where p: "p = (major, minor)" by force
  have "CHR ''.'' \<notin> set minor" if "list_all is_digit minor"
    using that by (auto simp: list_all_iff is_digit_def)
  with Some p show ?thesis by (auto simp: parse_reported_api_def parse_api_def all_digits_def)
qed (simp add: parse_reported_api_def parse_api_def)

fun protocol_text :: "transport_protocol \<Rightarrow> bytes" where
  "protocol_text NativeTcp = ''tcp''"
| "protocol_text NativeUdp = ''udp''"
| "protocol_text NativeSctp = ''sctp''"

text \<open>A port key is read back from the text the daemon writes for it.\<close>

theorem port_key_roundtrip:
  "parse_port_key (dec (unat p) @ CHR ''/'' # protocol_text q)
   = (if p = 0 then Inl (InvalidValue (FPort 0)) else Inr \<lparr>pk_container = p, pk_protocol = q\<rparr>)"
proof -
  have slash: "CHR ''/'' \<notin> set (dec (unat p))" using dec_digits by (force simp: is_digit_def)
  have digits: "list_all is_digit (dec (unat p))" using dec_digits by (auto simp: list_all_iff)
  have "unat p < 2 ^ LENGTH(16)" by (rule unsigned_less)
  then have "unat p \<le> 65535" by simp
  then have parse: "parse_uint 65535 (dec (unat p)) = Some (unat p)" by (rule parse_uint_dec)
  have protocol: "protocol_of (protocol_text q) = Some q" by (cases q) (simp_all add: protocol_of_def)
  show ?thesis
    using split_once_append [OF slash] digits parse protocol
    by (simp add: parse_port_key_def port_digits_def)
qed

text \<open>The text of an assignment.\<close>

definition assignment_text :: "native_assignment \<Rightarrow> bytes" where
  "assignment_text a = na_name a @ (case na_value a of None \<Rightarrow> [] | Some v \<Rightarrow> CHR ''='' # v)"

lemma assignment_of_Inr:
  "assignment_of (k, item) = Inr a \<longleftrightarrow>
     item = VString (assignment_text a) \<and> na_name a \<noteq> [] \<and> CHR ''='' \<notin> set (na_name a)"
proof (cases "as_str item")
  case None
  then show ?thesis by (cases item) (simp_all add: assignment_of_def)
next
  case (Some raw)
  then have item: "item = VString raw" by (simp add: as_str_Some)
  obtain n v where a: "a = \<lparr>na_name = n, na_value = v\<rparr>" by (cases a) auto
  show ?thesis
  proof (cases "split_once CHR ''='' raw")
    case None
    then have "CHR ''='' \<notin> set raw" by (simp add: split_once_None)
    then show ?thesis using item None unfolding a
      by (auto simp: assignment_of_def assignment_text_def split: option.splits)
  next
    case (Some p)
    obtain b d where p: "p = (b, d)" by force
    note s = split_once_Some [OF Some [unfolded p]]
    have lhs: "assignment_of (k, item) = Inr a \<longleftrightarrow> b \<noteq> [] \<and> n = b \<and> v = Some d"
      using Some by (auto simp: assignment_of_def item p a)
    show ?thesis
    proof (cases v)
      case None
      have "\<not> (raw = n \<and> CHR ''='' \<notin> set n)" using s by auto
      with None lhs show ?thesis by (simp add: assignment_text_def item a)
    next
      case v: (Some w)
      have entry: "assignment_text a = n @ CHR ''='' # w" by (simp add: assignment_text_def a v)
      show ?thesis
      proof (cases "CHR ''='' \<in> set n")
        case True
        then have "n \<noteq> b" using s by blast
        with True lhs show ?thesis by (simp add: a)
      next
        case False
        have "raw = n @ CHR ''='' # w \<longleftrightarrow> b = n \<and> d = w"
        proof
          assume "raw = n @ CHR ''='' # w"
          with Some p split_once_append [OF False, of w] show "b = n \<and> d = w" by simp
        qed (simp add: s)
        with lhs False v show ?thesis unfolding entry item by (auto simp: a)
      qed
    qed
  qed
qed

lemma assignments_Inr:
  "list_all2 (\<lambda>it y. assignment_of it = Inr y) (enumerate n vs) xs \<longleftrightarrow>
     vs = map (\<lambda>a. VString (assignment_text a)) xs \<and> (\<forall>a \<in> set xs. na_name a \<noteq> [] \<and> CHR ''='' \<notin> set (na_name a))"
proof (induction vs arbitrary: n xs)
  case (Cons x vs)
  then show ?case by (cases xs) (auto simp: assignment_of_Inr)
qed auto

lemma map_res_Inr_all2: "map_res f xs = Inr ys \<longleftrightarrow> list_all2 (\<lambda>x y. f x = Inr y) xs ys"
  by (induction xs arbitrary: ys) (auto simp: bind_res_Inr_iff list_all2_Cons1)

text \<open>No byte of an environment is lost: each assignment is the text of its entry, split at its first
  equals sign.\<close>

theorem environment_roundtrip:
  "environment_of v = Inr xs \<longleftrightarrow>
     v = VArray (map (\<lambda>a. VString (assignment_text a)) xs) \<and> length xs \<le> decoder_max_items
     \<and> (\<forall>a \<in> set xs. na_name a \<noteq> [] \<and> CHR ''='' \<notin> set (na_name a))"
proof (cases "as_array v")
  case (Some vs)
  then have v: "v = VArray vs" by (simp add: as_array_Some)
  then show ?thesis by (auto simp: environment_of_def json_list_def v map_res_Inr_all2 assignments_Inr)
qed (cases v; simp add: environment_of_def json_list_def)

end
