(* ===== verification/Decoder_Errors.thy ===== *)
theory Decoder_Errors
  imports Decoder_Steps
begin

text \<open>
  Where the errors of the decoder come from. The readers of a response fail only with a shape, a value
  or a collection that is too large. \<open>decode_capture\<close> raises two of these itself as well, so an error
  does not tell: each is traced to the reader that failed (\<open>response_unread\<close>) or to its own place.
\<close>

section \<open>Readers\<close>

fun reader_error :: "decode_error \<Rightarrow> bool" where
  "reader_error (InvalidShape _) = True"
| "reader_error (InvalidValue _) = True"
| "reader_error CollectionTooLarge = True"
| "reader_error _ = False"

definition reads :: "decode_error + 'a \<Rightarrow> bool" where
  "reads m \<longleftrightarrow> (\<forall>e. m = Inl e \<longrightarrow> reader_error e)"

named_theorems reads_intros

lemma reads_results [reads_intros]:
  "reads (Inr x)" "reads (ok_or y (InvalidShape f))" "reads (ok_or y (InvalidValue f))"
  "reads (Inl (InvalidShape f))" "reads (Inl (InvalidValue f))" "reads (Inl CollectionTooLarge)"
  by (auto simp: reads_def ok_or_def split: option.splits)

lemma reads_bind [reads_intros]: "reads m \<Longrightarrow> (\<And>x. reads (f x)) \<Longrightarrow> reads (bind_res m f)"
  by (auto simp: reads_def bind_res_Inl_iff)

lemma reads_if [reads_intros]: "reads m \<Longrightarrow> reads m' \<Longrightarrow> reads (if b then m else m')"
  by simp

lemma reads_option [reads_intros]:
  "reads m \<Longrightarrow> (\<And>x. reads (f x)) \<Longrightarrow> reads (case y of None \<Rightarrow> m | Some x \<Rightarrow> f x)"
  by (cases y) auto

lemma reads_prod [reads_intros]: "(\<And>x y. reads (f x y)) \<Longrightarrow> reads (case p of (x, y) \<Rightarrow> f x y)"
  by (cases p) auto

lemma reads_map [reads_intros]: "(\<And>x. reads (f x)) \<Longrightarrow> reads (map_res f xs)"
  by (induction xs) (auto intro: reads_intros)

lemma reads_fold [reads_intros]: "(\<And>s x. reads (f s x)) \<Longrightarrow> reads (try_fold f s xs)"
  by (induction xs arbitrary: s) (auto intro: reads_intros)

lemma field_value_reads [reads_intros]: "reads (field_value root path field)"
  by (induction root path field rule: field_value.induct) (auto intro: reads_intros split: option.splits)

lemma observe_field_reads [reads_intros]: "(\<And>v. reads (reader v)) \<Longrightarrow> reads (observe_field root path field orig reader)"
  unfolding observe_field_def observe_value_def by (intro reads_intros)

lemma scalar_reads [reads_intros]:
  "reads (string_field root path field orig)" "reads (boolean_field root path field orig)"
  "reads (unsigned_field root path field orig)" "reads (signed_field root path field orig)"
  "reads (json_list v field)" "reads (json_entries v field)" "reads (string_value v field)" "reads (u32_value v field)"
  unfolding string_field_def boolean_field_def unsigned_field_def signed_field_def json_list_def json_entries_def
    string_value_def u32_value_def by (intro reads_intros)+

lemma port_reads [reads_intros]:
  "reads (parse_port_key text)" "reads (host_port_field root field orig)" "reads (exposed_ports_of v)"
  unfolding parse_port_key_def host_port_field_def exposed_ports_of_def parse_host_port_def port_digits_def
  by (intro reads_intros)+

lemma binding_reads [reads_intros]: "reads (port_bindings_of v orig)"
  unfolding port_bindings_of_def port_observation_of_def host_binding_of_def Let_def by (intro reads_intros)

lemma collection_reads [reads_intros]:
  "reads (string_list v field)" "reads (string_array root path field)" "reads (command_of v field)"
  "reads (environment_of v)" "reads (labels_of v)" "reads (map_entries v field)"
  unfolding string_array_def command_of_def environment_of_def assignment_of_def labels_of_def label_of_def
    map_entries_def map_entry_of_def Let_def string_list_def by (intro reads_intros)+

lemma identifier_reads [reads_intros]:
  "reads (version_field root name)" "reads (release_field root name)" "reads (listed_id item field name)"
  unfolding version_field_def release_field_def listed_id_def by (intro reads_intros)+

lemma mode_reads [reads_intros]: "reads (mode_interpret mode field)"
  unfolding mode_interpret_def mode_parse_def mode_step_def mode_token_def Let_def by (intro reads_intros)

lemma part_reads [reads_intros]:
  "reads (ulimits_of v)" "reads (devices_of v)" "reads (configured_mounts_of v)" "reads (logging_of v)"
  "reads (mounts_of v)" "reads (networks_of v)" "reads (network_mode_of v)" "reads (restart_policy_of v)"
  unfolding ulimits_of_def ulimit_of_def devices_of_def device_of_def configured_mounts_of_def configured_mount_of_def
    logging_of_def mounts_of_def mount_of_def networks_of_def attachment_of_def network_mode_of_def
    restart_policy_of_def Let_def by (intro reads_intros)+

lemma healthcheck_reads [reads_intros]: "reads (healthcheck_of v)"
proof -
  have "reads (healthcheck_test_of v)" for v
    unfolding healthcheck_test_of_def by (auto intro!: reads_intros split: list.split)
  then show ?thesis unfolding healthcheck_of_def by (intro reads_intros)
qed

lemma container_reads [reads_intros]:
  "reads (runtime_of v)" "reads (container_of v r)" "reads (container_summary_of v)"
  unfolding runtime_of_def container_of_def container_summary_of_def by (intro reads_intros)+

lemma network_reads [reads_intros]: "reads (network_of v r)"
  unfolding network_of_def ipam_configs_of_def ipam_config_of_def active_endpoints_of_def active_endpoint_of_def
    endpoint_details_of_def Let_def by (intro reads_intros)

lemma volume_reads [reads_intros]: "reads (volume_of v r)"
  unfolding volume_of_def by (intro reads_intros)

lemma readsD: "reads m \<Longrightarrow> m = Inl e \<Longrightarrow> reader_error e"
  by (simp add: reads_def)

lemmas read_errors = scalar_reads [THEN readsD] identifier_reads [THEN readsD] container_reads [THEN readsD]
  network_reads [THEN readsD] volume_reads [THEN readsD] field_value_reads [THEN readsD]

section \<open>Handlers\<close>

text \<open>The reader of a response that fails: of the version, of the information of the daemon, of a
  listing, or of the resource that was inspected.\<close>

definition version_unread :: "json_value \<Rightarrow> decode_error \<Rightarrow> bool" where
  "version_unread body e \<longleftrightarrow> json_entries body FOther = Inl e \<or> release_field body ''Version'' = Inl e
     \<or> version_field body ''ApiVersion'' = Inl e \<or> version_field body ''MinAPIVersion'' = Inl e"

definition mode_unread :: "json_value \<Rightarrow> decode_error \<Rightarrow> bool" where
  "mode_unread body e \<longleftrightarrow>
     (\<exists>k \<in> {''SecurityOptions'', ''Rootless''}. field_value body [k] FDaemonMode = Inl e)
     \<or> (\<exists>found v. field_value body [''SecurityOptions''] FDaemonMode = Inr found \<and> reported found = Some v
          \<and> security_rootless v = Inl e)
     \<or> (\<exists>found v. field_value body [''Rootless''] FDaemonMode = Inr found \<and> reported found = Some v
          \<and> as_bool v = None \<and> e = InvalidShape FDaemonMode)"

definition daemon_info_unread :: "json_value \<Rightarrow> decode_error \<Rightarrow> bool" where
  "daemon_info_unread body e \<longleftrightarrow> json_entries body FOther = Inl e
     \<or> (\<exists>k \<in> {''MemoryLimit'', ''SwapLimit''}. boolean_field body [k] FResourceLimit Effective = Inl e)
     \<or> release_field body ''ServerVersion'' = Inl e \<or> mode_unread body e"

definition listing_unread :: "json_value \<Rightarrow> decode_error \<Rightarrow> bool" where
  "listing_unread body e \<longleftrightarrow> json_list body FOther = Inl e
     \<or> (\<exists>items. json_list body FOther = Inr items
          \<and> (\<exists>item \<in> set items. listed_id item FOther ''Id'' = Inl e \<or> container_summary_of item = Inl e))"

definition resource_unread :: "nat \<Rightarrow> json_value \<Rightarrow> resource_ref \<Rightarrow> decode_error \<Rightarrow> bool" where
  "resource_unread k body r e \<longleftrightarrow>
     (if k = 0 then container_of body r = Inl e else if k = 1 then network_of body r = Inl e
      else volume_of body r = Inl e)"

definition response_unread :: "json_parser \<Rightarrow> captured_exchange \<Rightarrow> decode_error \<Rightarrow> bool" where
  "response_unread parse x e \<longleftrightarrow> (\<exists>body. parse (ex_body x) = Some body \<and>
     (case ex_request x of
        DaemonVersion \<Rightarrow> version_unread body e
      | DaemonInfo \<Rightarrow> daemon_info_unread body e
      | ListContainers \<Rightarrow> listing_unread body e
      | ListNetworks \<Rightarrow> \<exists>st. decode_network_list body st = Inl e
      | ListVolumes \<Rightarrow> \<exists>st. decode_volume_list body st = Inl e
      | q \<Rightarrow> \<exists>k i r. inspect_target q = Some (k, i) \<and> ex_resource x = Some r \<and> resource_unread k body r e))"

text \<open>What the information of the daemon contradicts: itself, in the mode, or a release that is known.\<close>

definition mode_contradicts :: "json_value \<Rightarrow> bool" where
  "mode_contradicts body \<longleftrightarrow>
     (\<exists>found v. field_value body [''SecurityOptions''] FDaemonMode = Inr found \<and> reported found = Some v
        \<and> security_rootless v = Inr True)
     \<and> (\<exists>found v. field_value body [''Rootless''] FDaemonMode = Inr found \<and> reported found = Some v
        \<and> as_bool v = Some False)"

definition release_contradicts :: "json_value \<Rightarrow> engine_release option \<Rightarrow> bool" where
  "release_contradicts body known \<longleftrightarrow>
     (\<exists>a b. release_field body ''ServerVersion'' = Inr (Some a) \<and> known = Some b \<and> a \<noteq> b)"

definition info_conflict :: "json_value \<Rightarrow> decode_state \<Rightarrow> bool" where
  "info_conflict body st \<longleftrightarrow> ds_info_seen st \<or> df_mode (daemon_of st) \<noteq> UnknownMode
     \<or> mode_contradicts body \<or> release_contradicts body (df_release (daemon_of st))"

lemma record_release_Inl:
  "record_release release st = Inl e \<Longrightarrow> e = ConflictingFacts \<and> df_release (daemon_of st) \<noteq> None"
  by (auto simp: record_release_def split: option.splits if_splits)

lemma decode_version_Inl:
  "decode_version body st = Inl e \<Longrightarrow> version_unread body e
     \<or> e = ConflictingFacts \<and> (ds_version_seen st \<or> df_release (daemon_of st) \<noteq> None)"
  unfolding decode_version_def version_unread_def
  by (auto simp: bind_res_Inl_iff view_simps dest: record_release_Inl split: if_splits)

lemma record_security_Inl: "record_security body st = Inl e \<Longrightarrow> mode_unread body e"
  unfolding record_security_def mode_unread_def
  by (auto simp: bind_res_Inl_iff simp del: field_value.simps split: option.splits)

lemma recorded_security:
  assumes "record_security body st = Inr st'"
  shows "df_mode (daemon_of st') = df_mode (daemon_of st) \<or> df_mode (daemon_of st') = Rootless
    \<and> (\<exists>found v. field_value body [''SecurityOptions''] FDaemonMode = Inr found \<and> reported found = Some v
        \<and> security_rootless v = Inr True)"
proof -
  obtain found where f: "field_value body [''SecurityOptions''] FDaemonMode = Inr found"
    using assms by (auto simp: record_security_def bind_res_Inr_iff simp del: field_value.simps)
  show ?thesis
  proof (cases "reported found")
    case (Some v)
    then obtain rootless where v: "security_rootless v = Inr rootless"
      "st' = (if rootless then with_daemon ((daemon_of st)\<lparr>df_mode := Rootless\<rparr>) st else st)"
      using assms f by (auto simp: record_security_def bind_res_Inr_iff simp del: field_value.simps)
    show ?thesis
    proof (cases rootless)
      case True
      then have "df_mode (daemon_of st') = Rootless" using v(2) by (simp add: daemon_of_def with_daemon_def Let_def)
      moreover have "security_rootless v = Inr True" using v(1) True by simp
      ultimately show ?thesis using f Some by blast
    qed (use v in simp)
  qed (use assms f in \<open>simp add: record_security_def del: field_value.simps\<close>)
qed

lemma record_rootless_Inl:
  assumes "record_rootless body st = Inl e"
  shows "mode_unread body e \<or> e = ConflictingFacts \<and> df_mode (daemon_of st) \<noteq> UnknownMode
    \<and> (df_mode (daemon_of st) = Rootless \<longrightarrow> (\<exists>found v. field_value body [''Rootless''] FDaemonMode = Inr found
        \<and> reported found = Some v \<and> as_bool v = Some False))"
proof (cases "field_value body [''Rootless''] FDaemonMode")
  case (Inl x)
  with assms show ?thesis by (auto simp: record_rootless_def mode_unread_def simp del: field_value.simps)
next
  case (Inr found)
  show ?thesis
  proof (cases "reported found")
    case (Some v)
    with assms Inr show ?thesis
      by (cases "as_bool v") (auto simp: record_rootless_def mode_unread_def ok_or_def Let_def
          simp del: field_value.simps split: if_splits)
  qed (use assms Inr in \<open>simp add: record_rootless_def del: field_value.simps\<close>)
qed

lemma record_release_mode: "record_release x st = Inr st' \<Longrightarrow> df_mode (daemon_of st') = df_mode (daemon_of st)"
  by (auto simp: record_release_def daemon_of_def with_daemon_def Let_def split: option.splits if_splits)

lemma with_support_daemon: "daemon_of (with_support u st) = daemon_of st" "daemon_of (st\<lparr>ds_info_seen := b\<rparr>) = daemon_of st"
  by (simp_all add: daemon_of_def with_support_def Let_def)

lemma decode_info_Inl:
  assumes "decode_info body st = Inl e"
  shows "daemon_info_unread body e \<or> e = ConflictingFacts \<and> info_conflict body st"
proof -
  consider "e = ConflictingFacts" "ds_info_seen st" | "daemon_info_unread body e"
    | release u where "release_field body ''ServerVersion'' = Inr release"
        "record_release release (with_support u (st\<lparr>ds_info_seen := True\<rparr>)) = Inl e"
    | release u st1 where "record_release release (with_support u (st\<lparr>ds_info_seen := True\<rparr>)) = Inr st1"
        "record_security body st1 = Inl e"
    | release u st1 st2 where "record_release release (with_support u (st\<lparr>ds_info_seen := True\<rparr>)) = Inr st1"
        "record_security body st1 = Inr st2" "record_rootless body st2 = Inl e"
    using assms unfolding decode_info_def daemon_info_unread_def
    by (auto simp: bind_res_Inl_iff simp del: field_value.simps split: if_splits)
  then show ?thesis
  proof cases
    case (3 release u)
    then show ?thesis
      by (auto simp: record_release_def info_conflict_def release_contradicts_def with_support_daemon
          split: option.splits if_splits)
  next
    case 4
    then show ?thesis using record_security_Inl by (auto simp: daemon_info_unread_def)
  next
    case (5 release u st1 st2)
    have m: "df_mode (daemon_of st1) = df_mode (daemon_of st)"
      using record_release_mode [OF 5(1)] by (simp add: with_support_daemon)
    from record_rootless_Inl [OF 5(3)] show ?thesis
    proof (elim disjE conjE)
      assume "mode_unread body e"
      then show ?thesis by (simp add: daemon_info_unread_def)
    next
      assume "e = ConflictingFacts" "df_mode (daemon_of st2) \<noteq> UnknownMode"
        and rootful: "df_mode (daemon_of st2) = Rootless \<longrightarrow> (\<exists>found v. field_value body [''Rootless''] FDaemonMode = Inr found
          \<and> reported found = Some v \<and> as_bool v = Some False)"
      with recorded_security [OF 5(2)] m show ?thesis
        unfolding info_conflict_def mode_contradicts_def by auto
    qed
  qed (auto simp: info_conflict_def)
qed

lemma list_fold_Inl:
  "try_fold list_container_step st items = Inl e \<Longrightarrow>
     \<exists>item \<in> set items. listed_id item FOther ''Id'' = Inl e \<or> container_summary_of item = Inl e"
  by (induction items arbitrary: st) (auto simp: bind_res_Inl_iff list_container_step_def Let_def)

text \<open>These readers fail as readers do.\<close>

lemma list_loops_read: "reads (try_fold (list_step k field name) st items)"
  unfolding list_step_def by (intro reads_intros)

lemma security_rootless_reads: "reads (security_rootless v)"
  unfolding security_rootless_def by (intro reads_intros)

lemma decode_network_list_reads: "reads (decode_network_list body st)"
  unfolding decode_network_list_def by (intro reads_intros list_loops_read)

lemma decode_volume_list_reads: "reads (decode_volume_list body st)"
  unfolding decode_volume_list_def by (intro reads_intros list_loops_read)

lemma unread_reads:
  "version_unread body e \<Longrightarrow> reader_error e" "daemon_info_unread body e \<Longrightarrow> reader_error e"
  "listing_unread body e \<Longrightarrow> reader_error e" "resource_unread k body r e \<Longrightarrow> reader_error e"
  unfolding version_unread_def daemon_info_unread_def mode_unread_def listing_unread_def resource_unread_def
  by (auto simp del: field_value.simps dest: read_errors readsD [OF security_rootless_reads] split: if_splits)

lemma response_unread_reads: "response_unread parse x e \<Longrightarrow> reader_error e"
  using readsD [OF decode_network_list_reads] readsD [OF decode_volume_list_reads]
  by (cases "ex_request x") (auto simp: response_unread_def dest: unread_reads)

definition selection_fails :: "json_parser \<Rightarrow> capture \<Rightarrow> captured_exchange \<Rightarrow> bool" where
  "selection_fails parse c e \<longleftrightarrow>
     (\<exists>s x. cap_selector c = Some s \<and> selects_from_list s \<and> selected_ids parse (ex_body e) s = Inl x)"

lemma decode_container_list_Inl:
  assumes "decode_container_list parse c x body st = Inl e"
  shows "listing_unread body e \<or> e = ConflictingFacts \<and> ds_selected st \<noteq> None
    \<or> e = IncompleteInventory \<and> selection_fails parse c x"
proof -
  consider "e = ConflictingFacts" "ds_selected st \<noteq> None" | "record_expected parse c x st = Inl e"
    | st' where "bind_res (json_list body FOther) (\<lambda>items. try_fold list_container_step st' items) = Inl e"
    using assms unfolding decode_container_list_def
    by (cases "record_expected parse c x st"; cases "ds_selected st") simp_all
  then show ?thesis
  proof cases
    case 2
    then show ?thesis by (auto simp: record_expected_def selection_fails_def split: option.splits if_splits sum.splits)
  next
    case (3 st')
    then show ?thesis by (auto simp: bind_res_Inl_iff listing_unread_def dest: list_fold_Inl)
  qed simp
qed

text \<open>An inspection fails on a resource that was not asked for, or on one that was seen.\<close>

definition wrong_resource :: "json_parser \<Rightarrow> capture \<Rightarrow> captured_exchange \<Rightarrow> bool" where
  "wrong_resource parse c x \<longleftrightarrow> (\<exists>k i r body. inspect_target (ex_request x) = Some (k, i) \<and> ex_resource x = Some r
     \<and> parse (ex_body x) = Some body \<and> get_str (expected_key c k r) body \<noteq> Some i)"

definition seen_before :: "json_parser \<Rightarrow> decode_state \<Rightarrow> captured_exchange \<Rightarrow> bool" where
  "seen_before parse st x \<longleftrightarrow> (\<exists>k i r n body. inspect_target (ex_request x) = Some (k, i) \<and> ex_resource x = Some r
     \<and> parse (ex_body x) = Some body \<and> get_str (native_key k) body = Some n
     \<and> (n \<in> ds_native st k \<or> (k, r) \<in> ds_seen st))"

text \<open>The exchange names no resource, or the response has no native identifier.\<close>

definition unidentified :: "json_parser \<Rightarrow> captured_exchange \<Rightarrow> bool" where
  "unidentified parse x \<longleftrightarrow> (\<exists>k i body. inspect_target (ex_request x) = Some (k, i) \<and> parse (ex_body x) = Some body
     \<and> (ex_resource x = None \<or> get_str (native_key k) body = None \<or> get_str (native_key k) body = Some []))"

lemma add_resource_Inl: "add_resource k body r result = Inl e \<Longrightarrow> resource_unread k body r e"
  by (auto simp: add_resource_def resource_unread_def bind_res_Inl_iff split: if_splits)

lemma decode_inspect_Inl:
  assumes "decode_inspect c (ex_resource x) k i body st = Inl e"
    and "inspect_target (ex_request x) = Some (k, i)" and "parse (ex_body x) = Some body"
  shows "(\<exists>r. ex_resource x = Some r \<and> resource_unread k body r e) \<or> e = InvalidShape FOther \<and> unidentified parse x
    \<or> e = ConflictingFacts \<and> wrong_resource parse c x
    \<or> e = DuplicateResource \<and> seen_before parse st x"
proof (cases "ex_resource x")
  case (Some r)
  show ?thesis
  proof (cases "get_str (expected_key c k r) body = Some i")
    case True
    then show ?thesis using assms Some
      by (auto simp: decode_inspect_def seen_before_def unidentified_def bind_res_Inl_iff Let_def
          dest: add_resource_Inl split: option.splits if_splits)
  qed (use assms Some in \<open>auto simp: decode_inspect_def wrong_resource_def\<close>)
qed (use assms in \<open>auto simp: decode_inspect_def unidentified_def\<close>)

section \<open>One exchange\<close>

text \<open>Each error that is not a reader's, with what it says of the exchange.\<close>

definition error_at :: "json_parser \<Rightarrow> capture \<Rightarrow> decode_state \<Rightarrow> captured_exchange \<Rightarrow> decode_error \<Rightarrow> bool" where
  "error_at parse c st x e \<longleftrightarrow>
     e = UnexpectedStatus \<and> status_code (ex_status x) \<noteq> 200
   \<or> e = ResponseTooLarge \<and> length (ex_body x) > max_json_bytes
   \<or> e = InvalidJson \<and> parse (ex_body x) = None
   \<or> e = MissingApiVersion \<and> ex_api x = None \<and> ex_request x \<noteq> DaemonVersion
   \<or> e = ConflictingFacts \<and> (ex_request x = DaemonInfo \<and> (\<exists>body. parse (ex_body x) = Some body \<and> info_conflict body st)
        \<or> ex_request x = DaemonVersion \<and> (ds_version_seen st \<or> df_release (daemon_of st) \<noteq> None)
        \<or> ex_request x = ListContainers \<and> ds_selected st \<noteq> None \<or> wrong_resource parse c x)
   \<or> e = DuplicateResource \<and> seen_before parse st x
   \<or> e = InvalidShape FOther \<and> unidentified parse x
   \<or> e = IncompleteInventory \<and> ex_request x = ListContainers \<and> selection_fails parse c x"

lemma decode_step_Inl:
  assumes "decode_step parse c st x = Inl e"
  shows "response_unread parse x e \<or> error_at parse c st x e"
proof -
  consider "status_code (ex_status x) \<noteq> 200" "e = UnexpectedStatus"
    | "length (ex_body x) > max_json_bytes" "e = ResponseTooLarge"
    | "parse (ex_body x) = None" "e = InvalidJson"
    | "record_api x st = Inl e"
    | body st1 where "parse (ex_body x) = Some body" "record_api x st = Inr st1" "decode_body parse c x body st1 = Inl e"
    using assms unfolding decode_step_def
    by (cases "status_code (ex_status x) = 200"; cases "length (ex_body x) \<le> max_json_bytes";
        cases "parse (ex_body x)"; cases "record_api x st") simp_all
  then show ?thesis
  proof cases
    case 4
    then have "e = MissingApiVersion \<and> ex_api x = None \<and> ex_request x \<noteq> DaemonVersion"
      by (auto simp: record_api_def Let_def split: option.splits if_splits)
    then show ?thesis by (simp add: error_at_def)
  next
    case (5 body st1)
    note a = record_api_Inr [OF 5(2)]
    show ?thesis
    proof (cases "inspect_target (ex_request x)")
      case None
      have same: "ds_version_seen st1 = ds_version_seen st" "daemon_of st1 = daemon_of st" "ds_selected st1 = ds_selected st"
          "ds_info_seen st1 = ds_info_seen st"
        using a by (simp_all add: daemon_of_def)
      show ?thesis
      proof (cases "ex_request x")
        case DaemonVersion
        with 5(3) have "decode_version body st1 = Inl e" by (simp add: decode_body_def)
        from decode_version_Inl [OF this] DaemonVersion same 5(1) show ?thesis by (auto simp: error_at_def response_unread_def)
      next
        case DaemonInfo
        with 5(3) have "decode_info body st1 = Inl e" by (simp add: decode_body_def)
        from decode_info_Inl [OF this] DaemonInfo 5(1) same show ?thesis
          by (auto simp: error_at_def response_unread_def info_conflict_def)
      next
        case ListContainers
        with 5(3) have "decode_container_list parse c x body st1 = Inl e" by (simp add: decode_body_def)
        from decode_container_list_Inl [OF this] ListContainers same 5(1) show ?thesis by (auto simp: error_at_def response_unread_def)
      next
        case ListNetworks
        with 5(3) have "decode_network_list body st1 = Inl e" by (simp add: decode_body_def)
        with ListNetworks 5(1) show ?thesis by (auto simp: response_unread_def)
      next
        case ListVolumes
        with 5(3) have "decode_volume_list body st1 = Inl e" by (simp add: decode_body_def)
        with ListVolumes 5(1) show ?thesis by (auto simp: response_unread_def)
      qed (use None in simp_all)
    next
      case (Some t)
      obtain k i where t: "t = (k, i)" by force
      then have "decode_inspect c (ex_resource x) k i body st1 = Inl e"
        using 5(3) Some by (simp add: decode_body_inspect)
      from decode_inspect_Inl [where parse = parse, OF this] Some t 5(1) consider
        r where "ex_resource x = Some r" "resource_unread k body r e"
        | "e = InvalidShape FOther" "unidentified parse x" | "e = ConflictingFacts" "wrong_resource parse c x"
        | "e = DuplicateResource" "seen_before parse st1 x"
        by auto
      then show ?thesis
      proof cases
        case 1
        with Some t 5(1) have "response_unread parse x e"
          by (cases "ex_request x") (auto simp: response_unread_def)
        then show ?thesis ..
      next
        case 4
        moreover have "seen_before parse st1 x = seen_before parse st x"
          using a by (simp add: seen_before_def resource_view_def)
        ultimately show ?thesis by (simp add: error_at_def)
      qed (use Some t in \<open>cases "ex_request x"; simp add: error_at_def\<close>)+
    qed
  qed (simp_all add: error_at_def)
qed

lemma decode_checks_Inl: "decode_checks c st = Inl e \<Longrightarrow> e = IncompleteInventory \<or> e = ApiVersionOutOfRange"
  by (auto simp: decode_checks_def reject_if_def dest!: checks_Inl_mem split: if_splits)

text \<open>Where a capture is refused.\<close>

lemma decode_capture_Inl:
  assumes "decode_capture parse c = Inl e"
  shows "e = CollectionTooLarge \<and> length (cap_exchanges c) > decoder_max_items
    \<or> length (cap_exchanges c) \<le> decoder_max_items \<and> (\<exists>xs x ys st. cap_exchanges c = xs @ x # ys
        \<and> try_fold (decode_step parse c) (initial_decode c) xs = Inr st
        \<and> decode_step parse c st x = Inl e \<and> (response_unread parse x e \<or> error_at parse c st x e))
    \<or> (\<exists>st. try_fold (decode_step parse c) (initial_decode c) (cap_exchanges c) = Inr st
        \<and> decode_checks c st = Inl e)"
  using assms decode_step_Inl try_fold_Inl [of "decode_step parse c" "initial_decode c" "cap_exchanges c" e]
  unfolding decode_capture_def by (fastforce simp: bind_res_Inl_iff Let_def split: if_splits)

end
