(* ===== verification/Acquired_Inventories.thy ===== *)
theory Acquired_Inventories
  imports Acquisition_Properties Decoder_Values Decoder_Errors
begin

text \<open>
  The acquisition and the decoder together: what \<^verbatim>\<open>acquire\<close> returns is a capture that \<^verbatim>\<open>decode_capture\<close>
  takes for what it is. No response is refused for its status, size or version, no resource is
  taken twice or for another one, and only what the daemon says of itself can be in conflict.
\<close>

section \<open>What holds after an action that succeeds\<close>

definition act_post :: "(world \<Rightarrow> bool) \<Rightarrow> 'a action \<Rightarrow> ('a \<Rightarrow> world \<Rightarrow> bool) \<Rightarrow> bool" where
  "act_post P m Q \<longleftrightarrow> (\<forall>w y w'. P w \<longrightarrow> m w = Some (Inr y, w') \<longrightarrow> Q y w')"

lemma act_post_bind:
  assumes "act_post P m Q" and "\<And>x. act_post (Q x) (f x) R"
  shows "act_post P (act_bind m f) R"
  using assms unfolding act_post_def act_bind_def by (fastforce split: option.splits sum.splits)

lemma act_post_pure: "(\<And>w y. P w \<Longrightarrow> x = Inr y \<Longrightarrow> Q y w) \<Longrightarrow> act_post P (pure_act x) Q"
  by (auto simp: act_post_def pure_act_def)

lemma act_post_conseq:
  "act_post P m Q \<Longrightarrow> (\<And>w. P' w \<Longrightarrow> P w) \<Longrightarrow> (\<And>y w. Q y w \<Longrightarrow> Q' y w) \<Longrightarrow> act_post P' m Q'"
  unfolding act_post_def by blast

lemma act_post_fact: "(A \<Longrightarrow> act_post P m Q) \<Longrightarrow> act_post (\<lambda>w. A \<and> P w) m Q"
  by (auto simp: act_post_def)

lemma act_post_bind_pure:
  "(\<And>y. x = Inr y \<Longrightarrow> act_post P (f y) Q) \<Longrightarrow> act_post P (act_bind (pure_act x) f) Q"
  by (cases x) (auto simp: act_post_def act_bind_def pure_act_def)

lemma act_post_fold:
  assumes "\<And>st x. act_post (J st) (f st x) J"
  shows "act_post (J st) (act_fold f st xs) J"
proof (induction xs arbitrary: st)
  case Nil
  show ?case by (auto intro: act_post_pure)
next
  case (Cons x xs)
  show ?case using assms [of st x] Cons by (auto intro: act_post_bind)
qed

section \<open>One exchange\<close>

definition exchanges_of :: "world \<Rightarrow> captured_exchange list" where
  "exchanges_of w = b_exchanges (wd_budget w)"

lemma read_response_body:
  "read_response now stored status rd b = Some (Inr y, b') \<Longrightarrow> length y \<le> length (rd_bytes rd)"
  unfolding read_response_def and_then_Some_Inr
  by (auto simp: err_def fail_with_def Let_def and_then_Some_Inr store_exchange_def ok_def read_up_to_def
      split: if_splits option.splits prod.splits)

lemma act_budget_Inr:
  "act_budget m w = Some (Inr y, w') \<longleftrightarrow> (\<exists>b. m (wd_budget w) = Some (Inr y, b) \<and> w' = w\<lparr>wd_budget := b\<rparr>)"
  by (auto simp: act_budget_def budget_error_def split: option.splits sum.splits prod.splits)

lemma act_bind_Inr:
  "act_bind m f w = Some (Inr y, w') \<longleftrightarrow> (\<exists>x w1. m w = Some (Inr x, w1) \<and> f x w1 = Some (Inr y, w'))"
  by (auto simp: act_bind_def split: option.splits sum.splits)

lemma pure_act_Inr [simp]: "pure_act x w = Some (Inr y, w') \<longleftrightarrow> x = Inr y \<and> w' = w"
  by (auto simp: pure_act_def)

lemma http_get_Inr:
  assumes "http_get endpoint r path allow w = Some (Inr (status, body), w')"
  shows "wd_budget w' = wd_budget w \<and> length body \<le> allow"
  using assms http_body_within_allowance [of allow _ status body]
  by (auto simp: http_get_def split: if_splits sum.splits)

lemma exchange_post:
  "act_post (\<lambda>w. exchanges_of w = es) (exchange env endpoint q r api)
     (\<lambda>body w. exchanges_of w = es @ [made q r api body] \<and> length body \<le> max_json_bytes)"
  unfolding act_post_def
proof (intro allI impI)
  fix w body w'
  assume es: "exchanges_of w = es" and run: "exchange env endpoint q r api w = Some (Inr body, w')"
  let ?p = "\<lparr>pr_request = q, pr_resource = r, pr_api = api\<rparr>"
  obtain path rp u w1 n status bytes w2 w3 where s: "request_path q api = Inr path"
    "act_budget (record_request (rp_asked rp) q r api) w = Some (Inr u, w1)" "allowance (wd_budget w1) = Some n"
    "http_get endpoint rp path (min n max_json_bytes) w1 = Some (Inr (status, bytes), w2)"
    "act_budget (read_response (rp_received rp) (rp_stored rp) status \<lparr>rd_bytes = bytes, rd_fails = False\<rparr>) w2
      = Some (Inr body, w3)" "status_code status = 200" "w' = w3"
    using run unfolding exchange_def act_bind_Inr Let_def
    by (fastforce simp: act_bind_Inr split: option.splits if_splits)
  have b1: "b_exchanges (wd_budget w1) = es" "b_pending (wd_budget w1) = Some ?p"
    using s(2) es record_request_Inr by (auto simp: act_budget_Inr exchanges_of_def)
  have b2: "wd_budget w2 = wd_budget w1" "length bytes \<le> max_json_bytes" using http_get_Inr [OF s(4)] by simp_all
  obtain b3 where b3: "read_response (rp_received rp) (rp_stored rp) status \<lparr>rd_bytes = bytes, rd_fails = False\<rparr>
      (wd_budget w2) = Some (Inr body, b3)" "wd_budget w3 = b3" using s(5) by (auto simp: act_budget_Inr)
  have "status = HttpStatus 200" using s(6) by (cases status) simp
  with read_response_Inr [OF b3(1)] b1 b2(1) have "b_exchanges b3 = es @ [made q r api body]"
    by (auto simp: made_def)
  moreover have "length body \<le> max_json_bytes" using read_response_body [OF b3(1)] b2(2) by simp
  ultimately show "exchanges_of w' = es @ [made q r api body] \<and> length body \<le> max_json_bytes"
    using s(7) b3(2) by (simp add: exchanges_of_def)
qed

section \<open>The inspections\<close>

text \<open>The response of an inspection is of the requested resource, by the names that are fallbacks.\<close>

definition answers :: "json_parser \<Rightarrow> resource_ref set \<Rightarrow> captured_exchange \<Rightarrow> bool" where
  "answers parse fallbacks e \<longleftrightarrow>
     (case inspect_target (ex_request e) of
        None \<Rightarrow> True
      | Some (k, i) \<Rightarrow> \<exists>body r. parse (ex_body e) = Some body \<and> ex_resource e = Some r
          \<and> get_str (if k = 2 \<or> k = 1 \<and> r \<in> fallbacks then ''Name'' else ''Id'') body = Some i)"

definition tracked :: "selector \<Rightarrow> json_parser \<Rightarrow> run \<Rightarrow> world \<Rightarrow> bool" where
  "tracked s parse st w \<longleftrightarrow>
     (\<forall>e \<in> set (exchanges_of w). length (ex_body e) \<le> max_json_bytes \<and> answers parse (set (rn_fallbacks st)) e
        \<and> (\<forall>n. ex_resource e = Some (ResourceRef n) \<longrightarrow> n < rn_next st))
     \<and> (\<forall>r \<in> set (rn_fallbacks st). Some r \<in> set (map ex_resource (inspections 1 (exchanges_of w))))
     \<and> (\<forall>root \<in> set (rn_roots st). root_kind root = RootContainer \<longrightarrow> root_reason root = root_reason_of s)
     \<and> distinct (map ex_resource (filter (\<lambda>e. ex_resource e \<noteq> None) (exchanges_of w)))
     \<and> distinct (map (native_of parse 1) (inspections 1 (exchanges_of w)))
     \<and> set (map (native_of parse 1) (inspections 1 (exchanges_of w))) = Some ` id_text ` set (rn_seen st)
     \<and> [] \<notin> id_text ` set (rn_seen st)"

text \<open>A step that adds one inspection under the next reference.\<close>

lemma tracked_step:
  assumes "tracked s parse st w" and "exchanges_of w' = exchanges_of w @ [made q (Some (ResourceRef (rn_next st))) api body]"
    and "length body \<le> max_json_bytes" and "inspect_target q = Some (k, i)" and "parse body = Some v"
    and "rn_next st < rn_next st'"
    and "rn_fallbacks st' = rn_fallbacks st @ (if k = 1 \<and> named then [ResourceRef (rn_next st)] else [])"
    and "get_str (if k = 2 \<or> k = 1 \<and> named then ''Name'' else ''Id'') v = Some i"
    and "if k = 1 then (\<exists>n. get_str ''Id'' v = Some (id_text n) \<and> id_text n \<noteq> [] \<and> n \<notin> set (rn_seen st) \<and> set (rn_seen st') = insert n (set (rn_seen st)))
         else set (rn_seen st') = set (rn_seen st)"
    and "\<And>root. root \<in> set (rn_roots st') \<Longrightarrow> root_kind root = RootContainer \<Longrightarrow>
      root \<in> set (rn_roots st) \<or> root_reason root = root_reason_of s"
  shows "tracked s parse st' w'"
proof -
  let ?ref = "ResourceRef (rn_next st)"
  let ?e = "made q (Some ?ref) api body"
  have fresh: "ex_resource e \<noteq> Some ?ref" if "e \<in> set (exchanges_of w)" for e
    using assms(1) that by (auto simp: tracked_def)
  have mem: "e \<in> set (exchanges_of w)" if "e \<in> set (inspections j (exchanges_of w))" for e j
    using that by (simp add: inspections_def)
  have unused: "?ref \<notin> set (rn_fallbacks st)"
  proof
    assume "?ref \<in> set (rn_fallbacks st)"
    with assms(1) have "Some ?ref \<in> set (map ex_resource (inspections 1 (exchanges_of w)))" by (simp add: tracked_def)
    then show False using fresh mem by fastforce
  qed
  have old: "answers parse (set (rn_fallbacks st')) e" if "e \<in> set (exchanges_of w)" for e
  proof -
    have "answers parse (set (rn_fallbacks st)) e" using assms(1) that by (simp add: tracked_def)
    then show ?thesis using fresh [OF that] unfolding answers_def assms(7)
      by (auto split: option.splits prod.splits if_splits)
  qed
  have new: "answers parse (set (rn_fallbacks st')) ?e"
    using assms(4,5,8) unused by (auto simp: answers_def made_def assms(7))
  have snoc: "inspections j (exchanges_of w') = inspections j (exchanges_of w) @ (if j = k then [?e] else [])" for j
    using assms(2,4) by (simp add: inspections_snoc made_def)
  have refs: "distinct (map ex_resource (filter (\<lambda>e. ex_resource e \<noteq> None) (exchanges_of w')))"
    using assms(1) fresh by (auto simp: tracked_def assms(2) made_def)
  have native: "native_of parse 1 ?e = get_str ''Id'' v" using assms(5) by (simp add: native_of_def native_key_def made_def)
  have natives: "distinct (map (native_of parse 1) (inspections 1 (exchanges_of w')))
      \<and> set (map (native_of parse 1) (inspections 1 (exchanges_of w'))) = Some ` id_text ` set (rn_seen st')
      \<and> [] \<notin> id_text ` set (rn_seen st')"
  proof (cases "k = 1")
    case True
    with assms(9) obtain n where n: "get_str ''Id'' v = Some (id_text n)" "n \<notin> set (rn_seen st)"
      "set (rn_seen st') = insert n (set (rn_seen st))" "id_text n \<noteq> []" by auto
    from n(2) have "Some (id_text n) \<notin> Some ` id_text ` set (rn_seen st)" by (auto dest: native_id.expand)
    with True n native assms(1) show ?thesis by (auto simp: tracked_def snoc simp del: set_map list.set_map image_iff)
  next
    case False
    with assms(1,9) show ?thesis by (simp add: tracked_def snoc)
  qed
  have "length (ex_body e) \<le> max_json_bytes \<and> answers parse (set (rn_fallbacks st')) e
      \<and> (\<forall>n. ex_resource e = Some (ResourceRef n) \<longrightarrow> n < rn_next st')" if "e \<in> set (exchanges_of w')" for e
  proof (cases "e = ?e")
    case True
    with assms(3,6) new show ?thesis by (auto simp: made_def)
  next
    case False
    with that assms(2) have "e \<in> set (exchanges_of w)" by simp
    with assms(1,6) old show ?thesis by (force simp: tracked_def)
  qed
  moreover have "Some r \<in> set (map ex_resource (inspections 1 (exchanges_of w')))" if "r \<in> set (rn_fallbacks st')" for r
    using that assms(1) by (auto simp: tracked_def assms(7) snoc made_def split: if_splits)
  moreover have "root_reason root = root_reason_of s" if "root \<in> set (rn_roots st')" "root_kind root = RootContainer" for root
    using assms(1) assms(10) [OF that] that(2) by (auto simp: tracked_def)
  ultimately show ?thesis using refs natives by (simp add: tracked_def)
qed

lemma take_reference_roots:
  "take_reference kind reason st = Inr st' \<Longrightarrow> rn_roots st' = rn_roots st @ (case reason of None \<Rightarrow> []
     | Some why \<Rightarrow> [\<lparr>root_resource = ResourceRef (rn_next st), root_kind = kind, root_reason = why\<rparr>])"
  by (auto simp: take_reference_def bind_res_Inr_iff Let_def)

text \<open>One visit: the next reference is taken, the inspection is made and its identity is checked.\<close>

lemma take_reference_next:
  "take_reference kind reason st = Inr st' \<Longrightarrow> rn_next st < rn_next st'"
  by (auto simp: take_reference_def bind_res_Inr_iff checked_add_one_def Let_def word_less_nat_alt unat_Suc_word
      split: if_splits option.splits)

lemma inspect_identity_Inr:
  "inspect_identity parse body k i = Inr u \<longleftrightarrow> (\<exists>v. parse body = Some v \<and> get_str k v = Some (id_text i))"
  by (auto simp: inspect_identity_def bind_res_Inr_iff ok_or_Inr_iff split: if_splits)

lemma visit_container_post:
  "act_post (tracked s parse st) (visit_container env endpoint parse api s st i) (tracked s parse)"
  unfolding act_post_def
proof (intro allI impI)
  fix w st3 w'
  assume t: "tracked s parse st w" and run: "visit_container env endpoint parse api s st i w = Some (Inr st3, w')"
  obtain st1 body w1 u related where s: "take_reference RootContainer (Some (root_reason_of s)) st = Inr st1"
    "exchange env endpoint (InspectContainer i) (Some (ResourceRef (rn_next st))) (Some api) w = Some (Inr body, w1)"
    "inspect_identity parse body ''Id'' i = Inr u" "expand_related (wd_budget w1) related st1 = Inr st3" "w' = w1"
    using run unfolding visit_container_def by (auto simp: act_bind_Inr)
  have x: "exchanges_of w' = exchanges_of w @ [made (InspectContainer i) (Some (ResourceRef (rn_next st))) (Some api) body]"
    "length body \<le> max_json_bytes"
    using exchange_post [of "exchanges_of w"] s(2,5) unfolding act_post_def by blast+
  obtain v where v: "parse body = Some v" "get_str ''Id'' v = Some (id_text i)"
    using s(3) by (auto simp: inspect_identity_Inr)
  have st3: "rn_next st3 = rn_next st1" "rn_fallbacks st3 = rn_fallbacks st1" "rn_seen st3 = rn_seen st1" "rn_roots st3 = rn_roots st1"
    using s(4) by (auto simp: expand_related_def bind_res_Inr_iff Let_def split: prod.splits if_splits)
  show "tracked s parse st3 w'"
    by (rule tracked_step [OF t x(1,2) _ v(1), where named = False])
      (use take_reference_Inr [OF s(1)] take_reference_roots [OF s(1)] take_reference_next [OF s(1)] st3 v(2) in auto)
qed

lemma visit_network_post:
  "act_post (tracked s parse st) (visit_network env endpoint parse api s st nb) (tracked s parse)"
  unfolding act_post_def
proof (intro allI impI)
  fix w st3 w'
  assume t: "tracked s parse st w" and run: "visit_network env endpoint parse api s st nb w = Some (Inr st3, w')"
  obtain i named where nb: "nb = (i, named)" by force
  let ?r = "ResourceRef (rn_next st)"
  let ?st = "st\<lparr>rn_fallbacks := (if named then rn_fallbacks st @ [?r] else rn_fallbacks st)\<rparr>"
  obtain reason st1 body w1 u n where s: "take_reference RootNetwork reason ?st = Inr st1"
    "exchange env endpoint (InspectNetwork i) (Some ?r) (Some api) w = Some (Inr body, w1)"
    "inspect_identity parse body (if named then ''Name'' else ''Id'') i = Inr u"
    "inspected_network_id parse body = Inr n" "n \<notin> set (rn_seen st1)" "st3 = st1\<lparr>rn_seen := n # rn_seen st1\<rparr>" "w' = w1"
    using run unfolding visit_network_def nb Let_def by (auto simp: act_bind_Inr split: if_splits)
  have x: "exchanges_of w' = exchanges_of w @ [made (InspectNetwork i) (Some ?r) (Some api) body]"
    "length body \<le> max_json_bytes"
    using exchange_post [of "exchanges_of w"] s(2,7) unfolding act_post_def by blast+
  obtain v where v: "parse body = Some v" "get_str (if named then ''Name'' else ''Id'') v = Some (id_text i)"
    using s(3) by (auto simp: inspect_identity_Inr)
  have n: "get_str ''Id'' v = Some (id_text n) \<and> id_text n \<noteq> []"
    using s(4) v(1) by (auto simp: inspected_network_id_def bind_res_Inr_iff ok_or_Inr_iff native_id_new_def bind_eq_Some_conv split: if_splits)
  show "tracked s parse st3 w'"
    by (rule tracked_step [OF t x(1,2) _ v(1), where named = named])
      (use take_reference_Inr [OF s(1)] take_reference_roots [OF s(1)] take_reference_next [OF s(1)] s(5,6) v(2) n in auto)
qed

lemma visit_volume_post:
  "act_post (tracked s parse st) (visit_volume env endpoint parse api s st i) (tracked s parse)"
  unfolding act_post_def
proof (intro allI impI)
  fix w st3 w'
  assume t: "tracked s parse st w" and run: "visit_volume env endpoint parse api s st i w = Some (Inr st3, w')"
  obtain reason body w1 u where s: "take_reference RootVolume reason st = Inr st3"
    "exchange env endpoint (InspectVolume i) (Some (ResourceRef (rn_next st))) (Some api) w = Some (Inr body, w1)"
    "inspect_identity parse body ''Name'' i = Inr u" "w' = w1"
    using run unfolding visit_volume_def Let_def by (auto simp: act_bind_Inr)
  have x: "exchanges_of w' = exchanges_of w @ [made (InspectVolume i) (Some (ResourceRef (rn_next st))) (Some api) body]"
    "length body \<le> max_json_bytes"
    using exchange_post [of "exchanges_of w"] s(2,4) unfolding act_post_def by blast+
  obtain v where v: "parse body = Some v" "get_str ''Name'' v = Some (id_text i)"
    using s(3) by (auto simp: inspect_identity_Inr)
  show "tracked s parse st3 w'"
    by (rule tracked_step [OF t x(1,2) _ v(1), where named = False])
      (use take_reference_Inr [OF s(1)] take_reference_roots [OF s(1)] take_reference_next [OF s(1)] v(2) in auto)
qed

section \<open>The whole run\<close>

text \<open>Exchanges that inspect nothing.\<close>

definition preliminary :: "captured_exchange list \<Rightarrow> bool" where
  "preliminary es \<longleftrightarrow> (\<forall>e \<in> set es. length (ex_body e) \<le> max_json_bytes
     \<and> inspect_target (ex_request e) = None \<and> ex_resource e = None)"

lemma preliminary_tracked: "preliminary (exchanges_of w) \<Longrightarrow> tracked s parse (initial_run s) w"
proof -
  assume p: "preliminary (exchanges_of w)"
  then have "inspections k (exchanges_of w) = []" for k
    by (auto simp: inspections_def of_kind_def preliminary_def filter_empty_conv)
  with p show ?thesis by (auto simp: tracked_def preliminary_def initial_run_def answers_def)
qed

lemma preliminary_post:
  assumes "inspect_target q = None"
  shows "act_post (\<lambda>w. preliminary (exchanges_of w)) (exchange env endpoint q None api) (\<lambda>_ w. preliminary (exchanges_of w))"
  unfolding act_post_def
proof (intro allI impI)
  fix w body w'
  assume "preliminary (exchanges_of w)" and "exchange env endpoint q None api w = Some (Inr body, w')"
  moreover from this(2) exchange_post [of "exchanges_of w" env endpoint q None api]
  have "exchanges_of w' = exchanges_of w @ [made q None api body]" "length body \<le> max_json_bytes"
    unfolding act_post_def by blast+
  ultimately show "preliminary (exchanges_of w')" using assms by (simp add: preliminary_def made_def)
qed

lemma selected_post:
  "act_post (\<lambda>w. preliminary (exchanges_of w)) (selected_containers env endpoint parse api s)
     (\<lambda>_ w. preliminary (exchanges_of w))"
proof -
  have list: "act_post (\<lambda>w. preliminary (exchanges_of w)) (act_bind (exchange env endpoint ListContainers None (Some api)) (\<lambda>body.
      pure_act (selected_ids parse body s))) (\<lambda>_ w. preliminary (exchanges_of w))"
    by (rule act_post_bind [OF preliminary_post]) (auto intro: act_post_pure)
  then show ?thesis by (auto simp: selected_containers_def intro: act_post_pure split: selector.split)
qed

lemma record_selection_post:
  "act_post (\<lambda>w. preliminary (exchanges_of w)) (act_budget (record_selection now n)) (\<lambda>_ w. preliminary (exchanges_of w))"
  unfolding act_post_def by (auto simp: act_budget_Inr exchanges_of_def dest: record_selection_Inr)

lemma visit_all_post:
  "act_post (\<lambda>w. preliminary (exchanges_of w)) (visit_all env endpoint parse api s cs) (tracked s parse)"
  unfolding visit_all_def Let_def
proof (rule act_post_bind [OF record_selection_post], rule act_post_conseq)
  show "act_post (tracked s parse (initial_run s)) (act_bind (act_fold (visit_container env endpoint parse api s) (initial_run s) cs) (\<lambda>st1.
      act_bind (act_fold (visit_network env endpoint parse api s) st1 (sort_key (\<lambda>nb. id_text (fst nb)) (rn_networks st1))) (\<lambda>st2.
        act_fold (visit_volume env endpoint parse api s) st2 (sort_key id_text (rn_volumes st1))))) (tracked s parse)"
    by (rule act_post_bind [where Q = "tracked s parse"], rule act_post_fold, rule visit_container_post,
        rule act_post_bind [where Q = "tracked s parse"], rule act_post_fold, rule visit_network_post,
        rule act_post_fold, rule visit_volume_post)
qed (auto intro: preliminary_tracked)

lemma acquire_from_post:
  "act_post (\<lambda>w. exchanges_of w = []) (acquire_from env endpoint parse s)
     (\<lambda>c w. \<exists>st. tracked s parse st w \<and> finish env s st w = Inr c)"
  unfolding acquire_from_def
proof (rule act_post_bind [where Q = "\<lambda>_ w. preliminary (exchanges_of w)"])
  show "act_post (\<lambda>w. exchanges_of w = []) (exchange env endpoint DaemonVersion None None) (\<lambda>_ w. preliminary (exchanges_of w))"
    by (rule act_post_conseq [OF preliminary_post]) (simp_all add: preliminary_def)
next
  fix body
  have finished: "act_post (tracked s parse st) (\<lambda>w. pure_act (finish env s st w) w)
      (\<lambda>c w. \<exists>st. tracked s parse st w \<and> finish env s st w = Inr c)" for st
    by (auto simp: act_post_def)
  have visits: "act_post (\<lambda>w. preliminary (exchanges_of w))
      (act_bind (visit_all env endpoint parse api s cs) (\<lambda>st w. pure_act (finish env s st w) w))
      (\<lambda>c w. \<exists>st. tracked s parse st w \<and> finish env s st w = Inr c)" for api cs
    by (rule act_post_bind [OF visit_all_post finished])
  show "act_post (\<lambda>w. preliminary (exchanges_of w)) (act_bind (pure_act (negotiated_api parse body)) (\<lambda>api.
      act_bind (exchange env endpoint DaemonInfo None (Some api)) (\<lambda>_.
      act_bind (selected_containers env endpoint parse api s) (\<lambda>ids.
      act_bind (visit_all env endpoint parse api s (keep_new [] ids)) (\<lambda>st w. pure_act (finish env s st w) w)))))
    (\<lambda>c w. \<exists>st. tracked s parse st w \<and> finish env s st w = Inr c)"
    by (rule act_post_bind_pure, rule act_post_bind [OF preliminary_post], simp,
        rule act_post_bind [OF selected_post], rule visits)
qed

lemma finish_fallbacks: "finish env s st w = Inr c \<Longrightarrow> cap_fallbacks c = rn_fallbacks st"
  by (auto simp: finish_def bind_res_Inr_iff budget_error_def Let_def with_explicit_socket_def
      with_network_name_fallbacks_def with_selector_def with_selected_roots_def with_discovery_only_def
      split: sum.splits selector.splits)

lemma acquire_tracked:
  assumes "acquire env endpoint parse s l n = Some (Inr c, sent)"
  obtains st w where "tracked s parse st w" and "cap_exchanges c = exchanges_of w" and "cap_fallbacks c = rn_fallbacks st"
    and "cap_roots c = rn_roots st"
proof -
  obtain b w where b: "fst (budget_new l n) = Inr b"
    "acquire_from env endpoint parse s \<lparr>wd_budget = b, wd_sent = []\<rparr> = Some (Inr c, w)"
    using assms by (auto simp: acquire_def split: sum.splits)
  have "exchanges_of \<lparr>wd_budget = b, wd_sent = []\<rparr> = []"
    using budget_new_settled [OF b(1)] by (simp add: settled_def exchanges_of_def)
  with acquire_from_post b(2) obtain st where st: "tracked s parse st w" "finish env s st w = Inr c"
    unfolding act_post_def by blast
  show thesis
    by (rule that [OF st(1)]) (use finish_Inr [OF st(2)] finish_fallbacks [OF st(2)] in \<open>simp_all add: exchanges_of_def\<close>)
qed

section \<open>The identifiers asked for\<close>

text \<open>No identifier is empty: the code cannot make one, and what is read or selected is checked.\<close>

lemma selected_ids_named:
  assumes "selected_ids parse body s = Inr ids" and "i \<in> set ids"
  shows "id_text i \<noteq> []"
proof -
  obtain entries st where st: "try_fold (entry_step s) \<lparr>ss_selected = [], ss_matched = [], ss_seen = []\<rparr> entries = Inr st"
    "ids = ss_selected st"
    using assms(1) by (auto simp: selected_ids_def bind_res_Inr_iff split: if_splits)
  have "\<forall>i \<in> set (ss_selected st). valid_exact_container_id i"
    by (rule try_fold_invariant [OF _ st(1)]) (auto simp: entry_step_def bind_res_Inr_iff split: if_splits)
  with assms(2) st(2) show ?thesis by (auto simp: valid_exact_container_id_def)
qed

lemma listed_named:
  assumes "validate_selector s l = Inr ()" and "listed parse api s ls ids" and "i \<in> set ids"
  shows "id_text i \<noteq> []"
  using assms selected_ids_named [of parse _ s ids i]
  by (auto simp: listed_def validate_selector_def check_simps list_ex_iff valid_exact_container_id_def
      split: selector.splits)

lemma related_volumes_named:
  assumes "related_ids parse body = Inr (ns, vs)" and "i \<in> set vs"
  shows "id_text i \<noteq> []"
proof -
  have "\<forall>x \<in> set xs. \<forall>i \<in> set x. id_text i \<noteq> []" if "map_res related_volume ms = Inr xs" for ms xs
    using that
    by (induction ms arbitrary: xs) (auto simp: bind_res_Inr_iff related_volume_def ok_or_Inr_iff
        native_id_new_def bind_eq_Some_conv split: if_splits)
  with assms show ?thesis
    by (fastforce simp: related_ids_def related_volumes_def bind_res_Inr_iff split: option.splits if_splits)
qed

lemma volumes_named:
  assumes "validate_selector s l = Inr ()" and "i \<in> selected_volumes s \<union> (\<Union>b \<in> bs. body_volumes parse b)"
  shows "id_text i \<noteq> []"
  using assms related_volumes_named
  by (fastforce simp: selected_volumes_def body_volumes_def validate_selector_def validate_names_def check_simps
      valid_volume_name_def valid_literal_name_def strip_slash_def list_ex_iff Let_def split: selector.splits sum.splits if_splits)

lemma acquire_validated: "acquire env endpoint parse s l n = Some (Inr c, sent) \<Longrightarrow> validate_selector s l = Inr ()"
  by (auto simp: acquire_def split: sum.splits)

section \<open>The keys of a capture\<close>

lemma requested_ids:
  "map requested_id (inspections k es) =
   concat (map (\<lambda>q. case inspect_target q of Some (j, i) \<Rightarrow> if j = k then [i] else [] | None \<Rightarrow> []) (map ex_request es))"
  by (induction es) (auto simp: inspections_def of_kind_def requested_id_def split: option.splits)

lemma numbered_identities:
  "map fst (numbered api n qs) = qs" "x \<in> set (numbered api n qs) \<Longrightarrow> snd (snd x) = Some api"
  by (induction qs arbitrary: n) auto

lemma acquired_requests:
  assumes "limits_sized l" and "acquire env endpoint parse s l n = Some (Inr c, sent)"
  obtains v api i ls ids es where "cap_exchanges c = [made DaemonVersion None None v, made DaemonInfo None (Some api) i] @ ls @ es"
    and "negotiated_api parse v = Inr api"
    and "listed parse api s ls ids" and "\<And>e. e \<in> set es \<Longrightarrow> inspect_target (ex_request e) \<noteq> None \<and> ex_api e = Some api"
    and "\<And>k. distinct (map requested_id (inspections k (cap_exchanges c)))"
    and "map requested_id (inspections 0 (cap_exchanges c)) = map id_text (keep_new [] ids)"
    and "roots_match s (cap_roots c) es" and "cap_selector c = Some s" and "cap_discovery_only c = (s = Discovery)"
    and "\<And>e. e \<in> set (cap_exchanges c) \<Longrightarrow> status_code (ex_status e) = 200"
    and "\<And>k e. e \<in> set (inspections k (cap_exchanges c)) \<Longrightarrow> k \<noteq> 1 \<Longrightarrow> requested_id e \<noteq> []"
proof -
  obtain v api i ls ids es ns vs where x:
    "cap_exchanges c = [made DaemonVersion None None v, made DaemonInfo None (Some api) i] @ ls @ es"
    "negotiated_api parse v = Inr api" "listed parse api s ls ids"
    "map ident es = numbered api 1 (map InspectContainer (keep_new [] ids) @ map InspectNetwork ns @ map InspectVolume vs)"
    "distinct ns" "distinct vs" "roots_match s (cap_roots c) es"
    "cap_selector c = Some s" "cap_discovery_only c = (s = Discovery)"
    "\<forall>e \<in> set (cap_exchanges c). status_code (ex_status e) = 200"
    "set vs = selected_volumes s \<union> (\<Union>b \<in> container_bodies es. body_volumes parse b)"
    using acquire_stages [OF assms] by (elim exE conjE) (rule that, assumption+)
  let ?qs = "map InspectContainer (keep_new [] ids) @ map InspectNetwork ns @ map InspectVolume vs"
  have requests: "map ex_request es = ?qs"
    using arg_cong [OF x(4), of "map fst"] by (simp add: numbered_identities ident_def comp_def)
  have "ident e \<in> set (numbered api 1 ?qs)" if "e \<in> set es" for e
    using that x(4) by (metis image_eqI list.set_map)
  then have api: "ex_api e = Some api" if "e \<in> set es" for e
    using numbered_identities(2) that by (fastforce simp: ident_def)
  have "ex_request e \<in> set ?qs" if "e \<in> set es" for e
    using that requests by (metis image_eqI list.set_map)
  then have inspects: "inspect_target (ex_request e) \<noteq> None" if "e \<in> set es" for e
    using that by fastforce
  have list: "inspections k ls = []" for k
    using x(3) by (auto simp: listed_def inspections_def of_kind_def made_def split: selector.splits)
  have ids: "map requested_id (inspections k (cap_exchanges c)) = map requested_id (inspections k es)" for k
    using list by (simp add: x(1) inspections_def of_kind_def made_def)
  have conc: "concat (map (\<lambda>i. [f i]) xs) = map f xs" for f :: "native_id \<Rightarrow> bytes" and xs
    by (induction xs) auto
  have none: "concat (map (\<lambda>i. []) xs) = ([] :: bytes list)" for xs :: "native_id list"
    by (induction xs) auto
  have by_kind: "map requested_id (inspections k es) = (if k = 0 then map id_text (keep_new [] ids) else if k = 1
      then map id_text ns else if k = 2 then map id_text vs else [])" for k
    by (simp add: requested_ids requests comp_def conc none)
  have inj: "inj_on id_text A" for A by (auto intro: inj_onI native_id.expand)
  note valid = acquire_validated [OF assms(2)]
  have "requested_id e \<noteq> []" if e: "e \<in> set (inspections k (cap_exchanges c))" and k: "k \<noteq> 1" for k e
  proof -
    have "requested_id e \<in> set (map requested_id (inspections k es))" unfolding ids [symmetric] using e by simp
    then have "requested_id e \<in> id_text ` (set ids \<union> set vs)"
      unfolding by_kind using k by (auto simp: keep_new_set split: if_splits)
    then show ?thesis using listed_named [OF valid x(3)] volumes_named [OF valid] unfolding x(11) by fastforce
  qed
  note named = this
  show thesis
    by (rule that [OF x(1-3) _ _ _ _ _ _ _ named]) (use api inspects by_kind ids x(5-10) inj in \<open>auto simp: distinct_map keep_new_distinct\<close>)
qed

text \<open>The keys by which the decoder finds duplicates are all different.\<close>

lemma acquired_keys:
  assumes "limits_sized l" and "acquire env endpoint parse s l n = Some (Inr c, sent)"
  shows "distinct (map ex_resource (inspections k (cap_exchanges c)))
    \<and> distinct (map (native_of parse k) (inspections k (cap_exchanges c)))
    \<and> (\<forall>e \<in> set (cap_exchanges c). length (ex_body e) \<le> max_json_bytes \<and> answers parse (set (cap_fallbacks c)) e)"
proof -
  from assms(2) obtain st w where t: "tracked s parse st w" "cap_exchanges c = exchanges_of w" "cap_fallbacks c = rn_fallbacks st"
    by (rule acquire_tracked)
  from assms obtain ids where d: "\<And>k. distinct (map requested_id (inspections k (cap_exchanges c)))"
    by (rule acquired_requests) blast
  have "distinct (map (native_of parse k) (inspections k (cap_exchanges c)))"
  proof (cases "k = 1")
    case True
    with t(1,2) show ?thesis by (simp add: tracked_def)
  next
    case False
    have "native_of parse k e = Some (requested_id e)" if "e \<in> set (inspections k (cap_exchanges c))" for e
    proof -
      have e: "e \<in> set (exchanges_of w)" "of_kind k e" using that t(2) by (simp_all add: inspections_def)
      then obtain i where i: "inspect_target (ex_request e) = Some (k, i)"
        by (auto simp: of_kind_def)
      from e(1) t(1) have "answers parse (set (rn_fallbacks st)) e" by (simp add: tracked_def)
      with i False show ?thesis
        by (auto simp: answers_def native_of_def native_key_def requested_id_def)
    qed
    then have "map (native_of parse k) (inspections k (cap_exchanges c))
        = map Some (map requested_id (inspections k (cap_exchanges c)))" by simp
    with d show ?thesis by (simp add: distinct_map del: map_map)
  qed
  moreover have "inspections k (cap_exchanges c) = filter (of_kind k) (filter (\<lambda>e. ex_resource e \<noteq> None) (cap_exchanges c))"
  proof -
    have "ex_resource e \<noteq> None" if "e \<in> set (cap_exchanges c)" "of_kind k e" for e
    proof -
      have "answers parse (set (rn_fallbacks st)) e" using t(1,2) that(1) by (simp add: tracked_def)
      with that(2) show ?thesis by (auto simp: answers_def of_kind_def split: option.splits)
    qed
    then show ?thesis by (auto simp: inspections_def intro: filter_cong)
  qed
  then have "distinct (map ex_resource (inspections k (cap_exchanges c)))"
    using t(1,2) by (simp add: tracked_def distinct_map_filter del: filter_filter)
  ultimately show ?thesis using t by (simp add: tracked_def)
qed

text \<open>What the capture says of its roots and of the networks known only by name.\<close>

lemma acquired_roots:
  assumes "acquire env endpoint parse s l n = Some (Inr c, sent)"
  shows "(\<forall>r \<in> set (cap_fallbacks c). Some r \<in> set (map ex_resource (inspections 1 (cap_exchanges c))))
    \<and> (\<forall>root \<in> set (cap_roots c). root_kind root = RootContainer \<longrightarrow> root_reason root = root_reason_of s)
    \<and> distinct (map ex_resource (filter (\<lambda>e. ex_resource e \<noteq> None) (cap_exchanges c)))"
proof -
  from assms obtain st w where t: "tracked s parse st w" "cap_exchanges c = exchanges_of w" "cap_fallbacks c = rn_fallbacks st"
    "cap_roots c = rn_roots st" by (rule acquire_tracked)
  from t(1) show ?thesis unfolding t(2-4) tracked_def by blast
qed

section \<open>No refusal of an acquired capture\<close>

lemma acquired_answers:
  assumes "limits_sized l" and "acquire env endpoint parse s l n = Some (Inr c, sent)" and "x \<in> set (cap_exchanges c)"
  shows "\<not> wrong_resource parse c x"
  using acquired_keys [OF assms(1,2)] assms(3)
  by (fastforce simp: wrong_resource_def answers_def expected_key_def split: if_splits)

lemma acquired_identified:
  assumes "limits_sized l" and "acquire env endpoint parse s l n = Some (Inr c, sent)" and "x \<in> set (cap_exchanges c)"
  shows "\<not> unidentified parse x"
proof
  assume "unidentified parse x"
  then obtain k i body where x: "inspect_target (ex_request x) = Some (k, i)" "parse (ex_body x) = Some body"
    "ex_resource x = None \<or> get_str (native_key k) body = None \<or> get_str (native_key k) body = Some []"
    by (auto simp: unidentified_def)
  from assms(2) obtain st w where t: "tracked s parse st w" "cap_exchanges c = exchanges_of w"
    by (rule acquire_tracked)
  have mem: "x \<in> set (inspections k (exchanges_of w))" using assms(3) x(1) t(2) by (simp add: inspections_def of_kind_def)
  have "answers parse (set (rn_fallbacks st)) x" using t assms(3) by (simp add: tracked_def)
  then obtain r where r: "ex_resource x = Some r"
    "get_str (if k = 2 \<or> k = 1 \<and> r \<in> set (rn_fallbacks st) then ''Name'' else ''Id'') body = Some i"
    using x(1,2) by (auto simp: answers_def)
  have native: "native_of parse k x = get_str (native_key k) body" using x(2) by (simp add: native_of_def)
  show False
  proof (cases "k = 1")
    case True
    with mem have "native_of parse 1 x \<in> set (map (native_of parse 1) (inspections 1 (exchanges_of w)))" by simp
    then have "native_of parse 1 x \<in> Some ` id_text ` set (rn_seen st)" "[] \<notin> id_text ` set (rn_seen st)"
      using t(1) unfolding tracked_def by blast+
    with True native x(3) r(1) show False by auto
  next
    case False
    from assms(1,2) have "requested_id x \<noteq> []" by (rule acquired_requests) (use False mem t(2) in auto)
    with x(1) have "i \<noteq> []" by (simp add: requested_id_def)
    with False r x(3) show False by (auto simp: native_key_def)
  qed
qed

lemma acquired_new:
  assumes "limits_sized l" and "acquire env endpoint parse s l n = Some (Inr c, sent)"
    and "cap_exchanges c = xs @ x # ys" and "try_fold (decode_step parse c) (initial_decode c) xs = Inr st"
  shows "\<not> seen_before parse st x"
proof
  assume "seen_before parse st x"
  then obtain k i r m body where x: "inspect_target (ex_request x) = Some (k, i)" "ex_resource x = Some r"
    "parse (ex_body x) = Some body" "get_str (native_key k) body = Some m"
    "m \<in> ds_native st k \<or> (k, r) \<in> ds_seen st" by (auto simp: seen_before_def)
  have keys: "Some ` {r. (k, r) \<in> ds_seen st} = set (map ex_resource (inspections k xs))"
    "Some ` ds_native st k = set (map (native_of parse k) (inspections k xs))"
    using pass_invariants [OF assms(4)] by (simp_all add: keys_from_def)
  have split: "inspections k (cap_exchanges c) = inspections k xs @ x # inspections k ys"
    using x(1) by (simp add: assms(3) inspections_def of_kind_def)
  have native: "native_of parse k x = Some m" using x(3,4) by (simp add: native_of_def)
  from acquired_keys [OF assms(1,2), of k] have "ex_resource x \<notin> set (map ex_resource (inspections k xs))"
    "native_of parse k x \<notin> set (map (native_of parse k) (inspections k xs))" by (auto simp: split)
  then have "Some r \<notin> Some ` {r. (k, r) \<in> ds_seen st}" "Some m \<notin> Some ` ds_native st k"
    unfolding keys x(2) native by blast+
  with x(5) show False by auto
qed

lemma list_selects:
  assumes "listed parse api s ls ids" and "e \<in> set ls"
  shows "ls = [e] \<and> ex_request e = ListContainers \<and> ex_api e = Some api \<and> selected_ids parse (ex_body e) s = Inr ids"
  using assms by (auto simp: listed_def made_def split: selector.splits)

lemma single_request:
  assumes "length (filter P (xs @ x # ys)) \<le> 1" and "P x" and "e \<in> set xs"
  shows "\<not> P e"
  using assms by (auto simp: filter_empty_conv)

lemma acquired_requests_once:
  assumes "cap_exchanges c = [made DaemonVersion None None v, made DaemonInfo None (Some api) i] @ ls @ es"
    and "listed parse api s ls ids" and "\<And>e. e \<in> set es \<Longrightarrow> inspect_target (ex_request e) \<noteq> None \<and> ex_api e = Some api"
  shows "length (filter (\<lambda>e. ex_request e = DaemonVersion) (cap_exchanges c)) \<le> 1"
    and "length (filter (\<lambda>e. ex_request e = ListContainers) (cap_exchanges c)) \<le> 1"
proof -
  have es: "filter (\<lambda>e. ex_request e = q) es = []" if "inspect_target q = None" for q
    using assms(3) that by (force simp: filter_empty_conv)
  have ls: "ls = [] \<or> (\<exists>e. ls = [e] \<and> ex_request e = ListContainers)"
    using list_selects [OF assms(2)] by (cases ls) auto
  show "length (filter (\<lambda>e. ex_request e = DaemonVersion) (cap_exchanges c)) \<le> 1"
    "length (filter (\<lambda>e. ex_request e = ListContainers) (cap_exchanges c)) \<le> 1"
    using es [of DaemonVersion] es [of ListContainers] ls by (auto simp: assms(1) made_def)
qed

text \<open>The negotiated version lies in the range that the decoder reads from the same response.\<close>

lemma version_field_text:
  assumes "get_str k v = Some t" and "version_field v k = Inr x"
  shows "x = parse_api t" and "x \<noteq> None"
proof -
  obtain kvs where v: "v = VObject kvs" "map_of kvs k = Some (VString t)" using assms(1) by (auto simp: get_str_Some)
  have "\<not> is_redacted (VString t)" by (simp add: is_redacted_def)
  with assms(2) v not_redacted_with_text [OF assms(1)] have "ok_or (parse_api t) (InvalidValue FApiVersion) = Inr (the x) \<and> x \<noteq> None"
    by (auto simp: version_field_def bind_res_Inr_iff reported_api_agrees)
  then show "x = parse_api t" "x \<noteq> None" by (auto simp: ok_or_Inr_iff)
qed

lemma version_field_absent:
  assumes "json_get k v = None" and "version_field v k = Inr x" and "v = VObject kvs"
  shows "x = None"
  using assms by (auto simp: version_field_def bind_res_Inr_iff split: if_splits)

lemma negotiated_in_range:
  assumes "negotiated_api parse body = Inr api" and "parse body = Some v"
    and "version_field v ''ApiVersion'' = Inr maximum" and "version_field v ''MinAPIVersion'' = Inr minimum"
  shows "\<exists>m. maximum = Some m \<and> api \<le> m \<and> (\<forall>n. minimum = Some n \<longrightarrow> n \<le> api)"
proof -
  obtain t m where t: "get_str ''ApiVersion'' v = Some t" "parse_api t = Some m"
    and api: "api = min m (ApiVersion 1 max_known_minor)"
    and least: "case json_get ''MinAPIVersion'' v of None \<Rightarrow> True
      | Some w \<Rightarrow> \<exists>t' n. as_str w = Some t' \<and> parse_api t' = Some n \<and> n \<le> api"
    using assms(1,2)
    by (auto simp: negotiated_api_def bind_res_Inr_iff ok_or_Inr_iff Let_def bind_eq_Some_conv not_less
        split: option.splits if_splits)
  obtain kvs where v: "v = VObject kvs" using t(1) by (auto simp: get_str_Some)
  have "maximum = Some m" using version_field_text(1) [OF t(1) assms(3)] t(2) by simp
  moreover have "n \<le> api" if "minimum = Some n" for n
  proof (cases "json_get ''MinAPIVersion'' v")
    case None
    with version_field_absent [OF _ assms(4) v] that show ?thesis by simp
  next
    case (Some w)
    with least obtain t' n' where w: "as_str w = Some t'" "parse_api t' = Some n'" "n' \<le> api" by auto
    have "get_str ''MinAPIVersion'' v = Some t'" using Some w(1) by (simp add: get_str_def)
    from version_field_text(1) [OF this assms(4)] that w show ?thesis by simp
  qed
  ultimately show ?thesis using api by simp
qed

end
