(* ===== verification/Acquired_Decoding.thy ===== *)
theory Acquired_Decoding
  imports Acquired_Inventories
begin

text \<open>
  The completeness of what \<^verbatim>\<open>acquire\<close> returns, as \<^verbatim>\<open>decode_capture\<close> checks it: the selected resources
  are counted, the listing is the one that was selected from, and all of it is among the inspected.
\<close>

section \<open>The count of the selected resources\<close>

lemma act_post_fold_count:
  assumes "\<And>st x k. act_post (J k st) (f st x) (J (k + d :: nat))"
  shows "act_post (J k st) (act_fold f st xs) (J (k + d * length xs))"
proof (induction xs arbitrary: st k)
  case Nil
  show ?case by (auto intro: act_post_pure)
next
  case (Cons x xs)
  have e: "k + d * length (x # xs) = k + d + d * length xs" by simp
  show ?case unfolding e act_fold.simps by (rule act_post_bind [OF assms Cons])
qed

definition counted :: "nat \<Rightarrow> nat \<Rightarrow> run \<Rightarrow> world \<Rightarrow> bool" where
  "counted n k st w \<longleftrightarrow> b_selected (wd_budget w) = n \<and> length (rn_roots st) = k"

lemma record_request_selected:
  "record_request now q r api b = Some (Inr u, b') \<Longrightarrow> b_selected b' = b_selected b"
  unfolding record_request_def and_then_Some_Inr
  by (auto dest!: check_time_Inr simp: err_def fail_with_def ok_def register_def count_request_def Let_def and_then_Some_Inr
      split: if_splits option.splits prod.splits)

lemma read_response_selected:
  "read_response now stored status rd b = Some (Inr y, b') \<Longrightarrow> b_selected b' = b_selected b"
  unfolding read_response_def and_then_Some_Inr
  by (auto dest!: check_time_Inr simp: err_def fail_with_def Let_def and_then_Some_Inr store_exchange_def ok_def
      split: if_splits option.splits prod.splits)

lemma http_get_budget: "http_get endpoint r path allow w = Some (Inr y, w') \<Longrightarrow> wd_budget w' = wd_budget w"
  by (auto simp: http_get_def split: if_splits sum.splits)

lemma exchange_selected:
  assumes "exchange env endpoint q r api w = Some (Inr body, w')"
  shows "b_selected (wd_budget w') = b_selected (wd_budget w)"
proof -
  obtain path rp u w1 n status bytes w2 w3 where s: "request_path q api = Inr path"
    "act_budget (record_request (rp_asked rp) q r api) w = Some (Inr u, w1)" "allowance (wd_budget w1) = Some n"
    "http_get endpoint rp path (min n max_json_bytes) w1 = Some (Inr (status, bytes), w2)"
    "act_budget (read_response (rp_received rp) (rp_stored rp) status \<lparr>rd_bytes = bytes, rd_fails = False\<rparr>) w2
      = Some (Inr body, w3)" "w' = w3"
    using assms unfolding exchange_def act_bind_Inr Let_def
    by (fastforce simp: act_bind_Inr split: option.splits if_splits)
  then show ?thesis
    by (auto simp: act_budget_Inr dest!: record_request_selected read_response_selected http_get_budget)
qed

lemma take_reference_count:
  "take_reference kind reason st = Inr st' \<Longrightarrow> length (rn_roots st') = length (rn_roots st) + of_bool (reason \<noteq> None)"
  by (auto dest: take_reference_roots split: option.splits)

lemma expand_related_roots: "expand_related b related st = Inr st' \<Longrightarrow> rn_roots st' = rn_roots st"
  by (auto simp: expand_related_def bind_res_Inr_iff Let_def split: prod.splits if_splits)

lemma visit_container_counted:
  "act_post (counted n k st) (visit_container env endpoint parse api s st i) (counted n (k + 1))"
  unfolding act_post_def visit_container_def
  by (auto simp: act_bind_Inr counted_def dest!: exchange_selected take_reference_count expand_related_roots)

lemma visit_network_counted:
  "act_post (counted n k st) (visit_network env endpoint parse api s st nb)
     (counted n (k + of_bool (\<exists>ids. s = NetworkIds ids)))"
  unfolding act_post_def visit_network_def
  by (auto simp: act_bind_Inr counted_def Let_def
      dest!: exchange_selected take_reference_count split: prod.splits if_splits selector.splits)

lemma visit_volume_counted:
  "act_post (counted n k st) (visit_volume env endpoint parse api s st i)
     (counted n (k + of_bool (\<exists>names. s = VolumeNames names)))"
  unfolding act_post_def visit_volume_def
  by (auto simp: act_bind_Inr counted_def Let_def
      dest!: exchange_selected take_reference_count split: selector.splits)

lemma containers_counted:
  "act_post (counted n k st) (act_fold (visit_container env endpoint parse api s) st cs) (counted n (k + 1 * length cs))"
  by (rule act_post_fold_count, rule visit_container_counted)

lemma networks_counted:
  "act_post (counted n k st) (act_fold (visit_network env endpoint parse api s) st nbs)
     (counted n (k + of_bool (\<exists>ids. s = NetworkIds ids) * length nbs))"
  by (rule act_post_fold_count, rule visit_network_counted)

lemma volumes_counted:
  "act_post (counted n k st) (act_fold (visit_volume env endpoint parse api s) st vs)
     (counted n (k + of_bool (\<exists>names. s = VolumeNames names) * length vs))"
  by (rule act_post_fold_count, rule visit_volume_counted)

text \<open>The containers of a selection by networks or volumes.\<close>

definition no_containers :: "selector \<Rightarrow> bool" where
  "no_containers s \<longleftrightarrow> (case s of NetworkIds _ \<Rightarrow> True | VolumeNames _ \<Rightarrow> True | _ \<Rightarrow> False)"

lemma visit_all_counted:
  assumes "no_containers s \<longrightarrow> cs = []"
  shows "act_post (\<lambda>w. b_selected (wd_budget w) = 0) (visit_all env endpoint parse api s cs)
    (\<lambda>st w. b_selected (wd_budget w) = length (rn_roots st))"
proof -
  let ?st = "initial_run s"
  let ?n = "length cs + length (rn_networks ?st) + length (rn_volumes ?st)"
  let ?N = "of_bool (\<exists>ids. s = NetworkIds ids) :: nat" and ?V = "of_bool (\<exists>names. s = VolumeNames names) :: nat"
  let ?nets = "\<lambda>st. sort_key (\<lambda>nb. id_text (fst nb)) (rn_networks st)" and ?vols = "\<lambda>st. sort_key id_text (rn_volumes st)"
  have rest: "act_post (counted ?n (length cs) st1) (act_bind (act_fold (visit_network env endpoint parse api s) st1 (?nets st1)) (\<lambda>st2.
        act_fold (visit_volume env endpoint parse api s) st2 (?vols st1)))
      (counted ?n (length cs + ?N * length (rn_networks st1) + ?V * length (rn_volumes st1)))" for st1
  proof (rule act_post_bind [OF networks_counted])
    fix st2
    show "act_post (counted ?n (length cs + ?N * length (?nets st1)) st2) (act_fold (visit_volume env endpoint parse api s) st2 (?vols st1))
        (counted ?n (length cs + ?N * length (rn_networks st1) + ?V * length (rn_volumes st1)))"
      using volumes_counted [of ?n "length cs + ?N * length (?nets st1)" st2 env endpoint parse api s "?vols st1"]
      by (simp only: length_sort)
  qed
  have total: "act_post (counted ?n 0 ?st) (act_bind (act_fold (visit_container env endpoint parse api s) ?st cs) (\<lambda>st1.
        act_bind (act_fold (visit_network env endpoint parse api s) st1 (?nets st1)) (\<lambda>st2.
          act_fold (visit_volume env endpoint parse api s) st2 (?vols st1))))
      (counted ?n ?n)"
  proof (cases "no_containers s")
    case True
    with assms have cs: "cs = []" by simp
    have "?n = length cs + ?N * length (rn_networks ?st) + ?V * length (rn_volumes ?st)"
      using True by (auto simp: no_containers_def initial_run_def cs split: selector.splits)
    with rest [of ?st] show ?thesis by (simp add: cs)
  next
    case False
    then have "?N = 0" "?V = 0" "?n = length cs" by (auto simp: no_containers_def initial_run_def split: selector.splits)
    moreover have "act_post (counted ?n 0 ?st) (act_fold (visit_container env endpoint parse api s) ?st cs) (counted ?n (length cs))"
      using containers_counted [of ?n 0 ?st env endpoint parse api s cs] by simp
    ultimately show ?thesis using rest by (auto intro: act_post_bind)
  qed
  have select: "act_post (\<lambda>w. b_selected (wd_budget w) = 0) (act_budget (record_selection now ?n)) (\<lambda>_. counted ?n 0 ?st)" for now
    unfolding act_post_def
    by (auto simp: act_budget_Inr counted_def initial_run_def record_selection_def and_then_Some_Inr checked_add_def
        fail_with_def ok_def dest!: check_time_Inr split: if_splits)
  show ?thesis
    unfolding visit_all_def Let_def
    by (rule act_post_bind [OF select]) (rule act_post_conseq [OF total], auto simp: counted_def)
qed

lemma exchange_keeps_count:
  "act_post (\<lambda>w. b_selected (wd_budget w) = 0) (exchange env endpoint q r api) (\<lambda>_ w. b_selected (wd_budget w) = 0)"
  by (auto simp: act_post_def dest: exchange_selected)

lemma selected_containers_count:
  "act_post (\<lambda>w. b_selected (wd_budget w) = 0) (selected_containers env endpoint parse api s)
     (\<lambda>ids w. (no_containers s \<longrightarrow> ids = []) \<and> b_selected (wd_budget w) = 0)"
proof -
  have "act_post (\<lambda>w. b_selected (wd_budget w) = 0) (act_bind (exchange env endpoint ListContainers None (Some api)) (\<lambda>body.
      pure_act (selected_ids parse body s))) (\<lambda>_ w. b_selected (wd_budget w) = 0)"
    by (rule act_post_bind [OF exchange_keeps_count]) (auto intro: act_post_pure)
  then show ?thesis
    by (auto simp: selected_containers_def no_containers_def intro: act_post_pure split: selector.split)
qed

lemma acquire_from_counted:
  "act_post (\<lambda>w. b_selected (wd_budget w) = 0) (acquire_from env endpoint parse s)
     (\<lambda>c w. cb_selected (cap_bounds c) = length (cap_roots c))"
  unfolding acquire_from_def
proof (rule act_post_bind [OF exchange_keeps_count], rule act_post_bind_pure, rule act_post_bind [OF exchange_keeps_count],
    rule act_post_bind [OF selected_containers_count], rule act_post_fact)
  fix api and ids :: "native_id list"
  assume "no_containers s \<longrightarrow> ids = []"
  then have none: "no_containers s \<longrightarrow> keep_new [] ids = []" by auto
  show "act_post (\<lambda>w. b_selected (wd_budget w) = 0) (act_bind (visit_all env endpoint parse api s (keep_new [] ids))
      (\<lambda>st w. pure_act (finish env s st w) w)) (\<lambda>c w. cb_selected (cap_bounds c) = length (cap_roots c))"
  proof (rule act_post_bind [OF visit_all_counted [OF none]])
    fix st
    show "act_post (\<lambda>w. b_selected (wd_budget w) = length (rn_roots st)) (\<lambda>w. pure_act (finish env s st w) w)
        (\<lambda>c w. cb_selected (cap_bounds c) = length (cap_roots c))"
      by (auto simp: act_post_def counts_def dest!: finish_Inr)
  qed
qed

lemma acquired_count:
  assumes "acquire env endpoint parse s l n = Some (Inr c, sent)"
  shows "cb_selected (cap_bounds c) = length (cap_roots c)"
proof -
  obtain b w where b: "fst (budget_new l n) = Inr b"
    "acquire_from env endpoint parse s \<lparr>wd_budget = b, wd_sent = []\<rparr> = Some (Inr c, w)"
    using assms by (auto simp: acquire_def split: sum.splits)
  have "b_selected b = 0" using b(1) by (auto simp: budget_new_def split: sum.splits prod.splits)
  with acquire_from_counted [of env endpoint parse s, unfolded act_post_def, rule_format, OF _ b(2)]
  show ?thesis by simp
qed

section \<open>The listing and the selection from it\<close>

text \<open>The identifiers in a list response.\<close>

definition entry_ids :: "json_value list \<Rightarrow> bytes set" where
  "entry_ids entries = {i. \<exists>item \<in> set entries. get_str ''Id'' item = Some i}"

text \<open>The loop over the entries, in what it says of the identifiers.\<close>

lemma requested_step_Inr: "requested_step native st name = Inr st' \<Longrightarrow> (fst st \<or> snd st = m) \<Longrightarrow> (fst st' \<or> snd st' = m)"
  by (auto simp: requested_step_def split: if_splits)

lemma requested_steps_Inr:
  "try_fold (requested_step native) st names = Inr st' \<Longrightarrow> (fst st \<or> snd st = m) \<Longrightarrow> (fst st' \<or> snd st' = m)"
  by (rule try_fold_invariant [where f = "requested_step native"]) (auto dest: requested_step_Inr)

lemma native_name_step_Inr:
  assumes "native_name_step s st v = Inr st'" and "fst st \<or> snd st = m"
  shows "fst st' \<or> snd st' = m"
proof (cases s)
  case (ContainerNames names)
  with assms(1) obtain raw where "try_fold (requested_step (strip_slash raw)) st names = Inr st'"
    by (auto simp: native_name_step_def bind_res_Inr_iff)
  then show ?thesis using assms(2) by (rule requested_steps_Inr)
qed (use assms in \<open>auto simp: native_name_step_def bind_res_Inr_iff\<close>)

lemma native_name_steps_Inr:
  "try_fold (native_name_step s) st vs = Inr st' \<Longrightarrow> (fst st \<or> snd st = m) \<Longrightarrow> (fst st' \<or> snd st' = m)"
  by (rule try_fold_invariant [where f = "native_name_step s"]) (auto dest: native_name_step_Inr)

lemma entry_matches_Inr:
  assumes "entry_matches s entry matched = Inr (b, matched')" and "\<not> b"
  shows "matched' = matched" and "s \<noteq> AllContainers"
proof -
  have names: "b \<or> matched' = matched" if "match_native_names s entry matched = Inr (b, matched')"
  proof -
    obtain names where "try_fold (native_name_step s) (False, matched) names = Inr (b, matched')"
      using \<open>match_native_names s entry matched = Inr (b, matched')\<close>
      by (auto simp: match_native_names_def bind_res_Inr_iff split: if_splits)
    from native_name_steps_Inr [OF this, of matched] show ?thesis by simp
  qed
  then show "matched' = matched" "s \<noteq> AllContainers"
    using assms by (auto simp: entry_matches_def bind_res_Inr_iff split: selector.splits)
qed

definition selected_from :: "selector \<Rightarrow> json_value list \<Rightarrow> selection_state \<Rightarrow> bool" where
  "selected_from s entries st \<longleftrightarrow>
     id_text ` set (ss_selected st) \<subseteq> entry_ids entries
     \<and> (s = AllContainers \<longrightarrow> entry_ids entries \<subseteq> id_text ` set (ss_selected st))
     \<and> (ss_selected st = [] \<longrightarrow> ss_matched st = [])"

lemma selected_from_step:
  assumes "selected_from s entries st" and "entry_step s st v = Inr st'"
  shows "selected_from s (entries @ [v]) st'"
proof -
  obtain entry i p where x: "as_object v = Some entry"
    "Option.bind (Option.bind (map_of entry ''Id'') as_str) native_id_new = Some i"
    "entry_matches s entry (ss_matched st) = Inr p"
    "st' = st\<lparr>ss_seen := i # ss_seen st, ss_matched := snd p,
       ss_selected := ss_selected st @ (if fst p then [i] else [])\<rparr>"
    using assms(2)
    by (auto simp: entry_step_def bind_res_Inr_iff ok_or_Inr_iff split: if_splits prod.splits)
  obtain b matched where p: "p = (b, matched)" by force
  have e: "get_str ''Id'' v = Some (id_text i)" "entry_matches s entry (ss_matched st) = Inr (b, matched)"
    "st' = st\<lparr>ss_seen := i # ss_seen st, ss_matched := matched, ss_selected := ss_selected st @ (if b then [i] else [])\<rparr>"
    using x by (auto simp: p get_str_Some as_object_Some as_str_Some bind_eq_Some_conv native_id_new_def split: if_splits)
  have ids: "entry_ids (entries @ [v]) = insert (id_text i) (entry_ids entries)"
    using e(1) by (auto simp: entry_ids_def)
  show ?thesis
  proof (cases b)
    case True
    with assms(1) e(3) ids show ?thesis by (auto simp: selected_from_def)
  next
    case False
    with entry_matches_Inr [OF e(2)] assms(1) e(3) ids show ?thesis by (auto simp: selected_from_def)
  qed
qed

lemma selected_ids_from_list:
  assumes "selected_ids parse body s = Inr ids"
  shows "\<exists>entries. parse body = Some (VArray entries) \<and> id_text ` set ids \<subseteq> entry_ids entries
    \<and> (selects_from_list s \<and> ids = [] \<longrightarrow> entry_ids entries = {})"
proof -
  obtain entries st where x: "parse body = Some (VArray entries)" "\<not> selector_rejected s" "\<not> selection_missed s st"
    "try_fold (entry_step s) \<lparr>ss_selected = [], ss_matched = [], ss_seen = []\<rparr> entries = Inr st" "ids = ss_selected st"
    using assms by (auto simp: selected_ids_def bind_res_Inr_iff ok_or_Inr_iff as_array_Some split: if_splits)
  have "selected_from s entries st"
  proof (rule try_fold_visited [OF _ _ x(4)])
    show "selected_from s [] \<lparr>ss_selected = [], ss_matched = [], ss_seen = []\<rparr>"
      by (simp add: selected_from_def entry_ids_def)
  qed (rule selected_from_step)
  moreover have "s = AllContainers" if "selects_from_list s" "ids = []"
    using that x(2,3,5) \<open>selected_from s entries st\<close>
    by (auto simp: selects_from_list_def selection_missed_def selector_rejected_def selected_from_def split: selector.splits)
  ultimately show ?thesis using x(1,5) by (auto simp: selected_from_def)
qed

section \<open>What the decoder keeps of the listing\<close>

lemma listed_id_get: "listed_id item field k = Inr i \<Longrightarrow> get_str k item = Some i"
  by (auto simp: listed_id_def bind_res_Inr_iff ok_or_Inr_iff json_entries_def get_str_Some as_object_Some as_str_Some
      bind_eq_Some_conv split: if_splits)

lemma list_container_steps_Inr:
  assumes "try_fold list_container_step st items = Inr st'"
  shows "ds_listed st' = (ds_listed st)(0 := ds_listed st 0 \<union> entry_ids items)"
proof (rule try_fold_visited [OF _ _ assms])
  show "ds_listed st = (ds_listed st)(0 := ds_listed st 0 \<union> entry_ids [])" by (simp add: entry_ids_def)
next
  fix xs item st1 st2
  assume old: "ds_listed st1 = (ds_listed st)(0 := ds_listed st 0 \<union> entry_ids xs)"
    and step: "list_container_step st1 item = Inr st2"
  obtain i where i: "listed_id item FOther ''Id'' = Inr i"
    "ds_listed st2 = (ds_listed st1)(0 := insert i (ds_listed st1 0))"
    using step by (auto simp: list_container_step_def bind_res_Inr_iff Let_def list_id_def)
  have "entry_ids (xs @ [item]) = insert i (entry_ids xs)"
    using listed_id_get [OF i(1)] by (auto simp: entry_ids_def)
  with old i(2) show "ds_listed st2 = (ds_listed st)(0 := ds_listed st 0 \<union> entry_ids (xs @ [item]))" by simp
qed

lemma decode_container_list_listed:
  assumes "decode_container_list parse c e body st = Inr st'"
  shows "\<exists>items. body = VArray items \<and> ds_listed st' = (ds_listed st)(0 := ds_listed st 0 \<union> entry_ids items)"
proof -
  obtain st1 items where s: "record_expected parse c e st = Inr st1" "json_list body FOther = Inr items"
    "try_fold list_container_step st1 items = Inr st'"
    using assms by (auto simp: decode_container_list_def bind_res_Inr_iff split: if_splits)
  have "ds_listed st1 = ds_listed st"
    using s(1) by (auto simp: record_expected_def split: option.splits if_splits sum.splits)
  with list_container_steps_Inr [OF s(3)] s(2) show ?thesis
    by (auto simp: json_list_def bind_res_Inr_iff ok_or_Inr_iff as_array_Some split: if_splits)
qed

text \<open>The requests an acquisition makes: no list of networks or volumes.\<close>

definition no_other_lists :: "captured_exchange list \<Rightarrow> bool" where
  "no_other_lists es \<longleftrightarrow> (\<forall>e \<in> set es. ex_request e \<noteq> ListNetworks \<and> ex_request e \<noteq> ListVolumes)"

definition listing :: "json_parser \<Rightarrow> captured_exchange list \<Rightarrow> bytes set" where
  "listing parse es = {i. \<exists>e items. e \<in> set es \<and> ex_request e = ListContainers
     \<and> parse (ex_body e) = Some (VArray items) \<and> i \<in> entry_ids items}"

definition listing_from :: "json_parser \<Rightarrow> capture \<Rightarrow> captured_exchange list \<Rightarrow> decode_state \<Rightarrow> bool" where
  "listing_from parse c es st \<longleftrightarrow> ds_listed st = (\<lambda>_. {})(0 := listing parse es)
     \<and> (if selects c then (\<exists>e \<in> set es. ex_request e = ListContainers) \<longrightarrow> ds_selected st \<noteq> None
        else ds_selected st = None)"

lemma listing_from_step:
  assumes "listing_from parse c es st" and "decode_step parse c st e = Inr st'"
    and "ex_request e \<noteq> ListNetworks \<and> ex_request e \<noteq> ListVolumes"
  shows "listing_from parse c (es @ [e]) st'"
proof -
  obtain body st1 where s: "parse (ex_body e) = Some body" "record_api e st = Inr st1" "decode_body parse c e body st1 = Inr st'"
    using assms(2) by (auto simp: decode_step_Inr)
  note a = record_api_Inr [OF s(2)]
  show ?thesis
  proof (cases "ex_request e = ListContainers")
    case True
    then have d: "decode_container_list parse c e body st1 = Inr st'" using s(3) by (simp add: decode_body_def)
    obtain items where items: "body = VArray items" "ds_listed st' = (ds_listed st1)(0 := ds_listed st1 0 \<union> entry_ids items)"
      using decode_container_list_listed [OF d] by blast
    have "listing parse (es @ [e]) = listing parse es \<union> entry_ids items"
      using True s(1) items(1) by (auto simp: listing_def)
    with items(2) a decode_container_list_Inr [OF d] assms(1) show ?thesis
      by (auto simp: listing_from_def split: if_splits)
  next
    case False
    have "listing parse (es @ [e]) = listing parse es" using False by (auto simp: listing_def)
    moreover have "ds_listed st' = ds_listed st1 \<and> ds_selected st' = ds_selected st1"
    proof (cases "inspect_target (ex_request e)")
      case None
      with False assms(3) s(3) show ?thesis unfolding decode_body_def
        by (cases "ex_request e") (auto simp: daemon_frame_def dest!: decode_version_Inr decode_info_Inr)
    next
      case (Some t)
      obtain k i where t: "t = (k, i)" by force
      with s(3) Some decode_body_inspect obtain r n new where
        "st' = (note_inspected k i n r st1)\<lparr>ds_result := new\<rparr>"
        by (auto simp: decode_inspect_Inr inspects_def)
      then show ?thesis by (simp add: note_inspected_def)
    qed
    ultimately show ?thesis using a assms(1) False by (auto simp: listing_from_def)
  qed
qed

lemma pass_listing:
  assumes "try_fold (decode_step parse c) (initial_decode c) es = Inr st" and "no_other_lists es"
  shows "listing_from parse c es st"
proof -
  have "no_other_lists es \<longrightarrow> listing_from parse c es st"
  proof (rule try_fold_visited [OF _ _ assms(1)])
    show "no_other_lists [] \<longrightarrow> listing_from parse c [] (initial_decode c)"
      by (auto simp: listing_from_def listing_def initial_decode_def)
  qed (auto simp: no_other_lists_def intro: listing_from_step)
  with assms(2) show ?thesis by simp
qed

end
