(* ===== verification/Decoder_Samples.thy ===== *)
theory Decoder_Samples
  imports Decoder_Values
begin

text \<open>
  A capture of one container that was selected from the list of all containers, with the responses
  of a daemon that supports the requested version, and the theorems about decoding applied to it.
\<close>

definition sample_container_id :: bytes where
  "sample_container_id = replicate 64 CHR ''a''"

definition version_body :: json_value where
  "version_body = VObject [(''Version'', VString ''28.0.0''), (''ApiVersion'', VString ''1.48''),
     (''MinAPIVersion'', VString ''1.24'')]"

definition info_body :: json_value where
  "info_body = VObject [(''ServerVersion'', VString ''28.0.0''), (''MemoryLimit'', VBool True),
     (''Rootless'', VBool False)]"

definition list_body :: json_value where
  "list_body = VArray [VObject [(''Id'', VString sample_container_id)]]"

definition container_body :: json_value where
  "container_body = VObject [(''Id'', VString sample_container_id), (''Name'', VString ''/web'')]"

definition decoder_parse :: json_parser where
  "decoder_parse text =
     (if text = ''V'' then Some version_body else if text = ''I'' then Some info_body
      else if text = ''L'' then Some list_body else if text = ''C'' then Some container_body else None)"

definition answered :: "read_request \<Rightarrow> resource_ref option \<Rightarrow> api_version option \<Rightarrow> bytes \<Rightarrow> captured_exchange" where
  "answered request resource api body =
     \<lparr>ex_request = request, ex_resource = resource, ex_api = api, ex_status = HttpStatus 200, ex_body = body\<rparr>"

definition decoder_capture :: capture where
  "decoder_capture =
     \<lparr>cap_observation = ObservationId 7,
      cap_bounds = \<lparr>cb_requests = 4, cb_selected = 1, cb_expansions = 0, cb_bytes = 4\<rparr>,
      cap_exchanges = [answered DaemonVersion None None ''V'',
        answered DaemonInfo None (Some (ApiVersion 1 48)) ''I'',
        answered ListContainers None (Some (ApiVersion 1 48)) ''L'',
        answered (InspectContainer (NativeId sample_container_id)) (Some (ResourceRef 1))
          (Some (ApiVersion 1 48)) ''C''],
      cap_route = CallerAssembled,
      cap_roots = [\<lparr>root_resource = ResourceRef 1, root_kind = RootContainer, root_reason = ExplicitAll\<rparr>],
      cap_selector = Some AllContainers, cap_fallbacks = [], cap_discovery_only = False\<rparr>"

lemmas field_defs = string_field_def boolean_field_def unsigned_field_def signed_field_def string_array_def
  observe_field_def observe_value_def json_entries_def json_list_def is_redacted_def value_availability_def
  string_value_def decoder_max_items_def

lemma container_decodes: "\<exists>x. container_of container_body (ResourceRef 1) = Inr x"
  by (simp add: container_of_def runtime_of_def container_body_def field_defs)

lemma version_decodes:
  "version_field version_body ''ApiVersion'' = Inr (Some (ApiVersion 1 48))"
  "version_field version_body ''MinAPIVersion'' = Inr (Some (ApiVersion 1 24))"
  "release_field version_body ''Version'' = Inr (Some (EngineRelease ''28.0.0''))"
  "release_field info_body ''ServerVersion'' = Inr (Some (EngineRelease ''28.0.0''))"
  by (simp_all add: version_field_def release_field_def version_body_def info_body_def is_redacted_def
      parse_reported_api_def is_digit_def parse_uint_def engine_release_new_def dec_value_def digit_val_def
      Let_def)

lemma listed_decodes:
  "selected_ids decoder_parse ''L'' AllContainers = Inr [NativeId sample_container_id]"
  "\<exists>y. container_summary_of (VObject [(''Id'', VString sample_container_id)]) = Inr y"
  by (simp_all add: selected_ids_def decoder_parse_def list_body_def max_items_def selector_rejected_def entry_step_def
      native_id_new_def valid_exact_container_id_def sample_container_id_def is_hexdigit_def is_digit_def list_all_iff
      entry_matches_def selection_missed_def container_summary_of_def listed_id_def field_defs)

lemma bodies_decode:
  "bind_res (json_entries version_body FOther) (\<lambda>_. m) = m"
  "bind_res (json_entries info_body FOther) (\<lambda>_. m) = m"
  "boolean_field info_body [''MemoryLimit''] FResourceLimit Effective = Inr (present True Present Effective)"
  "boolean_field info_body [''SwapLimit''] FResourceLimit Effective = Inr (unavailable Missing Effective)"
  "field_value info_body [''SecurityOptions''] f = Inr None"
  "field_value info_body [''Rootless''] f = Inr (Some (VBool False))"
  "json_list list_body f = Inr [VObject [(''Id'', VString sample_container_id)]]"
  "listed_id (VObject [(''Id'', VString sample_container_id)]) FOther ''Id'' = Inr sample_container_id"
  "get_str ''Id'' container_body = Some sample_container_id" "sample_container_id \<noteq> []"
  by (simp_all add: version_body_def info_body_def list_body_def container_body_def field_defs listed_id_def
      get_str_def sample_container_id_def)

lemma parse_decodes:
  "decoder_parse ''V'' = Some version_body" "decoder_parse ''I'' = Some info_body"
  "decoder_parse ''L'' = Some list_body" "decoder_parse ''C'' = Some container_body"
  by (simp_all add: decoder_parse_def)

lemmas step_defs = decode_step_def answered_def max_json_bytes_def record_api_def decode_body_def
  record_release_def with_daemon_def with_support_def daemon_of_def initial_decode_def initial_inventory_def Let_def
  decode_version_def decode_info_def record_security_def record_rootless_def reported_def
  decode_container_list_def record_expected_def selects_from_list_def list_container_step_def list_id_def
  decode_inspect_def expected_key_def native_key_def note_inspected_def add_resource_def is_redacted_def

lemmas check_defs = decode_checks_def selection_incomplete_def selected_of_roots_def root_decoded_def
  root_unlisted_def listing_ignored_def api_out_of_range_def

lemma capture_decodes:
  obtains r where "decode_capture decoder_parse decoder_capture = Inr r" and "length (di_containers r) = 1"
    and "df_minimum_api (dv_daemon (di_version r)) = Some (ApiVersion 1 24)"
    and "daemon_findings (dv_daemon (di_version r)) = []"
proof -
  obtain x where x: "container_of container_body (ResourceRef 1) = Inr x" using container_decodes by blast
  have reference: "co_reference x = ResourceRef 1" using container_of_fields [OF x] by simp
  obtain y where y: "container_summary_of (VObject [(''Id'', VString sample_container_id)]) = Inr y"
    using listed_decodes by blast
  have "\<exists>r. decode_capture decoder_parse decoder_capture = Inr r \<and> length (di_containers r) = 1
      \<and> df_minimum_api (dv_daemon (di_version r)) = Some (ApiVersion 1 24)
      \<and> daemon_findings (dv_daemon (di_version r)) = []"
    by (simp add: decode_capture_def decoder_capture_def decoder_max_items_def step_defs bodies_decode parse_decodes
      listed_decodes version_decodes x y check_defs reference daemon_findings_def del: field_value.simps)
  with that show thesis by blast
qed

lemma sample_inspections:
  "inspections 0 (cap_exchanges decoder_capture)
     = [answered (InspectContainer (NativeId sample_container_id)) (Some (ResourceRef 1)) (Some (ApiVersion 1 48)) ''C'']"
  by (simp add: inspections_def of_kind_def decoder_capture_def answered_def)

section \<open>The theorems applied\<close>

theorem decoded_resources_identified_witness:
  "\<exists>r. decode_capture decoder_parse decoder_capture = Inr r
     \<and> map co_reference (di_containers r) = [ResourceRef 1]
     \<and> map co_id (di_containers r) = [present sample_container_id Present RuntimeAssigned]"
proof -
  obtain r where r: "decode_capture decoder_parse decoder_capture = Inr r" by (rule capture_decodes)
  from decoded_resources_identified [OF r] r bodies_decode(10) show ?thesis
    by (auto simp: sample_inspections list_all2_Cons1 requested_id_def answered_def observed_text_def)
qed

theorem decoded_resources_distinct_witness:
  "\<exists>r. decode_capture decoder_parse decoder_capture = Inr r \<and> length (di_containers r) = 1
     \<and> distinct (map co_reference (di_containers r)) \<and> distinct (map co_id (di_containers r))"
proof -
  obtain r where r: "decode_capture decoder_parse decoder_capture = Inr r" "length (di_containers r) = 1"
    by (rule capture_decodes)
  from decoded_resources_distinct [OF r(1)] r show ?thesis by blast
qed

theorem roots_are_decoded_witness:
  "\<exists>r. decode_capture decoder_parse decoder_capture = Inr r \<and> list_all (root_decoded r) (cap_roots decoder_capture)
     \<and> length (cap_roots decoder_capture) = 1"
proof -
  obtain r where r: "decode_capture decoder_parse decoder_capture = Inr r" by (rule capture_decodes)
  from roots_are_decoded [OF r] r show ?thesis by (simp add: list_all_iff decoder_capture_def)
qed

theorem selection_is_complete_witness:
  "\<exists>ids. selected_ids decoder_parse ''L'' AllContainers = Inr ids
     \<and> set (map id_text ids) = requested_id ` {e \<in> set (inspections 0 (cap_exchanges decoder_capture)).
         \<exists>root \<in> set (cap_roots decoder_capture). root_kind root = RootContainer \<and> ex_resource e = Some (root_resource root)}"
proof -
  obtain r where r: "decode_capture decoder_parse decoder_capture = Inr r" by (rule capture_decodes)
  have s: "cap_selector decoder_capture = Some AllContainers" "selects_from_list AllContainers"
    by (simp_all add: decoder_capture_def selects_from_list_def)
  have body: "ex_body e = ''L''" if "e \<in> set (cap_exchanges decoder_capture)" "ex_request e = ListContainers" for e
    using that by (auto simp: decoder_capture_def answered_def)
  from selection_is_complete [OF r s] body show ?thesis by metis
qed

theorem requests_in_api_range_witness:
  "\<exists>r m. decode_capture decoder_parse decoder_capture = Inr r
     \<and> df_minimum_api (dv_daemon (di_version r)) = Some m \<and> m \<le> ApiVersion 1 48"
proof -
  obtain r where r: "decode_capture decoder_parse decoder_capture = Inr r"
    "df_minimum_api (dv_daemon (di_version r)) = Some (ApiVersion 1 24)" by (rule capture_decodes)
  let ?e = "answered DaemonInfo None (Some (ApiVersion 1 48)) ''I''"
  have "?e \<in> set (cap_exchanges decoder_capture)" by (simp add: decoder_capture_def)
  from requests_in_api_range [OF r(1) this] r show ?thesis by (auto simp: answered_def)
qed

theorem daemon_facts_reported_witness:
  "\<exists>r. decode_capture decoder_parse decoder_capture = Inr r
     \<and> version_reported decoder_parse (answered DaemonVersion None None ''V'') (dv_daemon (di_version r))
     \<and> df_observation (dv_daemon (di_version r)) = di_observation r"
proof -
  obtain r where r: "decode_capture decoder_parse decoder_capture = Inr r" by (rule capture_decodes)
  let ?e = "answered DaemonVersion None None ''V''"
  have "?e \<in> set (cap_exchanges decoder_capture)" "ex_request ?e = DaemonVersion"
    by (simp_all add: decoder_capture_def answered_def)
  with daemon_facts_reported [OF r] r show ?thesis by blast
qed

theorem decoded_facts_validate_witness:
  "\<exists>r v. decode_capture decoder_parse decoder_capture = Inr r
     \<and> validated_capabilities_new (dv_daemon (di_version r)) = Inr v"
proof -
  obtain r where r: "decode_capture decoder_parse decoder_capture = Inr r"
    "daemon_findings (dv_daemon (di_version r)) = []" by (rule capture_decodes)
  then have "\<forall>f \<in> set (di_findings r). finding_resource f \<noteq> None"
    using findings_of_resource unfolding capture_findings [OF r(1)] by simp
  with decoded_facts_validate [OF r(1)] r(1) show ?thesis by blast
qed

end
