(* ===== verification/Acquired_Captures.thy ===== *)
theory Acquired_Captures
  imports Acquired_Decoding Decoder_Samples
begin

text \<open>
  The acquisition and the decoder agree: the checks of \<^verbatim>\<open>decode_capture\<close> hold of every capture that
  \<^verbatim>\<open>acquire\<close> returns, so that only the contents of a response can keep it from being decoded.
\<close>

section \<open>The parts of an acquired capture\<close>

text \<open>What the theorems about \<open>acquire\<close> say, in the terms of the decoder.\<close>

definition acquired ::
  "json_parser \<Rightarrow> selector \<Rightarrow> capture \<Rightarrow> bytes \<Rightarrow> api_version \<Rightarrow> captured_exchange list \<Rightarrow> native_id list
   \<Rightarrow> captured_exchange list \<Rightarrow> bool" where
  "acquired parse s c v api ls ids es \<longleftrightarrow>
     (\<exists>i. cap_exchanges c = [made DaemonVersion None None v, made DaemonInfo None (Some api) i] @ ls @ es)
     \<and> negotiated_api parse v = Inr api \<and> listed parse api s ls ids
     \<and> (\<forall>e \<in> set es. inspect_target (ex_request e) \<noteq> None \<and> ex_api e = Some api)
     \<and> set (map requested_id (inspections 0 (cap_exchanges c))) = id_text ` set ids
     \<and> roots_match s (cap_roots c) es \<and> cap_selector c = Some s \<and> cap_discovery_only c = (s = Discovery)
     \<and> (\<forall>e \<in> set (cap_exchanges c). status_code (ex_status e) = 200)"

lemma acquired_parts:
  assumes "limits_sized l" and "acquire env endpoint parse s l n = Some (Inr c, sent)"
  obtains v api ls ids es where "acquired parse s c v api ls ids es"
proof -
  from assms obtain v api i ls ids es where x:
    "cap_exchanges c = [made DaemonVersion None None v, made DaemonInfo None (Some api) i] @ ls @ es"
    "negotiated_api parse v = Inr api" "listed parse api s ls ids"
    "\<And>e. e \<in> set es \<Longrightarrow> inspect_target (ex_request e) \<noteq> None \<and> ex_api e = Some api"
    "\<And>k. distinct (map requested_id (inspections k (cap_exchanges c)))"
    "map requested_id (inspections 0 (cap_exchanges c)) = map id_text (keep_new [] ids)"
    "roots_match s (cap_roots c) es" "cap_selector c = Some s" "cap_discovery_only c = (s = Discovery)"
    "\<And>e. e \<in> set (cap_exchanges c) \<Longrightarrow> status_code (ex_status e) = 200"
    by (rule acquired_requests) (rule that)
  have "set (map requested_id (inspections 0 (cap_exchanges c))) = set (map id_text (keep_new [] ids))"
    by (simp only: x(6))
  then have "set (map requested_id (inspections 0 (cap_exchanges c))) = id_text ` set ids"
    by (simp add: keep_new_set)
  with x have "acquired parse s c v api ls ids es" unfolding acquired_def by blast
  then show thesis by (rule that)
qed

lemma acquired_members:
  assumes "acquired parse s c v api ls ids es" and "e \<in> set (cap_exchanges c)"
  shows "e = made DaemonVersion None None v \<or> (\<exists>i. e = made DaemonInfo None (Some api) i)
    \<or> ls = [e] \<and> ex_request e = ListContainers \<and> ex_api e = Some api \<and> selected_ids parse (ex_body e) s = Inr ids
    \<or> e \<in> set es \<and> inspect_target (ex_request e) \<noteq> None \<and> ex_api e = Some api"
proof -
  have l: "listed parse api s ls ids" and x: "\<forall>e \<in> set es. inspect_target (ex_request e) \<noteq> None \<and> ex_api e = Some api"
    using assms(1) by (simp_all add: acquired_def)
  obtain i where "cap_exchanges c = [made DaemonVersion None None v, made DaemonInfo None (Some api) i] @ ls @ es"
    using assms(1) by (auto simp: acquired_def)
  with assms(2) have "e = made DaemonVersion None None v \<or> e = made DaemonInfo None (Some api) i \<or> e \<in> set ls \<or> e \<in> set es"
    by simp
  with x list_selects [OF l] show ?thesis by blast
qed

lemma acquired_no_other_lists: "acquired parse s c v api ls ids es \<Longrightarrow> no_other_lists (cap_exchanges c)"
  by (auto simp: no_other_lists_def made_def dest!: acquired_members)

text \<open>A root is an inspection of its kind, and an inspected container is a root.\<close>

fun kind_number :: "root_kind \<Rightarrow> nat" where
  "kind_number RootContainer = 0"
| "kind_number RootNetwork = 1"
| "kind_number RootVolume = 2"

lemma inspected_kind:
  "map_option fst (inspected q) = Some (kind_class kind) \<longleftrightarrow> map_option fst (inspect_target q) = Some (kind_number kind)"
  by (cases q; cases kind) simp_all

lemma acquired_inspection:
  assumes "acquired parse s c v api ls ids es"
  shows "e \<in> set (inspections k (cap_exchanges c)) \<longleftrightarrow> e \<in> set es \<and> of_kind k e"
proof
  assume "e \<in> set (inspections k (cap_exchanges c))"
  then have "e \<in> set (cap_exchanges c)" "of_kind k e" by (simp_all add: inspections_def)
  with acquired_members [OF assms] show "e \<in> set es \<and> of_kind k e" by (fastforce simp: of_kind_def made_def)
qed (use assms in \<open>auto simp: inspections_def acquired_def\<close>)

lemma acquired_root:
  assumes "acquired parse s c v api ls ids es"
  shows "(\<exists>root \<in> set (cap_roots c). root_resource root = r \<and> root_kind root = kind) \<longleftrightarrow>
    (\<exists>e \<in> set es. is_root s (ex_request e) \<and> of_kind (kind_number kind) e \<and> ex_resource e = Some r)"
proof -
  have inj: "kind_class k = kind_class k' \<longleftrightarrow> k = k'" for k k' by (cases k; cases k') simp_all
  let ?g = "\<lambda>e. (ex_resource e, map_option fst (inspected (ex_request e)))"
  let ?f = "\<lambda>root. (Some (root_resource root), Some (kind_class (root_kind root)))"
  have "map ?f (cap_roots c) = map ?g (filter (\<lambda>e. is_root s (ex_request e)) es)"
    using assms by (simp only: acquired_def roots_match_def)
  from arg_cong [OF this, of set]
  have "(Some r, Some (kind_class kind)) \<in> ?f ` set (cap_roots c) \<longleftrightarrow>
      (Some r, Some (kind_class kind)) \<in> ?g ` {e \<in> set es. is_root s (ex_request e)}" by simp
  moreover have "(Some r, Some (kind_class kind)) \<in> ?f ` set (cap_roots c) \<longleftrightarrow>
      (\<exists>root \<in> set (cap_roots c). root_resource root = r \<and> root_kind root = kind)"
    by (auto simp: image_iff inj)
  moreover have "(Some r, Some (kind_class kind)) \<in> ?g ` {e \<in> set es. is_root s (ex_request e)} \<longleftrightarrow>
      (\<exists>e \<in> set es. is_root s (ex_request e) \<and> of_kind (kind_number kind) e \<and> ex_resource e = Some r)"
    unfolding of_kind_def inspected_kind [symmetric] image_iff by (metis (mono_tags, lifting) mem_Collect_eq prod.inject)
  ultimately show ?thesis by simp
qed

section \<open>The checks of an acquired capture\<close>

text \<open>The state after a pass over all exchanges.\<close>

definition passed :: "json_parser \<Rightarrow> capture \<Rightarrow> decode_state \<Rightarrow> bool" where
  "passed parse c st \<longleftrightarrow> try_fold (decode_step parse c) (initial_decode c) (cap_exchanges c) = Inr st"

lemma passedD:
  assumes "passed parse c st"
  shows "resources_from parse (cap_exchanges c) st" and "keys_from parse (cap_exchanges c) st"
    and "requests_from parse c (cap_exchanges c) st" and "expected_from parse c (cap_exchanges c) st"
    and "versions_from (cap_exchanges c) st" and "facts_from parse c (cap_exchanges c) st"
  using assms pass_invariants pass_expected pass_facts unfolding passed_def by blast+

lemma fallbacks_inspected:
  assumes "passed parse c st" and "Some r \<in> set (map ex_resource (inspections k (cap_exchanges c)))"
  shows "(k, r) \<in> ds_seen st"
proof -
  have "Some ` {r. (k, r) \<in> ds_seen st} = set (map ex_resource (inspections k (cap_exchanges c)))"
    using passedD(2) [OF assms(1)] by (simp only: keys_from_def)
  with assms(2) have "Some r \<in> Some ` {r. (k, r) \<in> ds_seen st}" by (simp only:)
  then show ?thesis by auto
qed

text \<open>The containers inspected are the containers selected, and all of them are roots.\<close>

lemma inspected_ids:
  assumes "acquired parse s c v api ls ids es"
  shows "requested_id ` set (inspections 0 (cap_exchanges c)) = id_text ` set ids"
  using assms by (simp add: acquired_def)

lemma container_root:
  assumes "acquired parse s c v api ls ids es"
  shows "(\<exists>root \<in> set (cap_roots c). root_resource root = r \<and> root_kind root = RootContainer) \<longleftrightarrow>
    (\<exists>e \<in> set (inspections 0 (cap_exchanges c)). ex_resource e = Some r)"
proof -
  have "is_root s (ex_request e)" if "of_kind 0 e" for e
    using that by (cases "ex_request e") (auto simp: of_kind_def is_root_def)
  moreover have "e \<in> set (inspections 0 (cap_exchanges c)) \<longleftrightarrow> e \<in> set es \<and> of_kind 0 e" for e
    by (rule acquired_inspection [OF assms])
  ultimately show ?thesis unfolding acquired_root [OF assms] kind_number.simps by blast
qed

lemma by_ref_iff:
  assumes "passed parse c st"
  shows "ds_by_ref st r = Some i \<longleftrightarrow>
    (\<exists>e \<in> set (inspections 0 (cap_exchanges c)). ex_resource e = Some r \<and> requested_id e = i)"
  using passedD(3) [OF assms] by (simp add: requests_from_def)

lemma inspection_reference:
  assumes "passed parse c st" and "e \<in> set (inspections k (cap_exchanges c))"
  shows "\<exists>r. ex_resource e = Some r"
  using passedD(3) [OF assms(1)] assms(2) unfolding requests_from_def identified_def by blast

lemma selected_of_acquired:
  assumes "acquired parse s c v api ls ids es" and "passed parse c st"
  shows "selected_of_roots c st = id_text ` set ids"
proof -
  have "selected_of_roots c st = {i. \<exists>root \<in> set (cap_roots c). root_kind root = RootContainer
      \<and> ds_by_ref st (root_resource root) = Some i}"
    by (auto simp: selected_of_roots_def option_list_def split: option.splits)
  also have "\<dots> = {i. \<exists>r. ds_by_ref st r = Some i
      \<and> (\<exists>root \<in> set (cap_roots c). root_resource root = r \<and> root_kind root = RootContainer)}" by blast
  also have "\<dots> = requested_id ` set (inspections 0 (cap_exchanges c))"
    unfolding container_root [OF assms(1)] by_ref_iff [OF assms(2)]
    using inspection_reference [OF assms(2), of _ 0] by blast
  finally show ?thesis using inspected_ids [OF assms(1)] by simp
qed

lemma acquired_selection:
  assumes "acquired parse s c v api ls ids es" and "passed parse c st"
  shows "\<not> selection_incomplete c st"
proof -
  have sel: "cap_selector c = Some s" using assms(1) by (simp add: acquired_def)
  have list: "listing_from parse c (cap_exchanges c) st"
    using pass_listing assms acquired_no_other_lists unfolding passed_def by blast
  have one: "ids' = ids" if "e \<in> set (cap_exchanges c)" "ex_request e = ListContainers" "selected_ids parse (ex_body e) s = Inr ids'" for e ids'
    using acquired_members [OF assms(1) that(1)] that(2,3) by (auto simp: made_def)
  show ?thesis
  proof (cases "ds_selected st")
    case None
    have "\<not> selects_from_list s"
    proof
      assume s: "selects_from_list s"
      with assms(1) have "\<exists>e \<in> set (cap_exchanges c). ex_request e = ListContainers"
        by (auto simp: acquired_def listed_def made_def selects_from_list_def split: selector.splits)
      with list s sel None show False by (simp add: listing_from_def selects_def)
    qed
    with None sel show ?thesis by (simp add: selection_incomplete_def)
  next
    case (Some expected)
    with passedD(4) [OF assms(2)] sel one have "expected = id_text ` set ids"
      by (fastforce simp: expected_from_def)
    with Some selected_of_acquired [OF assms] show ?thesis by (simp add: selection_incomplete_def)
  qed
qed

text \<open>The listing and what is inspected of it.\<close>

lemma acquired_listing:
  assumes "acquired parse s c v api ls ids es"
  shows "if ls = [] then listing parse (cap_exchanges c) = {} \<and> \<not> selects_from_list s \<and> root_reason_of s = ExactId
    else id_text ` set ids \<subseteq> listing parse (cap_exchanges c)
      \<and> (selects_from_list s \<and> ids = [] \<longrightarrow> listing parse (cap_exchanges c) = {})"
proof -
  have l: "listed parse api s ls ids" using assms by (simp add: acquired_def)
  show ?thesis
  proof (cases "ls = []")
    case True
    with acquired_members [OF assms] have "listing parse (cap_exchanges c) = {}"
      by (fastforce simp: listing_def made_def)
    with True l show ?thesis by (auto simp: listed_def selects_from_list_def split: selector.splits)
  next
    case False
    then obtain e where e: "e \<in> set ls" by (cases ls) auto
    from list_selects [OF l e] have le: "ls = [e]" "ex_request e = ListContainers" "selected_ids parse (ex_body e) s = Inr ids"
      by simp_all
    obtain entries where entries: "parse (ex_body e) = Some (VArray entries)" "id_text ` set ids \<subseteq> entry_ids entries"
      "selects_from_list s \<and> ids = [] \<longrightarrow> entry_ids entries = {}"
      using selected_ids_from_list [OF le(3)] by blast
    have "x = e" if "x \<in> set (cap_exchanges c)" "ex_request x = ListContainers" for x
      using acquired_members [OF assms that(1)] that(2) unfolding le(1) by (elim disjE exE) (simp_all add: made_def)
    moreover have "e \<in> set (cap_exchanges c)" using assms le(1) by (auto simp: acquired_def)
    ultimately have "listing parse (cap_exchanges c) =
        {i. \<exists>items. parse (ex_body e) = Some (VArray items) \<and> i \<in> entry_ids items}"
      using le(2) unfolding listing_def by blast
    then have "listing parse (cap_exchanges c) = entry_ids entries" using entries(1) by simp
    with entries False show ?thesis by simp
  qed
qed

lemma passed_listed:
  assumes "acquired parse s c v api ls ids es" and "passed parse c st"
  shows "ds_listed st = (\<lambda>_. {})(0 := listing parse (cap_exchanges c))"
  using pass_listing [of parse c "cap_exchanges c" st] acquired_no_other_lists [OF assms(1)] assms(2)
  by (simp add: passed_def listing_from_def)

lemma acquired_listing_used:
  assumes "acquired parse s c v api ls ids es" and "passed parse c st"
  shows "\<not> listing_ignored c st kind"
proof (cases "kind = 0 \<and> listing parse (cap_exchanges c) \<noteq> {} \<and> s \<noteq> Discovery")
  case False
  then show ?thesis using assms(1)
    by (auto simp: listing_ignored_def passed_listed [OF assms] acquired_def)
next
  case True
  have inspected: "ds_inspected st 0 = id_text ` set ids"
    using passedD(2) [OF assms(2)] inspected_ids [OF assms(1)] by (simp add: keys_from_def)
  have l: "listed parse api s ls ids" using assms(1) by (simp add: acquired_def)
  from True acquired_listing [OF assms(1)] have ls: "ls \<noteq> []" by auto
  with l True have "selects_from_list s" by (auto simp: listed_def selects_from_list_def split: selector.splits)
  with True ls acquired_listing [OF assms(1)] have "ids \<noteq> []" "id_text ` set ids \<subseteq> listing parse (cap_exchanges c)" by auto
  then show ?thesis using True by (cases ids) (auto simp: listing_ignored_def inspected passed_listed [OF assms])
qed

section \<open>The roots\<close>

lemma root_is_decoded:
  assumes "acquired parse s c v api ls ids es" and "passed parse c st" and "root \<in> set (cap_roots c)"
  shows "root_decoded (ds_result st) root"
proof -
  obtain e where e: "e \<in> set (inspections (kind_number (root_kind root)) (cap_exchanges c))"
    "ex_resource e = Some (root_resource root)"
    using acquired_root [OF assms(1), of "root_resource root" "root_kind root"] assms(3)
    unfolding acquired_inspection [OF assms(1)] by blast
  have member: "root_resource root \<in> set (map reference xs)"
    if all: "list_all2 (decodes reader parse) (inspections k (cap_exchanges c)) xs"
      and e': "e \<in> set (inspections k (cap_exchanges c))"
      and fields: "\<And>body r x. reader body r = Inr x \<Longrightarrow> reference x = r"
    for reader :: "json_value \<Rightarrow> resource_ref \<Rightarrow> decode_error + 'z" and k xs reference
  proof -
    obtain i where i: "i < length (inspections k (cap_exchanges c))" "inspections k (cap_exchanges c) ! i = e"
      using e' by (auto simp: in_set_conv_nth)
    then have x: "decodes reader parse e (xs ! i)" "i < length xs" using all by (auto simp: list_all2_conv_all_nth)
    then have "reference (xs ! i) = root_resource root" using e(2) fields by (fastforce simp: decodes_def)
    with nth_mem [OF x(2)] show ?thesis by force
  qed
  note r = passedD(1) [OF assms(2), unfolded resources_from_def]
  show ?thesis
  proof (cases "root_kind root")
    case RootContainer
    then show ?thesis using member [of container_of 0] container_of_fields r e(1) by (simp add: root_decoded_def)
  next
    case RootNetwork
    then show ?thesis using member [of network_of 1] network_of_fields r e(1)
      by (simp add: root_decoded_def del: One_nat_def set_map list.set_map; blast)
  next
    case RootVolume
    then show ?thesis using member [of volume_of 2] volume_of_fields r e(1)
      by (simp add: root_decoded_def del: set_map list.set_map; blast)
  qed
qed

lemma root_is_listed:
  assumes "acquired parse s c v api ls ids es" and "passed parse c st" and "root \<in> set (cap_roots c)"
    and "root_kind root = RootContainer \<longrightarrow> root_reason root = root_reason_of s"
  shows "\<not> root_unlisted st root"
proof
  assume u: "root_unlisted st root"
  then have k: "root_kind root = RootContainer" "root_reason_of s \<noteq> ExactId" using assms(4) by (simp_all add: root_unlisted_def)
  with container_root [OF assms(1), of "root_resource root"] assms(3)
  obtain e where e: "e \<in> set (inspections 0 (cap_exchanges c))" "ex_resource e = Some (root_resource root)" by blast
  then have "ds_by_ref st (root_resource root) = Some (requested_id e)" using by_ref_iff [OF assms(2)] by blast
  moreover have "requested_id e \<in> id_text ` set ids" using e(1) inspected_ids [OF assms(1)] by blast
  moreover have "id_text ` set ids \<subseteq> listing parse (cap_exchanges c)"
    using acquired_listing [OF assms(1)] k(2) by (auto split: if_splits)
  ultimately show False using u passed_listed [OF assms(1,2)] by (auto simp: root_unlisted_def)
qed

lemma roots_distinct:
  assumes "acquired parse s c v api ls ids es"
    and "distinct (map ex_resource (filter (\<lambda>e. ex_resource e \<noteq> None) (cap_exchanges c)))"
  shows "distinct (map root_resource (cap_roots c))"
proof -
  let ?is = "filter (\<lambda>e. is_root s (ex_request e)) es"
  have "map (\<lambda>r. (Some (root_resource r), Some (kind_class (root_kind r)))) (cap_roots c)
      = map (\<lambda>e. (ex_resource e, map_option fst (inspected (ex_request e)))) ?is"
    using assms(1) by (simp only: acquired_def roots_match_def)
  from arg_cong [OF this, of "map fst"] have eq: "map (\<lambda>r. Some (root_resource r)) (cap_roots c) = map ex_resource ?is"
    by (simp add: comp_def)
  have "distinct (map ex_resource (filter (\<lambda>e. ex_resource e \<noteq> None) es))"
    using assms by (auto simp: acquired_def made_def)
  then have "distinct (map ex_resource (filter (\<lambda>e. is_root s (ex_request e)) (filter (\<lambda>e. ex_resource e \<noteq> None) es)))"
    by (rule distinct_map_filter)
  moreover have "ex_resource e \<noteq> None" if "e \<in> set ?is" for e
  proof -
    have "ex_resource e \<in> set (map (\<lambda>r. Some (root_resource r)) (cap_roots c))" using that eq by simp
    then show ?thesis by auto
  qed
  then have "filter (\<lambda>e. is_root s (ex_request e)) (filter (\<lambda>e. ex_resource e \<noteq> None) es) = ?is"
    by (auto intro!: filter_cong)
  ultimately have "distinct (map (\<lambda>r. Some (root_resource r)) (cap_roots c))" unfolding eq by simp
  then show ?thesis by (simp add: distinct_map inj_on_def)
qed

section \<open>All checks hold\<close>

lemma acquired_api_range:
  assumes "acquired parse s c v api ls ids es" and "passed parse c st"
  shows "\<not> api_out_of_range st"
proof -
  let ?e = "made DaemonVersion None None v"
  have e: "?e \<in> set (cap_exchanges c)" and api: "negotiated_api parse v = Inr api" using assms(1) by (auto simp: acquired_def)
  have "version_reported parse ?e (daemon_of st)"
    using passedD(6) [OF assms(2)] e by (simp add: facts_from_def made_def)
  then obtain body where "parse v = Some body" "version_field body ''ApiVersion'' = Inr (df_api (daemon_of st))"
    "version_field body ''MinAPIVersion'' = Inr (df_minimum_api (daemon_of st))"
    by (auto simp: version_reported_def made_def)
  from negotiated_in_range [OF api this] obtain m where m: "df_api (daemon_of st) = Some m" "api \<le> m"
    "\<forall>n. df_minimum_api (daemon_of st) = Some n \<longrightarrow> n \<le> api" by blast
  have "a = api" if "a \<in> set (dv_requested (di_version (ds_result st)))" for a
  proof -
    from that passedD(5) [OF assms(2)] obtain x where "x \<in> set (cap_exchanges c)" "ex_api x = Some a"
      by (auto simp: versions_from_def)
    with acquired_members [OF assms(1)] show ?thesis by (fastforce simp: made_def)
  qed
  with m show ?thesis
    by (fastforce simp: api_out_of_range_def Let_def list_ex_iff not_less split: option.splits)
qed

lemma acquired_checks:
  assumes "limits_sized l" and "acquire env endpoint parse s l n = Some (Inr c, sent)"
    and "acquired parse s c v api ls ids es" and "passed parse c st"
  shows "decode_checks c st = Inr ()"
proof -
  note a = assms(3,4)
  note roots = acquired_roots [OF assms(2)]
  have "\<not> list_ex (\<lambda>reference. (1, reference) \<notin> ds_seen st) (cap_fallbacks c)"
    using roots fallbacks_inspected [OF assms(4)] by (auto simp: list_ex_iff simp del: One_nat_def set_map list.set_map)
  moreover have "\<not> roots_incomplete st {} (cap_roots c)"
    using roots roots_distinct [OF assms(3)] root_is_decoded [OF a] root_is_listed [OF a]
    by (simp add: roots_incomplete_iff)
  moreover have "\<not> list_ex (listing_ignored c st) [0, 1, 2]" using acquired_listing_used [OF a] by simp
  ultimately show ?thesis
    using acquired_selection [OF a] acquired_api_range [OF a] acquired_count [OF assms(2)]
    by (simp only: decode_checks_def check_simps) auto
qed

section \<open>The errors that are left\<close>

text \<open>Only the information of the daemon is not looked at by the acquisition: it may be no JSON, or
  contradict itself in the mode of the daemon, or the release of the version response.\<close>

definition info_refused :: "json_parser \<Rightarrow> capture \<Rightarrow> decode_error \<Rightarrow> bool" where
  "info_refused parse c e \<longleftrightarrow> (\<exists>x \<in> set (cap_exchanges c). ex_request x = DaemonInfo \<and>
     (case parse (ex_body x) of
        None \<Rightarrow> e = InvalidJson
      | Some body \<Rightarrow> e = ConflictingFacts \<and> (mode_contradicts body
          \<or> (\<exists>y \<in> set (cap_exchanges c). ex_request y = DaemonVersion
               \<and> (\<exists>vb known. parse (ex_body y) = Some vb \<and> release_field vb ''Version'' = Inr known
                    \<and> release_contradicts body known)))))"

text \<open>The state of the decoder after the version response.\<close>

lemma version_decoded:
  assumes "decode_step parse c (initial_decode c) (made DaemonVersion None None v) = Inr st"
  shows "\<not> ds_info_seen st \<and> df_mode (daemon_of st) = UnknownMode
    \<and> (\<exists>vb. parse v = Some vb \<and> release_field vb ''Version'' = Inr (df_release (daemon_of st)))"
proof -
  obtain vb where vb: "parse v = Some vb" "decode_version vb (initial_decode c) = Inr st"
    using assms by (auto simp: decode_step_def made_def record_api_def decode_body_def bind_res_Inr_iff
        ok_or_Inr_iff split: if_splits)
  then obtain release where "release_field vb ''Version'' = Inr release"
    "record_release release ((initial_decode c)\<lparr>ds_version_seen := True\<rparr>) = Inr st
     \<or> (\<exists>st0 a m. record_release release ((initial_decode c)\<lparr>ds_version_seen := True\<rparr>) = Inr st0
          \<and> st = with_daemon ((daemon_of st0)\<lparr>df_api := a, df_minimum_api := m\<rparr>) st0)"
    by (auto simp: decode_version_def bind_res_Inr_iff split: if_splits)
  with vb(1) show ?thesis
    by (auto simp: record_release_def initial_decode_def initial_inventory_def daemon_of_def with_daemon_def Let_def
        split: option.splits)
qed

lemma acquired_version_first:
  assumes "acquired parse s c v api ls ids es" and "cap_exchanges c = xs @ x # ys" and "ex_request x = DaemonVersion"
  shows "xs = []"
proof (rule ccontr)
  assume "xs \<noteq> []"
  then have x: "x \<in> set (tl (cap_exchanges c))" using assms(2) by (cases xs) auto
  obtain i where "cap_exchanges c = [made DaemonVersion None None v, made DaemonInfo None (Some api) i] @ ls @ es"
    using assms(1) by (auto simp: acquired_def)
  with x have "x = made DaemonInfo None (Some api) i \<or> x \<in> set ls \<or> x \<in> set es" by simp
  moreover have "listed parse api s ls ids" "\<forall>e \<in> set es. inspect_target (ex_request e) \<noteq> None"
    using assms(1) by (auto simp: acquired_def)
  ultimately show False using assms(3) list_selects [of parse api s ls ids x] by (auto simp: made_def)
qed

lemma acquired_info_second:
  assumes "acquired parse s c v api ls ids es" and "cap_exchanges c = xs @ x # ys" and "ex_request x = DaemonInfo"
  shows "xs = [made DaemonVersion None None v]"
proof -
  obtain i where es: "cap_exchanges c = [made DaemonVersion None None v, made DaemonInfo None (Some api) i] @ ls @ es"
    using assms(1) by (auto simp: acquired_def)
  have later_ones: "e \<in> set (ls @ es) \<Longrightarrow> ex_request e \<noteq> DaemonInfo" for e
    using assms(1) list_selects [of parse api s ls ids e] by (auto simp: acquired_def)
  show ?thesis
  proof (cases xs)
    case Nil
    with es assms(2,3) show ?thesis by (simp add: made_def)
  next
    case (Cons a as)
    show ?thesis
    proof (cases as)
      case Nil
      with Cons es assms(2) show ?thesis by simp
    next
      case (Cons b bs)
      with \<open>xs = a # as\<close> es assms(2) have "ls @ es = bs @ x # ys" by simp
      moreover have "x \<in> set (bs @ x # ys)" by simp
      ultimately have "x \<in> set (ls @ es)" by (simp only:)
      with later_ones assms(3) show ?thesis by blast
    qed
  qed
qed

lemma acquired_list_once:
  assumes "acquired parse s c v api ls ids es" and "cap_exchanges c = xs @ x # ys" and "ex_request x = ListContainers"
    and "e \<in> set xs"
  shows "ex_request e \<noteq> ListContainers"
proof -
  obtain i where "cap_exchanges c = [made DaemonVersion None None v, made DaemonInfo None (Some api) i] @ ls @ es"
    "listed parse api s ls ids" "\<And>e. e \<in> set es \<Longrightarrow> inspect_target (ex_request e) \<noteq> None \<and> ex_api e = Some api"
    using assms(1) by (auto simp: acquired_def)
  from acquired_requests_once(2) [OF this] assms(2-4) show ?thesis
    using single_request [of "\<lambda>e. ex_request e = ListContainers" xs x ys e] by simp
qed

lemma acquired_parsed:
  assumes "acquired parse s c v api ls ids es" and "answers parse F x" and "x \<in> set (cap_exchanges c)"
    and "parse (ex_body x) = None"
  shows "ex_request x = DaemonInfo"
proof -
  have "parse v \<noteq> None"
    using assms(1) by (auto simp: acquired_def negotiated_api_def bind_res_Inr_iff ok_or_Inr_iff)
  moreover have "\<not> (inspect_target (ex_request x) \<noteq> None)" using assms(2,4) by (auto simp: answers_def split: option.splits)
  moreover have "selected_ids parse (ex_body x) s \<noteq> Inr ids" using assms(4) selected_ids_from_list by fastforce
  ultimately show ?thesis using acquired_members [OF assms(1,3)] assms(4) by (auto simp: made_def)
qed

lemma acquired_error:
  assumes "limits_sized l" and "acquire env endpoint parse s l n = Some (Inr c, sent)"
    and "cap_exchanges c = xs @ x # ys" and "try_fold (decode_step parse c) (initial_decode c) xs = Inr st"
    and "error_at parse c st x e"
  shows "info_refused parse c e"
proof -
  obtain v api ls ids es where a: "acquired parse s c v api ls ids es" using acquired_parts [OF assms(1,2)] by blast
  have x: "x \<in> set (cap_exchanges c)" using assms(3) by simp
  have body: "length (ex_body x) \<le> max_json_bytes" "answers parse (set (cap_fallbacks c)) x" "status_code (ex_status x) = 200"
    using acquired_keys [OF assms(1,2)] x a by (auto simp: acquired_def)
  have version: "\<not> (ds_version_seen st \<or> df_release (daemon_of st) \<noteq> None)" if "ex_request x = DaemonVersion"
    using acquired_version_first [OF a assms(3) that] assms(4)
    by (auto simp: initial_decode_def initial_inventory_def daemon_of_def)
  have list: "ds_selected st = None" if "ex_request x = ListContainers"
    using pass_expected [OF assms(4)] acquired_list_once [OF a assms(3) that]
    by (cases "ds_selected st") (auto simp: expected_from_def)
  have sel: "\<not> selection_fails parse c x" if "ex_request x = ListContainers"
    using acquired_members [OF a x] that a by (auto simp: selection_fails_def acquired_def made_def)
  have api: "ex_request x = DaemonVersion" if "ex_api x = None" using acquired_members [OF a x] that by (auto simp: made_def)
  note facts = body version list sel api acquired_parsed [OF a body(2) x] acquired_answers [OF assms(1,2) x] acquired_new [OF assms(1-4)]
    acquired_identified [OF assms(1,2) x]
  have info: "info_refused parse c e" if q: "ex_request x = DaemonInfo" and "e = ConflictingFacts"
    and i: "parse (ex_body x) = Some b" "info_conflict b st" for b
  proof -
    let ?v = "made DaemonVersion None None v"
    from acquired_info_second [OF a assms(3) q] assms(3,4) have v: "?v \<in> set (cap_exchanges c)"
      "decode_step parse c (initial_decode c) ?v = Inr st" by (simp_all add: bind_res_def split: sum.splits)
    from version_decoded [OF v(2)] obtain vb where vb: "parse v = Some vb" "\<not> ds_info_seen st"
      "df_mode (daemon_of st) = UnknownMode" "release_field vb ''Version'' = Inr (df_release (daemon_of st))" by blast
    have y: "ex_request ?v = DaemonVersion" "ex_body ?v = v" by (simp_all add: made_def)
    from i(2) vb(2,3) have "mode_contradicts b \<or> release_contradicts b (df_release (daemon_of st))"
      by (simp add: info_conflict_def)
    with x q that(2) i(1) v(1) y vb(1,4) show ?thesis unfolding info_refused_def by force
  qed
  have unparsed: "info_refused parse c e" if "ex_request x = DaemonInfo" "e = InvalidJson" "parse (ex_body x) = None"
    using that x unfolding info_refused_def by force
  from assms(5) show ?thesis unfolding error_at_def using facts info unparsed by (elim disjE conjE exE) simp_all
qed

text \<open>C33: up to its own limit the decoder takes what the acquisition returns. A capture of \<open>acquire\<close> of
  more than 4096 exchanges is refused for that: the limit is the decoder's, and \<open>acquire\<close> does not keep
  it. Of any other capture every check of \<open>decode_capture\<close> passes, on its exchanges (resource references
  and native identifiers included) as on its roots, listing, selection and versions. It fails only
  where a reader of the fields of one of the responses fails, or at the information of the daemon,
  the one response that \<open>acquire\<close> stores unread: because it is no JSON, or contradicts the version
  response or itself. A decoded capture has the roots of the capture.\<close>

theorem acquired_captures_decode:
  assumes "limits_sized l" and "acquire env endpoint parse s l n = Some (Inr c, sent)"
  shows "case decode_capture parse c of
      Inr r \<Rightarrow> length (cap_exchanges c) \<le> 4096 \<and> di_roots r = cap_roots c
    | Inl e \<Rightarrow> if 4096 < length (cap_exchanges c) then e = CollectionTooLarge
        else (\<exists>x \<in> set (cap_exchanges c). reader_error e \<and> response_unread parse x e) \<or> info_refused parse c e"
proof (cases "4096 < length (cap_exchanges c)")
  case True
  then show ?thesis by (simp add: decode_capture_def decoder_max_items_def)
next
  case small: False
  show ?thesis
  proof (cases "decode_capture parse c")
    case (Inl e)
    obtain v api ls ids es where a: "acquired parse s c v api ls ids es" using acquired_parts [OF assms] by blast
    from decode_capture_Inl [OF Inl] small consider
      xs x ys st where "cap_exchanges c = xs @ x # ys" "try_fold (decode_step parse c) (initial_decode c) xs = Inr st"
        "response_unread parse x e \<or> error_at parse c st x e"
      | st where "try_fold (decode_step parse c) (initial_decode c) (cap_exchanges c) = Inr st" "decode_checks c st = Inl e"
      unfolding decoder_max_items_def by auto
    then have "(\<exists>x \<in> set (cap_exchanges c). reader_error e \<and> response_unread parse x e) \<or> info_refused parse c e"
    proof cases
      case (1 xs x ys st)
      then show ?thesis using acquired_error [OF assms 1(1,2)] response_unread_reads by fastforce
    next
      case (2 st)
      then show ?thesis using acquired_checks [OF assms a, of st] by (simp add: passed_def)
    qed
    with Inl small show ?thesis by simp
  next
    case (Inr r)
    then have "di_roots r = cap_roots c" by (rule capture_pass) (simp add: requests_from_def)
    with Inr small show ?thesis by simp
  qed
qed

section \<open>The theorem applied\<close>

lemma sample_bodies:
  "version_field (VObject [(''ApiVersion'', VString ''1.44'')]) ''ApiVersion'' = Inr (Some (ApiVersion 1 44))"
  "version_field (VObject [(''ApiVersion'', VString ''1.44'')]) ''MinAPIVersion'' = Inr None"
  "release_field (VObject [(''ApiVersion'', VString ''1.44'')]) ''Version'' = Inr None"
  "release_field (VObject []) ''ServerVersion'' = Inr None"
  "boolean_field (VObject []) [k] f orig = Inr (unavailable Missing orig)" "field_value (VObject []) [k] f = Inr None"
  "json_entries (VObject []) f = Inr []"
  "json_entries (VObject [(''ApiVersion'', VString ''1.44'')]) f = Inr [(''ApiVersion'', VString ''1.44'')]"
  by (simp_all add: version_field_def release_field_def is_redacted_def parse_reported_api_def is_digit_def
      parse_uint_def dec_value_def digit_val_def Let_def field_defs)

lemma sample_volume_decodes: "\<exists>x. volume_of (VObject [(''Name'', VString ''v'')]) (ResourceRef 1) = Inr x"
  by (simp add: volume_of_def field_defs)

lemma sample_passes:
  assumes "cap_exchanges c = sample_exchanges"
  shows "\<exists>st. passed sample_parse c st"
proof -
  obtain x where x: "volume_of (VObject [(''Name'', VString ''v'')]) (ResourceRef 1) = Inr x" using sample_volume_decodes by blast
  show ?thesis
    by (simp add: passed_def assms sample_exchanges_def made_def step_defs sample_parse_def sample_bodies x
        sample_volume_def get_str_def del: field_value.simps)
qed

theorem acquired_captures_decode_witness:
  "\<exists>c r. acquire sample_env ''/s'' sample_parse (VolumeNames [sample_volume]) run_limits 1 = Some (Inr c, sample_sent)
     \<and> cap_exchanges c = sample_exchanges \<and> decode_capture sample_parse c = Inr r \<and> di_roots r = cap_roots c"
proof -
  obtain c where c: "acquire sample_env ''/s'' sample_parse (VolumeNames [sample_volume]) run_limits 1
      = Some (Inr c, sample_sent)" "cap_exchanges c = sample_exchanges" using sample_acquired by blast
  obtain st where st: "passed sample_parse c st" using sample_passes [OF c(2)] by blast
  obtain v api ls ids es where "acquired sample_parse (VolumeNames [sample_volume]) c v api ls ids es"
    using acquired_parts [OF run_limits_sized c(1)] by blast
  from acquired_checks [OF run_limits_sized c(1) this st] st c(2)
  have "\<exists>r. decode_capture sample_parse c = Inr r"
    by (simp add: decode_capture_def passed_def sample_exchanges_def decoder_max_items_def Let_def)
  with acquired_captures_decode [OF run_limits_sized c(1)] c show ?thesis by auto
qed

end
