(* ===== verification/Reviewed_Catalog.thy ===== *)
theory Reviewed_Catalog
  imports Capability_Catalog Native_Json
begin

text \<open>
  \<^verbatim>\<open>src/reviewed_catalog.rs\<close>: the records that are compiled into the crate. A record is read from a
  JSON document and compared, assertion by assertion, with what was reviewed for its lane; every
  failed assertion or \<^verbatim>\<open>expect\<close> is a panic, which is \<open>None\<close> here. The JSON parser is a parameter, and so
  are the contents of the files that \<^verbatim>\<open>include_str!\<close> names by their digest.
\<close>

section \<open>What was reviewed\<close>

definition source_candidate :: bytes where
  "source_candidate = ''ef8b40c2d392c3983a3ebdc54730812352fe6b39''"

definition source_run :: bytes where
  "source_run = ''https://github.com/Strukturpiloten/docker-lens/actions/runs/38106164571/attempts/1''"

definition reviewed_capabilities :: "capability list" where
  "reviewed_capabilities = [
    CapStandaloneContainer, CapNamedVolume, CapBridgeNetwork, CapPortPublish, CapBindMount,
    CapEnvironmentAssignment, CapCommand, CapEntrypoint, CapHealthcheck, CapRestartPolicy,
    CapVolumeExternalReference, CapNetworkExternalReference, CapNetworkExternalInternalExpectation,
    CapNetworkInternal, CapVolumeLabels, CapContainerUser, CapContainerWorkdir, CapPortHostIpv4,
    CapPortMultipleBindings, CapPortExposeOnly, CapPortEphemeral, CapContainerLabels,
    CapHealthShell, CapHealthStartPeriod, CapNetworkLabels, CapNetworkAliases,
    CapNetworkMultipleAttachment, CapBindRelabelShared, CapBindRelabelPrivate, CapStopSignal]"

definition reviewed_shapes :: "native_shape list" where
  "reviewed_shapes = [
    ShStandaloneCreate, ShNamedVolumeCreate, ShNamedVolumeMountReadWrite,
    ShNamedVolumeMountReadOnly, ShBridgeNetworkCreate, ShBridgeNetworkAttach, ShFixedTcpPort,
    ShFixedUdpPort, ShBindMountReadWrite, ShBindMountReadOnly, ShEnvironmentValue,
    ShEnvironmentEmptyValue, ShExecCommand, ShExecEntrypoint, ShExecHealthcheck, ShRestartNo,
    ShRestartAlways, ShRestartUnlessStopped, ShRestartOnFailureUnlimited,
    ShRestartOnFailureLimited, ShExternalVolumeReference, ShExternalNetworkReference,
    ShExternalNetworkInternalFalse, ShExternalNetworkInternalTrue, ShInternalBridgeNetworkCreate,
    ShVolumeCreateLabels, ShContainerUser, ShContainerWorkdir, ShFixedIpv4HostPort,
    ShEphemeralIpv4HostPort, ShMultipleFixedPortBindings, ShMultipleEphemeralPortBindings,
    ShExposedOnlyPort, ShEphemeralHostPort, ShContainerCreateLabels, ShShellHealthcheck,
    ShHealthStartPeriodZero, ShHealthStartPeriodPositive, ShNetworkCreateLabels,
    ShNetworkPrimaryAliases, ShNetworkSecondaryAliases, ShNetworkSecondaryConnect,
    ShBindMountSharedRelabelReadWrite, ShBindMountSharedRelabelReadOnly,
    ShBindMountPrivateRelabelReadWrite, ShBindMountPrivateRelabelReadOnly, ShStopSignal]"

definition upstream_capabilities :: "capability list" where
  "upstream_capabilities = [
    CapStandaloneContainer, CapNamedVolume, CapBridgeNetwork, CapPortPublish, CapBindMount,
    CapEnvironmentAssignment, CapCommand, CapEntrypoint, CapHealthcheck, CapRestartPolicy,
    CapVolumeExternalReference, CapNetworkExternalReference, CapNetworkExternalInternalExpectation,
    CapNetworkInternal, CapVolumeLabels, CapContainerUser, CapContainerWorkdir, CapPortHostIpv4,
    CapPortMultipleBindings, CapPortExposeOnly, CapPortEphemeral, CapContainerLabels,
    CapHealthShell, CapHealthStartPeriod, CapNetworkLabels, CapNetworkAliases,
    CapNetworkMultipleAttachment, CapBindRelabelShared, CapBindRelabelPrivate, CapPortHostIpv6,
    CapStopSignal]"

definition upstream_shapes :: "native_shape list" where
  "upstream_shapes = [
    ShStandaloneCreate, ShNamedVolumeCreate, ShNamedVolumeMountReadWrite,
    ShNamedVolumeMountReadOnly, ShBridgeNetworkCreate, ShBridgeNetworkAttach, ShFixedTcpPort,
    ShFixedUdpPort, ShBindMountReadWrite, ShBindMountReadOnly, ShEnvironmentValue,
    ShEnvironmentEmptyValue, ShExecCommand, ShExecEntrypoint, ShExecHealthcheck, ShRestartNo,
    ShRestartAlways, ShRestartUnlessStopped, ShRestartOnFailureUnlimited,
    ShRestartOnFailureLimited, ShExternalVolumeReference, ShExternalNetworkReference,
    ShExternalNetworkInternalFalse, ShExternalNetworkInternalTrue, ShInternalBridgeNetworkCreate,
    ShVolumeCreateLabels, ShContainerUser, ShContainerWorkdir, ShFixedIpv4HostPort,
    ShEphemeralIpv4HostPort, ShMultipleFixedPortBindings, ShMultipleEphemeralPortBindings,
    ShExposedOnlyPort, ShEphemeralHostPort, ShContainerCreateLabels, ShShellHealthcheck,
    ShHealthStartPeriodZero, ShHealthStartPeriodPositive, ShNetworkCreateLabels,
    ShNetworkPrimaryAliases, ShNetworkSecondaryAliases, ShNetworkSecondaryConnect,
    ShBindMountSharedRelabelReadWrite, ShBindMountSharedRelabelReadOnly,
    ShBindMountPrivateRelabelReadWrite, ShBindMountPrivateRelabelReadOnly, ShFixedIpv6HostPort,
    ShEphemeralIpv6HostPort, ShStopSignal]"

fun expected_admission :: "evidence_lane \<Rightarrow> capability list \<times> native_shape list" where
  "expected_admission Debian11Rootful = (reviewed_capabilities, reviewed_shapes)"
| "expected_admission Debian11Rootless = (reviewed_capabilities, reviewed_shapes)"
| "expected_admission UpstreamRootful = (upstream_capabilities, upstream_shapes)"
| "expected_admission UpstreamRootless = (upstream_capabilities, upstream_shapes)"

section \<open>The closed names\<close>

definition capability_names :: "(bytes \<times> capability) list" where
  "capability_names = [
    (''StandaloneContainer'', CapStandaloneContainer), (''BindMount'', CapBindMount),
    (''BindRelabelShared'', CapBindRelabelShared), (''BindRelabelPrivate'', CapBindRelabelPrivate),
    (''TmpfsMount'', CapTmpfsMount), (''NamedVolume'', CapNamedVolume),
    (''VolumeLabels'', CapVolumeLabels), (''VolumeExternalReference'', CapVolumeExternalReference),
    (''BridgeNetwork'', CapBridgeNetwork),
    (''NetworkExternalReference'', CapNetworkExternalReference),
    (''NetworkExternalInternalExpectation'', CapNetworkExternalInternalExpectation),
    (''NetworkInternal'', CapNetworkInternal), (''NetworkIpv6'', CapNetworkIpv6),
    (''NetworkIpam'', CapNetworkIpam), (''NetworkIpamDriver'', CapNetworkIpamDriver),
    (''NetworkOptions'', CapNetworkOptions), (''NetworkLabels'', CapNetworkLabels),
    (''NetworkAliases'', CapNetworkAliases), (''NetworkStaticAddress'', CapNetworkStaticAddress),
    (''NetworkMultipleAttachment'', CapNetworkMultipleAttachment),
    (''HostNetwork'', CapHostNetwork), (''PortPublish'', CapPortPublish),
    (''PortExposeOnly'', CapPortExposeOnly), (''PortHostIpv4'', CapPortHostIpv4),
    (''PortHostIpv6'', CapPortHostIpv6), (''PortMultipleBindings'', CapPortMultipleBindings),
    (''PortEphemeral'', CapPortEphemeral), (''UserNamespace'', CapUserNamespace),
    (''EnvironmentAssignment'', CapEnvironmentAssignment), (''Command'', CapCommand),
    (''CommandClear'', CapCommandClear), (''Entrypoint'', CapEntrypoint),
    (''EntrypointClear'', CapEntrypointClear), (''Healthcheck'', CapHealthcheck),
    (''HealthShell'', CapHealthShell), (''HealthDisabled'', CapHealthDisabled),
    (''HealthStartPeriod'', CapHealthStartPeriod),
    (''HealthStartInterval'', CapHealthStartInterval), (''RestartPolicy'', CapRestartPolicy),
    (''ContainerLabels'', CapContainerLabels), (''ContainerUser'', CapContainerUser),
    (''ContainerWorkdir'', CapContainerWorkdir), (''ContainerHostname'', CapContainerHostname),
    (''ReadOnlyRootfs'', CapReadOnlyRootfs), (''ContainerInit'', CapContainerInit),
    (''StopSignal'', CapStopSignal), (''StopTimeout'', CapStopTimeout),
    (''MemoryLimit'', CapMemoryLimit), (''PidsLimit'', CapPidsLimit), (''ShmSize'', CapShmSize),
    (''Ulimits'', CapUlimits), (''UlimitNofile'', CapUlimitNofile),
    (''DeviceMappings'', CapDeviceMappings), (''LinuxCapabilities'', CapLinuxCapabilities),
    (''CapAddNetBindService'', CapCapAddNetBindService), (''CapDropSysAdmin'', CapCapDropSysAdmin),
    (''SecurityOptions'', CapSecurityOptions), (''Sysctls'', CapSysctls),
    (''SysctlIpv4Forward'', CapSysctlIpv4Forward),
    (''SupplementaryGroups'', CapSupplementaryGroups), (''DnsServers'', CapDnsServers),
    (''ExtraHosts'', CapExtraHosts), (''LogConfig'', CapLogConfig),
    (''LogOptionMaxSize'', CapLogOptionMaxSize)]"

definition shape_names :: "(bytes \<times> native_shape) list" where
  "shape_names = [
    (''StandaloneCreate'', ShStandaloneCreate), (''NamedVolumeCreate'', ShNamedVolumeCreate),
    (''VolumeCreateLabels'', ShVolumeCreateLabels),
    (''NamedVolumeMountReadWrite'', ShNamedVolumeMountReadWrite),
    (''NamedVolumeMountReadOnly'', ShNamedVolumeMountReadOnly),
    (''ExternalVolumeReference'', ShExternalVolumeReference),
    (''BridgeNetworkCreate'', ShBridgeNetworkCreate),
    (''BridgeNetworkAttach'', ShBridgeNetworkAttach),
    (''ExternalNetworkReference'', ShExternalNetworkReference),
    (''ExternalNetworkInternalFalse'', ShExternalNetworkInternalFalse),
    (''ExternalNetworkInternalTrue'', ShExternalNetworkInternalTrue),
    (''InternalBridgeNetworkCreate'', ShInternalBridgeNetworkCreate),
    (''Ipv6BridgeNetworkCreate'', ShIpv6BridgeNetworkCreate), (''NetworkIpamV4'', ShNetworkIpamV4),
    (''NetworkIpamV6'', ShNetworkIpamV6), (''NetworkIpamGateway'', ShNetworkIpamGateway),
    (''NetworkIpamRange'', ShNetworkIpamRange), (''NetworkIpamAuxiliary'', ShNetworkIpamAuxiliary),
    (''NetworkIpamDefaultDriver'', ShNetworkIpamDefaultDriver),
    (''NetworkBridgeMtu'', ShNetworkBridgeMtu), (''NetworkBridgeIcc'', ShNetworkBridgeIcc),
    (''NetworkBridgeIccDisabled'', ShNetworkBridgeIccDisabled),
    (''NetworkBridgeMasquerade'', ShNetworkBridgeMasquerade),
    (''NetworkBridgeMasqueradeEnabled'', ShNetworkBridgeMasqueradeEnabled),
    (''NetworkBridgeHostBindingIp'', ShNetworkBridgeHostBindingIp),
    (''NetworkCreateLabels'', ShNetworkCreateLabels),
    (''NetworkPrimaryAliases'', ShNetworkPrimaryAliases),
    (''NetworkSecondaryAliases'', ShNetworkSecondaryAliases),
    (''NetworkStaticIpv4'', ShNetworkStaticIpv4), (''NetworkStaticIpv6'', ShNetworkStaticIpv6),
    (''NetworkSecondaryConnect'', ShNetworkSecondaryConnect), (''FixedTcpPort'', ShFixedTcpPort),
    (''FixedUdpPort'', ShFixedUdpPort), (''ExposedOnlyPort'', ShExposedOnlyPort),
    (''FixedIpv4HostPort'', ShFixedIpv4HostPort),
    (''EphemeralIpv4HostPort'', ShEphemeralIpv4HostPort),
    (''FixedIpv6HostPort'', ShFixedIpv6HostPort),
    (''EphemeralIpv6HostPort'', ShEphemeralIpv6HostPort),
    (''MultipleFixedPortBindings'', ShMultipleFixedPortBindings),
    (''MultipleEphemeralPortBindings'', ShMultipleEphemeralPortBindings),
    (''EphemeralHostPort'', ShEphemeralHostPort), (''BindMountReadWrite'', ShBindMountReadWrite),
    (''BindMountReadOnly'', ShBindMountReadOnly),
    (''BindMountSharedRelabelReadWrite'', ShBindMountSharedRelabelReadWrite),
    (''BindMountSharedRelabelReadOnly'', ShBindMountSharedRelabelReadOnly),
    (''BindMountPrivateRelabelReadWrite'', ShBindMountPrivateRelabelReadWrite),
    (''BindMountPrivateRelabelReadOnly'', ShBindMountPrivateRelabelReadOnly),
    (''TmpfsMountReadWrite'', ShTmpfsMountReadWrite),
    (''TmpfsMountReadOnly'', ShTmpfsMountReadOnly), (''TmpfsMountOptions'', ShTmpfsMountOptions),
    (''EnvironmentValue'', ShEnvironmentValue),
    (''EnvironmentEmptyValue'', ShEnvironmentEmptyValue), (''ExecCommand'', ShExecCommand),
    (''ClearCommand'', ShClearCommand), (''ExecEntrypoint'', ShExecEntrypoint),
    (''ClearEntrypoint'', ShClearEntrypoint), (''ExecHealthcheck'', ShExecHealthcheck),
    (''ShellHealthcheck'', ShShellHealthcheck), (''DisabledHealthcheck'', ShDisabledHealthcheck),
    (''HealthStartPeriodZero'', ShHealthStartPeriodZero),
    (''HealthStartPeriodPositive'', ShHealthStartPeriodPositive),
    (''HealthStartIntervalZero'', ShHealthStartIntervalZero),
    (''HealthStartIntervalPositive'', ShHealthStartIntervalPositive),
    (''ContainerCreateLabels'', ShContainerCreateLabels), (''ContainerUser'', ShContainerUser),
    (''ContainerWorkdir'', ShContainerWorkdir), (''ContainerHostname'', ShContainerHostname),
    (''ReadOnlyRootfsTrue'', ShReadOnlyRootfsTrue),
    (''ReadOnlyRootfsFalse'', ShReadOnlyRootfsFalse), (''ContainerInitTrue'', ShContainerInitTrue),
    (''ContainerInitFalse'', ShContainerInitFalse), (''StopSignal'', ShStopSignal),
    (''StopTimeoutZero'', ShStopTimeoutZero), (''StopTimeoutPositive'', ShStopTimeoutPositive),
    (''MemoryBytes'', ShMemoryBytes), (''MemoryUnlimited'', ShMemoryUnlimited),
    (''PidsCount'', ShPidsCount), (''PidsUnlimited'', ShPidsUnlimited), (''ShmSize'', ShShmSize),
    (''UlimitsFinite'', ShUlimitsFinite), (''UlimitsUnlimited'', ShUlimitsUnlimited),
    (''UlimitNofile'', ShUlimitNofile), (''DeviceMappings'', ShDeviceMappings),
    (''LinuxCapAdd'', ShLinuxCapAdd), (''LinuxCapDrop'', ShLinuxCapDrop),
    (''CapAddNetBindService'', ShCapAddNetBindService), (''CapDropSysAdmin'', ShCapDropSysAdmin),
    (''NoNewPrivilegesEnabled'', ShNoNewPrivilegesEnabled),
    (''NoNewPrivilegesDisabled'', ShNoNewPrivilegesDisabled), (''Sysctls'', ShSysctls),
    (''SysctlIpv4Forward'', ShSysctlIpv4Forward), (''SupplementaryGroups'', ShSupplementaryGroups),
    (''DnsIpv4'', ShDnsIpv4), (''DnsIpv6'', ShDnsIpv6), (''ExtraHostsIpv4'', ShExtraHostsIpv4),
    (''ExtraHostsIpv6'', ShExtraHostsIpv6), (''LogJsonFile'', ShLogJsonFile),
    (''LogLocal'', ShLogLocal), (''LogNone'', ShLogNone), (''LogOptions'', ShLogOptions),
    (''LogOptionMaxSize'', ShLogOptionMaxSize), (''RestartNo'', ShRestartNo),
    (''RestartAlways'', ShRestartAlways), (''RestartUnlessStopped'', ShRestartUnlessStopped),
    (''RestartOnFailureUnlimited'', ShRestartOnFailureUnlimited),
    (''RestartOnFailureLimited'', ShRestartOnFailureLimited)]"

text \<open>The macro \<^verbatim>\<open>closed_name!\<close>: the first arm with that name, or a panic.\<close>

fun closed_name :: "(bytes \<times> 'a) list \<Rightarrow> bytes \<Rightarrow> 'a option" where
  "closed_name [] name = None"
| "closed_name ((variant, x) # arms) name = (if name = variant then Some x else closed_name arms name)"

definition capability_named :: "bytes \<Rightarrow> capability option" where
  "capability_named name = closed_name capability_names name"

definition shape_named :: "bytes \<Rightarrow> native_shape option" where
  "shape_named name = closed_name shape_names name"

section \<open>Reading a document\<close>

text \<open>\<^verbatim>\<open>assert_eq!\<close> and \<^verbatim>\<open>expect\<close> on a result.\<close>

definition asserting :: "bool \<Rightarrow> 'a option \<Rightarrow> 'a option" where
  "asserting b m = (if b then m else None)"

fun expect_ok :: "'e + 'a \<Rightarrow> 'a option" where
  "expect_ok (Inl _) = None"
| "expect_ok (Inr x) = Some x"

text \<open>\<^verbatim>\<open>Value\<close> indexed by a key: null where there is no such entry.\<close>

definition value_at :: "json_value \<Rightarrow> bytes \<Rightarrow> json_value" where
  "value_at v k = (case json_get k v of None \<Rightarrow> VNull | Some x \<Rightarrow> x)"

definition required_text :: "json_value \<Rightarrow> bytes \<Rightarrow> bytes option" where
  "required_text v name = as_str (value_at v name)"

definition reviewed_api :: "bytes \<Rightarrow> api_version option" where
  "reviewed_api v =
     Option.bind (split_once CHR ''.'' v) (\<lambda>(major, minor).
     Option.bind (parse_uint 65535 major) (\<lambda>m. asserting (m \<noteq> 0)
     (Option.bind (parse_uint 65535 minor) (\<lambda>n. Some (ApiVersion (of_nat m) (of_nat n))))))"

text \<open>\<^verbatim>\<open>u8::from_str_radix\<close> in base 16 on two bytes: a plus sign may stand before a digit.\<close>

definition hex_byte :: "char \<Rightarrow> char \<Rightarrow> nat option" where
  "hex_byte c d =
     (if c = CHR ''+'' then hex_val d
      else Option.bind (hex_val c) (\<lambda>h. map_option (\<lambda>l. h * 16 + l) (hex_val d)))"

fun hex_bytes :: "bytes \<Rightarrow> bytes option" where
  "hex_bytes (c # d # r) = Option.bind (hex_byte c d) (\<lambda>n. map_option (Cons (char_of n)) (hex_bytes r))"
| "hex_bytes _ = Some []"

definition digest_key :: "bytes \<Rightarrow> evidence_key option" where
  "digest_key v = asserting (length v = 64) (Option.bind (hex_bytes v) (\<lambda>bs. expect_ok (evidence_key_sha256 bs)))"

definition reviewed_build :: "evidence_lane \<Rightarrow> json_value \<Rightarrow> engine_build option" where
  "reviewed_build lane build =
     (if lane \<in> {Debian11Rootful, Debian11Rootless}
      then asserting (value_at build ''kind'' = VString ''debian-package'')
        (asserting (value_at build ''distribution'' = VString ''debian11'')
        (asserting (value_at build ''package_name'' = VString ''docker.io'')
        (Option.bind (required_text build ''package_revision'') (\<lambda>revision.
          map_option DebianPackage (expect_ok (package_revision_new revision))))))
      else asserting (value_at build ''kind'' = VString ''upstream'') (Some Upstream))"

definition reviewed_mode :: "bytes \<Rightarrow> daemon_mode option" where
  "reviewed_mode mode =
     (if mode = ''rootful'' then Some Rootful else if mode = ''rootless'' then Some Rootless else None)"

definition reviewed_identity :: "evidence_lane \<Rightarrow> json_value \<Rightarrow> profile_identity option" where
  "reviewed_identity lane identity =
     Option.bind (reviewed_build lane (value_at identity ''build'')) (\<lambda>build.
     Option.bind (Option.bind (required_text identity ''mode'') reviewed_mode) (\<lambda>mode.
     Option.bind (Option.bind (required_text identity ''engine_release'') engine_release_new) (\<lambda>release.
     Option.bind (Option.bind (required_text identity ''advertised_api'') reviewed_api) (\<lambda>advertised.
     Option.bind (Option.bind (required_text identity ''acquisition_api'') reviewed_api) (\<lambda>acquisition.
     Option.bind (Option.bind (required_text identity ''rendering_api'') reviewed_api) (\<lambda>rendering.
       expect_ok (profile_identity_new build release advertised acquisition rendering mode)))))))"

section \<open>The capabilities of a document\<close>

definition reviewed_entry :: "json_value \<Rightarrow> (capability \<times> native_shape list) option" where
  "reviewed_entry entry =
     asserting (value_at entry ''state'' = VString ''available'')
     (Option.bind (Option.bind (required_text entry ''name'') capability_named) (\<lambda>name.
      Option.bind (as_array (value_at entry ''admitted_shapes'')) (\<lambda>items.
      Option.bind (those (map (\<lambda>shape. Option.bind (as_str shape) shape_named) items)) (\<lambda>shapes.
      Option.bind (required_for name) (\<lambda>required.
        asserting (length shapes = length required) (asserting (set shapes = set required)
          (Some (name, shapes))))))))"

fun reviewed_entries ::
  "json_value list \<Rightarrow> target_fact list \<Rightarrow> native_shape list \<Rightarrow> (target_fact list \<times> native_shape list) option" where
  "reviewed_entries [] facts shapes = Some (facts, shapes)"
| "reviewed_entries (e # es) facts shapes =
     Option.bind (reviewed_entry e) (\<lambda>(name, entry_shapes).
       reviewed_entries es (facts @ [\<lparr>tf_capability = name, tf_state = Available\<rparr>]) (shapes @ entry_shapes))"

section \<open>A record\<close>

definition reviewed_record :: "json_parser \<Rightarrow> evidence_lane \<Rightarrow> bytes \<Rightarrow> bytes \<Rightarrow> target_record option" where
  "reviewed_record parse lane record_hash source =
     Option.bind (parse source) (\<lambda>data.
     asserting (value_at data ''schema_version'' = VInt 1)
     (asserting (value_at data ''candidate_sha'' = VString source_candidate)
     (asserting (value_at data ''run_url'' = VString source_run)
     (asserting (value_at data ''native_manifest_artifact_name'' = VString (lane_artifact_name lane))
     (Option.bind (required_text data ''lane'') (\<lambda>name.
     asserting (''dockerlens-native-'' @ name = lane_artifact_name lane)
     (Option.bind (reviewed_identity lane (value_at data ''identity'')) (\<lambda>identity.
      Option.bind (digest_key record_hash) (\<lambda>record_key.
      Option.bind (Option.bind (required_text data ''native_manifest_sha256'') digest_key) (\<lambda>manifest_key.
      Option.bind (expect_ok (evidence_reference_new lane source_run source_candidate (lane_artifact_name lane)
        manifest_key record_key)) (\<lambda>evidence.
      Option.bind (as_array (value_at data ''capabilities'')) (\<lambda>entries.
      let (capabilities, expected_shapes) = expected_admission lane in
      asserting (length entries = length capabilities)
      (Option.bind (reviewed_entries entries [] []) (\<lambda>(facts, shapes).
       asserting (set (map tf_capability facts) = set capabilities)
       (asserting (length shapes = length expected_shapes)
       (asserting (set shapes = set expected_shapes)
         (Some \<lparr>tr_profile = target_profile_new identity record_key, tr_evidence = evidence,
            tr_capabilities = facts, tr_shapes = shapes\<rparr>)))))))))))))))))"

text \<open>The records of the crate: each lane with the digest that names its file.\<close>

definition reviewed_index :: "(evidence_lane \<times> bytes) list" where
  "reviewed_index =
     [(Debian11Rootful, ''ae366c50cb7213cf62f75b0cee002ec1f81c7ec56b0518053575c0c2f2c74033''),
      (Debian11Rootless, ''3f207baae9a2fd58f1a02b4f2c0cc282f10ab36b70e1497ed36e7a5c58a954fd''),
      (UpstreamRootful, ''1a128e59871f6a22c69618c5c01d5909bf928d3de4f1eb03957af6cd12c6464b''),
      (UpstreamRootless, ''90d64a85ec81af3a1b69520555c6c160b70c8631b14519fec28e1b1fb742c95b'')]"

definition reviewed_records :: "json_parser \<Rightarrow> (bytes \<Rightarrow> bytes) \<Rightarrow> target_record list option" where
  "reviewed_records parse files =
     those (map (\<lambda>(lane, record_hash). reviewed_record parse lane record_hash (files record_hash)) reviewed_index)"

text \<open>\<^verbatim>\<open>TargetCapabilityCatalog::reviewed\<close>.\<close>

definition reviewed_catalog :: "json_parser \<Rightarrow> (bytes \<Rightarrow> bytes) \<Rightarrow> catalog option" where
  "reviewed_catalog parse files =
     Option.bind (reviewed_records parse files) (\<lambda>records. expect_ok (from_records records))"

section \<open>What a record holds\<close>

lemma asserting_Some [simp]: "asserting b m = Some x \<longleftrightarrow> b \<and> m = Some x"
  by (simp add: asserting_def)

lemma expect_ok_Some: "expect_ok r = Some x \<longleftrightarrow> r = Inr x"
  by (cases r) auto

lemma those_Some: "those ms = Some xs \<longleftrightarrow> ms = map Some xs"
  by (induction ms arbitrary: xs) (auto split: option.splits)

text \<open>The two expected lists of a lane fit together: its shapes are those of its capabilities.\<close>

lemma expected_shapes_exact:
  "s \<in> set (snd (expected_admission lane)) \<longleftrightarrow> shape_capability s \<in> set (fst (expected_admission lane))"
proof -
  have "s \<in> set reviewed_shapes \<longleftrightarrow> shape_capability s \<in> set reviewed_capabilities"
    by (cases s) (simp_all add: reviewed_shapes_def reviewed_capabilities_def)
  moreover have "s \<in> set upstream_shapes \<longleftrightarrow> shape_capability s \<in> set upstream_capabilities"
    by (cases s) (simp_all add: upstream_shapes_def upstream_capabilities_def)
  ultimately show ?thesis by (cases lane) simp_all
qed

lemma expected_distinct:
  "distinct (fst (expected_admission lane)) \<and> distinct (snd (expected_admission lane))
   \<and> CapHostNetwork \<notin> set (fst (expected_admission lane)) \<and> CapUserNamespace \<notin> set (fst (expected_admission lane))"
  by (cases lane) (simp_all add: reviewed_shapes_def reviewed_capabilities_def upstream_shapes_def upstream_capabilities_def)

lemma reviewed_entries_facts:
  assumes "reviewed_entries es facts shapes = Some (facts', shapes')"
  shows "length facts' = length facts + length es"
    and "list_all (\<lambda>f. tf_state f = Available) facts \<Longrightarrow> list_all (\<lambda>f. tf_state f = Available) facts'"
  using assms by (induction es facts shapes rule: reviewed_entries.induct) (auto split: bind_splits)

text \<open>The facts and shapes of a record: exactly what was reviewed for the lane, each once.\<close>

definition as_reviewed :: "evidence_lane \<Rightarrow> target_record \<Rightarrow> bool" where
  "as_reviewed lane r \<longleftrightarrow>
     distinct (map tf_capability (tr_capabilities r)) \<and> distinct (tr_shapes r)
     \<and> list_all (\<lambda>f. tf_state f = Available) (tr_capabilities r)
     \<and> set (map tf_capability (tr_capabilities r)) = set (fst (expected_admission lane))
     \<and> set (tr_shapes r) = {s. shape_capability s \<in> set (fst (expected_admission lane))}"

definition evidenced :: "evidence_lane \<Rightarrow> bytes \<Rightarrow> target_record \<Rightarrow> bool" where
  "evidenced lane record_hash r \<longleftrightarrow>
     ev_lane (tr_evidence r) = lane \<and> ev_run_url (tr_evidence r) = source_run
     \<and> ev_candidate_sha (tr_evidence r) = source_candidate
     \<and> ev_artifact_name (tr_evidence r) = lane_artifact_name lane
     \<and> digest_key record_hash = Some (ev_record_key (tr_evidence r))
     \<and> tp_evidence_key (tr_profile r) = ev_record_key (tr_evidence r)"

lemma distinct_by_count: "length xs = length ys \<Longrightarrow> set xs = set ys \<Longrightarrow> distinct ys \<Longrightarrow> distinct xs"
  by (metis card_distinct distinct_card)

lemma reviewed_record_Some:
  assumes "reviewed_record parse lane record_hash source = Some r"
  shows "as_reviewed lane r" and "evidenced lane record_hash r"
proof -
  obtain capabilities expected where lists: "expected_admission lane = (capabilities, expected)" by force
  obtain data identity key manifest_key evidence entries facts shapes where x:
    "parse source = Some data" "reviewed_identity lane (value_at data ''identity'') = Some identity"
    "digest_key record_hash = Some key"
    "evidence_reference_new lane source_run source_candidate (lane_artifact_name lane) manifest_key key = Inr evidence"
    "length entries = length (fst (expected_admission lane))" "reviewed_entries entries [] [] = Some (facts, shapes)"
    "set (map tf_capability facts) = set (fst (expected_admission lane))"
    "length shapes = length (snd (expected_admission lane))" "set shapes = set (snd (expected_admission lane))"
    "r = \<lparr>tr_profile = target_profile_new identity key, tr_evidence = evidence, tr_capabilities = facts, tr_shapes = shapes\<rparr>"
    using assms unfolding reviewed_record_def lists
    by (auto simp: bind_eq_Some_conv expect_ok_Some)
  have len: "length facts = length (fst (expected_admission lane))" "list_all (\<lambda>f. tf_state f = Available) facts"
    using reviewed_entries_facts [OF x(6)] x(5) by simp_all
  have "distinct (map tf_capability facts)"
    by (rule distinct_by_count [OF _ x(7)]) (use len expected_distinct in simp_all)
  moreover have "distinct shapes"
    by (rule distinct_by_count [OF x(8,9)]) (use expected_distinct in simp)
  ultimately show "as_reviewed lane r"
    using x(7,9,10) expected_shapes_exact len(2) by (auto simp: as_reviewed_def)
  show "evidenced lane record_hash r"
    using x(3,4,10) by (auto simp: evidenced_def evidence_reference_new_def target_profile_new_def
      split: option.splits if_splits prod.splits)
qed

lemma all_available:
  "list_all (\<lambda>f. tf_state f = Available) fs \<Longrightarrow> available_capabilities fs = map tf_capability fs"
  by (auto simp: available_capabilities_def list_all_iff)

text \<open>The admission gate has two reasons left to refuse such a record.\<close>

lemma reviewed_record_admitted:
  assumes "reviewed_record parse lane record_hash source = Some r"
  shows "admitted_record r \<longleftrightarrow> lane_matches_identity lane (tp_identity (tr_profile r))"
  using reviewed_record_Some [OF assms] expected_distinct [of lane]
  unfolding as_reviewed_def evidenced_def admitted_record_def by (auto simp: all_available)

end
