(* ===== verification/Reviewed_Documents.thy ===== *)
theory Reviewed_Documents
  imports Reviewed_Catalog
begin

text \<open>
  The four documents that are compiled into the crate, \<^verbatim>\<open>docs/evidence/reviewed/sha256\<close>, as the values
  they parse to, and the catalog that is built of them.
\<close>

section \<open>The documents\<close>

definition available_entry :: "bytes \<Rightarrow> bytes list \<Rightarrow> json_value" where
  "available_entry name shapes =
     VObject [(''name'', VString name), (''state'', VString ''available''),
       (''admitted_shapes'', VArray (map VString shapes))]"

text \<open>The entries every document has before and after the one for IPv6 host ports.\<close>

definition entries_before :: "json_value list" where
  "entries_before = [
    available_entry ''BindMount'' [''BindMountReadWrite'', ''BindMountReadOnly''],
    available_entry ''BindRelabelPrivate''
      [''BindMountPrivateRelabelReadWrite'', ''BindMountPrivateRelabelReadOnly''],
    available_entry ''BindRelabelShared''
      [''BindMountSharedRelabelReadWrite'', ''BindMountSharedRelabelReadOnly''],
    available_entry ''BridgeNetwork'' [''BridgeNetworkCreate'', ''BridgeNetworkAttach''],
    available_entry ''Command'' [''ExecCommand''],
    available_entry ''ContainerLabels'' [''ContainerCreateLabels''],
    available_entry ''ContainerUser'' [''ContainerUser''],
    available_entry ''ContainerWorkdir'' [''ContainerWorkdir''],
    available_entry ''Entrypoint'' [''ExecEntrypoint''],
    available_entry ''EnvironmentAssignment'' [''EnvironmentValue'', ''EnvironmentEmptyValue''],
    available_entry ''HealthShell'' [''ShellHealthcheck''],
    available_entry ''HealthStartPeriod'' [''HealthStartPeriodZero'', ''HealthStartPeriodPositive''],
    available_entry ''Healthcheck'' [''ExecHealthcheck''],
    available_entry ''NamedVolume''
      [''NamedVolumeCreate'', ''NamedVolumeMountReadWrite'', ''NamedVolumeMountReadOnly''],
    available_entry ''NetworkAliases'' [''NetworkPrimaryAliases'', ''NetworkSecondaryAliases''],
    available_entry ''NetworkExternalInternalExpectation''
      [''ExternalNetworkInternalFalse'', ''ExternalNetworkInternalTrue''],
    available_entry ''NetworkExternalReference'' [''ExternalNetworkReference''],
    available_entry ''NetworkInternal'' [''InternalBridgeNetworkCreate''],
    available_entry ''NetworkLabels'' [''NetworkCreateLabels''],
    available_entry ''NetworkMultipleAttachment'' [''NetworkSecondaryConnect''],
    available_entry ''PortEphemeral'' [''EphemeralHostPort''],
    available_entry ''PortExposeOnly'' [''ExposedOnlyPort''],
    available_entry ''PortHostIpv4'' [''FixedIpv4HostPort'', ''EphemeralIpv4HostPort'']]"

definition entries_after :: "json_value list" where
  "entries_after = [
    available_entry ''PortMultipleBindings''
      [''MultipleFixedPortBindings'', ''MultipleEphemeralPortBindings''],
    available_entry ''PortPublish'' [''FixedTcpPort'', ''FixedUdpPort''],
    available_entry ''RestartPolicy''
      [''RestartNo'', ''RestartAlways'',
        ''RestartUnlessStopped'', ''RestartOnFailureUnlimited'', ''RestartOnFailureLimited''],
    available_entry ''StandaloneContainer'' [''StandaloneCreate''],
    available_entry ''StopSignal'' [''StopSignal''],
    available_entry ''VolumeExternalReference'' [''ExternalVolumeReference''],
    available_entry ''VolumeLabels'' [''VolumeCreateLabels'']]"

definition ipv6_entry :: json_value where
  "ipv6_entry = available_entry ''PortHostIpv6'' [''FixedIpv6HostPort'', ''EphemeralIpv6HostPort'']"

fun document_entries :: "evidence_lane \<Rightarrow> json_value list" where
  "document_entries Debian11Rootful = entries_before @ entries_after"
| "document_entries Debian11Rootless = entries_before @ entries_after"
| "document_entries UpstreamRootful = entries_before @ ipv6_entry # entries_after"
| "document_entries UpstreamRootless = entries_before @ ipv6_entry # entries_after"

definition debian_identity :: "bytes \<Rightarrow> json_value" where
  "debian_identity mode = VObject [
     (''build'', VObject [(''kind'', VString ''debian-package''), (''distribution'', VString ''debian11''),
        (''package_name'', VString ''docker.io''), (''package_revision'', VString ''20.10.5+dfsg1-1+deb11u2'')]),
     (''engine_release'', VString ''20.10.5+dfsg1''), (''advertised_api'', VString ''1.41''),
     (''acquisition_api'', VString ''1.41''), (''rendering_api'', VString ''1.41''), (''mode'', VString mode)]"

definition upstream_identity :: "bytes \<Rightarrow> json_value" where
  "upstream_identity mode = VObject [
     (''build'', VObject [(''kind'', VString ''upstream'')]),
     (''engine_release'', VString ''29.8.1''), (''advertised_api'', VString ''1.56''),
     (''acquisition_api'', VString ''1.49''), (''rendering_api'', VString ''1.56''), (''mode'', VString mode)]"

fun document_identity :: "evidence_lane \<Rightarrow> json_value" where
  "document_identity Debian11Rootful = debian_identity ''rootful''"
| "document_identity Debian11Rootless = debian_identity ''rootless''"
| "document_identity UpstreamRootful = upstream_identity ''rootful''"
| "document_identity UpstreamRootless = upstream_identity ''rootless''"

fun document_lane :: "evidence_lane \<Rightarrow> bytes" where
  "document_lane Debian11Rootful = ''debian11-rootful''"
| "document_lane Debian11Rootless = ''debian11-rootless''"
| "document_lane UpstreamRootful = ''upstream-rootful''"
| "document_lane UpstreamRootless = ''upstream-rootless''"

fun document_manifest :: "evidence_lane \<Rightarrow> bytes" where
  "document_manifest Debian11Rootful = ''27053783c2ad3dc4b28bdcd2a5a0411c859d9dcf51d4d9317f73bde8b3cb4898''"
| "document_manifest Debian11Rootless = ''e8c453818f346d606175d474805ea3d3757b0eb8729e7f566ef1fc27a89dbf57''"
| "document_manifest UpstreamRootful = ''7237f2381503997226970a2038ca43e569959b6175ce3aa69906245e41138d67''"
| "document_manifest UpstreamRootless = ''04173f9bf854c4e3b8a6e19f3fb58d5155dd75bf69076893397ae55e5983f216''"

definition document :: "evidence_lane \<Rightarrow> json_value" where
  "document lane = VObject [(''schema_version'', VInt 1), (''lane'', VString (document_lane lane)),
     (''candidate_sha'', VString ''ef8b40c2d392c3983a3ebdc54730812352fe6b39''),
     (''run_url'', VString ''https://github.com/Strukturpiloten/docker-lens/actions/runs/38106164571/attempts/1''),
     (''native_manifest_artifact_name'', VString (''dockerlens-native-'' @ document_lane lane)),
     (''native_manifest_sha256'', VString (document_manifest lane)),
     (''identity'', document_identity lane), (''capabilities'', VArray (document_entries lane))]"

section \<open>The names of the documents\<close>

lemma reviewed_entry_available:
  "reviewed_entry (available_entry name shapes) =
     Option.bind (capability_named name) (\<lambda>c. Option.bind (those (map shape_named shapes)) (\<lambda>ss.
     Option.bind (required_for c) (\<lambda>required. asserting (length ss = length required)
       (asserting (set ss = set required) (Some (c, ss))))))"
  by (simp add: reviewed_entry_def available_entry_def value_at_def required_text_def asserting_def comp_def)

lemma same_set: "set xs = set ys \<longleftrightarrow> list_all (\<lambda>x. x \<in> set ys) xs \<and> list_all (\<lambda>y. y \<in> set xs) ys"
  by (auto simp: list_all_iff)

lemma entries_append:
  "reviewed_entries (es @ es') facts shapes =
     Option.bind (reviewed_entries es facts shapes) (\<lambda>(facts, shapes). reviewed_entries es' facts shapes)"
  by (induction es facts shapes rule: reviewed_entries.induct) (auto split: bind_splits)

text \<open>The names that the documents use. The table itself is not simplified while it is searched.\<close>

lemma closed_name_cong: "name = name' \<Longrightarrow> closed_name arms name = closed_name arms name'"
  by simp

lemma names_of_capabilities:
  "capability_named ''BindMount'' = Some CapBindMount"
  "capability_named ''BindRelabelPrivate'' = Some CapBindRelabelPrivate"
  "capability_named ''BindRelabelShared'' = Some CapBindRelabelShared"
  "capability_named ''BridgeNetwork'' = Some CapBridgeNetwork"
  "capability_named ''Command'' = Some CapCommand"
  "capability_named ''ContainerLabels'' = Some CapContainerLabels"
  "capability_named ''ContainerUser'' = Some CapContainerUser"
  "capability_named ''ContainerWorkdir'' = Some CapContainerWorkdir"
  "capability_named ''Entrypoint'' = Some CapEntrypoint"
  "capability_named ''EnvironmentAssignment'' = Some CapEnvironmentAssignment"
  "capability_named ''HealthShell'' = Some CapHealthShell"
  "capability_named ''HealthStartPeriod'' = Some CapHealthStartPeriod"
  "capability_named ''Healthcheck'' = Some CapHealthcheck"
  "capability_named ''NamedVolume'' = Some CapNamedVolume"
  "capability_named ''NetworkAliases'' = Some CapNetworkAliases"
  "capability_named ''NetworkExternalInternalExpectation'' = Some CapNetworkExternalInternalExpectation"
  "capability_named ''NetworkExternalReference'' = Some CapNetworkExternalReference"
  "capability_named ''NetworkInternal'' = Some CapNetworkInternal"
  "capability_named ''NetworkLabels'' = Some CapNetworkLabels"
  "capability_named ''NetworkMultipleAttachment'' = Some CapNetworkMultipleAttachment"
  "capability_named ''PortEphemeral'' = Some CapPortEphemeral"
  "capability_named ''PortExposeOnly'' = Some CapPortExposeOnly"
  "capability_named ''PortHostIpv4'' = Some CapPortHostIpv4"
  "capability_named ''PortMultipleBindings'' = Some CapPortMultipleBindings"
  "capability_named ''PortPublish'' = Some CapPortPublish"
  "capability_named ''RestartPolicy'' = Some CapRestartPolicy"
  "capability_named ''StandaloneContainer'' = Some CapStandaloneContainer"
  "capability_named ''StopSignal'' = Some CapStopSignal"
  "capability_named ''VolumeExternalReference'' = Some CapVolumeExternalReference"
  "capability_named ''VolumeLabels'' = Some CapVolumeLabels"
  "capability_named ''PortHostIpv6'' = Some CapPortHostIpv6"
  unfolding capability_named_def capability_names_def by (simp_all cong: closed_name_cong)

lemma first_names_of_shapes:
  "shape_named ''BindMountReadWrite'' = Some ShBindMountReadWrite"
  "shape_named ''BindMountReadOnly'' = Some ShBindMountReadOnly"
  "shape_named ''BindMountPrivateRelabelReadWrite'' = Some ShBindMountPrivateRelabelReadWrite"
  "shape_named ''BindMountPrivateRelabelReadOnly'' = Some ShBindMountPrivateRelabelReadOnly"
  "shape_named ''BindMountSharedRelabelReadWrite'' = Some ShBindMountSharedRelabelReadWrite"
  "shape_named ''BindMountSharedRelabelReadOnly'' = Some ShBindMountSharedRelabelReadOnly"
  "shape_named ''BridgeNetworkCreate'' = Some ShBridgeNetworkCreate"
  "shape_named ''BridgeNetworkAttach'' = Some ShBridgeNetworkAttach"
  "shape_named ''ExecCommand'' = Some ShExecCommand"
  "shape_named ''ContainerCreateLabels'' = Some ShContainerCreateLabels"
  "shape_named ''ContainerUser'' = Some ShContainerUser"
  "shape_named ''ContainerWorkdir'' = Some ShContainerWorkdir"
  "shape_named ''ExecEntrypoint'' = Some ShExecEntrypoint"
  "shape_named ''EnvironmentValue'' = Some ShEnvironmentValue"
  "shape_named ''EnvironmentEmptyValue'' = Some ShEnvironmentEmptyValue"
  "shape_named ''ShellHealthcheck'' = Some ShShellHealthcheck"
  "shape_named ''HealthStartPeriodZero'' = Some ShHealthStartPeriodZero"
  "shape_named ''HealthStartPeriodPositive'' = Some ShHealthStartPeriodPositive"
  "shape_named ''ExecHealthcheck'' = Some ShExecHealthcheck"
  "shape_named ''NamedVolumeCreate'' = Some ShNamedVolumeCreate"
  "shape_named ''NamedVolumeMountReadWrite'' = Some ShNamedVolumeMountReadWrite"
  "shape_named ''NamedVolumeMountReadOnly'' = Some ShNamedVolumeMountReadOnly"
  "shape_named ''NetworkPrimaryAliases'' = Some ShNetworkPrimaryAliases"
  "shape_named ''NetworkSecondaryAliases'' = Some ShNetworkSecondaryAliases"
  "shape_named ''ExternalNetworkInternalFalse'' = Some ShExternalNetworkInternalFalse"
  unfolding shape_named_def shape_names_def by (simp_all cong: closed_name_cong)

lemma other_names_of_shapes:
  "shape_named ''ExternalNetworkInternalTrue'' = Some ShExternalNetworkInternalTrue"
  "shape_named ''ExternalNetworkReference'' = Some ShExternalNetworkReference"
  "shape_named ''InternalBridgeNetworkCreate'' = Some ShInternalBridgeNetworkCreate"
  "shape_named ''NetworkCreateLabels'' = Some ShNetworkCreateLabels"
  "shape_named ''NetworkSecondaryConnect'' = Some ShNetworkSecondaryConnect"
  "shape_named ''EphemeralHostPort'' = Some ShEphemeralHostPort"
  "shape_named ''ExposedOnlyPort'' = Some ShExposedOnlyPort"
  "shape_named ''FixedIpv4HostPort'' = Some ShFixedIpv4HostPort"
  "shape_named ''EphemeralIpv4HostPort'' = Some ShEphemeralIpv4HostPort"
  "shape_named ''MultipleFixedPortBindings'' = Some ShMultipleFixedPortBindings"
  "shape_named ''MultipleEphemeralPortBindings'' = Some ShMultipleEphemeralPortBindings"
  "shape_named ''FixedTcpPort'' = Some ShFixedTcpPort"
  "shape_named ''FixedUdpPort'' = Some ShFixedUdpPort"
  "shape_named ''RestartNo'' = Some ShRestartNo"
  "shape_named ''RestartAlways'' = Some ShRestartAlways"
  "shape_named ''RestartUnlessStopped'' = Some ShRestartUnlessStopped"
  "shape_named ''RestartOnFailureUnlimited'' = Some ShRestartOnFailureUnlimited"
  "shape_named ''RestartOnFailureLimited'' = Some ShRestartOnFailureLimited"
  "shape_named ''StandaloneCreate'' = Some ShStandaloneCreate"
  "shape_named ''StopSignal'' = Some ShStopSignal"
  "shape_named ''ExternalVolumeReference'' = Some ShExternalVolumeReference"
  "shape_named ''VolumeCreateLabels'' = Some ShVolumeCreateLabels"
  "shape_named ''FixedIpv6HostPort'' = Some ShFixedIpv6HostPort"
  "shape_named ''EphemeralIpv6HostPort'' = Some ShEphemeralIpv6HostPort"
  unfolding shape_named_def shape_names_def by (simp_all cong: closed_name_cong)

lemmas names_of_shapes = first_names_of_shapes other_names_of_shapes

section \<open>Reading the documents\<close>

text \<open>What the entries admit.\<close>

definition available_fact :: "capability \<Rightarrow> target_fact" where
  "available_fact c = \<lparr>tf_capability = c, tf_state = Available\<rparr>"

definition capabilities_before :: "capability list" where
  "capabilities_before = [
     CapBindMount, CapBindRelabelPrivate, CapBindRelabelShared, CapBridgeNetwork, CapCommand,
     CapContainerLabels, CapContainerUser, CapContainerWorkdir, CapEntrypoint,
     CapEnvironmentAssignment, CapHealthShell, CapHealthStartPeriod, CapHealthcheck, CapNamedVolume,
     CapNetworkAliases, CapNetworkExternalInternalExpectation, CapNetworkExternalReference,
     CapNetworkInternal, CapNetworkLabels, CapNetworkMultipleAttachment, CapPortEphemeral,
     CapPortExposeOnly, CapPortHostIpv4]"

definition shapes_before :: "native_shape list" where
  "shapes_before = [
     ShBindMountReadWrite, ShBindMountReadOnly, ShBindMountPrivateRelabelReadWrite,
     ShBindMountPrivateRelabelReadOnly, ShBindMountSharedRelabelReadWrite,
     ShBindMountSharedRelabelReadOnly, ShBridgeNetworkCreate, ShBridgeNetworkAttach, ShExecCommand,
     ShContainerCreateLabels, ShContainerUser, ShContainerWorkdir, ShExecEntrypoint,
     ShEnvironmentValue, ShEnvironmentEmptyValue, ShShellHealthcheck, ShHealthStartPeriodZero,
     ShHealthStartPeriodPositive, ShExecHealthcheck, ShNamedVolumeCreate, ShNamedVolumeMountReadWrite,
     ShNamedVolumeMountReadOnly, ShNetworkPrimaryAliases, ShNetworkSecondaryAliases,
     ShExternalNetworkInternalFalse, ShExternalNetworkInternalTrue, ShExternalNetworkReference,
     ShInternalBridgeNetworkCreate, ShNetworkCreateLabels, ShNetworkSecondaryConnect,
     ShEphemeralHostPort, ShExposedOnlyPort, ShFixedIpv4HostPort, ShEphemeralIpv4HostPort]"

definition capabilities_after :: "capability list" where
  "capabilities_after = [
     CapPortMultipleBindings, CapPortPublish, CapRestartPolicy, CapStandaloneContainer, CapStopSignal,
     CapVolumeExternalReference, CapVolumeLabels]"

definition shapes_after :: "native_shape list" where
  "shapes_after = [
     ShMultipleFixedPortBindings, ShMultipleEphemeralPortBindings, ShFixedTcpPort, ShFixedUdpPort,
     ShRestartNo, ShRestartAlways, ShRestartUnlessStopped, ShRestartOnFailureUnlimited,
     ShRestartOnFailureLimited, ShStandaloneCreate, ShStopSignal, ShExternalVolumeReference,
     ShVolumeCreateLabels]"

lemma available_fact_simps [simp]: "tf_capability (available_fact c) = c" "tf_state (available_fact c) = Available"
  by (simp_all add: available_fact_def)

lemma read_entries:
  "reviewed_entries entries_before facts shapes
     = Some (facts @ map available_fact capabilities_before, shapes @ shapes_before)"
  "reviewed_entries entries_after facts shapes
     = Some (facts @ map available_fact capabilities_after, shapes @ shapes_after)"
  "reviewed_entry ipv6_entry = Some (CapPortHostIpv6, [ShFixedIpv6HostPort, ShEphemeralIpv6HostPort])"
  by (simp_all add: entries_before_def entries_after_def ipv6_entry_def reviewed_entry_available names_of_capabilities
      names_of_shapes asserting_def capabilities_before_def capabilities_after_def shapes_before_def shapes_after_def
      available_fact_def)

definition lane_identity :: "evidence_lane \<Rightarrow> profile_identity" where
  "lane_identity lane =
     (if lane \<in> {Debian11Rootful, Debian11Rootless}
      then \<lparr>pi_build = DebianPackage (DebianPackageRevision ''20.10.5+dfsg1-1+deb11u2''),
        pi_release = EngineRelease ''20.10.5+dfsg1'', pi_advertised = ApiVersion 1 41,
        pi_acquisition = ApiVersion 1 41, pi_rendering = ApiVersion 1 41,
        pi_mode = (if lane = Debian11Rootful then Rootful else Rootless)\<rparr>
      else \<lparr>pi_build = Upstream, pi_release = EngineRelease ''29.8.1'', pi_advertised = ApiVersion 1 56,
        pi_acquisition = ApiVersion 1 49, pi_rendering = ApiVersion 1 56,
        pi_mode = (if lane = UpstreamRootful then Rootful else Rootless)\<rparr>)"

lemma read_apis:
  "reviewed_api ''1.41'' = Some (ApiVersion 1 41)" "reviewed_api ''1.49'' = Some (ApiVersion 1 49)"
  "reviewed_api ''1.56'' = Some (ApiVersion 1 56)"
  by (simp_all add: reviewed_api_def asserting_def parse_uint_def is_digit_def dec_value_def digit_val_def)

lemma read_identity: "reviewed_identity lane (document_identity lane) = Some (lane_identity lane)"
  by (cases lane)
    (simp_all add: reviewed_identity_def debian_identity_def upstream_identity_def reviewed_build_def value_at_def
      required_text_def asserting_def read_apis reviewed_mode_def engine_release_new_def package_revision_new_def
      is_ascii_ws_def is_ascii_control_def profile_identity_new_def minimum_api_def lane_identity_def)

lemma key_of_digest:
  assumes "length v = 64" and "case hex_bytes v of Some (b # bs) \<Rightarrow> 0 < byte_val b | _ \<Rightarrow> False"
  shows "\<exists>k. digest_key v = Some k"
proof -
  obtain b bs where b: "hex_bytes v = Some (b # bs)" "0 < byte_val b"
    using assms(2) by (auto split: option.splits list.splits)
  have "b = NUL" if "b # bs = replicate 32 NUL"
    using that by (simp add: numeral_eq_Suc)
  with b have "b # bs \<noteq> replicate 32 NUL" by (auto simp: NUL_def)
  with b assms(1) show ?thesis by (simp add: digest_key_def asserting_def evidence_key_sha256_def)
qed

lemma read_digests:
  "\<exists>k. digest_key (document_manifest lane) = Some k"
  "(lane, record_hash) \<in> set reviewed_index \<Longrightarrow> \<exists>k. digest_key record_hash = Some k"
proof -
  show "\<exists>k. digest_key (document_manifest lane) = Some k"
    by (cases lane; rule key_of_digest) (simp_all add: hex_byte_def hex_val_def is_digit_def)
next
  assume "(lane, record_hash) \<in> set reviewed_index"
  then show "\<exists>k. digest_key record_hash = Some k"
    unfolding reviewed_index_def
    by (simp only: set_simps insert_iff prod.inject empty_iff) (elim disjE conjE FalseE; simp only:; rule key_of_digest; simp add: hex_byte_def hex_val_def is_digit_def)
qed

definition is_upstream :: "evidence_lane \<Rightarrow> bool" where
  "is_upstream lane \<longleftrightarrow> lane \<in> {UpstreamRootful, UpstreamRootless}"

definition document_capabilities :: "evidence_lane \<Rightarrow> capability list" where
  "document_capabilities lane =
     capabilities_before @ (if is_upstream lane then [CapPortHostIpv6] else []) @ capabilities_after"

definition document_shapes :: "evidence_lane \<Rightarrow> native_shape list" where
  "document_shapes lane =
     shapes_before @ (if is_upstream lane then [ShFixedIpv6HostPort, ShEphemeralIpv6HostPort] else []) @ shapes_after"

lemma read_document_entries:
  "reviewed_entries (document_entries lane) [] []
     = Some (map available_fact (document_capabilities lane), document_shapes lane)"
  by (cases lane) (simp_all add: entries_append read_entries document_capabilities_def document_shapes_def is_upstream_def
      available_fact_def [of CapPortHostIpv6])

lemma document_counts:
  "length (document_entries lane) = length (fst (expected_admission lane))"
  "length (document_shapes lane) = length (snd (expected_admission lane))"
  by (cases lane; simp add: entries_before_def entries_after_def reviewed_capabilities_def upstream_capabilities_def
      document_shapes_def is_upstream_def shapes_before_def shapes_after_def reviewed_shapes_def upstream_shapes_def)+

lemma document_capabilities_set: "set (document_capabilities lane) = set (fst (expected_admission lane))"
  unfolding same_set
  by (cases lane; simp add: document_capabilities_def is_upstream_def capabilities_before_def capabilities_after_def
      reviewed_capabilities_def upstream_capabilities_def)

lemma document_shapes_set: "set (document_shapes lane) = set (snd (expected_admission lane))"
  unfolding same_set
  by (cases lane; simp add: document_shapes_def is_upstream_def shapes_before_def shapes_after_def
      reviewed_shapes_def upstream_shapes_def)

lemma reviewed_evidence:
  "\<exists>e. evidence_reference_new lane source_run source_candidate (lane_artifact_name lane) mk rk = Inr e"
  by (simp add: evidence_reference_new_def source_run_def source_candidate_def strip_prefix_def run_url_prefix_def
      positive_decimal_def sha_digit_def is_digit_def)

lemma document_record:
  assumes "(lane, record_hash) \<in> set reviewed_index" and "parse source = Some (document lane)"
  shows "\<exists>r. reviewed_record parse lane record_hash source = Some r \<and> tp_identity (tr_profile r) = lane_identity lane"
proof -
  obtain key where key: "digest_key record_hash = Some key" using read_digests(2) assms(1) by blast
  obtain manifest_key where manifest_key: "digest_key (document_manifest lane) = Some manifest_key"
    using read_digests(1) by blast
  obtain evidence where evidence: "evidence_reference_new lane source_run source_candidate (lane_artifact_name lane)
      manifest_key key = Inr evidence" using reviewed_evidence by blast
  have fields: "value_at (document lane) ''schema_version'' = VInt 1"
    "value_at (document lane) ''candidate_sha'' = VString source_candidate"
    "value_at (document lane) ''run_url'' = VString source_run"
    "value_at (document lane) ''native_manifest_artifact_name'' = VString (lane_artifact_name lane)"
    "required_text (document lane) ''lane'' = Some (document_lane lane)"
    "value_at (document lane) ''identity'' = document_identity lane"
    "required_text (document lane) ''native_manifest_sha256'' = Some (document_manifest lane)"
    "value_at (document lane) ''capabilities'' = VArray (document_entries lane)"
    by (simp_all add: document_def value_at_def required_text_def source_candidate_def source_run_def)
      (cases lane; simp)
  have name: "''dockerlens-native-'' @ document_lane lane = lane_artifact_name lane" by (cases lane) simp_all
  obtain capabilities expected where lists: "expected_admission lane = (capabilities, expected)" by force
  note counts = document_counts [of lane, unfolded lists] document_capabilities_set [of lane, unfolded lists]
    document_shapes_set [of lane, unfolded lists]
  show ?thesis
    by (simp add: reviewed_record_def assms(2) fields name read_identity key manifest_key evidence lists
        counts [simplified] read_document_entries image_image asserting_def target_profile_new_def
        del: map_map append_Cons)
qed

section \<open>The catalog of the crate\<close>

text \<open>The catalog built of the checked-in documents.\<close>

lemma documents_admitted:
  assumes "list_all (\<lambda>(lane, record_hash). parse (files record_hash) = Some (document lane)) reviewed_index"
  shows "\<exists>cat. reviewed_catalog parse files = Some cat
    \<and> map tp_identity (profiles cat) = map (lane_identity \<circ> fst) reviewed_index
    \<and> list_all (\<lambda>(lane, _). \<exists>t. resolve_identity cat (lane_identity lane) = Inr t
        \<and> (\<forall>c. target_supports t c \<longleftrightarrow> c \<in> set (fst (expected_admission lane)))) reviewed_index"
proof -
  have "\<exists>r. reviewed_record parse lane h (files h) = Some r \<and> tp_identity (tr_profile r) = lane_identity lane"
    if "(lane, h) \<in> set reviewed_index" for lane h
    using document_record [OF that] assms that by (fastforce simp: list_all_iff)
  then obtain r where r: "\<And>lane h. (lane, h) \<in> set reviewed_index \<Longrightarrow>
      reviewed_record parse lane h (files h) = Some (r lane h) \<and> tp_identity (tr_profile (r lane h)) = lane_identity lane"
    by metis
  let ?rs = "map (\<lambda>(lane, h). r lane h) reviewed_index"
  have records: "reviewed_records parse files = Some ?rs"
    unfolding reviewed_records_def those_Some by (auto simp: r)
  have ids: "map (\<lambda>x. tp_identity (tr_profile x)) ?rs = map (lane_identity \<circ> fst) reviewed_index"
    by (auto simp: r)
  have "lane_matches_identity lane (lane_identity lane)" for lane
    by (cases lane) (simp_all add: lane_matches_identity_def lane_identity_def)
  then have "admitted_record (r lane h)" if "(lane, h) \<in> set reviewed_index" for lane h
    using r [OF that] reviewed_record_admitted [of parse lane h "files h"] by simp
  moreover have "distinct (map (lane_identity \<circ> fst) reviewed_index)"
    by (simp add: reviewed_index_def lane_identity_def)
  ultimately have built: "from_records ?rs = Inr (Catalog ?rs)"
    unfolding from_records_Inr ids by (auto simp: list_all_iff)
  have supports: "resolve_identity (Catalog ?rs) (lane_identity lane) = Inr (TargetCapabilities (r lane h))
      \<and> target_supports (TargetCapabilities (r lane h)) c = (c \<in> set (fst (expected_admission lane)))"
    if "(lane, h) \<in> set reviewed_index" for lane h c
  proof -
    have "r lane h \<in> set ?rs" using that by force
    moreover have "as_reviewed lane (r lane h)" using r [OF that] reviewed_record_Some(1) by blast
    ultimately show ?thesis using r [OF that]
      by (simp add: resolve_identity_iff [OF built] target_supports_iff as_reviewed_def all_available)
  qed
  show ?thesis
  proof (intro exI conjI)
    show "reviewed_catalog parse files = Some (Catalog ?rs)" by (simp add: reviewed_catalog_def records built)
    show "map tp_identity (profiles (Catalog ?rs)) = map (lane_identity \<circ> fst) reviewed_index"
      using ids by (simp add: profiles_def comp_def)
  qed (use supports in \<open>auto simp: list_all_iff\<close>)
qed

text \<open>C14: the catalog that is compiled into the crate can be built: with the checked-in documents no
  assertion on a record fails and the admission gate takes all four of them. It has one profile per
  lane, which resolves, and a target supports exactly the capabilities that were reviewed for its lane.\<close>

theorem reviewed_catalog_built:
  assumes "list_all (\<lambda>(lane, record_hash). parse (files record_hash) = Some (document lane)) reviewed_index"
  shows "\<exists>cat. reviewed_catalog parse files = Some cat
    \<and> map tp_identity (profiles cat) = map (lane_identity \<circ> fst) reviewed_index
    \<and> list_all (\<lambda>(lane, _). \<exists>t. resolve_identity cat (lane_identity lane) = Inr t
        \<and> (\<forall>c. target_supports t c \<longleftrightarrow> c \<in> set (fst (expected_admission lane)))) reviewed_index"
  by (rule documents_admitted) (rule assms)

text \<open>The files by their digests, as the parameters of the theorem take them.\<close>

definition sample_files :: "bytes \<Rightarrow> bytes" where
  "sample_files record_hash = record_hash"

definition document_parse :: json_parser where
  "document_parse source =
     map_option (\<lambda>(lane, _). document lane) (List.find (\<lambda>(_, record_hash). record_hash = source) reviewed_index)"

lemma sample_files_parse:
  "list_all (\<lambda>(lane, record_hash). document_parse (sample_files record_hash) = Some (document lane)) reviewed_index"
  by (simp add: document_parse_def sample_files_def reviewed_index_def)

theorem reviewed_catalog_built_witness:
  "\<exists>cat. reviewed_catalog document_parse sample_files = Some cat \<and> length (profiles cat) = 4"
proof -
  from reviewed_catalog_built [where parse = document_parse and files = sample_files, OF sample_files_parse] obtain cat where
    "reviewed_catalog document_parse sample_files = Some cat"
    "map tp_identity (profiles cat) = map (lane_identity \<circ> fst) reviewed_index" by blast
  moreover from this(2) have "length (profiles cat) = length reviewed_index" by (metis length_map)
  ultimately show ?thesis by (auto simp: reviewed_index_def)
qed

text \<open>C15: whatever document is given, a record read from it is of the reviewed cohort: all its
  capabilities are available, they are exactly those reviewed for the lane, each once, its shapes are
  exactly the native shapes of these capabilities, each once, and its evidence is of the lane, the
  reviewed run and candidate, and the digest it is filed under. A document cannot extend the cohort.\<close>

theorem reviewed_record_exact:
  assumes "reviewed_record parse lane record_hash source = Some r"
  shows "distinct (map tf_capability (tr_capabilities r)) \<and> distinct (tr_shapes r)
    \<and> list_all (\<lambda>f. tf_state f = Available) (tr_capabilities r)
    \<and> set (map tf_capability (tr_capabilities r)) = set (fst (expected_admission lane))
    \<and> set (tr_shapes r) = {s. shape_capability s \<in> set (fst (expected_admission lane))}
    \<and> ev_lane (tr_evidence r) = lane \<and> ev_run_url (tr_evidence r) = source_run
    \<and> ev_candidate_sha (tr_evidence r) = source_candidate
    \<and> digest_key record_hash = Some (ev_record_key (tr_evidence r))
    \<and> tp_evidence_key (tr_profile r) = ev_record_key (tr_evidence r)"
proof -
  from reviewed_record_Some [OF assms] have r: "as_reviewed lane r" "evidenced lane record_hash r" by blast+
  then show ?thesis by (auto simp: as_reviewed_def evidenced_def)
qed

theorem reviewed_record_exact_witness:
  "\<exists>r. reviewed_record document_parse UpstreamRootful (snd (reviewed_index ! 2)) (snd (reviewed_index ! 2)) = Some r
     \<and> CapPortHostIpv6 \<in> set (map tf_capability (tr_capabilities r))"
proof -
  let ?h = "snd (reviewed_index ! 2)"
  have "(UpstreamRootful, ?h) \<in> set reviewed_index" by (simp add: reviewed_index_def)
  moreover from this have "document_parse ?h = Some (document UpstreamRootful)"
    by (simp add: reviewed_index_def document_parse_def)
  ultimately obtain r where r: "reviewed_record document_parse UpstreamRootful ?h ?h = Some r"
    using document_record by blast
  have "CapPortHostIpv6 \<in> set (fst (expected_admission UpstreamRootful))" by (simp add: upstream_capabilities_def)
  with reviewed_record_exact [OF r] r show ?thesis by auto
qed

section \<open>What the admission gate can still refuse\<close>

definition in_lane :: "target_record \<Rightarrow> bool" where
  "in_lane r \<longleftrightarrow> lane_matches_identity (ev_lane (tr_evidence r)) (tp_identity (tr_profile r))"

definition from_document :: "json_parser \<Rightarrow> target_record \<Rightarrow> bool" where
  "from_document parse r \<longleftrightarrow> (\<exists>lane record_hash source. reviewed_record parse lane record_hash source = Some r)"

lemma from_document_admitted:
  assumes "from_document parse r"
  shows "admitted_record r \<longleftrightarrow> in_lane r"
proof -
  obtain lane record_hash source where r: "reviewed_record parse lane record_hash source = Some r"
    using assms by (auto simp: from_document_def)
  with reviewed_record_Some(2) [OF r] reviewed_record_admitted [OF r] show ?thesis
    by (simp add: in_lane_def evidenced_def)
qed

lemma admit_record_refuses:
  assumes "admit_record ps r = Inl e" and "from_document parse r"
  shows "e = DuplicateProfile \<and> tp_identity (tr_profile r) \<in> set ps \<or> e = EvidenceLaneMismatch \<and> \<not> in_lane r"
proof (cases "tp_identity (tr_profile r) \<notin> set ps \<and> in_lane r")
  case True
  then have "admit_record ps r = Inr (tp_identity (tr_profile r) # ps)"
    using from_document_admitted [OF assms(2)] by (simp add: admit_record_Inr)
  with assms(1) show ?thesis by simp
next
  case False
  with assms(1) show ?thesis
    by (cases "tp_identity (tr_profile r) \<in> set ps") (simp_all add: admit_record_def in_lane_def Let_def)
qed

lemma admit_records_refuse:
  assumes "try_fold admit_record ps rs = Inl e" and "list_all (from_document parse) rs"
  shows "e = DuplicateProfile \<and> \<not> distinct (rev ps @ map (\<lambda>r. tp_identity (tr_profile r)) rs)
    \<or> e = EvidenceLaneMismatch \<and> \<not> list_all in_lane rs"
  using assms
proof (induction rs arbitrary: ps)
  case (Cons r rs)
  show ?case
  proof (cases "admit_record ps r")
    case (Inl e')
    with Cons.prems admit_record_refuses [of ps r e parse] show ?thesis by auto
  next
    case (Inr ps')
    then have ps': "ps' = tp_identity (tr_profile r) # ps" by (simp add: admit_record_Inr)
    from Cons.prems Inr have "try_fold admit_record ps' rs = Inl e" "list_all (from_document parse) rs" by simp_all
    from Cons.IH [OF this] show ?thesis by (auto simp: ps')
  qed
qed simp

text \<open>C16: of records that were read from documents the admission gate refuses a list for one of two
  reasons only: two records are of the same target, or the identity of one is not that of its lane.
  Every other error of the gate is excluded by the assertions made while a document is read.\<close>

theorem reviewed_admission_errors:
  assumes "list_all (from_document parse) rs"
  shows "case from_records rs of
      Inr cat \<Rightarrow> cat = Catalog rs \<and> distinct (map (\<lambda>r. tp_identity (tr_profile r)) rs) \<and> list_all in_lane rs
    | Inl e \<Rightarrow> e = DuplicateProfile \<and> \<not> distinct (map (\<lambda>r. tp_identity (tr_profile r)) rs)
        \<or> e = EvidenceLaneMismatch \<and> \<not> list_all in_lane rs"
proof (cases "from_records rs")
  case (Inl e)
  then have "try_fold admit_record [] rs = Inl e" by (simp add: from_records_def bind_res_Inl_iff)
  from admit_records_refuse [OF this assms] Inl show ?thesis by simp
next
  case (Inr cat)
  then have "cat = Catalog rs \<and> distinct (map (\<lambda>r. tp_identity (tr_profile r)) rs) \<and> list_all in_lane rs"
    using assms from_document_admitted by (auto simp: from_records_Inr list_all_iff)
  with Inr show ?thesis by simp
qed

theorem reviewed_admission_errors_witness:
  "\<exists>r. from_document document_parse r \<and> from_records [r, r] = Inl DuplicateProfile"
proof -
  let ?h = "snd (reviewed_index ! 2)"
  have "(UpstreamRootful, ?h) \<in> set reviewed_index" by (simp add: reviewed_index_def)
  moreover from this have "document_parse ?h = Some (document UpstreamRootful)"
    by (simp add: reviewed_index_def document_parse_def)
  ultimately obtain r where r: "reviewed_record document_parse UpstreamRootful ?h ?h = Some r"
    "tp_identity (tr_profile r) = lane_identity UpstreamRootful"
    using document_record by blast
  then have d: "from_document document_parse r" by (auto simp: from_document_def)
  moreover have "in_lane r" using reviewed_record_Some(2) [OF r(1)] r(2)
    by (simp add: in_lane_def evidenced_def lane_matches_identity_def lane_identity_def)
  ultimately show ?thesis
    using reviewed_admission_errors [of document_parse "[r, r]"] by (auto split: sum.splits)
qed

end
