(* ===== verification/Compiled_Plans.thy ===== *)
theory Compiled_Plans
  imports Reviewed_Documents Graph_Properties
begin

text \<open>
  Planning offline with the catalog that is compiled into the crate: from the reviewed documents
  through the admission gate and the resolved target to the graph of an intent.
\<close>

section \<open>Targets of the compiled catalog\<close>

text \<open>The identity of a record has a rendering API that the planner accepts.\<close>

lemma reviewed_identity_api:
  assumes "reviewed_identity lane v = Some i"
  shows "api_major (pi_rendering i) = 1 \<and> ApiVersion 1 41 \<le> pi_rendering i"
proof -
  obtain b r ad ac re m where "profile_identity_new b r ad ac re m = Inr i"
    using assms by (auto simp: reviewed_identity_def bind_eq_Some_conv expect_ok_Some)
  then have "api_major ad = 1" "ApiVersion 1 41 \<le> re" "re \<le> ad" "pi_rendering i = re"
    by (auto simp: profile_identity_new_Inr minimum_api_def)
  then show ?thesis by (cases re; cases ad) auto
qed

lemma reviewed_record_api:
  assumes "reviewed_record parse lane record_hash source = Some r"
  shows "api_major (pi_rendering (tp_identity (tr_profile r))) = 1
    \<and> ApiVersion 1 41 \<le> pi_rendering (tp_identity (tr_profile r))"
proof -
  obtain capabilities expected where lists: "expected_admission lane = (capabilities, expected)" by force
  obtain data where "reviewed_identity lane (value_at data ''identity'') = Some (tp_identity (tr_profile r))"
    using assms unfolding reviewed_record_def lists
    by (auto simp: bind_eq_Some_conv expect_ok_Some target_profile_new_def)
  then show ?thesis by (rule reviewed_identity_api)
qed

text \<open>A target that resolves in the compiled catalog has the record of its lane.\<close>

lemma resolved_compiled:
  assumes "reviewed_catalog parse files = Some cat" and "resolve cat p = Inr t"
  obtains lane record_hash where "(lane, record_hash) \<in> set reviewed_index"
    and "reviewed_record parse lane record_hash (files record_hash) = Some (tc_record t)"
    and "tr_profile (tc_record t) = p" and "lane_matches_identity lane (tp_identity p)"
    and "\<And>c. target_supports t c \<longleftrightarrow> c \<in> set (fst (expected_admission lane))"
proof -
  obtain rs where rs: "reviewed_records parse files = Some rs" "from_records rs = Inr cat"
    using assms(1) by (auto simp: reviewed_catalog_def bind_eq_Some_conv expect_ok_Some)
  obtain r where t: "t = TargetCapabilities r" by (cases t)
  have r: "r \<in> set rs" "tr_profile r = p" using assms(2) resolve_iff [OF rs(2)] by (simp_all add: t)
  from rs(1) have records: "map (\<lambda>(lane, h). reviewed_record parse lane h (files h)) reviewed_index = map Some rs"
    by (simp add: reviewed_records_def those_Some)
  have "Some r \<in> set (map (\<lambda>(lane, h). reviewed_record parse lane h (files h)) reviewed_index)"
    unfolding records using r(1) by simp
  then obtain lane h where lane: "(lane, h) \<in> set reviewed_index" "reviewed_record parse lane h (files h) = Some r"
    by (auto simp del: set_map simp: list.set_map)
  from rs(2) r(1) have "admitted_record r" by (simp add: from_records_Inr list_all_iff)
  with reviewed_record_admitted [OF lane(2)] r(2) have "lane_matches_identity lane (tp_identity p)" by simp
  moreover have "target_supports t c \<longleftrightarrow> c \<in> set (fst (expected_admission lane))" for c
    using reviewed_record_Some(1) [OF lane(2)] by (simp add: t target_supports_iff as_reviewed_def all_available)
  ultimately show thesis using that lane r(2) by (simp add: t)
qed

section \<open>Plans\<close>

text \<open>C13: offline planning is decided by the reviewed cohort alone: for a target of the compiled
  catalog, whatever its documents say beyond it, an accepted intent has a plan exactly when its
  references resolve and every resource is plannable and needs only capabilities that were reviewed
  for the lane the target belongs to. The planner does not panic.\<close>

theorem compiled_plans_decided:
  assumes "reviewed_catalog parse files = Some cat" and "resolve cat p = Inr t" and "target_intent_new rs = Inr i"
  shows "docker_plan i (target_planning t) \<noteq> None
    \<and> (\<exists>lane. lane_matches_identity lane (tp_identity p)
        \<and> ((\<exists>g. docker_plan i (target_planning t) = Some (Inr g)) \<longleftrightarrow>
            references_resolved rs
            \<and> (\<forall>r \<in> set rs. plannable (pi_mode (tp_identity p)) r
                \<and> required_capabilities (pi_mode (tp_identity p)) r \<subseteq> set (fst (expected_admission lane)))))"
proof -
  obtain lane record_hash where x: "reviewed_record parse lane record_hash (files record_hash) = Some (tc_record t)"
    "tr_profile (tc_record t) = p" "lane_matches_identity lane (tp_identity p)"
    "\<And>c. target_supports t c \<longleftrightarrow> c \<in> set (fst (expected_admission lane))"
    using assms(1,2) by (rule resolved_compiled) (rule that)
  have ctx: "pc_context (target_planning t) = Some (Target p)"
    by (simp add: target_planning_def target_context_def x(2))
  have supports: "{c. pc_supports (target_planning t) c} = set (fst (expected_admission lane))"
    using x(4) by (auto simp: target_planning_def)
  have api: "api_major (context_api (Target p)) = 1" "ApiVersion 1 41 \<le> context_api (Target p)"
    using reviewed_record_api [OF x(1)] x(2) by (simp_all add: context_api_def)
  have mode: "context_mode (Target p) = pi_mode (tp_identity p)" by (simp add: context_mode_def)
  from docker_plan_decides [OF assms(3) ctx] x(3) show ?thesis
    unfolding supports mode using api by blast
qed

text \<open>A volume is planned for the rootless upstream daemon, with the checked-in documents.\<close>

definition one_volume :: "target_resource list" where
  "one_volume = [sample_volume 1 ''v'']"

lemma one_volume_accepted: "target_intent_new one_volume = Inr (TargetIntent one_volume)"
  by (simp add: target_intent_new_def target_intent_new_iff wf_intent_def one_volume_def sample_volume_def wf_resource_def
      wf_volume_labels_def)

lemma one_volume_plannable:
  "references_resolved one_volume \<and> r \<in> set one_volume \<Longrightarrow> plannable mode r \<and> required_capabilities mode r \<subseteq> {CapNamedVolume}"
  by (simp add: one_volume_def sample_volume_def plannable_def required_capabilities_def resource_checks_def
      need_if_def)

lemma compiled_target:
  "\<exists>cat p t. reviewed_catalog document_parse sample_files = Some cat \<and> resolve cat p = Inr t
     \<and> tp_identity p = lane_identity UpstreamRootless"
proof -
  from documents_admitted [where parse = document_parse and files = sample_files, OF sample_files_parse]
  obtain cat where cat: "reviewed_catalog document_parse sample_files = Some cat"
    "list_all (\<lambda>(lane, _). \<exists>t. resolve_identity cat (lane_identity lane) = Inr t) reviewed_index"
    by (fastforce simp: list_all_iff)
  then obtain t where t: "resolve_identity cat (lane_identity UpstreamRootless) = Inr t"
    by (auto simp: reviewed_index_def)
  obtain rs where rs: "from_records rs = Inr cat"
    using cat(1) by (auto simp: reviewed_catalog_def bind_eq_Some_conv expect_ok_Some)
  from resolve_identity_iff [OF rs, of "lane_identity UpstreamRootless" "tc_record t"] t
  have "tc_record t \<in> set rs" "tp_identity (tr_profile (tc_record t)) = lane_identity UpstreamRootless" by simp_all
  with resolve_iff [OF rs, of "tr_profile (tc_record t)" "tc_record t"] cat(1) show ?thesis by auto
qed

theorem compiled_plans_decided_witness:
  "\<exists>cat p t g. reviewed_catalog document_parse sample_files = Some cat \<and> resolve cat p = Inr t
     \<and> tp_identity p = lane_identity UpstreamRootless
     \<and> docker_plan (TargetIntent one_volume) (target_planning t) = Some (Inr g)"
proof -
  obtain cat p t where t: "reviewed_catalog document_parse sample_files = Some cat" "resolve cat p = Inr t"
    "tp_identity p = lane_identity UpstreamRootless" using compiled_target by blast
  have "CapNamedVolume \<in> set (fst (expected_admission lane))" for lane
    by (cases lane) (simp_all add: reviewed_capabilities_def upstream_capabilities_def)
  moreover have "references_resolved one_volume" by (simp add: references_resolved_def one_volume_def sample_volume_def)
  ultimately show ?thesis
    using compiled_plans_decided [OF t(1,2) one_volume_accepted] one_volume_plannable t by blast
qed

end
