(* ===== verification/Socket_Polling.thy ===== *)
theory Socket_Polling
  imports Acquisition
begin

text \<open>
  The socket of \<^verbatim>\<open>src/acquisition.rs\<close>: \<^verbatim>\<open>connect\<close>, \<^verbatim>\<open>Wire::read\<close> and \<^verbatim>\<open>Wire::write_all\<close> with their polls, and
  the client over them. A script holds, for every turn of a loop, the reading of the clock, the
  cancellation flag and the answer of the operating system; \<open>None\<close> means that the script is at its
  end and the loop still polls. The wire of \<open>Http_Wire\<close> is shown to be an abstraction of it.
\<close>

section \<open>Polls\<close>

text \<open>\<open>TryAgain\<close> stands for \<^verbatim>\<open>WouldBlock\<close>, and in reading and writing for \<^verbatim>\<open>TimedOut\<close> and \<^verbatim>\<open>Interrupted\<close>
  too, which end a connection attempt; \<open>Count n\<close> stands for a call that moved bytes or connected. A
  failure to set a timeout counts as \<open>Fails\<close>. The timeout of a turn bounds how long the system may
  wait in it, and is seen in the next reading of the clock only.\<close>

datatype os_answer = Count nat | TryAgain | Fails

record poll =
  pl_elapsed :: duration
  pl_cancelled :: bool
  pl_answer :: os_answer

definition time_left :: "duration \<Rightarrow> poll \<Rightarrow> acquisition_error + duration" where
  "time_left limit p = remaining (pl_elapsed p) limit (pl_cancelled p)"

text \<open>One turn of connecting has up to three readings: before the call, before the sleep (or, after
  success, before the socket is used), and after the sleep.\<close>

record connect_turn =
  ct_first :: poll
  ct_second :: poll
  ct_third :: poll

text \<open>\<^verbatim>\<open>connect\<close> on Linux; \<open>address_ok\<close> says whether the path fits a socket address.\<close>

fun connect_turns :: "duration \<Rightarrow> connect_turn list \<Rightarrow> (acquisition_error + unit) option" where
  "connect_turns limit [] = None"
| "connect_turns limit (t # ts) =
     (case time_left limit (ct_first t) of
        Inl e \<Rightarrow> Some (Inl e)
      | Inr _ \<Rightarrow>
          (case pl_answer (ct_first t) of
             Count _ \<Rightarrow>
               Some (if pl_answer (ct_second t) = Fails then Inl IoError
                 else bind_res (time_left limit (ct_second t)) (\<lambda>_. Inr ()))
           | TryAgain \<Rightarrow>
               (case bind_res (time_left limit (ct_second t)) (\<lambda>_. time_left limit (ct_third t)) of
                  Inl e \<Rightarrow> Some (Inl e)
                | Inr _ \<Rightarrow> connect_turns limit ts)
           | Fails \<Rightarrow> Some (Inl IoError)))"

definition connect :: "bytes \<Rightarrow> bool \<Rightarrow> duration \<Rightarrow> connect_turn list \<Rightarrow> (acquisition_error + unit) option" where
  "connect endpoint address_ok limit turns =
     (if \<not> starts_with endpoint ''/'' then Some (Inl EndpointError)
      else if \<not> address_ok then Some (Inl EndpointError)
      else connect_turns limit turns)"

text \<open>\<^verbatim>\<open>Wire::write_all\<close>, with the bytes written so far: partial writes go on, a write of nothing fails.\<close>

fun write_turns :: "duration \<Rightarrow> bytes \<Rightarrow> bytes \<Rightarrow> poll list \<Rightarrow> ((acquisition_error + unit) \<times> bytes) option" where
  "write_turns limit written [] ps = Some (Inr (), written)"
| "write_turns limit written (b # bs) [] = None"
| "write_turns limit written (b # bs) (p # ps) =
     (case time_left limit p of
        Inl e \<Rightarrow> Some (Inl e, written)
      | Inr _ \<Rightarrow>
          (case pl_answer p of
             Count 0 \<Rightarrow> Some (Inl IoError, written)
           | Count (Suc n) \<Rightarrow> write_turns limit (written @ b # take n bs) (drop n bs) ps
           | TryAgain \<Rightarrow> write_turns limit written (b # bs) ps
           | Fails \<Rightarrow> Some (Inl IoError, written)))"

section \<open>Reading\<close>

text \<open>The bytes the peer sends before it closes, and the turns that are left.\<close>

record socket =
  sk_incoming :: bytes
  sk_polls :: "poll list"

type_synonym 'a polled = "socket \<Rightarrow> ((acquisition_error + 'a) \<times> socket) option"

text \<open>\<^verbatim>\<open>Wire::read\<close> into a buffer: at most \<open>k\<close> bytes, and none only where the peer has closed.\<close>

fun read_turns :: "duration \<Rightarrow> nat \<Rightarrow> bytes \<Rightarrow> poll list \<Rightarrow> ((acquisition_error + bytes) \<times> socket) option" where
  "read_turns limit k incoming [] = None"
| "read_turns limit k incoming (p # ps) =
     (case time_left limit p of
        Inl e \<Rightarrow> Some (Inl e, \<lparr>sk_incoming = incoming, sk_polls = ps\<rparr>)
      | Inr _ \<Rightarrow>
          (case pl_answer p of
             Count n \<Rightarrow> Some (Inr (take (min k (max 1 n)) incoming),
               \<lparr>sk_incoming = drop (min k (max 1 n)) incoming, sk_polls = ps\<rparr>)
           | TryAgain \<Rightarrow> read_turns limit k incoming ps
           | Fails \<Rightarrow> Some (Inl IoError, \<lparr>sk_incoming = incoming, sk_polls = ps\<rparr>)))"

definition polled_read :: "duration \<Rightarrow> nat \<Rightarrow> bytes polled" where
  "polled_read limit k s = read_turns limit k (sk_incoming s) (sk_polls s)"

definition poll_pure :: "acquisition_error + 'a \<Rightarrow> 'a polled" where
  "poll_pure x s = Some (x, s)"

definition poll_bind :: "'a polled \<Rightarrow> ('a \<Rightarrow> 'b polled) \<Rightarrow> 'b polled" where
  "poll_bind m f s =
     (case m s of
        None \<Rightarrow> None
      | Some (Inl e, s') \<Rightarrow> Some (Inl e, s')
      | Some (Inr x, s') \<Rightarrow> f x s')"

lemma poll_bind_cong [fundef_cong]:
  "m s = m' s' \<Longrightarrow> (\<And>x s1. m' s' = Some (Inr x, s1) \<Longrightarrow> f x s1 = g x s1) \<Longrightarrow> poll_bind m f s = poll_bind m' g s'"
  by (auto simp: poll_bind_def split: option.splits sum.splits)

lemma read_turns_used:
  "read_turns limit k incoming ps = Some (x, s) \<Longrightarrow> length (sk_polls s) < length ps"
  by (induction limit k incoming ps rule: read_turns.induct)
    (auto split: sum.splits os_answer.splits dest: less_SucI)

definition polled_byte :: "duration \<Rightarrow> char polled" where
  "polled_byte limit =
     poll_bind (polled_read limit 1) (\<lambda>bs. poll_pure (case bs of [c] \<Rightarrow> Inr c | _ \<Rightarrow> Inl ProtocolError))"

definition read_buffer :: nat where
  "read_buffer = 8192"

text \<open>\<^verbatim>\<open>Wire::exact\<close>: reads into the buffer until \<open>n\<close> bytes have come.\<close>

function polled_exact :: "duration \<Rightarrow> nat \<Rightarrow> bytes polled" where
  "polled_exact limit n s =
     (if n = 0 then Some (Inr [], s)
      else
        poll_bind (polled_read limit (min n read_buffer)) (\<lambda>d s'.
          if d = [] then Some (Inl ProtocolError, s')
          else poll_bind (polled_exact limit (n - length d)) (\<lambda>r. poll_pure (Inr (d @ r))) s') s)"
  by pat_completeness auto
termination by (relation "measure (\<lambda>(_, n, _). n)") auto

declare polled_exact.simps [simp del]

function polled_until :: "duration \<Rightarrow> bytes \<Rightarrow> nat \<Rightarrow> bytes \<Rightarrow> bytes polled" where
  "polled_until limit term cap acc s =
     (if length acc < cap then
        poll_bind (polled_byte limit) (\<lambda>c s'.
          if ends_with (acc @ [c]) term then Some (Inr (acc @ [c]), s')
          else polled_until limit term cap (acc @ [c]) s') s
      else Some (Inl ProtocolError, s))"
  by pat_completeness auto
termination by (relation "measure (\<lambda>(_, _, cap, acc, _). cap - length acc)") auto

declare polled_until.simps [simp del]

definition polled_line :: "duration \<Rightarrow> nat \<Rightarrow> bytes polled" where
  "polled_line limit cap = poll_bind (polled_until limit CRLF cap []) (\<lambda>l. poll_pure (Inr (take (length l - 2) l)))"

definition polled_chunk_end :: "duration \<Rightarrow> unit polled" where
  "polled_chunk_end limit =
     poll_bind (polled_byte limit) (\<lambda>c s1.
       if c \<noteq> CR then Some (Inl ProtocolError, s1)
       else poll_bind (polled_byte limit) (\<lambda>d s2.
         if d \<noteq> LF then Some (Inl ProtocolError, s2) else Some (Inr (), s2)) s1)"

section \<open>The wire as an abstraction\<close>

text \<open>A wire explains a socket when its bytes are all that the peer sends and it ends closed, or when
  they are the first of those and it ends with an error that a poll of the script gives. An operation on
  the socket refines one on wires when its errors are those of a wire that explains the socket, and
  when what it takes on success is what the operation on wires takes, whatever follows.\<close>

definition interruptions :: "duration \<Rightarrow> poll list \<Rightarrow> acquisition_error set" where
  "interruptions limit ps =
     {e. \<exists>p \<in> set ps. time_left limit p = Inl e \<or> pl_answer p = Fails \<and> e = IoError}"

definition explains :: "duration \<Rightarrow> wire \<Rightarrow> socket \<Rightarrow> bool" where
  "explains limit w s \<longleftrightarrow>
     (case w_end w of
        None \<Rightarrow> sk_incoming s = w_bytes w
      | Some e \<Rightarrow> e \<in> interruptions limit (sk_polls s) \<and> (\<exists>rest. sk_incoming s = w_bytes w @ rest))"

definition before :: "bytes \<Rightarrow> wire \<Rightarrow> wire" where
  "before got w = w\<lparr>w_bytes := got @ w_bytes w\<rparr>"

definition takes :: "'a wired \<Rightarrow> 'a \<Rightarrow> socket \<Rightarrow> socket \<Rightarrow> bool" where
  "takes q y s s' \<longleftrightarrow> set (sk_polls s') \<subseteq> set (sk_polls s)
     \<and> (\<exists>got. sk_incoming s = got @ sk_incoming s' \<and> (\<forall>w. q (before got w) = Inr (y, w)))"

definition fails :: "duration \<Rightarrow> (wire \<Rightarrow> acquisition_error + 'a) \<Rightarrow> acquisition_error \<Rightarrow> socket \<Rightarrow> bool" where
  "fails limit q e s \<longleftrightarrow> (\<exists>w. explains limit w s \<and> q w = Inl e)"

definition refines :: "duration \<Rightarrow> 'a polled \<Rightarrow> 'a wired \<Rightarrow> socket \<Rightarrow> bool" where
  "refines limit p q s \<longleftrightarrow>
     (case p s of None \<Rightarrow> True | Some (Inl e, _) \<Rightarrow> fails limit q e s | Some (Inr y, s') \<Rightarrow> takes q y s s')"

definition ends_as :: "duration \<Rightarrow> 'a polled \<Rightarrow> (wire \<Rightarrow> acquisition_error + 'a) \<Rightarrow> socket \<Rightarrow> bool" where
  "ends_as limit p q s \<longleftrightarrow> (case p s of None \<Rightarrow> True | Some (x, _) \<Rightarrow> \<exists>w. explains limit w s \<and> q w = x)"

lemma before_simps [simp]:
  "w_bytes (before got w) = got @ w_bytes w" "w_end (before got w) = w_end w" "before [] w = w"
  "before a (before b w) = before (a @ b) w"
  by (simp_all add: before_def)

lemma interruptions_mono:
  "e \<in> interruptions limit ps \<Longrightarrow> set ps \<subseteq> set qs \<Longrightarrow> e \<in> interruptions limit qs"
  by (auto simp: interruptions_def)

lemma explains_before:
  "explains limit w s' \<Longrightarrow> sk_incoming s = got @ sk_incoming s' \<Longrightarrow> set (sk_polls s') \<subseteq> set (sk_polls s)
     \<Longrightarrow> explains limit (before got w) s"
  by (auto simp: explains_def intro: interruptions_mono split: option.splits)

text \<open>All that the peer sends, to its close.\<close>

definition whole_wire :: "socket \<Rightarrow> wire" where
  "whole_wire s = \<lparr>w_bytes = sk_incoming s, w_end = None\<rparr>"

lemma explains_whole: "explains limit (whole_wire s) s"
  by (simp add: explains_def whole_wire_def)

lemma refines_bind:
  assumes "refines limit p q s" and "\<And>y s1. p s = Some (Inr y, s1) \<Longrightarrow> refines limit (f y) (g y) s1"
  shows "refines limit (poll_bind p f) (\<lambda>w. bind_res (q w) (\<lambda>(y, w1). g y w1)) s"
proof (cases "p s")
  case (Some r)
  show ?thesis
  proof (cases "fst r")
    case (Inl e)
    with Some assms(1) show ?thesis
      by (cases r) (auto simp: refines_def poll_bind_def fails_def)
  next
    case (Inr y)
    then obtain s1 where s1: "p s = Some (Inr y, s1)" using Some by (cases r) auto
    then obtain got where got: "sk_incoming s = got @ sk_incoming s1" "\<And>w. q (before got w) = Inr (y, w)"
      "set (sk_polls s1) \<subseteq> set (sk_polls s)"
      using assms(1) by (auto simp: refines_def takes_def)
    from assms(2) [OF s1] have rest: "refines limit (f y) (g y) s1" .
    show ?thesis
    proof (cases "f y s1")
      case None
      then show ?thesis by (simp add: refines_def poll_bind_def s1)
    next
      case f: (Some r')
      show ?thesis
      proof (cases "fst r'")
        case (Inl e)
        then obtain w s2 where w: "f y s1 = Some (Inl e, s2)" "explains limit w s1" "g y w = Inl e"
          using rest f by (cases r') (auto simp: refines_def fails_def)
        then have "fails limit (\<lambda>w. bind_res (q w) (\<lambda>(y, w1). g y w1)) e s"
          using explains_before [OF w(2) got(1,3)] got(2) unfolding fails_def by (intro exI [of _ "before got w"]) simp
        then show ?thesis by (simp add: refines_def poll_bind_def s1 w(1))
      next
        case (Inr z)
        then obtain s2 where z: "f y s1 = Some (Inr z, s2)" using f by (cases r') auto
        then obtain got' where got': "sk_incoming s1 = got' @ sk_incoming s2" "\<And>w. g y (before got' w) = Inr (z, w)"
          "set (sk_polls s2) \<subseteq> set (sk_polls s1)"
          using rest by (auto simp: refines_def takes_def)
        have "bind_res (q (before (got @ got') w)) (\<lambda>(y, w1). g y w1) = Inr (z, w)" for w
          using got(2) [of "before got' w"] got'(2) [of w] by simp
        then show ?thesis using got(1,3) got'(1,3) by (auto simp: refines_def poll_bind_def s1 z takes_def)
      qed
    qed
  qed
qed (simp add: refines_def poll_bind_def)

lemma ends_as_bind:
  assumes "refines limit p q s" and "\<And>y s1. p s = Some (Inr y, s1) \<Longrightarrow> ends_as limit (f y) (g y) s1"
  shows "ends_as limit (poll_bind p f) (\<lambda>w. bind_res (q w) (\<lambda>(y, w1). g y w1)) s"
proof (cases "p s")
  case (Some r)
  show ?thesis
  proof (cases "fst r")
    case (Inl e)
    with Some assms(1) show ?thesis
      by (cases r) (fastforce simp: ends_as_def refines_def poll_bind_def fails_def)
  next
    case (Inr y)
    then obtain s1 where s1: "p s = Some (Inr y, s1)" using Some by (cases r) auto
    then obtain got where got: "sk_incoming s = got @ sk_incoming s1" "\<And>w. q (before got w) = Inr (y, w)"
      "set (sk_polls s1) \<subseteq> set (sk_polls s)"
      using assms(1) by (auto simp: refines_def takes_def)
    show ?thesis
    proof (cases "f y s1")
      case None
      then show ?thesis by (simp add: ends_as_def poll_bind_def s1)
    next
      case f: (Some r')
      then obtain w where w: "explains limit w s1" "g y w = fst r'"
        using assms(2) [OF s1] by (cases r') (auto simp: ends_as_def)
      have "explains limit (before got w) s \<and> bind_res (q (before got w)) (\<lambda>(y, w1). g y w1) = fst r'"
        using explains_before [OF w(1) got(1,3)] w(2) got(2) by simp
      then show ?thesis using f s1 by (cases r') (auto simp: ends_as_def poll_bind_def)
    qed
  qed
qed (simp add: ends_as_def poll_bind_def)

lemma explains_nothing:
  "e \<in> interruptions limit (sk_polls s) \<Longrightarrow> explains limit \<lparr>w_bytes = [], w_end = Some e\<rparr> s"
  by (simp add: explains_def)

text \<open>A result that needs nothing of the wire.\<close>

lemma refines_pure: "refines limit (poll_pure x) (\<lambda>w. bind_res x (\<lambda>y. Inr (y, w))) s"
  using explains_whole [of limit s]
  by (cases x) (auto simp: refines_def poll_pure_def fails_def takes_def intro!: exI [of _ "[]"])

lemma refines_done: "refines limit (\<lambda>s. Some (Inr y, s)) (\<lambda>w. Inr (y, w)) s" "refines limit (\<lambda>s. Some (Inl e, s)) (\<lambda>w. Inl e) s"
  using explains_whole [of limit s] by (auto simp: refines_def fails_def takes_def intro!: exI [of _ "[]"])

lemma ends_as_pure_bind:
  assumes "\<And>y. x = Inr y \<Longrightarrow> ends_as limit (f y) (g y) s"
  shows "ends_as limit (poll_bind (poll_pure x) f) (\<lambda>w. bind_res x (\<lambda>y. g y w)) s"
  using assms explains_whole [of limit s]
  by (cases x) (auto simp: ends_as_def poll_bind_def poll_pure_def)

lemma ends_as_map:
  assumes "ends_as limit p q s"
  shows "ends_as limit (poll_bind p (\<lambda>y. poll_pure (h y))) (\<lambda>w. bind_res (q w) h) s"
  using assms by (auto simp: ends_as_def poll_bind_def poll_pure_def split: option.splits sum.splits)

lemma ends_as_done: "ends_as limit (\<lambda>s. Some (x, s)) (\<lambda>w. x) s"
  using explains_whole [of limit s] by (auto simp: ends_as_def)

section \<open>The readers\<close>

lemma read_turns_Some:
  assumes "read_turns limit k incoming ps = Some (x, s)"
  shows "case x of Inl e \<Rightarrow> sk_incoming s = incoming \<and> e \<in> interruptions limit ps
    | Inr d \<Rightarrow> incoming = d @ sk_incoming s \<and> length d \<le> k \<and> (d = [] \<longrightarrow> k = 0 \<or> incoming = [])
        \<and> set (sk_polls s) \<subseteq> set ps"
  using assms
proof (induction limit k incoming ps rule: read_turns.induct)
  case (2 limit k incoming p ps)
  have mono: "e \<in> interruptions limit ps \<Longrightarrow> e \<in> interruptions limit (p # ps)" for e
    by (rule interruptions_mono) auto
  show ?case
  proof (cases "time_left limit p")
    case (Inl e)
    with 2(2) show ?thesis by (auto simp: interruptions_def)
  next
    case (Inr l)
    show ?thesis
    proof (cases "pl_answer p")
      case (Count n)
      with 2(2) Inr show ?thesis by (auto simp: min_def max_def split: if_splits)
    next
      case TryAgain
      with 2 Inr show ?thesis by (auto intro: mono split: sum.splits)
    next
      case Fails
      with 2(2) Inr show ?thesis by (auto simp: interruptions_def)
    qed
  qed
qed simp

lemma refines_byte: "refines limit (polled_byte limit) wire_byte s"
proof (cases "read_turns limit 1 (sk_incoming s) (sk_polls s)")
  case (Some r)
  obtain x s1 where r: "r = (x, s1)" by force
  show ?thesis
  proof (cases x)
    case (Inl e)
    then have "fails limit wire_byte e s"
      using explains_nothing [of e limit s] read_turns_Some [OF Some [unfolded r]] unfolding fails_def
      by (intro exI [of _ "\<lparr>w_bytes = [], w_end = Some e\<rparr>"]) (simp add: wire_byte_def wire_ended_def)
    then show ?thesis using Some Inl by (simp add: refines_def polled_byte_def poll_bind_def polled_read_def r)
  next
    case (Inr d)
    from read_turns_Some [OF Some [unfolded r]] Inr have d: "sk_incoming s = d @ sk_incoming s1" "length d \<le> 1"
      "set (sk_polls s1) \<subseteq> set (sk_polls s)" by auto
    show ?thesis
    proof (cases d)
      case Nil
      then have "sk_incoming s = []" using read_turns_Some [OF Some [unfolded r]] Inr by auto
      then have "fails limit wire_byte ProtocolError s" unfolding fails_def
        by (intro exI [of _ "\<lparr>w_bytes = [], w_end = None\<rparr>"]) (simp add: explains_def wire_byte_def wire_ended_def)
      then show ?thesis using Some Inr Nil
        by (simp add: refines_def polled_byte_def poll_bind_def poll_pure_def polled_read_def r)
    next
      case (Cons c cs)
      with d have "takes wire_byte c s s1" "d = [c]"
        by (auto simp: takes_def wire_byte_def before_def intro!: exI [of _ "[c]"])
      then show ?thesis using Some Inr
        by (simp add: refines_def polled_byte_def poll_bind_def poll_pure_def polled_read_def r)
    qed
  qed
qed (simp add: refines_def polled_byte_def poll_bind_def polled_read_def)

lemma polled_exact_Some:
  assumes "polled_exact limit n s = Some (x, s')"
  shows "case x of Inl e \<Rightarrow> e \<in> interruptions limit (sk_polls s) \<and> n \<noteq> 0 \<or> e = ProtocolError \<and> length (sk_incoming s) < n
    | Inr d \<Rightarrow> sk_incoming s = d @ sk_incoming s' \<and> length d = n \<and> set (sk_polls s') \<subseteq> set (sk_polls s)"
  using assms
proof (induction limit n s arbitrary: x rule: polled_exact.induct)
  case (1 limit n s)
  show ?case
  proof (cases "n = 0")
    case True
    with 1(2) show ?thesis by (auto simp: polled_exact.simps [of limit 0 s])
  next
    case False
    then have run: "poll_bind (polled_read limit (min n read_buffer)) (\<lambda>d s'.
          if d = [] then Some (Inl ProtocolError, s')
          else poll_bind (polled_exact limit (n - length d)) (\<lambda>r. poll_pure (Inr (d @ r))) s') s = Some (x, s')"
      using 1(2) by (subst (asm) polled_exact.simps) simp
    show ?thesis
    proof (cases "polled_read limit (min n read_buffer) s")
      case (Some r)
      obtain y s1 where r: "r = (y, s1)" by force
      note rd = read_turns_Some [OF Some [unfolded r polled_read_def]]
      show ?thesis
      proof (cases y)
        case (Inl e)
        then have "x = Inl e" using run Some r by (simp add: poll_bind_def)
        with rd Inl False show ?thesis by simp
      next
        case (Inr d)
        with rd have d: "sk_incoming s = d @ sk_incoming s1" "length d \<le> n"
          "set (sk_polls s1) \<subseteq> set (sk_polls s)" by auto
        show ?thesis
        proof (cases "d = []")
          case True
          then have "x = Inl ProtocolError" using run Some r Inr by (simp add: poll_bind_def)
          moreover have "sk_incoming s = []" using rd Inr True False by (auto simp: read_buffer_def min_def split: if_splits)
          ultimately show ?thesis using False by simp
        next
          case ne: False
          then obtain z s2 where z: "polled_exact limit (n - length d) s1 = Some (z, s2)"
            "poll_bind (polled_exact limit (n - length d)) (\<lambda>r. poll_pure (Inr (d @ r))) s1 = Some (x, s')"
            using run Some r Inr by (auto simp: poll_bind_def split: option.splits)
          have ih: "case z of Inl e \<Rightarrow> e \<in> interruptions limit (sk_polls s1) \<and> n - length d \<noteq> 0
              \<or> e = ProtocolError \<and> length (sk_incoming s1) < n - length d
            | Inr d' \<Rightarrow> sk_incoming s1 = d' @ sk_incoming s2 \<and> length d' = n - length d \<and> set (sk_polls s2) \<subseteq> set (sk_polls s1)"
            if "s2 = s'" using 1(1) [OF False Some [unfolded r Inr] ne] z(1) that by blast
          show ?thesis
          proof (cases z)
            case (Inl e)
            with z have "x = Inl e" "s2 = s'" by (auto simp: poll_bind_def)
            with ih Inl d False show ?thesis by (auto intro: interruptions_mono)
          next
            case (Inr d')
            with z have "x = Inr (d @ d')" "s2 = s'" by (auto simp: poll_bind_def poll_pure_def)
            with ih Inr d show ?thesis by auto
          qed
        qed
      qed
    qed (use run in \<open>simp add: poll_bind_def\<close>)
  qed
qed

lemma refines_exact: "refines limit (polled_exact limit n) (wire_exact n) s"
proof (cases "polled_exact limit n s")
  case (Some r)
  obtain x s' where r: "r = (x, s')" by force
  note spec = polled_exact_Some [OF Some [unfolded r]]
  show ?thesis
  proof (cases x)
    case (Inl e)
    have "fails limit (wire_exact n) e s"
    proof (cases "e \<in> interruptions limit (sk_polls s) \<and> n \<noteq> 0")
      case True
      then show ?thesis using explains_nothing [of e limit s] unfolding fails_def
        by (intro exI [of _ "\<lparr>w_bytes = [], w_end = Some e\<rparr>"]) (simp add: wire_exact_def wire_ended_def)
    next
      case False
      with spec Inl have "e = ProtocolError" "length (sk_incoming s) < n" by auto
      then show ?thesis unfolding fails_def
        by (intro exI [of _ "\<lparr>w_bytes = sk_incoming s, w_end = None\<rparr>"])
          (simp add: explains_def wire_exact_def wire_ended_def)
    qed
    then show ?thesis using Some Inl by (simp add: refines_def r)
  next
    case (Inr d)
    with spec have "takes (wire_exact n) d s s'"
      by (auto simp: takes_def wire_exact_def before_def intro!: exI [of _ d])
    then show ?thesis using Some Inr by (simp add: refines_def r)
  qed
qed (simp add: refines_def)

text \<open>What a bind of readers must show of its parts, with the operation at the left named.\<close>

lemma ends_as_cong: "p s = p' s \<Longrightarrow> (\<And>w. q w = q' w) \<Longrightarrow> ends_as limit p' q' s \<Longrightarrow> ends_as limit p q s"
  by (drule ext [of q q']) (simp add: ends_as_def)

lemma refines_cong: "p s = p' s \<Longrightarrow> (\<And>w. q w = q' w) \<Longrightarrow> refines limit p' q' s \<Longrightarrow> refines limit p q s"
  by (drule ext [of q q']) (simp add: refines_def)

lemma refines_return: "refines limit (poll_pure (Inr y)) (\<lambda>w. Inr (y, w)) s"
  using refines_pure [of limit "Inr y" s] by simp

lemma refines_ends: "refines limit p q s \<Longrightarrow> ends_as limit p (\<lambda>w. bind_res (q w) (\<lambda>(y, _). Inr y)) s"
proof -
  assume r: "refines limit p q s"
  show ?thesis
  proof (cases "p s")
    case (Some z)
    obtain x s' where z: "z = (x, s')" by force
    show ?thesis
    proof (cases x)
      case (Inl e)
      with r Some z show ?thesis by (auto simp: refines_def ends_as_def fails_def)
    next
      case (Inr y)
      with r Some z obtain got where "sk_incoming s = got @ sk_incoming s'" "set (sk_polls s') \<subseteq> set (sk_polls s)"
        "\<And>w. q (before got w) = Inr (y, w)"
        by (auto simp: refines_def takes_def)
      then have "explains limit (before got (whole_wire s')) s"
        "q (before got (whole_wire s')) = Inr (y, whole_wire s')"
        using explains_before [OF explains_whole] by auto
      then show ?thesis using Some z Inr unfolding ends_as_def
        by (auto intro!: exI [of _ "before got (whole_wire s')"])
    qed
  qed (simp add: ends_as_def)
qed

lemma refines_until: "refines limit (polled_until limit t cap acc) (read_until t cap acc) s"
proof (induction limit t cap acc s rule: polled_until.induct)
  case (1 limit t cap acc s)
  show ?case
  proof (cases "length acc < cap")
    case False
    show ?thesis
      by (rule refines_cong [OF _ _ refines_done(2)])
        (simp_all add: polled_until.simps [of _ _ _ acc s] read_until.simps [of _ _ acc] False)
  next
    case True
    let ?f = "\<lambda>c s'. if ends_with (acc @ [c]) t then Some (Inr (acc @ [c]), s') else polled_until limit t cap (acc @ [c]) s'"
    let ?g = "\<lambda>c w'. if ends_with (acc @ [c]) t then Inr (acc @ [c], w') else read_until t cap (acc @ [c]) w'"
    have "refines limit (?f c) (?g c) s1" if "polled_byte limit s = Some (Inr c, s1)" for c s1
      using 1 [OF True that] refines_done(1) [of limit "acc @ [c]" s1]
      by (cases "ends_with (acc @ [c]) t") simp_all
    from refines_bind [where p = "polled_byte limit" and f = ?f and g = ?g and s = s, OF refines_byte this]
    show ?thesis
      by (rule refines_cong [rotated 2])
        (use True in \<open>simp_all add: polled_until.simps [of limit t cap acc s] read_until.simps [of t cap acc]\<close>)
  qed
qed

lemma refines_line: "refines limit (polled_line limit cap) (wire_line cap) s"
  using refines_bind [where p = "polled_until limit CRLF cap []" and f = "\<lambda>l. poll_pure (Inr (take (length l - 2) l))",
      OF refines_until refines_return]
  by (rule refines_cong [rotated 2]) (simp_all add: polled_line_def wire_line_def)

definition wire_chunk_end :: "unit wired" where
  "wire_chunk_end w = bind_res (chunk_end w) (\<lambda>w'. Inr ((), w'))"

lemma bind_chunk_end: "bind_res (wire_chunk_end w) (\<lambda>(_, w'). g w') = bind_res (chunk_end w) g"
  by (simp add: wire_chunk_end_def bind_res_def split: sum.splits)

lemma refines_chunk_end: "refines limit (polled_chunk_end limit) wire_chunk_end s"
proof -
  let ?f2 = "\<lambda>d s2. if d \<noteq> LF then Some (Inl ProtocolError, s2) else Some (Inr (), s2)"
  let ?g2 = "\<lambda>d w2. if d \<noteq> LF then Inl ProtocolError else Inr ((), w2)"
  let ?f1 = "\<lambda>c s1. if c \<noteq> CR then Some (Inl ProtocolError, s1) else poll_bind (polled_byte limit) ?f2 s1"
  let ?g1 = "\<lambda>c w1. if c \<noteq> CR then Inl ProtocolError else bind_res (wire_byte w1) (\<lambda>(d, w2). ?g2 d w2)"
  have two: "refines limit (?f2 d) (?g2 d) s2" for d s2
    using refines_done(1) [of limit "()" s2] refines_done(2) [of limit ProtocolError s2] by (cases "d = LF") simp_all
  have one: "refines limit (?f1 c) (?g1 c) s1" for c s1
    using refines_bind [where p = "polled_byte limit" and f = ?f2 and s = s1, OF refines_byte two]
      refines_done(2) [of limit ProtocolError s1] by (cases "c = CR") simp_all
  show ?thesis
    using refines_bind [where p = "polled_byte limit" and f = ?f1 and s = s, OF refines_byte one]
    by (rule refines_cong [rotated 2])
      (auto simp: polled_chunk_end_def wire_chunk_end_def chunk_end_def bind_res_def split: sum.splits)
qed

lemma takes_fewer: "takes q y s s' \<Longrightarrow> length (sk_incoming s') \<le> length (sk_incoming s)"
  by (auto simp: takes_def)

lemma takes_shorter: "takes q y s s' \<Longrightarrow> shortens q \<Longrightarrow> length (sk_incoming s') < length (sk_incoming s)"
  unfolding takes_def by (elim exE conjE) (fastforce dest: shortensD)

lemma refines_takes: "refines limit p q s \<Longrightarrow> p s = Some (Inr y, s') \<Longrightarrow> takes q y s s'"
  by (simp add: refines_def)

section \<open>The response\<close>

function polled_chunks :: "duration \<Rightarrow> nat \<Rightarrow> bytes \<Rightarrow> bytes polled" where
  "polled_chunks limit allow body s =
     poll_bind (polled_line limit 64) (\<lambda>line s1.
     poll_bind (poll_pure (chunk_size line)) (\<lambda>size s2.
       if size = 0 then
         poll_bind (polled_line limit max_header_bytes) (\<lambda>trailer.
           poll_pure (if trailer \<noteq> [] then Inl ProtocolError else Inr body)) s2
       else if size > allow - length body then Some (Inl (BudgetError TooManyBytes), s2)
       else
         poll_bind (polled_exact limit size) (\<lambda>data s3.
         poll_bind (polled_chunk_end limit) (\<lambda>_ s4. polled_chunks limit allow (body @ data) s4) s3) s2) s1) s"
  by pat_completeness auto
termination
proof (relation "measure (\<lambda>(_, _, _, s). length (sk_incoming s))", goal_cases)
  case (2 limit allow body s line s1 size s2 data s3 u s4)
  have "length (sk_incoming s1) < length (sk_incoming s)"
    using 2(1) by (rule takes_shorter [OF refines_takes [OF refines_line] shortens_line])
  moreover have "s2 = s1" using 2(2) by (simp add: poll_pure_def)
  moreover have "length (sk_incoming s3) \<le> length (sk_incoming s2)"
    using 2(5) by (rule takes_fewer [OF refines_takes [OF refines_exact]])
  moreover have "length (sk_incoming s4) \<le> length (sk_incoming s3)"
    using 2(6) by (rule takes_fewer [OF refines_takes [OF refines_chunk_end]])
  ultimately show ?case by simp
qed simp

declare polled_chunks.simps [simp del]

definition polled_body :: "duration \<Rightarrow> nat \<Rightarrow> framing \<Rightarrow> bytes polled" where
  "polled_body limit allow fr s =
     (if fr_chunked fr then polled_chunks limit allow [] s
      else
        (case fr_length fr of
           None \<Rightarrow> Some (Inr [], s)
         | Some n \<Rightarrow> if n > allow then Some (Inl (BudgetError TooManyBytes), s) else polled_exact limit n s))"

definition polled_response :: "duration \<Rightarrow> nat \<Rightarrow> (http_status \<times> bytes) polled" where
  "polled_response limit allow =
     poll_bind (polled_until limit (CRLF @ CRLF) max_header_bytes []) (\<lambda>head.
     poll_bind (poll_pure (parse_head head)) (\<lambda>(st, fr).
     poll_bind (polled_body limit allow fr) (\<lambda>body. poll_pure (Inr (st, body)))))"

text \<open>\<^verbatim>\<open>http_get\<close> with the bytes it wrote; every phase has its own turns.\<close>

definition polled_get ::
  "bytes \<Rightarrow> bool \<Rightarrow> duration \<Rightarrow> connect_turn list \<Rightarrow> poll list \<Rightarrow> socket \<Rightarrow> bytes \<Rightarrow> nat
     \<Rightarrow> ((acquisition_error + http_status \<times> bytes) \<times> bytes) option" where
  "polled_get endpoint address_ok limit turns writes s path allow =
     (case connect endpoint address_ok limit turns of
        None \<Rightarrow> None
      | Some (Inl e) \<Rightarrow> Some (Inl e, [])
      | Some (Inr _) \<Rightarrow>
          (case write_turns limit [] (http_request path) writes of
             None \<Rightarrow> None
           | Some (Inl e, written) \<Rightarrow> Some (Inl e, written)
           | Some (Inr _, written) \<Rightarrow> map_option (\<lambda>(x, _). (x, written)) (polled_response limit allow s)))"

lemma ends_as_chunks: "ends_as limit (polled_chunks limit allow body) (read_chunks allow body) s"
proof (induction limit allow body s rule: polled_chunks.induct)
  case (1 limit allow body s)
  let ?pd = "\<lambda>data s3. poll_bind (polled_chunk_end limit) (\<lambda>_ s4. polled_chunks limit allow (body @ data) s4) s3"
  let ?wd = "\<lambda>data w2. bind_res (wire_chunk_end w2) (\<lambda>(_, w3). read_chunks allow (body @ data) w3)"
  let ?ps = "\<lambda>size s2. if size = 0 then
         poll_bind (polled_line limit max_header_bytes) (\<lambda>trailer.
           poll_pure (if trailer \<noteq> [] then Inl ProtocolError else Inr body)) s2
       else if size > allow - length body then Some (Inl (BudgetError TooManyBytes), s2)
       else poll_bind (polled_exact limit size) ?pd s2"
  let ?ws = "\<lambda>size w1. if size = 0 then
         bind_res (wire_line max_header_bytes w1) (\<lambda>(trailer, _). if trailer \<noteq> [] then Inl ProtocolError else Inr body)
       else if size > allow - length body then Inl (BudgetError TooManyBytes)
       else bind_res (wire_exact size w1) (\<lambda>(data, w2). ?wd data w2)"
  let ?pl = "\<lambda>line. poll_bind (poll_pure (chunk_size line)) ?ps"
  let ?wl = "\<lambda>line w1. bind_res (chunk_size line) (\<lambda>size. ?ws size w1)"
  have line: "ends_as limit (?pl line) (?wl line) s1" if ln: "polled_line limit 64 s = Some (Inr line, s1)" for line s1
  proof (rule ends_as_pure_bind)
    fix size assume size: "chunk_size line = Inr size"
    then have pure: "poll_pure (chunk_size line) s1 = Some (Inr size, s1)" by (simp add: poll_pure_def)
    show "ends_as limit (?ps size) (?ws size) s1"
    proof (cases "size = 0")
      case True
      have "ends_as limit (poll_pure (if t \<noteq> [] then Inl ProtocolError else Inr body))
          (\<lambda>w. if t \<noteq> [] then Inl ProtocolError else Inr body) s2" for t s2
        unfolding poll_pure_def by (rule ends_as_done)
      from ends_as_bind [where p = "polled_line limit max_header_bytes" and s = s1, OF refines_line this] True
      show ?thesis by simp
    next
      case nz: False
      show ?thesis
      proof (cases "size > allow - length body")
        case True
        with nz ends_as_done [of limit "Inl (BudgetError TooManyBytes)" s1] show ?thesis by simp
      next
        case False
        have data: "ends_as limit (?pd data) (?wd data) s3" if ex: "polled_exact limit size s1 = Some (Inr data, s3)" for data s3
          by (rule ends_as_bind [OF refines_chunk_end]) (rule 1 [OF ln pure nz False ex])
        from ends_as_bind [OF refines_exact data] nz False show ?thesis by simp
      qed
    qed
  qed
  from ends_as_bind [where p = "polled_line limit 64" and f = ?pl and s = s, OF refines_line line]
  show ?case
    by (rule ends_as_cong [rotated 2])
      (simp_all only: polled_chunks.simps [of limit allow body s] read_chunks.simps [of allow body] bind_chunk_end)
qed

lemma ends_as_body: "ends_as limit (polled_body limit allow fr) (read_body allow fr) s"
proof (cases "fr_chunked fr")
  case True
  show ?thesis
    by (rule ends_as_cong [OF _ _ ends_as_chunks]) (simp_all add: polled_body_def read_body_def True)
next
  case False
  show ?thesis
  proof (cases "fr_length fr")
    case None
    show ?thesis
      by (rule ends_as_cong [OF _ _ ends_as_done]) (simp_all add: polled_body_def read_body_def False None)
  next
    case (Some n)
    show ?thesis
    proof (cases "n > allow")
      case True
      show ?thesis
        by (rule ends_as_cong [OF _ _ ends_as_done]) (simp_all add: polled_body_def read_body_def False Some True)
    next
      case small: False
      show ?thesis
        by (rule ends_as_cong [OF _ _ refines_ends [OF refines_exact]])
          (simp_all add: polled_body_def read_body_def False Some small)
    qed
  qed
qed

lemma ends_as_response: "ends_as limit (polled_response limit allow) (http_response allow) s"
proof -
  let ?pb = "\<lambda>z. case z of (st, fr) \<Rightarrow> poll_bind (polled_body limit allow fr) (\<lambda>body. poll_pure (Inr (st, body)))"
  let ?wb = "\<lambda>z w'. case z of (st, fr) \<Rightarrow> bind_res (read_body allow fr w') (\<lambda>body. Inr (st, body))"
  have body: "ends_as limit (?pb z) (?wb z) s1" for z s1
    using ends_as_map [where p = "polled_body limit allow (snd z)" and h = "\<lambda>body. Inr (fst z, body)", OF ends_as_body]
    by (cases z) simp
  have head: "ends_as limit (poll_bind (poll_pure (parse_head head)) ?pb) (\<lambda>w'. bind_res (parse_head head) (\<lambda>z. ?wb z w')) s1"
    for head s1 by (rule ends_as_pure_bind) (rule body)
  from ends_as_bind [where p = "polled_until limit (CRLF @ CRLF) max_header_bytes []"
      and f = "\<lambda>head. poll_bind (poll_pure (parse_head head)) ?pb" and s = s, OF refines_until head]
  show ?thesis
    by (rule ends_as_cong [rotated 2]) (simp_all only: polled_response_def http_response_def)
qed

section \<open>The exchange\<close>

lemma write_turns_prefix:
  "write_turns limit written bs ps = Some (x, out) \<Longrightarrow>
     \<exists>rest. written @ bs = out @ rest \<and> (rest = [] \<longleftrightarrow> x = Inr ())"
proof (induction limit written bs ps rule: write_turns.induct)
  case (3 limit written b bs p ps)
  show ?case
  proof (cases "time_left limit p")
    case (Inr l)
    show ?thesis
    proof (cases "pl_answer p")
      case (Count n)
      with 3 Inr show ?thesis by (cases n) auto
    qed (use 3 Inr in auto)
  qed (use 3(3) in auto)
qed auto

definition client_reply :: "acquisition_error + wire \<Rightarrow> reply" where
  "client_reply y = \<lparr>rp_asked = 0, rp_wire = y, rp_received = 0, rp_stored = 0\<rparr>"

lemma connect_relative:
  "\<not> starts_with endpoint ''/'' \<Longrightarrow> connect endpoint address_ok limit turns = Some (Inl EndpointError)"
  by (simp add: connect_def)

lemma unwritten: "[] \<noteq> http_request path"
  by (simp add: http_request_def)

lemma http_get_failed:
  "starts_with endpoint ''/'' \<Longrightarrow> http_get endpoint (client_reply (Inl e)) path allow w = Some (Inl e, w)"
  by (simp add: http_get_def client_reply_def)

text \<open>C28: What \<^verbatim>\<open>http_get\<close> returns after the polls of connecting, of partial writes and of reading is what the
  client over one wire returns: the bytes written are the request or, after a failure, a proper part
  of it; and after the whole request the wire explains the socket, so that a response is that of
  the bytes the peer sent, and an error is an interruption of a poll or one of those bytes.\<close>

theorem socket_get_refines:
  assumes "polled_get endpoint address_ok limit turns writes s path allow = Some (x, written)"
  shows "\<exists>r rest. http_request path = written @ rest
       \<and> (\<forall>w. http_get endpoint r path allow w =
              Some (x, w\<lparr>wd_sent := wd_sent w @ (if rest = [] then [written] else [])\<rparr>))
       \<and> (rest = [] \<longrightarrow> (case rp_wire r of Inl _ \<Rightarrow> False | Inr wire \<Rightarrow> explains limit wire s))"
proof -
  obtain c where c: "connect endpoint address_ok limit turns = Some c"
    using assms by (auto simp: polled_get_def split: option.splits)
  show ?thesis
  proof (cases c)
    case (Inl e)
    with assms c have e: "x = Inl e" "written = []" by (simp_all add: polled_get_def)
    have get: "http_get endpoint (client_reply (Inl e)) path allow w = Some (Inl e, w)" for w
    proof (cases "starts_with endpoint ''/''")
      case False
      with connect_relative c Inl have "e = EndpointError" by fastforce
      with False show ?thesis by (simp add: http_get_def)
    qed (rule http_get_failed)
    show ?thesis
      by (intro exI [of _ "client_reply (Inl e)"] exI [of _ "http_request path"]) (simp add: e get unwritten [symmetric])
  next
    case (Inr u)
    then have abs: "starts_with endpoint ''/''" using connect_relative c by fastforce
    obtain y out where wr: "write_turns limit [] (http_request path) writes = Some (y, out)"
      using assms c Inr by (auto simp: polled_get_def split: option.splits)
    from write_turns_prefix [OF this] obtain rest where rest: "http_request path = out @ rest" "rest = [] \<longleftrightarrow> y = Inr ()"
      by auto
    show ?thesis
    proof (cases y)
      case (Inl e)
      with assms c Inr wr have "x = Inl e" "written = out" by (simp_all add: polled_get_def)
      with rest Inl http_get_failed [OF abs, of e path allow] show ?thesis
        by (intro exI [of _ "client_reply (Inl e)"] exI [of _ rest]) simp
    next
      case y: (Inr v)
      then obtain s' where s': "polled_response limit allow s = Some (x, s')" "written = out"
        using assms c Inr wr by (auto simp: polled_get_def)
      from ends_as_response [of limit allow s] s' obtain wire where w: "explains limit wire s" "http_response allow wire = x"
        by (auto simp: ends_as_def)
      have "rest = []" using rest(2) y by simp
      with rest w s' abs show ?thesis
        by (intro exI [of _ "client_reply (Inr wire)"] exI [of _ rest]) (simp add: http_get_def client_reply_def)
    qed
  qed
qed

section \<open>Every loop ends\<close>

text \<open>Scripts that suffice: a condition on sockets under which a read returns, and which a read that
  brings bytes keeps.\<close>

definition settles :: "(socket \<Rightarrow> bool) \<Rightarrow> 'a polled \<Rightarrow> socket \<Rightarrow> bool" where
  "settles enough p s \<longleftrightarrow> (enough s \<longrightarrow>
     (case p s of None \<Rightarrow> False | Some (Inl _, _) \<Rightarrow> True | Some (Inr _, s') \<Rightarrow> enough s'))"

lemma settles_pure [simp]: "settles enough (poll_pure x) s" "settles enough (\<lambda>s. Some (y, s)) s"
  by (cases x; simp add: settles_def poll_pure_def) (cases y; simp add: settles_def)

lemma settles_cong: "p s = p' s \<Longrightarrow> settles enough p' s \<Longrightarrow> settles enough p s"
  by (simp add: settles_def)

lemma settles_bind:
  assumes "settles enough p s" and "\<And>y s1. p s = Some (Inr y, s1) \<Longrightarrow> settles enough (f y) s1"
  shows "settles enough (poll_bind p f) s"
proof (cases "p s")
  case (Some r)
  obtain x s1 where r: "r = (x, s1)" by force
  show ?thesis
  proof (cases x)
    case (Inl e)
    with Some r show ?thesis by (simp add: settles_def poll_bind_def)
  next
    case (Inr y)
    with assms Some r have "enough s \<longrightarrow> enough s1" "settles enough (f y) s1"
      by (auto simp: settles_def)
    then show ?thesis using Some r Inr by (simp add: settles_def poll_bind_def)
  qed
qed (use assms(1) in \<open>simp add: settles_def\<close>)

locale poll_supply =
  fixes limit :: duration and enough :: "socket \<Rightarrow> bool"
  assumes reads: "enough s \<Longrightarrow> 0 < k \<Longrightarrow>
    (case polled_read limit k s of
       None \<Rightarrow> False | Some (Inl _, _) \<Rightarrow> True | Some (Inr d, s') \<Rightarrow> d = [] \<or> enough s')"
begin

lemma settles_read_bind:
  assumes "0 < k" and none: "\<And>s1. \<exists>e s2. f [] s1 = Some (Inl e, s2)"
    and some: "\<And>d s1. polled_read limit k s = Some (Inr d, s1) \<Longrightarrow> d \<noteq> [] \<Longrightarrow> settles enough (f d) s1"
  shows "settles enough (poll_bind (polled_read limit k) f) s"
proof (cases "enough s")
  case True
  from reads [OF True assms(1)] obtain x s1 where x: "polled_read limit k s = Some (x, s1)"
    by (auto split: option.splits)
  show ?thesis
  proof (cases x)
    case (Inl e)
    with x show ?thesis by (simp add: settles_def poll_bind_def)
  next
    case (Inr d)
    show ?thesis
    proof (cases "d = []")
      case True
      with none [of s1] x Inr show ?thesis by (auto simp: settles_def poll_bind_def)
    next
      case False
      with reads [OF True assms(1)] x Inr have "enough s1" by simp
      with some [of d s1] x Inr False show ?thesis by (simp add: settles_def poll_bind_def)
    qed
  qed
qed (simp add: settles_def)

lemma settles_byte: "settles enough (polled_byte limit) s"
  unfolding polled_byte_def by (rule settles_read_bind) (simp_all add: poll_pure_def)

lemma settles_exact_at: "l = limit \<Longrightarrow> settles enough (polled_exact l n) s"
proof (induction l n s rule: polled_exact.induct)
  case (1 l n s)
  have l: "l = limit" by (rule 1(2))
  note ih = 1(1) [unfolded l, OF _ _ _ refl]
  let ?f = "\<lambda>d s'. if d = [] then Some (Inl ProtocolError, s')
          else poll_bind (polled_exact limit (n - length d)) (\<lambda>r. poll_pure (Inr (d @ r))) s'"
  show ?case
  proof (cases "n = 0")
    case True
    show ?thesis unfolding l
      by (rule settles_cong [where p' = "\<lambda>s. Some (Inr [], s)"]) (simp_all add: polled_exact.simps [of limit 0 s] True)
  next
    case False
    have step: "settles enough (?f d) s1"
      if d: "polled_read limit (min n read_buffer) s = Some (Inr d, s1)" and ne: "d \<noteq> []" for d s1
    proof -
      have "settles enough (poll_bind (polled_exact limit (n - length d)) (\<lambda>r. poll_pure (Inr (d @ r)))) s1"
        by (rule settles_bind [OF ih [OF False d ne]]) simp
      with ne show ?thesis by simp
    qed
    have "settles enough (poll_bind (polled_read limit (min n read_buffer)) ?f) s"
      by (rule settles_read_bind) (use False step in \<open>simp_all add: read_buffer_def\<close>)
    then show ?thesis unfolding l by (rule settles_cong [rotated]) (subst polled_exact.simps, simp only: False if_False)
  qed
qed

lemmas settles_exact = settles_exact_at [OF refl]

lemma settles_until_at: "l = limit \<Longrightarrow> settles enough (polled_until l t cap acc) s"
proof (induction l t cap acc s rule: polled_until.induct)
  case (1 l t cap acc s)
  have l: "l = limit" by (rule 1(2))
  note ih = 1(1) [unfolded l, OF _ _ _ refl]
  let ?f = "\<lambda>c s'. if ends_with (acc @ [c]) t then Some (Inr (acc @ [c]), s') else polled_until limit t cap (acc @ [c]) s'"
  show ?case
  proof (cases "length acc < cap")
    case False
    show ?thesis unfolding l
      by (rule settles_cong [where p' = "\<lambda>s. Some (Inl ProtocolError, s)"])
        (simp_all add: polled_until.simps [of _ _ _ acc s] False)
  next
    case True
    have step: "settles enough (?f c) s1" if c: "polled_byte limit s = Some (Inr c, s1)" for c s1
      using ih [OF True c] by (cases "ends_with (acc @ [c]) t") simp_all
    have "settles enough (poll_bind (polled_byte limit) ?f) s"
      by (rule settles_bind [OF settles_byte]) (rule step)
    then show ?thesis unfolding l by (rule settles_cong [rotated]) (subst polled_until.simps, simp only: True if_True)
  qed
qed

lemmas settles_until = settles_until_at [OF refl]

lemma settles_line: "settles enough (polled_line limit cap) s"
  unfolding polled_line_def by (rule settles_bind [OF settles_until]) simp

lemma settles_chunk_end: "settles enough (polled_chunk_end limit) s"
proof -
  let ?f2 = "\<lambda>d s2. if d \<noteq> LF then Some (Inl ProtocolError, s2) else Some (Inr (), s2)"
  have two: "settles enough (?f2 d) s2" for d s2 by (cases "d = LF") simp_all
  have "settles enough (\<lambda>s1. if c \<noteq> CR then Some (Inl ProtocolError, s1) else poll_bind (polled_byte limit) ?f2 s1) s1"
    for c s1 using settles_bind [where f = ?f2, OF settles_byte two] by (cases "c = CR") simp_all
  then show ?thesis unfolding polled_chunk_end_def by (rule settles_bind [OF settles_byte])
qed

lemma settles_chunks_at: "l = limit \<Longrightarrow> settles enough (polled_chunks l allow body) s"
proof (induction l allow body s rule: polled_chunks.induct)
  case (1 l allow body s)
  have l: "l = limit" by (rule 1(2))
  note ih = 1(1) [unfolded l, OF _ _ _ _ _ _ refl]
  let ?pd = "\<lambda>data s3. poll_bind (polled_chunk_end limit) (\<lambda>_ s4. polled_chunks limit allow (body @ data) s4) s3"
  let ?pt = "\<lambda>trailer :: bytes. poll_pure (if trailer \<noteq> [] then Inl ProtocolError else Inr body)"
  let ?ps = "\<lambda>size s2. if size = 0 then poll_bind (polled_line limit max_header_bytes) ?pt s2
       else if size > allow - length body then Some (Inl (BudgetError TooManyBytes), s2)
       else poll_bind (polled_exact limit size) ?pd s2"
  let ?pl = "\<lambda>line. poll_bind (poll_pure (chunk_size line)) ?ps"
  have line: "settles enough (?pl line) s1" if ln: "polled_line limit 64 s = Some (Inr line, s1)" for line s1
  proof (rule settles_bind [OF settles_pure(1)])
    fix size s2 assume size: "poll_pure (chunk_size line) s1 = Some (Inr size, s2)"
    have none: "settles enough (poll_bind (polled_line limit max_header_bytes) ?pt) s2"
      by (rule settles_bind [OF settles_line]) simp
    have some: "settles enough (poll_bind (polled_exact limit size) ?pd) s2"
      if "size \<noteq> 0" "\<not> size > allow - length body"
    proof (rule settles_bind [OF settles_exact])
      fix data s3 assume ex: "polled_exact limit size s2 = Some (Inr data, s3)"
      show "settles enough (?pd data) s3"
        by (rule settles_bind [OF settles_chunk_end]) (rule ih [OF ln size that ex])
    qed
    show "settles enough (?ps size) s2"
    proof (cases "size = 0")
      case True
      with none show ?thesis by simp
    next
      case False
      with some show ?thesis by (cases "size > allow - length body") simp_all
    qed
  qed
  have "settles enough (poll_bind (polled_line limit 64) ?pl) s"
    by (rule settles_bind [OF settles_line]) (rule line)
  then show ?case unfolding l
    by (rule settles_cong [rotated]) (subst polled_chunks.simps, rule refl)
qed

lemmas settles_chunks = settles_chunks_at [OF refl]

lemma settles_response: "settles enough (polled_response limit allow) s"
proof -
  have body: "settles enough (polled_body limit allow fr) s1" for fr s1
    using settles_chunks [of allow "[]" s1] settles_exact [of "the (fr_length fr)" s1]
      settles_pure(2) [of enough "Inr []" s1] settles_pure(2) [of enough "Inl (BudgetError TooManyBytes)" s1]
    by (cases "fr_length fr") (auto simp: polled_body_def settles_def)
  show ?thesis
    unfolding polled_response_def
    by (auto intro!: settles_bind settles_until body split: prod.splits)
qed

end

definition expires :: "duration \<Rightarrow> poll list \<Rightarrow> bool" where
  "expires limit ps \<longleftrightarrow> (\<exists>p \<in> set ps. time_left limit p \<in> range Inl)"

interpretation expiring: poll_supply limit "\<lambda>s. expires limit (sk_polls s)" for limit
proof
  fix s :: socket and k :: nat
  assume "expires limit (sk_polls s)"
  moreover have "expires limit ps \<Longrightarrow>
      (case read_turns limit k incoming ps of None \<Rightarrow> False | Some (Inl _, _) \<Rightarrow> True
       | Some (Inr d, s') \<Rightarrow> d = [] \<or> expires limit (sk_polls s'))" for incoming ps
  proof (induction ps)
    case (Cons p ps)
    show ?case
    proof (cases "time_left limit p")
      case (Inr l)
      with Cons.prems have "expires limit ps" by (auto simp: expires_def)
      with Inr Cons.IH show ?thesis by (cases "pl_answer p") simp_all
    qed simp
  qed (simp add: expires_def)
  ultimately show "case polled_read limit k s of None \<Rightarrow> False | Some (Inl _, _) \<Rightarrow> True
      | Some (Inr d, s') \<Rightarrow> d = [] \<or> expires limit (sk_polls s')"
    by (simp add: polled_read_def)
qed

text \<open>One answer with bytes for each byte to come, and one for the close.\<close>

definition moves :: "poll \<Rightarrow> bool" where
  "moves p = (case pl_answer p of Count _ \<Rightarrow> True | _ \<Rightarrow> False)"

definition answered :: "socket \<Rightarrow> bool" where
  "answered s \<longleftrightarrow> length (sk_incoming s) < length (filter moves (sk_polls s))"

interpretation answering: poll_supply limit answered for limit
proof
  fix s :: socket and k :: nat
  assume "answered s" and "0 < k"
  moreover have "length incoming < length (filter moves ps) \<Longrightarrow> 0 < k \<Longrightarrow>
      (case read_turns limit k incoming ps of None \<Rightarrow> False | Some (Inl _, _) \<Rightarrow> True
       | Some (Inr d, s') \<Rightarrow> d = [] \<or> answered s')" for incoming ps
  proof (induction ps)
    case (Cons p ps)
    show ?case
    proof (cases "time_left limit p")
      case (Inr l)
      show ?thesis
      proof (cases "pl_answer p")
        case (Count n)
        have "0 < min k (max 1 n)" using Cons.prems(2) by simp
        moreover have "moves p" using Count by (simp add: moves_def)
        ultimately show ?thesis using Cons.prems(1) Inr Count
          by (cases incoming) (auto simp: answered_def simp del: min_less_iff_conj)
      qed (use Cons Inr in \<open>simp_all add: moves_def\<close>)
    qed simp
  qed simp
  ultimately show "case polled_read limit k s of None \<Rightarrow> False | Some (Inl _, _) \<Rightarrow> True
      | Some (Inr d, s') \<Rightarrow> d = [] \<or> answered s'"
    by (simp add: polled_read_def answered_def)
qed

lemma write_turns_settle: "expires limit ps \<Longrightarrow> write_turns limit written bs ps \<noteq> None"
proof (induction limit written bs ps rule: write_turns.induct)
  case (3 limit written b bs p ps)
  show ?case
  proof (cases "time_left limit p")
    case (Inr l)
    with 3(3) have "expires limit ps" by (auto simp: expires_def)
    with Inr 3(1,2) show ?thesis by (cases "pl_answer p") (auto split: nat.splits)
  qed simp
qed (simp_all add: expires_def)

lemma connect_turns_settle:
  "\<exists>t \<in> set ts. time_left limit (ct_first t) \<in> range Inl \<Longrightarrow> connect_turns limit ts \<noteq> None"
proof (induction ts)
  case (Cons t ts)
  show ?case
  proof (cases "time_left limit (ct_first t)")
    case (Inr l)
    with Cons.prems have "connect_turns limit ts \<noteq> None" by (intro Cons.IH) auto
    with Inr show ?thesis by (cases "pl_answer (ct_first t)") (auto split: sum.splits)
  qed simp
qed simp

text \<open>C29: A cancellation or a deadline ends the exchange: where the clock and the flag are at some turn of
  connecting, of writing and of reading such that no time is left, the client returns, whatever the
  system answers before; no loop polls on.\<close>

theorem socket_get_settles:
  assumes "\<exists>t \<in> set turns. time_left limit (ct_first t) \<in> range Inl"
    and "expires limit writes" and "expires limit (sk_polls s)"
  shows "polled_get endpoint address_ok limit turns writes s path allow \<noteq> None"
proof -
  have "connect endpoint address_ok limit turns \<noteq> None"
    using connect_turns_settle [OF assms(1)] by (simp add: connect_def)
  moreover have "write_turns limit [] (http_request path) writes \<noteq> None"
    by (rule write_turns_settle [OF assms(2)])
  moreover have "polled_response limit allow s \<noteq> None"
    using expiring.settles_response [of limit allow s] assms(3)
    by (cases "polled_response limit allow s") (simp_all add: settles_def)
  ultimately show ?thesis
    by (auto simp: polled_get_def split: option.splits sum.splits)
qed

section \<open>How the bytes are cut does not matter\<close>

definition steady :: "duration \<Rightarrow> poll list \<Rightarrow> bool" where
  "steady limit ps \<longleftrightarrow> list_all (\<lambda>p. time_left limit p \<in> range Inr \<and> pl_answer p \<notin> {Fails, Count 0}) ps"

lemma steady_whole: "steady limit (sk_polls s) \<Longrightarrow> explains limit w s \<Longrightarrow> w = whole_wire s"
  by (cases w) (force simp: steady_def list_all_iff explains_def interruptions_def whole_wire_def split: option.splits)

lemma steady_response:
  assumes "steady limit (sk_polls s)" and "answered s"
  obtains s' where "polled_response limit allow s = Some (http_response allow (whole_wire s), s')"
proof (cases "polled_response limit allow s")
  case None
  with answering.settles_response [of limit allow s] assms(2) show thesis by (simp add: settles_def)
next
  case (Some r)
  with ends_as_response [of limit allow s] obtain w where "explains limit w s" "http_response allow w = fst r"
    by (cases r) (auto simp: ends_as_def)
  with steady_whole [OF assms(1)] Some show thesis by (cases r) (auto intro: that)
qed

lemma steady_writes:
  "steady limit ps \<Longrightarrow> length bs \<le> length (filter moves ps) \<Longrightarrow>
     write_turns limit written bs ps = Some (Inr (), written @ bs)"
proof (induction limit written bs ps rule: write_turns.induct)
  case (3 limit written b bs p ps)
  then obtain l where l: "time_left limit p = Inr l" "steady limit ps" "pl_answer p \<notin> {Fails, Count 0}"
    by (auto simp: steady_def)
  show ?case
  proof (cases "pl_answer p")
    case (Count n)
    with l obtain m where m: "n = Suc m" by (cases n) auto
    from Count have "moves p" by (simp add: moves_def)
    with 3(1) [OF l(1) Count m l(2)] 3(4) l(1) Count m show ?thesis by simp
  next
    case TryAgain
    then have "\<not> moves p" by (simp add: moves_def)
    with 3(2) [OF l(1) TryAgain l(2)] 3(4) l(1) TryAgain show ?thesis by simp
  qed (use l in simp)
qed simp_all

text \<open>C27: However the system divides the bytes, and however often it asks to try again: once connected,
  with time left in every turn, and with an answer for each byte of the request, for each byte of the
  response and for its close, the client writes exactly the request, and returns what the response
  as a whole says.\<close>

theorem socket_get_delivers:
  assumes "connect endpoint address_ok limit turns = Some (Inr ())"
    and "steady limit writes" and "length (http_request path) \<le> length (filter moves writes)"
    and "steady limit (sk_polls s)" and "length (sk_incoming s) < length (filter moves (sk_polls s))"
  shows "polled_get endpoint address_ok limit turns writes s path allow
    = Some (http_response allow (whole_wire s), http_request path)"
proof -
  have "answered s" using assms(5) by (simp add: answered_def)
  from steady_response [OF assms(4) this, of allow] obtain s' where
    "polled_response limit allow s = Some (http_response allow (whole_wire s), s')" .
  with assms(1) steady_writes [OF assms(2,3), of "[]"] show ?thesis by (simp add: polled_get_def)
qed

section \<open>A script\<close>

definition go :: "os_answer \<Rightarrow> poll" where
  "go a = \<lparr>pl_elapsed = 1, pl_cancelled = False, pl_answer = a\<rparr>"

definition stop :: poll where
  "stop = \<lparr>pl_elapsed = 1, pl_cancelled = True, pl_answer = TryAgain\<rparr>"

definition connect_now :: "poll \<Rightarrow> connect_turn" where
  "connect_now p = \<lparr>ct_first = p, ct_second = go TryAgain, ct_third = go TryAgain\<rparr>"

definition script_turns :: "connect_turn list" where
  "script_turns = [connect_now (go TryAgain), connect_now (go (Count 1))]"

definition script_polls :: "poll list" where
  "script_polls = go TryAgain # replicate 200 (go (Count 3))"

definition script_socket :: socket where
  "script_socket = \<lparr>sk_incoming = plain_message 200 ''{}'', sk_polls = script_polls\<rparr>"

lemma script_connects: "connect ''/run/docker.sock'' True 1000 script_turns = Some (Inr ())"
  by (simp add: connect_def starts_with_def script_turns_def connect_now_def go_def time_left_def remaining_def checked_sub_def)

lemma script_steady: "steady 1000 script_polls" "length (filter moves script_polls) = 200"
  by (simp_all add: steady_def list_all_iff script_polls_def go_def moves_def time_left_def remaining_def checked_sub_def)

lemma script_lengths: "length (http_request ''/version'') \<le> 200" "length (plain_message 200 ''{}'') < 200"
  by code_simp+

theorem socket_get_delivers_witness:
  "polled_get ''/run/docker.sock'' True 1000 script_turns script_polls script_socket ''/version'' 8
    = Some (Inr (HttpStatus 200, ''{}''), http_request ''/version'')"
proof -
  have "http_response 8 \<lparr>w_bytes = plain_message 200 ''{}'' @ [], w_end = None\<rparr> = Inr (HttpStatus 200, ''{}'')"
    using http_reads_plain [of 200 "''{}''" 8 "[]" None] by (simp add: usize_max_def)
  with socket_get_delivers [OF script_connects script_steady(1), of "''/version''" script_socket 8]
    script_steady script_lengths show ?thesis
    by (simp add: script_socket_def whole_wire_def)
qed

definition cut_socket :: socket where
  "cut_socket = \<lparr>sk_incoming = ''HTTP/1.1 200 OK'', sk_polls = [go (Count 1), go TryAgain, stop]\<rparr>"

lemma cut_exchange:
  "polled_get ''/run/docker.sock'' True 1000 script_turns script_polls cut_socket ''/version'' 8
    = Some (Inl Cancelled, http_request ''/version'')"
proof -
  have "polled_until 1000 (CRLF @ CRLF) max_header_bytes [] cut_socket = Some (Inl Cancelled, \<lparr>sk_incoming = ''TTP/1.1 200 OK'', sk_polls = []\<rparr>)"
    by (subst polled_until.simps, subst polled_until.simps)
      (simp add: max_header_bytes_def poll_bind_def polled_byte_def polled_read_def poll_pure_def cut_socket_def go_def stop_def
        time_left_def remaining_def checked_sub_def ends_with_def CRLF_def)
  then have "polled_response 1000 8 cut_socket = Some (Inl Cancelled, \<lparr>sk_incoming = ''TTP/1.1 200 OK'', sk_polls = []\<rparr>)"
    by (simp add: polled_response_def poll_bind_def)
  with script_connects steady_writes [OF script_steady(1), of "http_request ''/version''" "[]"] script_steady(2) script_lengths(1)
  show ?thesis by (simp add: polled_get_def)
qed

theorem socket_get_refines_witness:
  "\<exists>r rest. http_request ''/version'' = http_request ''/version'' @ rest
     \<and> (\<forall>w. http_get ''/run/docker.sock'' r ''/version'' 8 w = Some (Inl Cancelled,
           w\<lparr>wd_sent := wd_sent w @ (if rest = [] then [http_request ''/version''] else [])\<rparr>))
     \<and> (rest = [] \<longrightarrow> (case rp_wire r of Inl _ \<Rightarrow> False | Inr wire \<Rightarrow> explains 1000 wire cut_socket))"
  by (rule socket_get_refines [OF cut_exchange])

theorem socket_get_settles_witness:
  "polled_get ''/run/docker.sock'' True 1000 (script_turns @ [connect_now stop]) (script_polls @ [stop]) cut_socket ''/info'' 1 \<noteq> None"
  by (rule socket_get_settles)
    (simp_all add: connect_now_def cut_socket_def expires_def stop_def time_left_def remaining_def)

end
