(* ===== verification/Planned_Features.thy ===== *)
theory Planned_Features
  imports Graph_Properties
begin

text \<open>
  Which capability the fields of a resource use, written per capability and apart from the order
  of checks of \<^verbatim>\<open>src/target_modules/graph.rs\<close>, and what planning with the facts of one observed
  daemon then guarantees. \<open>ValidatedCapabilities\<close> implements the planning trait in the library;
  its constructor is \<^verbatim>\<open>#[cfg(test)] pub(crate)\<close> in \<^verbatim>\<open>src/version.rs\<close>, so that outside the tests
  no value of it exists yet.
\<close>

section \<open>The capabilities the fields of a resource use\<close>

definition create_uses :: "network_create \<Rightarrow> capability \<Rightarrow> bool" where
  "create_uses n c =
     (case c of
        CapBridgeNetwork \<Rightarrow> True
      | CapNetworkInternal \<Rightarrow> create_internal n
      | CapNetworkIpv6 \<Rightarrow> create_enable_ipv6 n
      | CapNetworkIpam \<Rightarrow> \<exists>ipam. create_ipam n = Some ipam
      | CapNetworkIpamDriver \<Rightarrow> \<exists>ipam d. create_ipam n = Some ipam \<and> ipam_driver ipam = Some d
      | CapNetworkOptions \<Rightarrow> create_options n \<noteq> []
      | CapNetworkLabels \<Rightarrow> create_labels n \<noteq> []
      | _ \<Rightarrow> False)"

definition port_uses :: "port_publication \<Rightarrow> capability \<Rightarrow> bool" where
  "port_uses p c =
     (case c of
        CapPortPublish \<Rightarrow> pub_bindings p \<noteq> []
      | CapPortExposeOnly \<Rightarrow> pub_bindings p = []
      | CapPortMultipleBindings \<Rightarrow> 2 \<le> length (pub_bindings p)
      | CapPortHostIpv4 \<Rightarrow> \<exists>b \<in> set (pub_bindings p). \<exists>a. host_ip b = Address (V4 a)
      | CapPortHostIpv6 \<Rightarrow> \<exists>b \<in> set (pub_bindings p). \<exists>a. host_ip b = Address (V6 a)
      | CapPortEphemeral \<Rightarrow> \<exists>b \<in> set (pub_bindings p). host_port b = Ephemeral
      | _ \<Rightarrow> False)"

definition mount_uses :: "mount \<Rightarrow> capability \<Rightarrow> bool" where
  "mount_uses m c =
     (case c of
        CapBindMount \<Rightarrow> \<exists>b. mount_source m = Bind b
      | CapNamedVolume \<Rightarrow> \<exists>v. mount_source m = Volume v
      | CapTmpfsMount \<Rightarrow> \<exists>t. mount_source m = Tmpfs t
      | CapBindRelabelShared \<Rightarrow> mount_relabel m = Some SharedRelabel
      | CapBindRelabelPrivate \<Rightarrow> mount_relabel m = Some PrivateRelabel
      | _ \<Rightarrow> False)"

definition attachments_use :: "network_attachment list \<Rightarrow> capability \<Rightarrow> bool" where
  "attachments_use as c =
     (case c of
        CapBridgeNetwork \<Rightarrow> as \<noteq> []
      | CapNetworkMultipleAttachment \<Rightarrow> 2 \<le> length as
      | CapNetworkAliases \<Rightarrow> \<exists>a \<in> set as. attachment_aliases a \<noteq> []
      | CapNetworkStaticAddress \<Rightarrow> \<exists>a \<in> set as. attachment_ipv4 a \<noteq> None \<or> attachment_ipv6 a \<noteq> None
      | _ \<Rightarrow> False)"

definition process_uses :: "container_intent \<Rightarrow> capability \<Rightarrow> bool" where
  "process_uses k c =
     (case c of
        CapStandaloneContainer \<Rightarrow> True
      | CapEnvironmentAssignment \<Rightarrow> c_environment k \<noteq> []
      | CapCommand \<Rightarrow> \<exists>args. c_command k = Exec args
      | CapCommandClear \<Rightarrow> c_command k = Clear
      | CapEntrypoint \<Rightarrow> \<exists>args. c_entrypoint k = Exec args
      | CapEntrypointClear \<Rightarrow> c_entrypoint k = Clear
      | CapRestartPolicy \<Rightarrow> \<exists>r. c_restart k = Some r
      | _ \<Rightarrow> False)"

definition health_uses :: "healthcheck \<Rightarrow> capability \<Rightarrow> bool" where
  "health_uses h c =
     (case c of
        CapHealthcheck \<Rightarrow> \<exists>args. health_test h = HealthExec args
      | CapHealthShell \<Rightarrow> \<exists>command. health_test h = HealthShell command
      | CapHealthDisabled \<Rightarrow> health_test h = HealthDisabled
      | CapHealthStartPeriod \<Rightarrow> \<exists>n. health_start_period h = Some n
      | CapHealthStartInterval \<Rightarrow> \<exists>n. health_start_interval h = Some n
      | _ \<Rightarrow> False)"

definition settings_use :: "container_settings \<Rightarrow> capability \<Rightarrow> bool" where
  "settings_use s c =
     (case c of
        CapContainerLabels \<Rightarrow> set_labels s \<noteq> []
      | CapContainerUser \<Rightarrow> set_user s \<noteq> None
      | CapContainerWorkdir \<Rightarrow> set_working_dir s \<noteq> None
      | CapContainerHostname \<Rightarrow> set_hostname s \<noteq> None
      | CapReadOnlyRootfs \<Rightarrow> set_read_only_rootfs s \<noteq> None
      | CapContainerInit \<Rightarrow> set_init s \<noteq> None
      | CapStopSignal \<Rightarrow> set_stop_signal s \<noteq> None
      | CapStopTimeout \<Rightarrow> set_stop_timeout s \<noteq> None
      | CapMemoryLimit \<Rightarrow> set_memory_limit s \<noteq> None
      | CapPidsLimit \<Rightarrow> set_pids_limit s \<noteq> None
      | CapShmSize \<Rightarrow> set_shm_size s \<noteq> None
      | CapUlimits \<Rightarrow> set_ulimits s \<noteq> []
      | CapUlimitNofile \<Rightarrow> set_ulimits s \<noteq> []
      | CapDeviceMappings \<Rightarrow> set_devices s \<noteq> []
      | CapLinuxCapabilities \<Rightarrow> set_cap_add s \<noteq> [] \<or> set_cap_drop s \<noteq> []
      | CapCapAddNetBindService \<Rightarrow> set_cap_add s \<noteq> []
      | CapCapDropSysAdmin \<Rightarrow> set_cap_drop s \<noteq> []
      | CapSecurityOptions \<Rightarrow> set_security_options s \<noteq> []
      | CapSysctls \<Rightarrow> set_sysctls s \<noteq> []
      | CapSysctlIpv4Forward \<Rightarrow> set_sysctls s \<noteq> []
      | CapSupplementaryGroups \<Rightarrow> set_group_add s \<noteq> []
      | CapDnsServers \<Rightarrow> set_dns s \<noteq> []
      | CapExtraHosts \<Rightarrow> set_extra_hosts s \<noteq> []
      | CapLogConfig \<Rightarrow> set_log_config s \<noteq> None
      | CapLogOptionMaxSize \<Rightarrow> \<exists>l. set_log_config s = Some l \<and> log_options l \<noteq> []
      | CapUserNamespace \<Rightarrow> set_userns s \<noteq> None
      | _ \<Rightarrow> False)"

definition container_uses :: "container_intent \<Rightarrow> capability \<Rightarrow> bool" where
  "container_uses k c \<longleftrightarrow>
     process_uses k c \<or> attachments_use (c_networks k) c \<or> settings_use (c_settings k) c
     \<or> (\<exists>p \<in> set (c_ports k). port_uses p c) \<or> (\<exists>m \<in> set (c_mounts k). mount_uses m c)
     \<or> (\<exists>h. c_healthcheck k = Some h \<and> health_uses h c)"

definition uses :: "target_resource \<Rightarrow> capability \<Rightarrow> bool" where
  "uses r c =
     (case r of
        NetworkResource n \<Rightarrow>
          (case network_source n of
             CreateNetwork create \<Rightarrow> create_uses create c
           | ExternalNetwork _ internal \<Rightarrow>
               c = CapNetworkExternalReference
               \<or> c = CapNetworkExternalInternalExpectation \<and> internal \<noteq> None)
      | VolumeResource _ _ labels \<Rightarrow> c = CapNamedVolume \<or> c = CapVolumeLabels \<and> labels \<noteq> []
      | ExternalVolumeResource _ _ \<Rightarrow> c = CapVolumeExternalReference
      | ContainerResource k \<Rightarrow> container_uses k c)"

section \<open>The checks need exactly what is used\<close>

named_theorems needs_simps

definition needs :: "plan_check list \<Rightarrow> capability set" where
  "needs cs = set (concat (map needed cs))"

lemma needs_Nil [needs_simps]: "needs [] = {}"
  and needs_Need [needs_simps]: "needs (Need f c # cs) = insert c (needs cs)"
  and needs_append [needs_simps]: "needs (cs @ ds) = needs cs \<union> needs ds"
  and needs_need_if [needs_simps]: "needs (need_if b f c) = (if b then {c} else {})"
  and needs_refuse_if [needs_simps]: "needs (refuse_if b e) = {}"
  by (simp_all add: needs_def need_if_def refuse_if_def)

lemma needs_concat [needs_simps]: "needs (concat (map f xs)) = (\<Union>x \<in> set xs. needs (f x))"
  by (induction xs) (simp_all add: needs_simps)

lemma need_member [needs_simps]: "c \<in> (if b then {d} else {}) \<longleftrightarrow> b \<and> c = d"
  by simp

lemma create_needs: "c \<in> needs (network_create_checks r n) \<longleftrightarrow> create_uses n c"
  by (cases c) (auto simp: network_create_checks_def create_uses_def needs_simps option_any_def
      split: option.splits)

lemma binding_needs:
  "c \<in> needs (binding_checks b) \<longleftrightarrow>
     c = CapPortHostIpv4 \<and> (\<exists>a. host_ip b = Address (V4 a))
     \<or> c = CapPortHostIpv6 \<and> (\<exists>a. host_ip b = Address (V6 a))
     \<or> c = CapPortEphemeral \<and> host_port b = Ephemeral"
  by (auto simp: binding_checks_def needs_simps split: port_host_ip.splits ip_addr.splits)

lemma port_needs: "c \<in> needs (port_checks p) \<longleftrightarrow> port_uses p c"
  by (cases c) (auto simp: port_checks_def port_uses_def needs_simps binding_needs)

lemma mount_needs: "c \<in> needs (mount_checks m) \<longleftrightarrow> mount_uses m c"
proof (cases "mount_source m"; cases "mount_relabel m")
qed (auto simp: mount_checks_def mount_uses_def needs_simps
    split: capability.splits bind_relabel.splits)

lemma attachment_needs:
  "c \<in> needs (attachment_checks a) \<longleftrightarrow>
     c = CapNetworkAliases \<and> attachment_aliases a \<noteq> []
     \<or> c = CapNetworkStaticAddress \<and> (attachment_ipv4 a \<noteq> None \<or> attachment_ipv6 a \<noteq> None)"
  by (auto simp: attachment_checks_def needs_simps)

lemma command_needs:
  "c \<in> needs (command_checks k) \<longleftrightarrow>
     c = CapCommand \<and> (\<exists>args. c_command k = Exec args) \<or> c = CapCommandClear \<and> c_command k = Clear
     \<or> c = CapEntrypoint \<and> (\<exists>args. c_entrypoint k = Exec args)
     \<or> c = CapEntrypointClear \<and> c_entrypoint k = Clear"
  by (auto simp: command_checks_def needs_simps split: image_command.splits)

lemma health_needs: "c \<in> needs (health_checks h) \<longleftrightarrow> health_uses h c"
  by (cases c) (auto simp: health_checks_def health_uses_def needs_simps split: health_test.splits)

lemma settings_needs: "c \<in> needs (settings_checks s) \<longleftrightarrow> settings_use s c"
  unfolding settings_checks_def needs_simps Un_iff option_any_def
  by (cases c) (simp_all add: settings_use_def split: option.splits)

lemma container_needs: "c \<in> needs (container_checks mode r k) \<longleftrightarrow> container_uses k c"
proof -
  have health: "c \<in> needs (case c_healthcheck k of None \<Rightarrow> [] | Some h \<Rightarrow> health_checks h)
      \<longleftrightarrow> (\<exists>h. c_healthcheck k = Some h \<and> health_uses h c)"
    by (cases "c_healthcheck k") (simp_all add: needs_simps health_needs)
  have process: "process_uses k c \<or> attachments_use (c_networks k) c \<longleftrightarrow>
      c = CapStandaloneContainer \<or> c = CapBridgeNetwork \<and> c_networks k \<noteq> []
      \<or> c = CapNetworkMultipleAttachment \<and> 1 < length (c_networks k)
      \<or> (\<exists>a \<in> set (c_networks k). c \<in> needs (attachment_checks a))
      \<or> c = CapEnvironmentAssignment \<and> c_environment k \<noteq> []
      \<or> c \<in> needs (command_checks k) \<or> c = CapRestartPolicy \<and> c_restart k \<noteq> None"
    by (cases c) (auto simp: process_uses_def attachments_use_def attachment_needs command_needs)
  show ?thesis
    unfolding container_checks_def container_uses_def needs_simps Un_iff UN_iff health
      port_needs mount_needs settings_needs insert_iff empty_iff
    using process by blast
qed

lemma required_capabilities_used: "required_capabilities mode r = {c. uses r c}"
proof (rule set_eqI)
  fix c
  have "required_capabilities mode r = needs (resource_checks mode r)"
    by (simp add: required_capabilities_def needs_def)
  then show "c \<in> required_capabilities mode r \<longleftrightarrow> c \<in> {c. uses r c}"
    by (auto simp: resource_checks_def uses_def network_checks_def needs_simps create_needs
        container_needs split: target_resource.splits network_source.splits if_splits)
qed

section \<open>Plans from observed facts\<close>

text \<open>The scope a daemon's facts describe, and a fact that natively observed a capability in it.\<close>

definition observed_scope :: "daemon_facts \<Rightarrow> capability_scope \<Rightarrow> bool" where
  "observed_scope facts sc \<longleftrightarrow>
     scope_observation sc = df_observation facts \<and> df_release facts = Some (scope_release sc)
     \<and> df_api facts = Some (scope_api sc) \<and> scope_mode sc = df_mode facts"

definition natively_available :: "daemon_facts \<Rightarrow> capability_scope \<Rightarrow> capability \<Rightarrow> bool" where
  "natively_available facts sc c \<longleftrightarrow>
     (\<exists>f \<in> set (df_capabilities facts). fact_capability f = c \<and> fact_state f = Available
        \<and> fact_provenance f = NativeConformance \<and> fact_scope f = Some sc)"

lemma observed_scope_unique: "observed_scope facts sc \<Longrightarrow> observed_scope facts sc' \<Longrightarrow> sc = sc'"
  by (auto simp: observed_scope_def)

lemma validated_support:
  assumes "validated_capabilities_new facts = Inr v" and "observed_scope facts sc"
  shows "validated_supports v c \<longleftrightarrow> natively_available facts sc c"
proof
  assume "validated_supports v c"
  then obtain f where f: "f \<in> set (df_capabilities facts)" "fact_capability f = c" "fact_state f = Available"
    using assms(1) by (auto simp: validated_supports_def list_ex_iff validated_capabilities_new_Inr)
  with assms(1) have "fact_ok facts f" by (simp add: validated_capabilities_new_Inr)
  with f(3) obtain sc' where "fact_provenance f = NativeConformance" "fact_scope f = Some sc'"
    "observed_scope facts sc'"
    by (auto simp: fact_ok_def observed_scope_def)
  with f observed_scope_unique [OF assms(2)] show "natively_available facts sc c"
    unfolding natively_available_def by blast
qed (use assms(1) in \<open>auto simp: natively_available_def validated_supports_def list_ex_iff
    validated_capabilities_new_Inr\<close>)

lemma validated_context_scope:
  "validated_context v = Some ctx \<longleftrightarrow>
     (\<exists>sc. ctx = Observed sc \<and> observed_scope (validated_facts v) sc)"
  by (auto simp: validated_context_def observed_scope_def Let_def split: option.splits)

lemma observed_context:
  assumes "validated_capabilities_new facts = Inr v"
  obtains sc where "observed_scope facts sc" and "validated_context v = Some (Observed sc)"
proof -
  from assms obtain release api where ids: "v = ValidatedCapabilities facts"
    "df_release facts = Some release" "df_api facts = Some api"
    by (auto simp: validated_capabilities_new_Inr daemon_identified_def)
  let ?sc = "\<lparr>scope_observation = df_observation facts, scope_release = release,
    scope_api = api, scope_mode = df_mode facts\<rparr>"
  show thesis
    by (rule that [of ?sc]) (simp_all add: observed_scope_def validated_context_def ids)
qed

text \<open>C12: planning with the validated facts of one daemon never panics. The context of every plan
  is that daemon's own scope (its observation, release, API version and mode), its API is 1.x
  from 1.41 on, and each capability a field of a planned resource uses was observed as available
  by native conformance in exactly this scope. For an accepted intent a plan exists exactly when
  its references resolve, no resource is refused and all capabilities in use were so observed.\<close>

theorem planned_features_observed:
  assumes "validated_capabilities_new facts = Inr v"
  shows "docker_plan i (validated_planning v) \<noteq> None
    \<and> (\<forall>g. docker_plan i (validated_planning v) = Some (Inr g) \<longrightarrow>
         (\<exists>sc. graph_context g = Observed sc \<and> observed_scope facts sc
            \<and> api_major (scope_api sc) = 1 \<and> ApiVersion 1 41 \<le> scope_api sc
            \<and> (\<forall>r \<in> set (resources i). \<forall>c. uses r c \<longrightarrow> natively_available facts sc c)))
    \<and> (\<forall>rs. target_intent_new rs = Inr i \<longrightarrow>
         ((\<exists>g. docker_plan i (validated_planning v) = Some (Inr g)) \<longleftrightarrow>
          references_resolved rs \<and>
          (\<exists>sc. observed_scope facts sc
            \<and> api_major (scope_api sc) = 1 \<and> ApiVersion 1 41 \<le> scope_api sc
            \<and> (\<forall>r \<in> set rs. plannable (df_mode facts) r
                \<and> (\<forall>c. uses r c \<longrightarrow> natively_available facts sc c)))))"
proof (intro conjI allI impI)
  have v: "observed_source v" "validated_facts v = facts"
    using assms by (auto simp: observed_source_def validated_capabilities_new_Inr)
  obtain sc where sc: "observed_scope facts sc" and ctx: "validated_context v = Some (Observed sc)"
    using observed_context [OF assms] .
  note supported = validated_support [OF assms sc]
  have mode: "scope_mode sc = df_mode facts" using sc by (simp add: observed_scope_def)
  show "docker_plan i (validated_planning v) \<noteq> None"
    unfolding docker_plan_def by (rule observed.graph_new_returns [OF v(1) validated_planning_def])
  {
    fix g assume "docker_plan i (validated_planning v) = Some (Inr g)"
    from observed.graph_new_supported [OF validated_planning_def this [unfolded docker_plan_def]] ctx
    have g: "graph_context g = Observed sc"
      "check_target (validated_supports v) (Observed sc) (resources i) = Inr ()" by auto
    then show "\<exists>sc. graph_context g = Observed sc \<and> observed_scope facts sc
        \<and> api_major (scope_api sc) = 1 \<and> ApiVersion 1 41 \<le> scope_api sc
        \<and> (\<forall>r \<in> set (resources i). \<forall>c. uses r c \<longrightarrow> natively_available facts sc c)"
      using sc by (auto simp: check_target_Inr minimum_api_def context_api_def
          required_capabilities_used supported)
  }
  fix rs assume rs: "target_intent_new rs = Inr i"
  have "pc_context (validated_planning v) = Some (Observed sc)"
    by (simp add: validated_planning_def ctx)
  from docker_plan_decides [OF rs this]
  have "(\<exists>g. docker_plan i (validated_planning v) = Some (Inr g)) \<longleftrightarrow>
      references_resolved rs \<and> api_major (scope_api sc) = 1 \<and> ApiVersion 1 41 \<le> scope_api sc
      \<and> (\<forall>r \<in> set rs. plannable (df_mode facts) r \<and> (\<forall>c. uses r c \<longrightarrow> natively_available facts sc c))"
    by (simp add: context_api_def context_mode_def mode required_capabilities_used
        validated_planning_def supported subset_eq)
  then show "(\<exists>g. docker_plan i (validated_planning v) = Some (Inr g)) \<longleftrightarrow> references_resolved rs \<and>
      (\<exists>sc. observed_scope facts sc \<and> api_major (scope_api sc) = 1 \<and> ApiVersion 1 41 \<le> scope_api sc
        \<and> (\<forall>r \<in> set rs. plannable (df_mode facts) r
            \<and> (\<forall>c. uses r c \<longrightarrow> natively_available facts sc c)))"
    using sc observed_scope_unique [OF sc] by blast
qed

section \<open>A plan from observed facts\<close>

definition volume_scope :: capability_scope where
  "volume_scope = \<lparr>scope_observation = ObservationId 7, scope_release = EngineRelease ''29.8.1'',
     scope_api = ApiVersion 1 55, scope_mode = Rootless\<rparr>"

definition volume_facts :: daemon_facts where
  "volume_facts =
     \<lparr>df_observation = ObservationId 7, df_release = Some (EngineRelease ''29.8.1''),
      df_api = Some (ApiVersion 1 55), df_minimum_api = Some (ApiVersion 1 41), df_mode = Rootless,
      df_capabilities = [\<lparr>fact_capability = CapNamedVolume, fact_state = Available,
        fact_provenance = NativeConformance, fact_scope = Some volume_scope\<rparr>]\<rparr>"

lemma volume_facts_validated: "validated_capabilities_new volume_facts = Inr (ValidatedCapabilities volume_facts)"
  by (simp add: volume_facts_def volume_scope_def validated_capabilities_new_def validate_fact_def scope_ok_def)

text \<open>With these facts a volume without labels is planned under the daemon's scope; one with
  labels is refused, since labels of volumes were not observed.\<close>

theorem planned_features_observed_witness:
  "(\<exists>g. docker_plan (TargetIntent [sample_volume 1 ''v'']) (validated_planning (ValidatedCapabilities volume_facts))
       = Some (Inr g) \<and> graph_context g = Observed volume_scope)
   \<and> natively_available volume_facts volume_scope CapNamedVolume
   \<and> (\<nexists>g. docker_plan (TargetIntent [VolumeResource (ResourceRef 1) (TargetIdentity ''v'') [VolumeLabel ''a'' ''b'']])
        (validated_planning (ValidatedCapabilities volume_facts)) = Some (Inr g))"
proof -
  let ?v = "ValidatedCapabilities volume_facts"
  let ?l = "VolumeResource (ResourceRef 1) (TargetIdentity ''v'') [VolumeLabel ''a'' ''b'']"
  note plans = planned_features_observed [OF volume_facts_validated]
  have scope: "sc = volume_scope" if "observed_scope volume_facts sc" for sc
    using that by (rule observed_scope_unique) (simp add: observed_scope_def volume_facts_def volume_scope_def)
  have vol: "target_intent_new [sample_volume 1 ''v''] = Inr (TargetIntent [sample_volume 1 ''v''])"
    by (simp add: target_intent_new_def target_intent_new_with_orchestration_def sample_volume_def
        validate_identity_def validate_resource_def volume_labels_valid_def
        max_volume_label_count_def max_volume_label_total_bytes_def)
  have used: "uses (sample_volume 1 ''v'') c \<longleftrightarrow> c = CapNamedVolume" for c
    by (simp add: uses_def sample_volume_def)
  have nat: "natively_available volume_facts volume_scope c \<longleftrightarrow> c = CapNamedVolume" for c
    by (auto simp: natively_available_def volume_facts_def)
  have "references_resolved [sample_volume 1 ''v'']" "plannable mode (sample_volume 1 ''v'')" for mode
    by (simp_all add: references_resolved_def required_references_def sample_volume_def plannable_def
        resource_checks_def need_if_def)
  moreover have "observed_scope volume_facts volume_scope" "api_major (scope_api volume_scope) = 1"
    "ApiVersion 1 41 \<le> scope_api volume_scope"
    by (simp_all add: observed_scope_def volume_facts_def volume_scope_def)
  ultimately have "references_resolved [sample_volume 1 ''v''] \<and> (\<exists>sc. observed_scope volume_facts sc
      \<and> api_major (scope_api sc) = 1 \<and> ApiVersion 1 41 \<le> scope_api sc
      \<and> (\<forall>r \<in> set [sample_volume 1 ''v'']. plannable (df_mode volume_facts) r
          \<and> (\<forall>c. uses r c \<longrightarrow> natively_available volume_facts sc c)))"
    using used nat by auto
  with plans [of "TargetIntent [sample_volume 1 ''v'']"] vol obtain g where
    g: "docker_plan (TargetIntent [sample_volume 1 ''v'']) (validated_planning ?v) = Some (Inr g)" by blast
  with plans scope have "graph_context g = Observed volume_scope" by blast
  moreover have "docker_plan (TargetIntent [?l]) (validated_planning ?v) \<noteq> Some (Inr h)" for h
  proof
    assume "docker_plan (TargetIntent [?l]) (validated_planning ?v) = Some (Inr h)"
    with plans [of "TargetIntent [?l]"] scope have "natively_available volume_facts volume_scope CapVolumeLabels"
      by (force simp: uses_def)
    then show False by (simp add: nat)
  qed
  ultimately show ?thesis using g nat by blast
qed

end
