(* ===== verification/Http_Responses.thy ===== *)
theory Http_Responses
  imports Http_Messages
begin

text \<open>
  The responses a server may write, and what \<^verbatim>\<open>http_get\<close> reads from them: either version and any
  reason phrase in the status line, ordinary headers before and after the one that frames the body,
  names and the chunked coding in any mixture of cases, blanks around a value, and chunks of any
  size with or without extensions. \<open>Http_Messages\<close> has the readers' lemmas.
\<close>

section \<open>What a server writes\<close>

definition blank :: "char \<Rightarrow> bool" where
  "blank c \<longleftrightarrow> c = CHR '' '' \<or> c = CHR 0x09"

text \<open>A status line: version, code and an optional phrase.\<close>

definition http_version :: "bytes \<Rightarrow> bool" where
  "http_version v \<longleftrightarrow> v = ''HTTP/1.1'' \<or> v = ''HTTP/1.0''"

definition status_text :: "bytes \<Rightarrow> nat \<Rightarrow> bool" where
  "status_text l code \<longleftrightarrow> 100 \<le> code \<and> code \<le> 599
     \<and> (\<exists>version phrase. http_version version
          \<and> l = version @ '' '' @ dec code @ phrase
          \<and> (phrase = [] \<or> hd phrase = CHR '' '') \<and> line_text phrase \<and> valid_utf8 phrase)"

lemma status_textI:
  "http_version v \<Longrightarrow> 100 \<le> code \<Longrightarrow> code \<le> 599 \<Longrightarrow> phrase = [] \<or> hd phrase = CHR '' ''
     \<Longrightarrow> line_text phrase \<Longrightarrow> valid_utf8 phrase \<Longrightarrow> status_text (v @ '' '' @ dec code @ phrase) code"
  unfolding status_text_def by blast

text \<open>The line of a field: its name in any case, and blanks around its value.\<close>

definition field_line :: "bytes \<Rightarrow> bytes \<Rightarrow> bytes \<Rightarrow> bool" where
  "field_line name v l \<longleftrightarrow>
     (\<exists>n b b'. l = n @ CHR '':'' # b @ v @ b' \<and> eq_ignore_case n name
        \<and> list_all blank b \<and> list_all blank b')"

text \<open>Any other header; a content coding only when it is the identity.\<close>

definition ordinary_header :: "bytes \<Rightarrow> bool" where
  "ordinary_header l \<longleftrightarrow> line_text l \<and> valid_utf8 l
     \<and> (\<exists>n v. l = n @ CHR '':'' # v \<and> CHR '':'' \<notin> set n
          \<and> \<not> eq_ignore_case n ''content-length'' \<and> \<not> eq_ignore_case n ''transfer-encoding''
          \<and> (eq_ignore_case n ''content-encoding'' \<longrightarrow>
              (\<exists>w. eq_ignore_case w ''identity'' \<and> field_line ''content-encoding'' w l)))"

lemma ordinary_headerI:
  "line_text (n @ CHR '':'' # v) \<Longrightarrow> valid_utf8 (n @ CHR '':'' # v) \<Longrightarrow> CHR '':'' \<notin> set n
     \<Longrightarrow> \<not> eq_ignore_case n ''content-length'' \<Longrightarrow> \<not> eq_ignore_case n ''transfer-encoding''
     \<Longrightarrow> \<exists>w. eq_ignore_case w ''identity'' \<and> field_line ''content-encoding'' w (n @ CHR '':'' # v)
     \<Longrightarrow> ordinary_header (n @ CHR '':'' # v)"
  unfolding ordinary_header_def by blast

definition length_line :: "nat \<Rightarrow> bytes \<Rightarrow> bool" where
  "length_line n l \<longleftrightarrow> n \<le> usize_max \<and> field_line ''content-length'' (dec n) l"

definition chunked_line :: "bytes \<Rightarrow> bool" where
  "chunked_line l \<longleftrightarrow> (\<exists>v. eq_ignore_case v ''chunked'' \<and> field_line ''transfer-encoding'' v l)"

text \<open>The line before a chunk: its size in hexadecimal, then perhaps extensions.\<close>

definition chunk_line :: "nat \<Rightarrow> bytes \<Rightarrow> bool" where
  "chunk_line n l \<longleftrightarrow> n \<le> usize_max \<and> length l \<le> 62
     \<and> (\<exists>ext. l = hex n @ ext \<and> (ext = [] \<or> hd ext = CHR '';'') \<and> line_text ext)"

definition chunks_text :: "(bytes \<times> bytes) list \<Rightarrow> bytes \<Rightarrow> bytes" where
  "chunks_text ps final =
     concat (map (\<lambda>(l, c). l @ CRLF @ c @ CRLF) ps) @ final @ CRLF @ CRLF"

definition chunks_ok :: "(bytes \<times> bytes) list \<Rightarrow> bytes \<Rightarrow> bool" where
  "chunks_ok ps final \<longleftrightarrow> (\<forall>(l, c) \<in> set ps. c \<noteq> [] \<and> chunk_line (length c) l) \<and> chunk_line 0 final"

section \<open>Names and values\<close>

lemma lower_colon: "is_upper c \<Longrightarrow> visible c \<and> c \<noteq> CHR '':''"
  by (auto simp: is_upper_def visible_def)

text \<open>A text that equals a lower-case one up to case has only its characters and capitals.\<close>

lemma eq_ignore_case_chars:
  assumes "eq_ignore_case s t" and "ascii_lower t = t" and "c \<in> set s"
  shows "c \<in> set t \<or> is_upper c"
proof (rule disjCI)
  assume "\<not> is_upper c"
  with assms(3) have "c \<in> set (ascii_lower s)" by (force simp: ascii_lower_def)
  then show "c \<in> set t" using assms(1,2) by (simp add: eq_ignore_case_def)
qed

text \<open>The names and codings of the protocol: lower-case, visible and without a colon.\<close>

definition plain_name :: "bytes \<Rightarrow> bool" where
  "plain_name t \<longleftrightarrow> ascii_lower t = t \<and> list_all (\<lambda>c. visible c \<and> c \<noteq> CHR '':'') t \<and> t \<noteq> []"

lemma plain_names [simp]:
  "plain_name ''content-length''" "plain_name ''transfer-encoding''" "plain_name ''content-encoding''"
  "plain_name ''chunked''" "plain_name ''identity''"
  by (simp_all add: plain_name_def ascii_lower_def is_upper_def visible_def)

lemma name_visible:
  assumes "eq_ignore_case n t" and "plain_name t"
  shows "list_all visible n" and "CHR '':'' \<notin> set n" and "n \<noteq> []"
proof -
  from assms(2) have t: "ascii_lower t = t" "\<forall>c \<in> set t. visible c \<and> c \<noteq> CHR '':''" "t \<noteq> []"
    by (simp_all add: plain_name_def list_all_iff)
  have "visible c \<and> c \<noteq> CHR '':''" if "c \<in> set n" for c
    using eq_ignore_case_chars [OF assms(1) t(1) that] t(2) lower_colon by blast
  then show "list_all visible n" "CHR '':'' \<notin> set n" unfolding list_all_iff by blast+
  show "n \<noteq> []" using assms(1) t(1,3) by (auto simp: eq_ignore_case_def ascii_lower_def)
qed

lemma blank_ws: "blank c \<Longrightarrow> is_unicode_ws (codepoint [c])"
  by (auto simp: blank_def is_unicode_ws_def)

lemma blank_ascii: "blank c \<Longrightarrow> is_ascii c \<and> c \<noteq> CR \<and> c \<noteq> LF"
  by (auto simp: blank_def is_ascii_def CR_def LF_def)

lemma visible_ascii: "visible c \<Longrightarrow> is_ascii c \<and> c \<noteq> CR \<and> c \<noteq> LF"
  by (auto simp: visible_def is_ascii_def CR_def LF_def)

lemma dropWhile_blanks:
  "list_all blank b \<Longrightarrow> dropWhile (\<lambda>c. is_unicode_ws (codepoint c)) (map (\<lambda>c. [c]) b @ s)
     = dropWhile (\<lambda>c. is_unicode_ws (codepoint c)) s"
  by (induction b) (auto dest: blank_ws)

lemma dropWhile_text:
  "list_all visible v \<Longrightarrow> v \<noteq> [] \<Longrightarrow>
     dropWhile (\<lambda>c. is_unicode_ws (codepoint c)) (map (\<lambda>c. [c]) v @ s) = map (\<lambda>c. [c]) v @ s"
  using visible_not_ws by (cases v) auto

lemma trim_blanks:
  assumes "list_all blank b" and "list_all blank b'" and "list_all visible v" and "v \<noteq> []"
  shows "trim_text (b @ v @ b') = v"
proof -
  have "\<forall>c \<in> set (b @ v @ b'). is_ascii c"
    using assms blank_ascii visible_ascii unfolding list_all_iff by auto
  note chars = utf8_chars_ascii [OF this]
  have "list_all blank (rev b')" "list_all visible (rev v)" "rev v \<noteq> []" using assms by simp_all
  note ends = dropWhile_blanks [OF this(1)] dropWhile_text [OF this(2,3), of "[]"]
  show ?thesis
    using dropWhile_blanks [OF assms(1), of "map (\<lambda>c. [c]) (v @ b')"] ends
      dropWhile_text [OF assms(3,4), of "map (\<lambda>c. [c]) b'"]
    by (simp add: trim_text_def chars Let_def rev_map)
qed

lemma decimal_visible: "list_all visible (dec n)" "dec n \<noteq> []"
  using digits_visible by simp_all

section \<open>Header lines\<close>

lemma field_line_text:
  assumes "field_line name v l" and "list_all visible v"
    and "plain_name name"
  shows "line_text l \<and> l \<noteq> [] \<and> valid_utf8 l"
proof -
  obtain n b b' where l: "l = n @ CHR '':'' # b @ v @ b'" "eq_ignore_case n name"
    "list_all blank b" "list_all blank b'"
    using assms(1) unfolding field_line_def by blast
  have "list_all visible n" using name_visible(1) [OF l(2) assms(3)] .
  moreover have "is_ascii CHR '':'' \<and> CHR '':'' \<noteq> CR \<and> CHR '':'' \<noteq> LF"
    by (simp add: is_ascii_def CR_def LF_def)
  moreover have "set l = set n \<union> {CHR '':''} \<union> set b \<union> set v \<union> set b'" unfolding l(1) by auto
  moreover have "is_ascii c \<and> c \<noteq> CR \<and> c \<noteq> LF" if "list_all blank s \<or> list_all visible s" "c \<in> set s" for c s
    using that blank_ascii visible_ascii unfolding list_all_iff by blast
  ultimately have "\<forall>c \<in> set l. is_ascii c \<and> c \<noteq> CR \<and> c \<noteq> LF"
    using l(3,4) assms(2) by auto
  moreover from this have "valid_utf8 l" by (blast intro: valid_utf8_ascii)
  ultimately show ?thesis by (auto simp: line_text_def l(1))
qed

lemma field_line_splits:
  assumes "field_line name v l" and "list_all visible v" and "v \<noteq> []"
    and "plain_name name"
  obtains n r where "split_once CHR '':'' l = Some (n, r)" and "eq_ignore_case n name" and "trim_text r = v"
proof -
  obtain n b b' where l: "l = n @ CHR '':'' # b @ v @ b'" "eq_ignore_case n name"
    "list_all blank b" "list_all blank b'"
    using assms(1) unfolding field_line_def by blast
  have "CHR '':'' \<notin> set n" using name_visible(2) [OF l(2) assms(4)] .
  then have "split_once CHR '':'' l = Some (n, b @ v @ b')" by (simp add: l(1) split_once_append)
  then show thesis using that l(2) trim_blanks [OF l(3,4) assms(2,3)] by blast
qed

lemma framing_line_text:
  shows "length_line n l \<Longrightarrow> line_text l \<and> l \<noteq> [] \<and> valid_utf8 l"
    and "chunked_line l \<Longrightarrow> line_text l \<and> l \<noteq> [] \<and> valid_utf8 l"
proof -
  assume "length_line n l"
  then have "field_line ''content-length'' (dec n) l" by (simp add: length_line_def)
  from field_line_text [OF this decimal_visible(1)] show "line_text l \<and> l \<noteq> [] \<and> valid_utf8 l" by simp
next
  assume "chunked_line l"
  then obtain v where v: "eq_ignore_case v ''chunked''" "field_line ''transfer-encoding'' v l"
    unfolding chunked_line_def by blast
  from field_line_text [OF v(2) name_visible(1) [OF v(1)]] show "line_text l \<and> l \<noteq> [] \<and> valid_utf8 l"
    by simp
qed

lemma length_line_step:
  assumes "length_line n l"
  shows "header_step \<lparr>fr_length = None, fr_chunked = False\<rparr> l = Inr \<lparr>fr_length = Some n, fr_chunked = False\<rparr>"
proof -
  from assms have n: "n \<le> usize_max" and f: "field_line ''content-length'' (dec n) l"
    by (simp_all add: length_line_def)
  from framing_line_text(1) [OF assms] have ne: "l \<noteq> []" by blast
  obtain m r where "split_once CHR '':'' l = Some (m, r)" "eq_ignore_case m ''content-length''"
    "trim_text r = dec n"
    by (rule field_line_splits [OF f decimal_visible]) simp_all
  with n ne show ?thesis by (simp add: header_step_def parse_uint_dec)
qed

lemma chunked_line_step:
  assumes "chunked_line l"
  shows "header_step \<lparr>fr_length = None, fr_chunked = False\<rparr> l = Inr \<lparr>fr_length = None, fr_chunked = True\<rparr>"
proof -
  from assms obtain v where v: "eq_ignore_case v ''chunked''" and f: "field_line ''transfer-encoding'' v l"
    by (auto simp: chunked_line_def)
  from framing_line_text(2) [OF assms] have ne: "l \<noteq> []" by blast
  have "list_all visible v" "v \<noteq> []" using name_visible(1,3) [OF v] by simp_all
  then obtain m r where "split_once CHR '':'' l = Some (m, r)" "eq_ignore_case m ''transfer-encoding''"
    "trim_text r = v"
    by (rule field_line_splits [OF f]) simp_all
  moreover from this(2) have "\<not> eq_ignore_case m ''content-length''" using framing_names_differ by blast
  ultimately show ?thesis using ne v by (simp add: header_step_def)
qed

lemma ordinary_step: "ordinary_header l \<Longrightarrow> header_step fr l = Inr fr"
proof -
  assume o1: "ordinary_header l"
  then obtain n v where l: "l = n @ CHR '':'' # v" "CHR '':'' \<notin> set n"
    "\<not> eq_ignore_case n ''content-length''" "\<not> eq_ignore_case n ''transfer-encoding''"
    "eq_ignore_case n ''content-encoding'' \<longrightarrow>
       (\<exists>w. eq_ignore_case w ''identity'' \<and> field_line ''content-encoding'' w l)"
    unfolding ordinary_header_def by blast
  have split: "split_once CHR '':'' l = Some (n, v)" by (simp add: l(1) split_once_append l(2))
  have "eq_ignore_case (trim_text v) ''identity''" if coding: "eq_ignore_case n ''content-encoding''"
  proof -
    obtain w where w: "eq_ignore_case w ''identity''" "field_line ''content-encoding'' w l"
      using mp [OF l(5) coding] by (elim exE conjE)
    have "list_all visible w" "w \<noteq> []" using name_visible(1,3) [OF w(1)] by simp_all
    then obtain m r where "split_once CHR '':'' l = Some (m, r)" "trim_text r = w"
      by (rule field_line_splits [OF w(2)]) simp_all
    with split w(1) show ?thesis by simp
  qed
  with split l(1,3,4) show ?thesis by (simp add: header_step_def)
qed

lemma ordinary_fold: "\<forall>l \<in> set ls. ordinary_header l \<Longrightarrow> try_fold header_step fr ls = Inr fr"
  by (induction ls) (simp_all add: ordinary_step)

lemma fold_around:
  assumes "\<forall>l \<in> set before \<union> set after. ordinary_header l" and "header_step fr h = Inr fr'"
  shows "try_fold header_step fr ((before @ h # after) @ [[], []]) = Inr fr'"
proof -
  have "try_fold header_step fr (before @ ls) = try_fold header_step fr ls" for ls
    using assms(1) by (induction before) (simp_all add: ordinary_step)
  with assms show ?thesis
    unfolding header_fold_blank using ordinary_fold [of after fr'] by simp
qed

section \<open>Heads\<close>

lemma dec_not_ws: "c \<in> set (dec n) \<Longrightarrow> \<not> is_ascii_ws c"
  by (drule dec_digits) (auto simp: char_class_defs)

lemma status_text_parses:
  assumes "status_text l code"
  shows "parse_status l = Inr (HttpStatus (of_nat code))" and "line_text l \<and> l \<noteq> [] \<and> valid_utf8 l"
proof -
  from assms obtain version phrase where code: "100 \<le> code" "code \<le> 599"
    and l: "http_version version" "l = version @ '' '' @ dec code @ phrase"
    and phrase: "phrase = [] \<or> hd phrase = CHR '' ''" "line_text phrase" "valid_utf8 phrase"
    unfolding status_text_def by blast
  have words: "next_word (version @ CHR '' '' # s) = Some (version, CHR '' '' # s)" for s
    using l(1) unfolding http_version_def
    by (elim disjE) (simp_all add: next_word_def is_ascii_ws_def)
  have first: "next_word l = Some (version, CHR '' '' # dec code @ phrase)"
    using words [of "dec code @ phrase"] by (simp add: l(2))
  have "takeWhile (\<lambda>c. \<not> is_ascii_ws c) (dec code @ phrase) = dec code"
    using phrase(1) dec_not_ws by (cases phrase) (auto simp: takeWhile_append is_ascii_ws_def)
  moreover have "dropWhile is_ascii_ws (dec code @ phrase) = dec code @ phrase"
    using dec_not_ws [of "hd (dec code)" code] by (cases "dec code") auto
  ultimately have second: "\<exists>r. next_word (CHR '' '' # dec code @ phrase) = Some (dec code, r)"
    by (simp add: next_word_def is_ascii_ws_def)
  have "unat (of_nat code :: u16) = code" using code(2) by (simp add: unat_of_nat)
  with first second l(1) code show "parse_status l = Inr (HttpStatus (of_nat code))"
    unfolding http_version_def
    by (elim exE) (simp add: parse_status_def parse_uint_dec http_status_new_def)
  have d: "\<forall>c \<in> set (dec code). is_ascii c \<and> c \<noteq> CR \<and> c \<noteq> LF"
    using decimal_visible(1) [of code] visible_ascii unfolding list_all_iff by blast
  have v: "\<forall>c \<in> set (version @ '' ''). is_ascii c \<and> c \<noteq> CR \<and> c \<noteq> LF" "version \<noteq> []"
    using l(1) unfolding http_version_def
    by (elim disjE; simp add: is_ascii_def CR_def LF_def)+
  then have "valid_utf8 (version @ '' '')" by (blast intro: valid_utf8_ascii)
  moreover have "valid_utf8 (dec code)" using d by (intro valid_utf8_ascii) blast
  ultimately have "valid_utf8 ((version @ '' '') @ dec code @ phrase)"
    using phrase(3) by (blast intro: valid_utf8_append)
  moreover have "line_text l"
    using v(1) d phrase(2) by (auto simp: l(2) line_text_def)
  ultimately show "line_text l \<and> l \<noteq> [] \<and> valid_utf8 l" using v(2) by (simp add: l(2))
qed

lemma ordinary_text: "ordinary_header l \<Longrightarrow> line_text l \<and> l \<noteq> [] \<and> valid_utf8 l"
  by (auto simp: ordinary_header_def)

lemma valid_head: "\<forall>l \<in> set ls. valid_utf8 l \<Longrightarrow> valid_utf8 (head_text ls)"
proof -
  have "valid_utf8 CRLF" by (intro valid_utf8_ascii) (simp add: CRLF_def CR_def LF_def is_ascii_def)
  then show "\<forall>l \<in> set ls. valid_utf8 l \<Longrightarrow> valid_utf8 (head_text ls)"
    by (induction ls) (simp_all add: head_text_def valid_utf8_append)
qed

text \<open>The head of any response is read and parsed to its status and framing.\<close>

lemma response_head_read:
  assumes "status_text sl code" and "\<forall>l \<in> set before \<union> set after. ordinary_header l"
    and "line_text h \<and> h \<noteq> [] \<and> valid_utf8 h"
    and "header_step \<lparr>fr_length = None, fr_chunked = False\<rparr> h = Inr fr"
    and "fr_chunked fr \<noteq> (fr_length fr \<noteq> None)"
    and "length (head_text (sl # before @ h # after)) \<le> max_header_bytes"
  shows "http_response allow \<lparr>w_bytes = head_text (sl # before @ h # after) @ r, w_end = e\<rparr>
    = bind_res (read_body allow fr \<lparr>w_bytes = r, w_end = e\<rparr>)
        (\<lambda>body. Inr (HttpStatus (of_nat code), body))"
proof -
  let ?ls = "sl # before @ h # after"
  have lines_text: "\<forall>l \<in> set ?ls. line_text l \<and> l \<noteq> [] \<and> valid_utf8 l"
    using status_text_parses(2) [OF assms(1)] assms(2,3) ordinary_text by auto
  then have lines: "list_all (\<lambda>l. line_text l \<and> l \<noteq> []) ?ls" unfolding list_all_iff by blast
  have "parse_head (head_text ?ls) = Inr (HttpStatus (of_nat code), fr)"
    using valid_head [of ?ls] lines_text split_head [OF lines] status_text_parses(1) [OF assms(1)]
      fold_around [OF assms(2,4)] assms(5)
    by (simp add: parse_head_def)
  with read_head [OF lines _ assms(6), of r e] show ?thesis by (simp add: http_response_def)
qed

section \<open>Chunks\<close>

lemma chunk_line_reads:
  assumes "chunk_line n l"
  shows "wire_line 64 \<lparr>w_bytes = l @ CRLF @ r, w_end = e\<rparr> = Inr (l, \<lparr>w_bytes = r, w_end = e\<rparr>)"
    and "chunk_size l = Inr n"
proof -
  from assms obtain ext where n: "n \<le> usize_max" and len: "length l \<le> 62" and l: "l = hex n @ ext"
    and ext: "ext = [] \<or> hd ext = CHR '';''" "line_text ext"
    unfolding chunk_line_def by blast
  show "wire_line 64 \<lparr>w_bytes = l @ CRLF @ r, w_end = e\<rparr> = Inr (l, \<lparr>w_bytes = r, w_end = e\<rparr>)"
    using len ext(2) hex_line_text [of n] by (intro wire_line_reads) (auto simp: l line_text_def)
  have "hd (split_on CHR '';'' (s @ ext)) = s" if "CHR '';'' \<notin> set s" for s
    using that ext(1) by (induction s) (cases ext; auto split: list.splits)+
  moreover have "CHR '';'' \<notin> set (hex n)" using hex_text [of "CHR '';''" n] by (auto simp: char_class_defs)
  ultimately have "hd (split_on CHR '';'' l) = hex n" by (simp add: l)
  moreover have "hd (split_on CHR '';'' (hex n)) = hex n" using \<open>CHR '';'' \<notin> set (hex n)\<close>
    by (simp add: split_on_none)
  ultimately show "chunk_size l = Inr n" using chunk_size_hex [OF n] by (simp add: chunk_size_def)
qed

lemma read_chunks_text:
  assumes "chunks_ok ps final" and "length body \<le> allow"
  shows "read_chunks allow body \<lparr>w_bytes = chunks_text ps final @ r, w_end = e\<rparr>
    = (if length body + length (concat (map snd ps)) \<le> allow then Inr (body @ concat (map snd ps))
       else Inl (BudgetError TooManyBytes))"
  using assms
proof (induction ps arbitrary: body)
  case Nil
  then have final: "chunk_line 0 final" by (simp add: chunks_ok_def)
  have "wire_line max_header_bytes \<lparr>w_bytes = [] @ CRLF @ r, w_end = e\<rparr> = Inr ([], \<lparr>w_bytes = r, w_end = e\<rparr>)"
    by (rule wire_line_reads) (simp_all add: line_text_def max_header_bytes_def)
  then show ?case using Nil.prems(2) chunk_line_reads [OF final]
    by (subst read_chunks.simps) (simp add: chunks_text_def)
next
  case (Cons p ps)
  obtain l c where p: "p = (l, c)" by (cases p)
  have c: "c \<noteq> []" "chunk_line (length c) l" and ok: "chunks_ok ps final"
    using Cons.prems(1) by (auto simp: chunks_ok_def p)
  note line = chunk_line_reads [OF c(2)]
  let ?rest = "chunks_text ps final @ r"
  have split: "chunks_text (p # ps) final @ r = l @ CRLF @ c @ CRLF @ ?rest"
    by (simp add: chunks_text_def p)
  show ?case
  proof (cases "length c \<le> allow - length body")
    case True
    have ends: "chunk_end \<lparr>w_bytes = CRLF @ ?rest, w_end = e\<rparr> = Inr \<lparr>w_bytes = ?rest, w_end = e\<rparr>"
      by (simp add: chunk_end_Inr)
    have "read_chunks allow body \<lparr>w_bytes = l @ CRLF @ c @ CRLF @ ?rest, w_end = e\<rparr>
        = read_chunks allow (body @ c) \<lparr>w_bytes = ?rest, w_end = e\<rparr>"
      using True line ends c(1) by (subst read_chunks.simps) (simp add: wire_exact_def)
    moreover have "length (body @ c) \<le> allow" using True Cons.prems(2) by simp
    ultimately show ?thesis
      using Cons.IH [OF ok, of "body @ c"] unfolding split by (simp add: p add.assoc)
  next
    case False
    then have "read_chunks allow body \<lparr>w_bytes = l @ CRLF @ c @ CRLF @ ?rest, w_end = e\<rparr>
        = Inl (BudgetError TooManyBytes)"
      using line c(1) by (subst read_chunks.simps) simp
    with False Cons.prems(2) show ?thesis unfolding split by (simp add: p)
  qed
qed

section \<open>The round trip\<close>

text \<open>C25: whatever ordinary headers a response carries around the one that frames its body, in
  whatever case and with whatever reason phrase, a body sent with its content length or in any
  nonempty chunks is read back whole with its status, and one longer than the allowance is refused
  as too many bytes, in both framings and whatever follows on the connection.\<close>

theorem http_roundtrip:
  assumes "status_text sl code" and "\<forall>l \<in> set before \<union> set after. ordinary_header l"
    and "length (head_text (sl # before @ h # after)) \<le> max_header_bytes"
  shows "(length_line (length body) h \<longrightarrow>
      http_response allow \<lparr>w_bytes = head_text (sl # before @ h # after) @ body @ r, w_end = e\<rparr>
        = (if length body \<le> allow then Inr (HttpStatus (of_nat code), body)
           else Inl (BudgetError TooManyBytes)))
    \<and> (chunked_line h \<and> chunks_ok ps final \<longrightarrow>
      http_response allow \<lparr>w_bytes = head_text (sl # before @ h # after) @ chunks_text ps final @ r, w_end = e\<rparr>
        = (if length (concat (map snd ps)) \<le> allow then Inr (HttpStatus (of_nat code), concat (map snd ps))
           else Inl (BudgetError TooManyBytes)))"
proof (intro conjI impI)
  assume l: "length_line (length body) h"
  from response_head_read [OF assms(1,2) framing_line_text(1) [OF l] length_line_step [OF l] _ assms(3)]
  show "http_response allow \<lparr>w_bytes = head_text (sl # before @ h # after) @ body @ r, w_end = e\<rparr>
      = (if length body \<le> allow then Inr (HttpStatus (of_nat code), body)
         else Inl (BudgetError TooManyBytes))"
    by (simp add: read_body_def wire_exact_def)
next
  assume l: "chunked_line h \<and> chunks_ok ps final"
  then have h: "chunked_line h" ..
  from response_head_read [OF assms(1,2) framing_line_text(2) [OF h] chunked_line_step [OF h] _ assms(3)] l
    read_chunks_text [of ps final "[]" allow r e]
  show "http_response allow \<lparr>w_bytes = head_text (sl # before @ h # after) @ chunks_text ps final @ r, w_end = e\<rparr>
      = (if length (concat (map snd ps)) \<le> allow then Inr (HttpStatus (of_nat code), concat (map snd ps))
         else Inl (BudgetError TooManyBytes))"
    by (simp add: read_body_def)
qed

text \<open>A response with a reason phrase, other headers on both sides and a chunk with an extension;
  in one byte of allowance it is refused.\<close>

definition sample_lines :: "bytes list \<times> bytes list" where
  "sample_lines = ([''Content-Type: application/json''], [''Date: Mon'', ''Content-Encoding:identity''])"

lemma sample_lines_ordinary: "\<forall>l \<in> set (fst sample_lines) \<union> set (snd sample_lines). ordinary_header l"
proof -
  have ascii: "line_text l \<and> valid_utf8 l" if "list_all (\<lambda>c. visible c \<or> c = CHR '' '') l" for l
    using visible_line [OF that] by (blast intro: valid_utf8_ascii)
  have plain: "ordinary_header (n @ CHR '':'' # v)"
    if "list_all (\<lambda>c. visible c \<or> c = CHR '' '') (n @ CHR '':'' # v)" "CHR '':'' \<notin> set n"
      "\<forall>t \<in> {''content-length'', ''transfer-encoding'', ''content-encoding''}. \<not> eq_ignore_case n t" for n v
    using ascii [OF that(1)] that(2,3) unfolding ordinary_header_def by blast
  have identity: "field_line ''content-encoding'' ''identity'' (''Content-Encoding'' @ CHR '':'' # [] @ ''identity'' @ [])"
    unfolding field_line_def
    by (intro exI conjI, rule refl)
      (simp_all add: eq_ignore_case_def ascii_lower_def is_upper_def char_of_def bit_0)
  have "ordinary_header (''Content-Encoding'' @ CHR '':'' # ''identity'')"
    using ascii [of "''Content-Encoding:identity''"] identity
    by (intro ordinary_headerI exI [of _ "''identity''"])
      (simp_all add: visible_def eq_ignore_case_def ascii_lower_def is_upper_def char_of_def bit_0)
  moreover have "ordinary_header ''Content-Type: application/json''" "ordinary_header ''Date: Mon''"
    using plain [of "''Content-Type''" "'' application/json''"] plain [of "''Date''" "'' Mon''"]
    by (simp_all add: visible_def eq_ignore_case_def ascii_lower_def is_upper_def char_of_def bit_0)
  ultimately show ?thesis by (simp add: sample_lines_def)
qed

theorem http_roundtrip_witness:
  "\<forall>r e. http_response 10 \<lparr>w_bytes = head_text (''HTTP/1.0 200 All right'' #
        [''Content-Type: application/json''] @ ''Transfer-encoding:  CHUNKED'' # [''Date: Mon'', ''Content-Encoding:identity''])
      @ chunks_text [(''2;x=y'', ''ab''), (''1'', ''c'')] ''0'' @ r, w_end = e\<rparr> = Inr (HttpStatus 200, ''abc'')
   \<and> http_response 1 \<lparr>w_bytes = head_text (''HTTP/1.0 200 All right'' #
        [''Content-Type: application/json''] @ ''Transfer-encoding:  CHUNKED'' # [''Date: Mon'', ''Content-Encoding:identity''])
      @ chunks_text [(''2;x=y'', ''ab''), (''1'', ''c'')] ''0'' @ r, w_end = e\<rparr> = Inl (BudgetError TooManyBytes)"
    (is "\<forall>r e. ?P r e")
proof (intro allI)
  fix r e
  have dec: "dec 200 = ''200''" by (simp add: dec.simps digit_char_def)
  have "list_all (\<lambda>c. visible c \<or> c = CHR '' '') '' All right''" by (simp add: visible_def)
  from visible_line [OF this] have "line_text '' All right''" "valid_utf8 '' All right''"
    by (blast intro: valid_utf8_ascii)+
  then have "status_text (''HTTP/1.0'' @ '' '' @ dec 200 @ '' All right'') 200"
    by (intro status_textI) (simp_all add: http_version_def)
  then have status: "status_text ''HTTP/1.0 200 All right'' 200" by (simp add: dec)
  have "eq_ignore_case ''Transfer-encoding'' ''transfer-encoding''" "eq_ignore_case ''CHUNKED'' ''chunked''"
    by (simp_all add: eq_ignore_case_def ascii_lower_def is_upper_def char_of_def bit_0)
  moreover have "''Transfer-encoding:  CHUNKED'' = ''Transfer-encoding'' @ CHR '':'' # ''  '' @ ''CHUNKED'' @ []"
    "list_all blank ''  ''" "list_all blank []" by (simp_all add: blank_def)
  ultimately have chunked: "chunked_line ''Transfer-encoding:  CHUNKED''"
    unfolding chunked_line_def field_line_def by metis
  have hex: "hex 0 = ''0''" "hex 1 = ''1''" "hex 2 = ''2''" by (simp_all add: hex.simps digit_char_def)
  have line: "chunk_line n (hex n @ x)"
    if "n \<le> usize_max" "length (hex n @ x) \<le> 62" "x = [] \<or> hd x = CHR '';''" "line_text x" for n x
    using that unfolding chunk_line_def by blast
  have lines: "chunk_line 0 ''0''" "chunk_line 1 ''1''" "chunk_line 2 ''2;x=y''"
    using line [of 0 "[]", unfolded hex] line [of 1 "[]", unfolded hex] line [of 2 "'';x=y''", unfolded hex]
    by (simp_all add: line_text_def usize_max_def CR_def LF_def del: One_nat_def)
  have chunks: "chunks_ok [(''2;x=y'', ''ab''), (''1'', ''c'')] ''0''"
    using lines by (simp add: chunks_ok_def numeral_2_eq_2)
  have "length (head_text (''HTTP/1.0 200 All right'' # fst sample_lines
      @ ''Transfer-encoding:  CHUNKED'' # snd sample_lines)) \<le> max_header_bytes"
    by (simp add: sample_lines_def head_text_def CRLF_def max_header_bytes_def)
  note read = http_roundtrip [OF status sample_lines_ordinary this]
  from read [of "[]" 10 r e "[(''2;x=y'', ''ab''), (''1'', ''c'')]" "''0''"]
    read [of "[]" 1 r e "[(''2;x=y'', ''ab''), (''1'', ''c'')]" "''0''"] chunked chunks
  show "?P r e" by (simp add: sample_lines_def)
qed

end
