(* ===== verification/Long_Captures.thy ===== *)
theory Long_Captures
  imports Acquired_Captures
begin

text \<open>
  The limit of the decoder is not one of the acquisition: for every number of volumes up to the
  4096 a selector may name, a daemon that answers is read to a capture of two exchanges more, and
  for 4095 or 4096 volumes \<open>decode_capture\<close> refuses that capture.
\<close>

section \<open>The daemon\<close>

text \<open>A daemon that has every volume it is asked for, and limits that allow all requests.\<close>

definition volumes_path :: bytes where
  "volumes_path = version_path sample_api @ ''/volumes/''"

definition wide_parse :: json_parser where
  "wide_parse body =
     (if body = ''V'' then Some (VObject [(''ApiVersion'', VString ''1.44'')])
      else if body = ''I'' then Some (VObject [])
      else Some (VObject [(''Name'', VString body)]))"

definition wide_env :: environment where
  "wide_env =
     \<lparr>env_reply = (\<lambda>k path. sample_reply
        (if k = 0 then ''V'' else if k = 1 then ''I'' else drop (length volumes_path) path)),
      env_selected = 1, env_finished = 2, env_cancelled = False, env_captured = 2\<rparr>"

definition wide_limits :: limits where
  "wide_limits = \<lparr>max_requests = 5000, max_selected_resources = 5000, max_expansions = 5000,
     max_response_bytes = 8, max_total_bytes = 50000, max_elapsed = 100\<rparr>"

definition volume_name :: "nat \<Rightarrow> native_id" where
  "volume_name n = NativeId (CHR ''v'' # dec n)"

definition volume_names :: "nat \<Rightarrow> native_id list" where
  "volume_names n = map volume_name [0..<n]"

section \<open>Names\<close>

definition short_name :: "native_id \<Rightarrow> bool" where
  "short_name i \<longleftrightarrow> list_all is_alnum (id_text i) \<and> id_text i \<noteq> [] \<and> hd (id_text i) = CHR ''v''
     \<and> length (id_text i) \<le> 8"

lemma volume_name_short: "n < 4096 \<Longrightarrow> short_name (volume_name n)"
proof -
  assume "n < 4096"
  then have "length (dec n) \<le> 4" by (intro dec_length) simp_all
  moreover have "\<forall>c \<in> set (dec n). is_alnum c" using dec_digits by (auto simp: char_class_defs)
  ultimately show "short_name (volume_name n)"
    by (simp add: short_name_def volume_name_def list_all_iff char_class_defs)
qed

lemma volume_names_distinct: "distinct (volume_names n)"
  by (simp add: volume_names_def distinct_map inj_on_def volume_name_def dec_inject)

lemma volume_names_short: "n \<le> 4096 \<Longrightarrow> i \<in> set (volume_names n) \<Longrightarrow> short_name i"
  using volume_name_short by (auto simp: volume_names_def)

lemma volume_names_length: "length (volume_names n) = n"
  by (simp add: volume_names_def)

lemma encode_alnum:
  "\<forall>c \<in> set s. is_alnum c \<Longrightarrow> concat (map (\<lambda>c. if is_alnum c \<or> c \<in> S then [c] else f c) s) = s"
  by (induction s) simp_all

lemma short_name_path:
  assumes "short_name i"
  shows "request_path (InspectVolume i) (Some sample_api) = Inr (volumes_path @ id_text i)"
proof -
  from assms have "\<forall>c \<in> set (id_text i). is_alnum c" and len: "length (id_text i) \<le> 8"
    by (auto simp: short_name_def list_all_iff)
  from encode_alnum [OF this(1), of "{CHR ''-'', CHR ''.'', CHR ''_'', CHR ''~''}" "\<lambda>c. ''%'' @ upper_hex2 c"]
  have "encode_segment i = Inr (id_text i)" using len by (simp add: encode_segment_def)
  then show ?thesis by (simp add: request_path_def volumes_path_def version_path_def)
qed

lemma short_name_body:
  assumes "short_name i"
  shows "wide_parse (id_text i) = Some (VObject [(''Name'', VString (id_text i))])"
  using assms by (auto simp: wide_parse_def short_name_def)

section \<open>The budget during the run\<close>

text \<open>After \<open>k\<close> volumes, with the given ones to come.\<close>

definition ready :: "nat \<Rightarrow> native_id list \<Rightarrow> budget \<Rightarrow> bool" where
  "ready k is b \<longleftrightarrow> b_limits b = wide_limits \<and> \<not> b_failed b \<and> b_pending b = None
     \<and> b_requests b = k + 2 \<and> length (b_exchanges b) = k + 2 \<and> b_expansions b = k
     \<and> total_bytes (b_exchanges b) = Some (b_bytes b) \<and> b_bytes b \<le> 2 + 8 * k
     \<and> (\<forall>j. k < j \<and> j \<le> 4096 \<longrightarrow> b_ids b (ResourceRef (of_nat j)) = None)
     \<and> (\<forall>i \<in> set is. b_refs b (ClassVolume, i) = None)"

lemma small_word: "j \<le> 4097 \<Longrightarrow> unat (of_nat j :: u64) = j"
  by (simp add: unat_of_nat)

lemma small_refs: "j \<le> 4097 \<Longrightarrow> k \<le> 4097 \<Longrightarrow> (of_nat j :: u64) = of_nat k \<longleftrightarrow> j = k"
  by (metis small_word)

lemma small_next:
  assumes "k \<le> 4096"
  shows "checked_add_one (of_nat k :: u64) = Some (of_nat (Suc k))"
proof -
  have "(of_nat k :: u64) \<noteq> - 1"
  proof
    assume "(of_nat k :: u64) = - 1"
    then have "unat (of_nat k :: u64) = unat (- 1 :: u64)" by simp
    with small_word [of k] assms show False by (simp add: unsigned_minus_1_eq_mask mask_eq_exp_minus_1)
  qed
  then show ?thesis by (simp add: checked_add_one_def add.commute)
qed

text \<open>The budget after the request for a volume, and after its response.\<close>

definition asked :: "native_id \<Rightarrow> resource_ref \<Rightarrow> budget \<Rightarrow> budget" where
  "asked i r b = b\<lparr>b_requests := b_requests b + 1, b_expansions := b_expansions b + 1,
     b_pending := Some \<lparr>pr_request = InspectVolume i, pr_resource = Some r, pr_api = Some sample_api\<rparr>,
     b_ids := (b_ids b)(r \<mapsto> (ClassVolume, i)), b_refs := (b_refs b)((ClassVolume, i) \<mapsto> r)\<rparr>"

definition answered :: "native_id \<Rightarrow> resource_ref \<Rightarrow> budget \<Rightarrow> budget" where
  "answered i r b = (asked i r b)\<lparr>b_pending := None, b_bytes := b_bytes b + length (id_text i),
     b_exchanges := b_exchanges b @ [made (InspectVolume i) (Some r) (Some sample_api) (id_text i)]\<rparr>"

lemma volume_asked:
  assumes "ready k (i # is) b" and "k < 4096" and "r = ResourceRef (of_nat (Suc k))"
  shows "record_request 1 (InspectVolume i) (Some r) (Some sample_api) b = Some (Inr (), asked i r b)"
proof -
  from assms have "b_ids b r = None" "b_refs b (ClassVolume, i) = None" by (auto simp: ready_def)
  with assms show ?thesis
    by (simp add: ready_def budget_run_defs wide_limits_def asked_def)
qed

lemma volume_answered:
  assumes "ready k (i # is) b" and "k < 4096" and "short_name i"
  shows "allowance (asked i r b) = Some 8"
    and "read_response 1 1 (HttpStatus 200) \<lparr>rd_bytes = id_text i, rd_fails = False\<rparr> (asked i r b)
      = Some (Inr (id_text i), answered i r b)"
proof -
  from assms have b: "b_bytes b \<le> 2 + 8 * k" "b_limits b = wide_limits" "\<not> b_failed b"
    and len: "length (id_text i) \<le> 8"
    by (simp_all add: ready_def short_name_def)
  have room: "b_bytes b \<le> 32770" using b(1) assms(2) by simp
  with b(2) show allow: "allowance (asked i r b) = Some 8"
    by (simp add: allowance_def asked_def wide_limits_def checked_sub_def)
  show "read_response 1 1 (HttpStatus 200) \<lparr>rd_bytes = id_text i, rd_fails = False\<rparr> (asked i r b)
      = Some (Inr (id_text i), answered i r b)"
    using allow b len room
    by (simp add: read_response_def and_then_def check_time_def ok_def read_up_to_def saturating_add_def
        usize_max_def store_exchange_def Let_def asked_def answered_def wide_limits_def made_def)
qed

lemma answered_ready:
  assumes "ready k (i # is) b" and "distinct (i # is)" and "k < 4096" and "short_name i"
    and "r = ResourceRef (of_nat (Suc k))"
  shows "ready (Suc k) is (answered i r b)"
proof -
  have len: "length (id_text i) \<le> 8" using assms(4) by (simp add: short_name_def)
  have "b_bytes b + length (id_text i) \<le> usize_max"
    using assms(1,3) len by (simp add: ready_def usize_max_def)
  then have total_now: "total_bytes (b_exchanges (answered i r b)) = Some (b_bytes (answered i r b))"
    using assms(1) by (simp add: answered_def asked_def ready_def total_bytes_snoc add_body_def checked_add_def made_def)
  have "b_ids (answered i r b) (ResourceRef (of_nat j)) = None" if "Suc k < j" "j \<le> 4096" for j
    using assms(1,3,5) that small_refs [of j "Suc k"] by (simp add: answered_def asked_def ready_def)
  moreover have "\<forall>x \<in> set is. b_refs (answered i r b) (ClassVolume, x) = None"
    using assms(1,2) by (auto simp: answered_def asked_def ready_def)
  ultimately show ?thesis
    using assms(1) total_now len by (simp add: ready_def answered_def asked_def)
qed

lemma volume_visited:
  assumes "ready k (i # is) b" and "distinct (i # is)" and "k < 4096" and "short_name i"
    and "rn_next st = of_nat (Suc k)"
  shows "\<exists>st' b' sent'. visit_volume wide_env ''/s'' wide_parse sample_api s st i \<lparr>wd_budget = b, wd_sent = sent\<rparr>
      = Some (Inr st', \<lparr>wd_budget = b', wd_sent = sent'\<rparr>)
    \<and> ready (Suc k) is b' \<and> rn_next st' = of_nat (Suc (Suc k))"
proof -
  let ?r = "ResourceRef (rn_next st)" and ?t = "id_text i"
  have r: "?r = ResourceRef (of_nat (Suc k))" using assms(5) by simp
  have len: "length ?t \<le> 8" using assms(4) by (simp add: short_name_def)
  have "env_reply wide_env (b_requests b) (volumes_path @ ?t) = sample_reply ?t"
    using assms(1) by (simp add: wide_env_def ready_def)
  from sample_exchange_step [OF short_name_path [OF assms(4)] volume_asked [OF assms(1,3) r]
      volume_answered(1) [OF assms(1,3,4)] len len volume_answered(2) [OF assms(1,3,4)] this]
  have ex: "exchange wide_env ''/s'' (InspectVolume i) (Some ?r) (Some sample_api) \<lparr>wd_budget = b, wd_sent = sent\<rparr>
    = Some (Inr ?t, \<lparr>wd_budget = answered i ?r b, wd_sent = sent @ [http_request (volumes_path @ ?t)]\<rparr>)" .
  have same: "inspect_identity wide_parse ?t ''Name'' i = Inr ()"
    by (simp add: inspect_identity_def short_name_body [OF assms(4)] get_str_def json_get_def)
  have "checked_add_one (rn_next st) = Some (of_nat (Suc (Suc k)))"
    using small_next [of "Suc k"] assms(3,5) by simp
  then obtain st' where st': "take_reference RootVolume reason st = Inr st'" "rn_next st' = of_nat (Suc (Suc k))"
    if "reason = (case s of VolumeNames _ \<Rightarrow> Some ExactVolumeName | _ \<Rightarrow> None)" for reason
    by (simp add: take_reference_def)
  from st' [OF refl] ex same answered_ready [OF assms(1-4) r] show ?thesis
    by (simp add: visit_volume_def act_bind_def pure_act_def Let_def)
qed

lemma volumes_visited:
  "ready k is b \<Longrightarrow> distinct is \<Longrightarrow> k + length is \<le> 4096 \<Longrightarrow> \<forall>i \<in> set is. short_name i
     \<Longrightarrow> rn_next st = of_nat (Suc k) \<Longrightarrow>
   \<exists>st' b' sent'. act_fold (visit_volume wide_env ''/s'' wide_parse sample_api s) st is
        \<lparr>wd_budget = b, wd_sent = sent\<rparr>
      = Some (Inr st', \<lparr>wd_budget = b', wd_sent = sent'\<rparr>) \<and> ready (k + length is) [] b'"
proof (induction "is" arbitrary: k b st sent)
  case Nil
  then show ?case by (simp add: pure_act_def)
next
  case (Cons i "is")
  have "k < 4096" "short_name i" using Cons.prems by simp_all
  from volume_visited [OF Cons.prems(1,2) this Cons.prems(5)] obtain st1 b1 sent1 where
    one: "visit_volume wide_env ''/s'' wide_parse sample_api s st i \<lparr>wd_budget = b, wd_sent = sent\<rparr>
      = Some (Inr st1, \<lparr>wd_budget = b1, wd_sent = sent1\<rparr>)"
    and "ready (Suc k) is b1" "rn_next st1 = of_nat (Suc (Suc k))" by blast
  from Cons.IH [OF this(2) _ _ _ this(3), of sent1] Cons.prems(2-4) one show ?case
    by (simp add: act_bind_def)
qed

section \<open>The run\<close>

definition first_budget :: "nat \<Rightarrow> captured_exchange list \<Rightarrow> budget" where
  "first_budget selected es =
     \<lparr>b_observation = ObservationId 1, b_limits = wide_limits, b_requests = length es,
      b_selected = selected, b_expansions = 0, b_bytes = length es, b_pending = None, b_exchanges = es,
      b_ids = Map.empty, b_refs = Map.empty, b_failed = False\<rparr>"

lemma wide_version:
  "exchange wide_env ''/s'' DaemonVersion None None \<lparr>wd_budget = first_budget 0 [], wd_sent = sent\<rparr>
   = Some (Inr ''V'', \<lparr>wd_budget = first_budget 0 (take 1 sample_exchanges), wd_sent = sent @ [http_request ''/version'']\<rparr>)"
  by (rule sample_exchange_step [where k = 8 and
      u = "(first_budget 0 [])\<lparr>b_requests := 1, b_pending := Some
        \<lparr>pr_request = DaemonVersion, pr_resource = None, pr_api = None\<rparr>\<rparr>", OF sample_paths(1)])
    (simp_all add: budget_run_defs first_budget_def wide_limits_def sample_exchanges_def made_def wide_env_def)

lemma wide_info:
  "exchange wide_env ''/s'' DaemonInfo None (Some sample_api)
      \<lparr>wd_budget = first_budget 0 (take 1 sample_exchanges), wd_sent = sent\<rparr>
   = Some (Inr ''I'', \<lparr>wd_budget = first_budget 0 (take 2 sample_exchanges),
        wd_sent = sent @ [http_request (version_path sample_api @ ''/info'')]\<rparr>)"
  by (rule sample_exchange_step [where k = 8 and
      u = "(first_budget 0 (take 1 sample_exchanges))\<lparr>b_requests := 2, b_pending := Some
        \<lparr>pr_request = DaemonInfo, pr_resource = None, pr_api = Some sample_api\<rparr>\<rparr>", OF sample_paths(2)])
    (simp_all add: budget_run_defs first_budget_def wide_limits_def sample_exchanges_def made_def wide_env_def)

lemma wide_negotiated: "negotiated_api wide_parse ''V'' = Inr sample_api"
proof -
  have "negotiated_api wide_parse ''V'' = negotiated_api sample_parse ''V''"
    by (simp add: negotiated_api_def wide_parse_def sample_parse_def)
  then show ?thesis by (simp add: sample_negotiated)
qed

lemma wide_first_ready: "ready 0 is (first_budget n (take 2 sample_exchanges))"
  by (simp add: ready_def first_budget_def sample_exchanges_def made_def total_bytes_sum usize_max_def)

lemma volumes_selected:
  assumes "distinct is" and "length is \<le> 4096" and "\<forall>i \<in> set is. short_name i"
  shows "\<exists>st b sent'. visit_all wide_env ''/s'' wide_parse sample_api (VolumeNames is) []
        \<lparr>wd_budget = first_budget 0 (take 2 sample_exchanges), wd_sent = sent\<rparr>
      = Some (Inr st, \<lparr>wd_budget = b, wd_sent = sent'\<rparr>) \<and> ready (length is) [] b"
proof -
  let ?vs = "sort_key id_text (keep_new [] is)" and ?st = "initial_run (VolumeNames is)"
  have kept: "set (keep_new [] is) = set is" "distinct (keep_new [] is)"
    by (simp_all add: keep_new_set keep_new_distinct)
  then have len: "length (keep_new [] is) = length is" using assms(1) by (metis distinct_card)
  have sel: "record_selection 1 (length is) (first_budget 0 (take 2 sample_exchanges))
      = Some (Inr (), first_budget (length is) (take 2 sample_exchanges))"
    using assms(2) by (simp add: budget_run_defs first_budget_def wide_limits_def sample_exchanges_def)
  have st: "rn_networks ?st = []" "rn_volumes ?st = keep_new [] is" "rn_next ?st = of_nat (Suc 0)"
    by (simp_all add: initial_run_def)
  from volumes_visited [of 0 ?vs "first_budget (length is) (take 2 sample_exchanges)" ?st
      "VolumeNames is" sent] wide_first_ready kept len assms(2,3) st(3)
  obtain st' b sent' where "act_fold (visit_volume wide_env ''/s'' wide_parse sample_api (VolumeNames is)) ?st ?vs
      \<lparr>wd_budget = first_budget (length is) (take 2 sample_exchanges), wd_sent = sent\<rparr>
    = Some (Inr st', \<lparr>wd_budget = b, wd_sent = sent'\<rparr>)" "ready (length is) [] b"
    by auto
  moreover have "env_selected wide_env = 1" by (simp add: wide_env_def)
  ultimately show ?thesis
    using sel st len
    by (simp add: visit_all_def act_bind_def act_budget_def budget_error_def pure_act_def Let_def)
qed

lemma ready_finishes:
  assumes "ready k [] b" and "k \<le> 4096"
  shows "\<exists>c. finish wide_env s st \<lparr>wd_budget = b, wd_sent = sent\<rparr> = Inr c
    \<and> cap_exchanges c = b_exchanges b"
  using assms
  by (cases "s = Discovery")
    (simp_all add: ready_def finish_def remaining_def checked_sub_def into_capture_def from_completed_def
      counts_def wide_limits_def wide_env_def budget_error_def with_explicit_socket_def
      with_network_name_fallbacks_def with_selector_def with_selected_roots_def with_discovery_only_def
      Let_def split: selector.split)

text \<open>A daemon with the volumes asked for is read to a capture of two exchanges more than volumes,
  within the limits, for every number of volumes the selector may name.\<close>

theorem volumes_acquired:
  assumes "0 < n" and "n \<le> 4096"
  shows "\<exists>c sent. acquire wide_env ''/s'' wide_parse (VolumeNames (volume_names n)) wide_limits 1
      = Some (Inr c, sent) \<and> length (cap_exchanges c) = n + 2"
proof -
  let ?is = "volume_names n" and ?sent = "[http_request ''/version'', http_request (version_path sample_api @ ''/info'')]"
  have short: "\<forall>i \<in> set ?is. short_name i" using assms(2) volume_names_short by blast
  have len: "length ?is = n" by (rule volume_names_length)
  obtain st b sent' where run: "visit_all wide_env ''/s'' wide_parse sample_api (VolumeNames ?is) []
        \<lparr>wd_budget = first_budget 0 (take 2 sample_exchanges), wd_sent = ?sent\<rparr>
      = Some (Inr st, \<lparr>wd_budget = b, wd_sent = sent'\<rparr>)" "ready n [] b"
    using volumes_selected [OF volume_names_distinct, of n ?sent] short assms(2) len by auto
  obtain c where c: "finish wide_env (VolumeNames ?is) st \<lparr>wd_budget = b, wd_sent = sent'\<rparr> = Inr c"
    "cap_exchanges c = b_exchanges b" using ready_finishes [OF run(2) assms(2)] by blast
  have valid: "valid_volume_name (id_text i)" if "i \<in> set ?is" for i
    using short that
    by (auto simp: short_name_def valid_volume_name_def valid_literal_name_def strip_slash_def starts_with_def
        list_all_iff char_class_defs Let_def neq_Nil_conv)
  have "?is \<noteq> []" using len assms(1) by (metis length_0_conv less_irrefl)
  moreover have "\<not> over_limit wide_limits ?is"
    using len assms(2) by (simp add: over_limit_def wide_limits_def max_items_def)
  ultimately have "validate_selector (VolumeNames ?is) wide_limits = Inr ()"
    using valid by (auto simp: validate_selector_def validate_names_def list_ex_iff)
  moreover have "fst (budget_new wide_limits 1) = Inr (first_budget 0 [])"
    by (simp add: budget_new_def limits_validate_def wide_limits_def usize_max_def fresh_def
        checked_add_one_def first_budget_def)
  moreover have "acquire_from wide_env ''/s'' wide_parse (VolumeNames ?is)
      \<lparr>wd_budget = first_budget 0 [], wd_sent = []\<rparr>
    = Some (Inr c, \<lparr>wd_budget = b, wd_sent = sent'\<rparr>)"
    using run(1) c(1)
    by (simp add: acquire_from_def act_bind_def pure_act_def wide_version wide_negotiated
        wide_info [unfolded One_nat_def] selected_containers_def)
  moreover have "length (cap_exchanges c) = n + 2" using c(2) run(2) by (simp add: ready_def)
  ultimately show ?thesis by (simp add: acquire_def)
qed

text \<open>With 4096 volumes, as many as a selector may name, the crate does not decode what it acquired.\<close>

theorem long_capture_refused:
  "\<exists>c sent. acquire wide_env ''/s'' wide_parse (VolumeNames (volume_names 4096)) wide_limits 1 = Some (Inr c, sent)
     \<and> length (cap_exchanges c) = 4098 \<and> decode_capture wide_parse c = Inl CollectionTooLarge"
  using volumes_acquired [of 4096] by (force simp: decode_capture_def decoder_max_items_def)

end
