(* ===== verification/Spec2Isabelle.thy ===== *)
theory Spec2Isabelle
  imports Render_Properties Prerequisites Acquired_Captures Compiled_Plans Socket_Polling
    Planned_Features Http_Responses Long_Captures
begin

text \<open>
  A verification development for docker-lens, a Rust library that turns authored, standalone
  container, network and volume intents into inert Docker Engine requests, gated by reviewed or
  observed capabilities of the target. Paths are relative to the crate, \<^verbatim>\<open>src/src\<close>. A caller builds
  resources with checking constructors, validates them together as a \<^verbatim>\<open>TargetIntent\<close>, plans them
  against the capabilities of a target (reviewed offline, or observed on one daemon) to an
  \<^verbatim>\<open>OperationGraph\<close>, and renders the graph to text. Nothing is executed. The other half reads: it
  acquires a bounded capture of a daemon's inventory over a local socket, decodes it, and assesses
  the network prerequisites of a rendered artifact against it.

  \<^bold>\<open>Conventions.\<close> \<^bold>\<open>Rust_Prelude\<close>, \<^bold>\<open>Rust_Text\<close> and \<^bold>\<open>Ip_Address\<close> model what the crate uses of Rust and
  its standard library: early return (\<open>bind_res\<close>, \<open>try_fold\<close>, \<open>checks\<close>), UTF-8 and Unicode white
  space, integer parsing and printing, IP addresses with their text form. A \<^verbatim>\<open>Result\<close> is a sum with
  the error left; a panic is the \<open>None\<close> of an outer option, or \<open>Panics\<close> in the renderer; a machine
  integer is a word of its width, \<^verbatim>\<open>usize\<close> a natural number; a byte string is a list of characters;
  a hash set used only for membership is a list, and where the iteration order of a hash map can
  be seen, the theorem holds for every order (\<open>kahn_verdict\<close>). A private field with an accessor is a
  record field. A reading of the clock is an argument, a time since the start in nanoseconds; in
  the acquisition \<^verbatim>\<open>usize\<close> is bounded by \<open>usize_max\<close> (64 bits) where overflow is checked. The parser
  \<^verbatim>\<open>serde_json::from_slice\<close> is a parameter of every definition that parses a body, a function from
  bytes to an optional value (\<open>Native_Json\<close>); no property assumes anything of it but
  \<open>reviewed_catalog_built\<close>, that it reads the four checked-in documents as what they are.

  \<^bold>\<open>The theories\<close>, in the order of their imports:
  \<^item> \<^bold>\<open>Observations\<close>: \<^verbatim>\<open>observation.rs\<close>, \<^verbatim>\<open>finding.rs\<close>, \<^verbatim>\<open>resource_support.rs\<close> and the identity counter.
    Identities are never reused; support is assessed only within one observation.
  \<^item> \<^bold>\<open>Capabilities\<close>, \<^bold>\<open>Capability_Shapes\<close>, \<^bold>\<open>Capability_Catalog\<close>: \<^verbatim>\<open>version.rs\<close>, with the admission gate
    of reviewed records, the two tables between capabilities and native shapes, and lookup. The
    gate accepts exactly the complete, well-evidenced records; what is supported was reviewed, or
    observed on that daemon.
  \<^item> \<^bold>\<open>Reviewed_Catalog\<close>, \<^bold>\<open>Reviewed_Documents\<close>, \<^bold>\<open>Compiled_Plans\<close>: \<^verbatim>\<open>reviewed_catalog.rs\<close>, the checked-in
    documents (\<^verbatim>\<open>docs/evidence/reviewed\<close>) as values, and planning with the catalog they give. No document can
    extend the reviewed cohort; the catalog is built of the four; plans are decided by the cohort.
  \<^item> \<^bold>\<open>Networks\<close>, \<^bold>\<open>Newtypes\<close>, \<^bold>\<open>Containers\<close>: \<^verbatim>\<open>target_modules/network.rs\<close>, \<^verbatim>\<open>container.rs\<close>, \<^verbatim>\<open>volume.rs\<close>.
    Subnets are intervals of addresses; the locale of \<open>Newtypes\<close> states once what a checking
    constructor promises and is interpreted for every one of them; \<open>container_built\<close> collects it.
  \<^item> \<^bold>\<open>Intents\<close>, \<^bold>\<open>Intent_Spec\<close>, \<^bold>\<open>Intent_Properties\<close>: \<^verbatim>\<open>target_modules/intent.rs\<close>, its declarative
    specification \<open>wf_intent\<close>, and what acceptance guarantees: disjoint ports, pools and addresses,
    whatever the order of the resources.
  \<^item> \<^bold>\<open>Planning\<close>, \<^bold>\<open>Dependency_Order\<close>, \<^bold>\<open>Graphs\<close>, \<^bold>\<open>Graph_Properties\<close>: \<^verbatim>\<open>target_modules/graph.rs\<close>: the checks
    in the order of the code, Kahn's worklist, the steps, the planner. The worklist decides
    acyclicity, the planner's nodes are always accepted, a plan needs only supported capabilities.
    A locale of capability sources is interpreted for the offline and the observed source.
  \<^item> \<^bold>\<open>Planned_Features\<close>: which capability each field of a resource uses, per capability and apart from
    the code's order of checks, and plans from the facts of one daemon: they carry its own scope
    (\<open>observed_scope\<close>) and use what was natively observed in it. \<^verbatim>\<open>ValidatedCapabilities\<close> is a planning
    source of the library; its constructor is for tests only (\<^verbatim>\<open>#[cfg(test)]\<close>).
  \<^item> \<^bold>\<open>Json_Text\<close>: a JSON reader, the specification the renderers are measured against.
  \<^item> \<^bold>\<open>Render_Text\<close>, \<^bold>\<open>Render_Requests\<close>, \<^bold>\<open>Rendering\<close>: \<^verbatim>\<open>target_modules/render.rs\<close> and its modules
    \<^verbatim>\<open>container.rs\<close> and \<^verbatim>\<open>network.rs\<close>, byte for byte, errors and panics included.
  \<^item> \<^bold>\<open>Render_Documents\<close>, \<^bold>\<open>Render_Order\<close>, \<^bold>\<open>Render_Complete\<close>, \<^bold>\<open>Render_Keys\<close>, \<^bold>\<open>Render_Properties\<close>: the
    documents the texts must parse to, the emission loop, the complete artifact, and that no
    object repeats a key.
  \<^item> \<^bold>\<open>Acquisition_Data\<close>, \<^bold>\<open>Budgets\<close>: the data of \<^verbatim>\<open>acquisition.rs\<close> and \<^verbatim>\<open>evidence.rs\<close>, and the budget as a
    state machine (\<open>budget_step\<close>, \<open>reachable\<close>) with its invariant \<open>budget_ok\<close>. The locale
    \<open>budget_operation\<close> states what every call promises and is interpreted for all four.
  \<^item> \<^bold>\<open>Native_Json\<close>, \<^bold>\<open>Acquisition_Selection\<close>: parsed values, request paths, version negotiation, the
    validation of selectors, and what is read from list and inspect responses.
  \<^item> \<^bold>\<open>Http_Wire\<close>, \<^bold>\<open>Http_Messages\<close>, \<^bold>\<open>Request_Paths\<close>: the HTTP client on a wire of bytes that ends or
    fails, the lemmas of its readers, and the requests it can write.
  \<^item> \<^bold>\<open>Http_Responses\<close>: the responses a server may write (\<open>status_text\<close>, \<open>ordinary_header\<close>, \<open>length_line\<close>,
    \<open>chunked_line\<close>, \<open>chunks_text\<close>): phrases, other headers in any case, both framings, chunk extensions;
    they are read back whole, and refused when longer than the allowance.
  \<^item> \<^bold>\<open>Acquisition\<close>, \<^bold>\<open>Acquisition_Runs\<close>, \<^bold>\<open>Acquisition_Properties\<close>: \<^verbatim>\<open>exchange\<close> and \<^verbatim>\<open>acquire\<close> as actions on
    the budget and the log of written bytes, against an environment that answers each request. The
    triples \<open>act_spec\<close> are total: a run never panics, only reads, and inspects exactly what the
    selection calls for.
  \<^item> \<^bold>\<open>Socket_Polling\<close>: the loops of connect, read and write over scripts of what the system answers, and
    the client over them. It refines the client over a wire, ends with every cancellation or deadline,
    and returns the response however its bytes are cut; a locale of scripts that suffice is
    interpreted for scripts that run out of time and for scripts that answer every byte.
  \<^item> \<^bold>\<open>Inventory\<close>, \<^bold>\<open>Mount_Modes\<close>, \<^bold>\<open>Prerequisites\<close>: the decoded inventory, \<^verbatim>\<open>decoder_mount_mode.rs\<close> against
    a declarative reading of its tokens, and \<^verbatim>\<open>target_modules/prerequisite.rs\<close>.
  \<^item> \<^bold>\<open>Decoder_Fields\<close>, \<^bold>\<open>Decoder_Resources\<close>, \<^bold>\<open>Decoder\<close>: \<^verbatim>\<open>decoder.rs\<close>, the field readers, the resources in
    the order their fields are read, and \<^verbatim>\<open>decode_capture\<close> as a fold over the exchanges with the
    checks after it.
  \<^item> \<^bold>\<open>Decoder_Steps\<close>, \<^bold>\<open>Decoder_Properties\<close>, \<^bold>\<open>Decoder_Facts\<close>, \<^bold>\<open>Decoder_Values\<close>, \<^bold>\<open>Decoder_Samples\<close>:
    the effect of one exchange, the invariants of the fold, what an inventory says of its capture,
    of the daemon and of each field, and a decoded sample.
  \<^item> \<^bold>\<open>Decoder_Errors\<close>, \<^bold>\<open>Acquired_Inventories\<close>, \<^bold>\<open>Acquired_Decoding\<close>, \<^bold>\<open>Acquired_Captures\<close>: the two halves
    of the reader together. Where each error of the decoder comes from, what \<open>acquire\<close> keeps of every
    response (\<open>act_post\<close>), and that the checks of the decoder hold of all that \<open>acquire\<close> returns, up to the
    4096 exchanges a capture of the decoder may have. \<open>acquire\<close> does not keep that limit: in
    \<^bold>\<open>Long_Captures\<close> it reads 4096 volumes to 4098 exchanges, and \<open>decode_capture\<close> refuses them.

  \<^bold>\<open>Termination and fuel.\<close> Every function of the model is total. Kahn's loop ends because each
  round takes a reference off the worklist or lowers the number of positive counts; the emission
  loop because each round emits a node; the readers of the wire because each step uses up bytes or
  room (\<open>shortens\<close>); a loop over polls ends with its script, \<open>None\<close> where the script is too short,
  and \<open>socket_get_settles\<close>, \<open>socket_get_delivers\<close> say which scripts suffice. \<open>parse_value\<close> of the JSON reader has fuel: the number of
  tokens, which \<open>parse_value_tokens\<close> shows to be enough for every document.

  \<^bold>\<open>Not modelled:\<close> the test-only \<^verbatim>\<open>diagnostic_get\<close>; the branches of connecting for systems other than
  Linux; the parser of \<^verbatim>\<open>serde_json\<close>, a parameter everywhere;
  the re-exports and tests of \<^verbatim>\<open>target.rs\<close> and \<^verbatim>\<open>lib.rs\<close>; the redacting \<^verbatim>\<open>Debug\<close> implementations. What is
  left of the crate has no logic of its own.
\<close>

end
